(* ===== verification/Prelude.thy ===== *)
theory Prelude
  imports Complex_Main "HOL-Library.AList"
begin

text \<open>
  What every component shares: the Python values that travel in untyped dictionaries, the
  conversions the sources apply to them (truthiness, \<open>or\<close>, \<open>float\<close>, \<open>int\<close>, \<open>str\<close>,
  \<open>round\<close>), dictionaries in insertion order, computations that may raise, and two generic
  interfaces: a keyed store and a machine with an invariant.

  Conventions. A \<open>float\<close> is a \<open>real\<close>: arithmetic is exact, and infinities and NaN do not
  occur. A \<open>datetime\<close> is the number of microseconds since the epoch. A dictionary is an
  association list in insertion order (\<open>map_of\<close> reads it, \<open>AList.update\<close> assigns a key in
  place or at the end, \<open>AList.delete\<close> pops it). A computation over a state is a function
  that returns either an exception or a value, and in both cases the state reached, since a
  Python exception does not undo the assignments made before it.
\<close>

named_theorems io_simps \<comment> \<open>unfolding of the computations that may raise\<close>
named_theorems py_simps \<comment> \<open>evaluation of the conversions on constructors\<close>

subsection \<open>Values\<close>

type_synonym datetime = int

datatype exn =
    ValueError string
  | TypeError string
  | AttributeError string
  | AssertionError
  | KeyError string
  | RuntimeError string
  | HTTPException nat string
  | PostgresConnectionError
  | TooManyConnectionsError
  | OtherException string

text \<open>
  \<open>PIso t\<close> is the text \<open>t.isoformat()\<close>, and \<open>PStrOf v\<close> is the text \<open>str(v)\<close> of a value that
  is not a string, an integer, a boolean or None, and \<open>PJson v\<close> is the text \<open>json.dumps(v)\<close>: they
  are non-empty strings whose characters the sources never look at.
\<close>

datatype pyval =
    PNone
  | PBool bool
  | PInt int
  | PFloat real
  | PStr string
  | PIso datetime
  | PStrOf pyval
  | PJson pyval
  | PDatetime datetime
  | PList "pyval list"
  | PDict "(string \<times> pyval) list"

type_synonym pydict = "(string \<times> pyval) list"

fun truthy :: "pyval \<Rightarrow> bool" where
  "truthy PNone = False"
| "truthy (PBool b) = b"
| "truthy (PInt i) = (i \<noteq> 0)"
| "truthy (PFloat r) = (r \<noteq> 0)"
| "truthy (PStr s) = (s \<noteq> [])"
| "truthy (PIso t) = True"
| "truthy (PStrOf v) = True"
| "truthy (PJson v) = True"
| "truthy (PDatetime t) = True"
| "truthy (PList xs) = (xs \<noteq> [])"
| "truthy (PDict d) = (d \<noteq> [])"

definition py_or :: "pyval \<Rightarrow> pyval \<Rightarrow> pyval" where
  "py_or a b = (if truthy a then a else b)"

fun is_str :: "pyval \<Rightarrow> bool" where
  "is_str (PStr s) = True"
| "is_str (PIso t) = True"
| "is_str (PStrOf v) = True"
| "is_str (PJson v) = True"
| "is_str _ = False"

definition dict_get :: "('k \<times> 'v) list \<Rightarrow> 'k \<Rightarrow> 'v \<Rightarrow> 'v" where
  "dict_get d k dflt = (case map_of d k of None \<Rightarrow> dflt | Some v \<Rightarrow> v)"

abbreviation pyget :: "pydict \<Rightarrow> string \<Rightarrow> pyval" where
  "pyget d k \<equiv> dict_get d k PNone"

subsection \<open>Text to numbers\<close>

definition code_of :: "char \<Rightarrow> nat" where
  "code_of c = (of_char c :: nat)"

definition is_digit :: "char \<Rightarrow> bool" where
  "is_digit c = (48 \<le> code_of c \<and> code_of c \<le> 57)"

definition is_space :: "char \<Rightarrow> bool" where
  "is_space c = ((9 \<le> code_of c \<and> code_of c \<le> 13) \<or> (28 \<le> code_of c \<and> code_of c \<le> 32))"

definition nat_of_digits :: "string \<Rightarrow> nat" where
  "nat_of_digits = foldl (\<lambda>a c. 10 * a + (code_of c - 48)) 0"

definition py_strip :: "string \<Rightarrow> string" where
  "py_strip s = rev (dropWhile is_space (rev (dropWhile is_space s)))"

definition split_sign :: "string \<Rightarrow> int \<times> string" where
  "split_sign s = (case s of [] \<Rightarrow> (1, [])
     | c # r \<Rightarrow> if c = CHR ''-'' then (-1, r) else if c = CHR ''+'' then (1, r) else (1, s))"

text \<open>An underscore may stand between two digits.\<close>

fun ungroup :: "string \<Rightarrow> string" where
  "ungroup (a # b # c # r) = (if is_digit a \<and> b = CHR ''_'' \<and> is_digit c then a # ungroup (c # r) else a # ungroup (b # c # r))"
| "ungroup s = s"

definition parse_int :: "string \<Rightarrow> int option" where
  "parse_int s = (let (sg, r) = split_sign (ungroup (py_strip s)) in
     if r \<noteq> [] \<and> list_all is_digit r then Some (sg * int (nat_of_digits r)) else None)"

definition parse_exponent :: "string \<Rightarrow> int option" where
  "parse_exponent s = (case s of [] \<Rightarrow> Some 0
     | c # r \<Rightarrow> if c = CHR ''e'' \<or> c = CHR ''E''
         then (let (sg, ds) = split_sign r in
           if ds \<noteq> [] \<and> list_all is_digit ds then Some (sg * int (nat_of_digits ds)) else None)
         else None)"

definition scale10 :: "real \<Rightarrow> int \<Rightarrow> real" where
  "scale10 x e = (if 0 \<le> e then x * 10 ^ nat e else x / 10 ^ nat (- e))"

text \<open>
  Decimal literals with an optional sign, fraction and exponent, as \<open>float(str)\<close> reads them. Numbers are
  reals: the texts \<^verbatim>\<open>inf\<close>, \<^verbatim>\<open>infinity\<close> and \<^verbatim>\<open>nan\<close>, which
  \<open>float\<close> reads as values that no real stands for, are outside the model and rejected here, and
  nothing is rounded.
\<close>

definition parse_float :: "string \<Rightarrow> real option" where
  "parse_float s =
     (let (sg, r) = split_sign (ungroup (py_strip s));
          ip = takeWhile is_digit r;
          r1 = dropWhile is_digit r;
          (fp, r2) = (case r1 of [] \<Rightarrow> ([], [])
            | c # r' \<Rightarrow> if c = CHR ''.'' then (takeWhile is_digit r', dropWhile is_digit r')
                       else ([], r1))
      in if ip @ fp = [] then None
         else (case parse_exponent r2 of None \<Rightarrow> None
           | Some e \<Rightarrow> Some (of_int sg * scale10 (real (nat_of_digits (ip @ fp))) (e - int (length fp)))))"

subsection \<open>Conversions\<close>

fun py_float :: "pyval \<Rightarrow> exn + real" where
  "py_float (PFloat r) = Inr r"
| "py_float (PInt i) = Inr (of_int i)"
| "py_float (PBool b) = Inr (if b then 1 else 0)"
| "py_float (PStr s) = (case parse_float s of Some r \<Rightarrow> Inr r
     | None \<Rightarrow> Inl (ValueError ''could not convert string to float''))"
| "py_float (PIso t) = Inl (ValueError ''could not convert string to float'')"
| "py_float (PStrOf (PFloat r)) = Inr r"
| "py_float (PStrOf v) = Inl (ValueError ''could not convert string to float'')"
| "py_float (PJson v) = Inl (ValueError ''could not convert string to float'')"
| "py_float _ = Inl (TypeError ''float() argument must be a string or a real number'')"

definition truncate_real :: "real \<Rightarrow> int" where
  "truncate_real r = (if 0 \<le> r then \<lfloor>r\<rfloor> else \<lceil>r\<rceil>)"

fun py_int :: "pyval \<Rightarrow> exn + int" where
  "py_int (PInt i) = Inr i"
| "py_int (PFloat r) = Inr (truncate_real r)"
| "py_int (PBool b) = Inr (if b then 1 else 0)"
| "py_int (PStr s) = (case parse_int s of Some i \<Rightarrow> Inr i
     | None \<Rightarrow> Inl (ValueError ''invalid literal for int()''))"
| "py_int (PIso t) = Inl (ValueError ''invalid literal for int()'')"
| "py_int (PStrOf v) = Inl (ValueError ''invalid literal for int()'')"
| "py_int (PJson v) = Inl (ValueError ''invalid literal for int()'')"
| "py_int _ = Inl (TypeError ''int() argument must be a string or a real number'')"

fun show_nat_aux :: "nat \<Rightarrow> string \<Rightarrow> string" where
  "show_nat_aux n acc =
     (let acc' = char_of (48 + n mod 10) # acc
      in if n < 10 then acc' else show_nat_aux (n div 10) acc')"

declare show_nat_aux.simps [simp del]

definition show_int :: "int \<Rightarrow> string" where
  "show_int i = (if i < 0 then CHR ''-'' # show_nat_aux (nat (- i)) [] else show_nat_aux (nat i) [])"

fun py_str :: "pyval \<Rightarrow> pyval" where
  "py_str (PStr s) = PStr s"
| "py_str (PIso t) = PIso t"
| "py_str (PStrOf v) = PStrOf v"
| "py_str (PJson v) = PJson v"
| "py_str PNone = PStr ''None''"
| "py_str (PBool b) = PStr (if b then ''True'' else ''False'')"
| "py_str (PInt i) = PStr (show_int i)"
| "py_str v = PStrOf v"

text \<open>\<open>json.dumps\<close> refuses a value with a \<open>datetime\<close> inside.\<close>

fun json_ok :: "pyval \<Rightarrow> bool" where
  "json_ok (PDatetime t) = False"
| "json_ok (PList xs) = list_all json_ok xs"
| "json_ok (PDict d) = list_all (\<lambda>kv. json_ok (snd kv)) d"
| "json_ok v = True"

definition json_dumps :: "pyval \<Rightarrow> exn + pyval" where
  "json_dumps v = (if json_ok v then Inr (PJson v) else Inl (TypeError ''Object of type datetime is not JSON serializable''))"

definition upper_char :: "char \<Rightarrow> char" where
  "upper_char c = (if 97 \<le> code_of c \<and> code_of c \<le> 122 then char_of (code_of c - 32) else c)"

definition upper_str :: "string \<Rightarrow> string" where
  "upper_str = map upper_char"

text \<open>\<open>sep.join(xs)\<close>\<close>

definition join :: "string \<Rightarrow> string list \<Rightarrow> string" where
  "join sep xs = (case xs of [] \<Rightarrow> [] | y # ys \<Rightarrow> y @ concat (map (\<lambda>z. sep @ z) ys))"

definition lower_char :: "char \<Rightarrow> char" where
  "lower_char c = (if 65 \<le> code_of c \<and> code_of c \<le> 90 then char_of (code_of c + 32) else c)"

definition lower_str :: "string \<Rightarrow> string" where
  "lower_str = map lower_char"

fun py_upper :: "pyval \<Rightarrow> pyval" where
  "py_upper (PStr s) = PStr (upper_str s)"
| "py_upper v = v"

text \<open>\<open>datetime.fromisoformat\<close>: the text must be one that \<open>isoformat\<close> gives.\<close>

fun fromisoformat :: "pyval \<Rightarrow> exn + datetime" where
  "fromisoformat (PIso t) = Inr t"
| "fromisoformat (PStr s) = Inl (ValueError ''Invalid isoformat string'')"
| "fromisoformat (PStrOf v) = Inl (ValueError ''Invalid isoformat string'')"
| "fromisoformat (PJson v) = Inl (ValueError ''Invalid isoformat string'')"
| "fromisoformat _ = Inl (TypeError ''fromisoformat: argument must be str'')"

definition key :: "pydict \<Rightarrow> string \<Rightarrow> exn + pyval" where
  "key d k = (case map_of d k of None \<Rightarrow> Inl (KeyError k) | Some v \<Rightarrow> Inr v)"

definition sum_bind :: "exn + 'a \<Rightarrow> ('a \<Rightarrow> exn + 'b) \<Rightarrow> exn + 'b" where
  "sum_bind r f = (case r of Inl e \<Rightarrow> Inl e | Inr a \<Rightarrow> f a)"

fun sum_list_results :: "(exn + 'a) list \<Rightarrow> exn + 'a list" where
  "sum_list_results [] = Inr []"
| "sum_list_results (x # xs) = (case x of Inl e \<Rightarrow> Inl e | Inr v \<Rightarrow>
     (case sum_list_results xs of Inl e \<Rightarrow> Inl e | Inr vs \<Rightarrow> Inr (v # vs)))"

text \<open>Python's \<open>round\<close> to an integer: to the nearest one, ties to the even one.\<close>

definition py_round :: "real \<Rightarrow> int" where
  "py_round x = (let f = \<lfloor>x\<rfloor>; d = x - of_int f in
     if d < 1/2 then f else if 1/2 < d then f + 1 else if even f then f else f + 1)"

lemma py_round_error: "\<bar>x - of_int (py_round x)\<bar> \<le> 1/2"
proof -
  have "of_int \<lfloor>x\<rfloor> \<le> x" and "x < of_int \<lfloor>x\<rfloor> + 1"
    by linarith+
  then show ?thesis
    unfolding py_round_def Let_def by (simp split: if_split)
qed

lemma py_round_of_int [simp]: "py_round (of_int n) = n"
  by (simp add: py_round_def)

lemma py_or_simps [simp]:
  "truthy a \<Longrightarrow> py_or a b = a"
  "\<not> truthy a \<Longrightarrow> py_or a b = b"
  by (simp_all add: py_or_def)

lemma dict_get_update [simp]:
  "dict_get (AList.update k v d) k' dflt = (if k' = k then v else dict_get d k' dflt)"
  by (simp add: dict_get_def update_conv')

lemma dict_get_delete [simp]:
  "dict_get (AList.delete k d) k' dflt = (if k' = k then dflt else dict_get d k' dflt)"
  by (simp add: dict_get_def delete_conv')

lemma dict_get_Nil [simp]: "dict_get [] k dflt = dflt"
  by (simp add: dict_get_def)

lemma dict_get_Cons [simp]:
  "dict_get ((k', v) # d) k dflt = (if k = k' then v else dict_get d k dflt)"
  by (simp add: dict_get_def)

lemma map_of_update_apply [simp]:
  "map_of (AList.update k v d) k' = (if k' = k then Some v else map_of d k')"
  by (simp add: update_conv')

lemma map_of_delete_apply [simp]:
  "map_of (AList.delete k d) k' = (if k' = k then None else map_of d k')"
  by (simp add: delete_conv')

lemma update_fresh: "k \<notin> fst ` set d \<Longrightarrow> AList.update k v d = d @ [(k, v)]"
  by (induction d) auto

lemma list_all_update: "list_all P d \<Longrightarrow> P (k, v) \<Longrightarrow> list_all P (AList.update k v d)"
  by (induction d) auto

lemma list_all_delete: "list_all P d \<Longrightarrow> list_all P (AList.delete k d)"
  by (auto simp: list_all_iff AList.delete_eq)

subsection \<open>Computations that may raise\<close>

type_synonym ('s, 'a) io = "'s \<Rightarrow> (exn + 'a) \<times> 's"

definition io_return :: "'a \<Rightarrow> ('s, 'a) io" where
  "io_return a s = (Inr a, s)"

definition io_raise :: "exn \<Rightarrow> ('s, 'a) io" where
  "io_raise e s = (Inl e, s)"

definition io_lift :: "exn + 'a \<Rightarrow> ('s, 'a) io" where
  "io_lift r s = (r, s)"

definition io_bind :: "('s, 'a) io \<Rightarrow> ('a \<Rightarrow> ('s, 'b) io) \<Rightarrow> ('s, 'b) io" where
  "io_bind m f s = (case m s of (Inl e, s') \<Rightarrow> (Inl e, s') | (Inr a, s') \<Rightarrow> f a s')"

definition io_try :: "('s, 'a) io \<Rightarrow> ('s, exn + 'a) io" where
  "io_try m s = (case m s of (r, s') \<Rightarrow> (Inr r, s'))"

definition io_get :: "('s \<Rightarrow> 'a) \<Rightarrow> ('s, 'a) io" where
  "io_get g s = (Inr (g s), s)"

definition io_modify :: "('s \<Rightarrow> 's) \<Rightarrow> ('s, unit) io" where
  "io_modify g s = (Inr (), g s)"

definition io_when :: "bool \<Rightarrow> ('s, unit) io \<Rightarrow> ('s, unit) io" where
  "io_when b m = (if b then m else io_return ())"

primrec io_each :: "('a \<Rightarrow> ('s, unit) io) \<Rightarrow> 'a list \<Rightarrow> ('s, unit) io" where
  "io_each f [] = io_return ()"
| "io_each f (x # xs) = io_bind (f x) (\<lambda>_. io_each f xs)"

primrec io_map :: "('a \<Rightarrow> ('s, 'b) io) \<Rightarrow> 'a list \<Rightarrow> ('s, 'b list) io" where
  "io_map f [] = io_return []"
| "io_map f (x # xs) = io_bind (f x) (\<lambda>y. io_bind (io_map f xs) (\<lambda>ys. io_return (y # ys)))"

text \<open>A method of a component object whose state is one part of the state of the whole.\<close>

definition io_zoom :: "('s \<Rightarrow> 't) \<Rightarrow> ('t \<Rightarrow> 's \<Rightarrow> 's) \<Rightarrow> ('t, 'a) io \<Rightarrow> ('s, 'a) io" where
  "io_zoom g p m s = (case m (g s) of (r, t) \<Rightarrow> (r, p t s))"

declare io_return_def [io_simps] io_raise_def [io_simps] io_lift_def [io_simps]
  io_bind_def [io_simps] io_try_def [io_simps] io_when_def [io_simps]
  io_get_def [io_simps] io_modify_def [io_simps]

lemma io_bind_return [simp]: "io_bind (io_return a) f = f a"
  by (rule ext) (simp add: io_simps)

lemma io_bind_raise [simp]: "io_bind (io_raise e) f = io_raise e"
  by (rule ext) (simp add: io_simps)

lemma io_lift_simps: "io_lift (Inl e) = io_raise e" "io_lift (Inr a) = io_return a"
  by (simp_all add: fun_eq_iff io_simps)

lemma io_bind_assoc: "io_bind (io_bind m f) g = io_bind m (\<lambda>a. io_bind (f a) g)"
  by (rule ext) (simp add: io_bind_def split: prod.splits sum.splits)

lemma io_bind_Inr [simp]: "m s = (Inr a, s') \<Longrightarrow> io_bind m f s = f a s'"
  by (simp add: io_bind_def)

lemma io_bind_Inl [simp]: "m s = (Inl e, s') \<Longrightarrow> io_bind m f s = (Inl e, s')"
  by (simp add: io_bind_def)

lemma io_bind_result:
  "io_bind m f s = (Inr b, s'') \<longleftrightarrow> (\<exists>a s'. m s = (Inr a, s') \<and> f a s' = (Inr b, s''))"
  by (auto simp: io_bind_def split: prod.splits sum.splits)

lemma io_bindE:
  assumes "io_bind m f s = (Inr b, s'')"
  obtains a s' where "m s = (Inr a, s')" and "f a s' = (Inr b, s'')"
  using assms by (auto simp: io_bind_result)

lemma io_results [simp]:
  "io_return a s = (Inr b, s') \<longleftrightarrow> b = a \<and> s' = s"
  "io_raise e s \<noteq> (Inr b, s')"
  "io_lift r s = (Inr b, s') \<longleftrightarrow> r = Inr b \<and> s' = s"
  "io_get g s = (Inr c, s') \<longleftrightarrow> c = g s \<and> s' = s"
  by (auto simp: io_simps)

text \<open>A property of the state that every step of a loop keeps is kept by the loop.\<close>

lemma io_each_inv:
  assumes "\<And>x s. x \<in> set xs \<Longrightarrow> P s \<Longrightarrow> P (snd (f x s))" and "P s"
  shows "P (snd (io_each f xs s))"
  using assms
proof (induction xs arbitrary: s)
  case Nil
  then show ?case by (simp add: io_simps)
next
  case (Cons x xs)
  have "P (snd (f x s))" using Cons.prems by simp
  then show ?case
    using Cons.IH [of "snd (f x s)"] Cons.prems(1)
    by (cases "f x s") (auto simp: io_bind_def split: sum.splits)
qed

lemma io_bind_inv:
  assumes "P (snd (m s))" and "\<And>a s'. m s = (Inr a, s') \<Longrightarrow> P (snd (f a s'))"
  shows "P (snd (io_bind m f s))"
  using assms by (auto simp: io_bind_def split: prod.splits sum.splits)

subsection \<open>What a computation leaves alone\<close>

text \<open>
  \<open>io_keeps f m\<close>: running \<open>m\<close>, whether it raises or not, does not change the part \<open>f\<close> of the
  state. The rules of the collection \<open>keeps\<close> follow the structure of the computation.
\<close>

definition io_keeps :: "('s \<Rightarrow> 'x) \<Rightarrow> ('s, 'a) io \<Rightarrow> bool" where
  "io_keeps f m = (\<forall>s. f (snd (m s)) = f s)"

named_theorems keeps \<comment> \<open>introduction rules for \<open>io_keeps\<close>\<close>

lemma io_keepsD: "io_keeps f m \<Longrightarrow> f (snd (m s)) = f s"
  by (simp add: io_keeps_def)

lemma io_keeps_basic [keeps]:
  "io_keeps f (io_return a)" "io_keeps f (io_raise e)" "io_keeps f (io_lift r)"
  "io_keeps f (io_get g)"
  by (simp_all add: io_keeps_def io_simps)

lemma io_keeps_bind [keeps]:
  "io_keeps f m \<Longrightarrow> (\<And>a. io_keeps f (g a)) \<Longrightarrow> io_keeps f (io_bind m g)"
  unfolding io_keeps_def io_bind_def
  by (auto split: prod.splits sum.splits) (metis snd_conv)+

lemma io_keeps_if [keeps]:
  "(b \<Longrightarrow> io_keeps f m) \<Longrightarrow> (\<not> b \<Longrightarrow> io_keeps f n) \<Longrightarrow> io_keeps f (if b then m else n)"
  by simp

lemma io_keeps_when [keeps]: "(b \<Longrightarrow> io_keeps f m) \<Longrightarrow> io_keeps f (io_when b m)"
  by (simp add: io_when_def io_keeps_basic)

lemma io_keeps_try [keeps]: "io_keeps f m \<Longrightarrow> io_keeps f (io_try m)"
  by (simp add: io_keeps_def io_try_def split: prod.splits) (metis snd_conv)

lemma io_keeps_each [keeps]: "(\<And>x. io_keeps f (g x)) \<Longrightarrow> io_keeps f (io_each g xs)"
  by (induction xs) (auto intro: keeps)

lemma io_keeps_map [keeps]: "(\<And>x. io_keeps f (g x)) \<Longrightarrow> io_keeps f (io_map g xs)"
  by (induction xs) (auto intro!: keeps)

lemma io_keeps_modify: "(\<And>s. f (g s) = f s) \<Longrightarrow> io_keeps f (io_modify g)"
  by (simp add: io_keeps_def io_simps)

text \<open>\<open>io_preserves P m\<close>: a state with \<open>P\<close> is left with \<open>P\<close>, whether \<open>m\<close> raises or not.\<close>

definition io_preserves :: "('s \<Rightarrow> bool) \<Rightarrow> ('s, 'a) io \<Rightarrow> bool" where
  "io_preserves P m = (\<forall>s. P s \<longrightarrow> P (snd (m s)))"

named_theorems preserves \<comment> \<open>introduction rules for \<open>io_preserves\<close>\<close>

lemma io_preservesD: "io_preserves P m \<Longrightarrow> P s \<Longrightarrow> P (snd (m s))"
  by (simp add: io_preserves_def)

lemma io_preserves_basic [preserves]:
  "io_preserves P (io_return a)" "io_preserves P (io_raise e)" "io_preserves P (io_lift r)"
  "io_preserves P (io_get g)"
  by (simp_all add: io_preserves_def io_simps)

lemma io_preserves_bind [preserves]:
  "io_preserves P m \<Longrightarrow> (\<And>a. io_preserves P (g a)) \<Longrightarrow> io_preserves P (io_bind m g)"
  unfolding io_preserves_def
  by (intro allI impI, rule io_bind_inv) (blast, metis snd_conv)

lemma io_preserves_if [preserves]:
  "(b \<Longrightarrow> io_preserves P m) \<Longrightarrow> (\<not> b \<Longrightarrow> io_preserves P n) \<Longrightarrow> io_preserves P (if b then m else n)"
  by simp

lemma io_preserves_when [preserves]: "(b \<Longrightarrow> io_preserves P m) \<Longrightarrow> io_preserves P (io_when b m)"
  by (simp add: io_when_def io_preserves_basic)

subsection \<open>Interface: a keyed store\<close>

locale keyed_store =
  fixes lookup :: "'s \<Rightarrow> 'k \<Rightarrow> 'v option"
    and store :: "'k \<Rightarrow> 'v \<Rightarrow> 's \<Rightarrow> 's"
    and remove :: "'k \<Rightarrow> 's \<Rightarrow> 's"
  assumes lookup_store: "lookup (store k v s) k' = (if k' = k then Some v else lookup s k')"
    and lookup_remove: "lookup (remove k s) k' = (if k' = k then None else lookup s k')"
begin

lemma lookup_store_all:
  "lookup (fold (\<lambda>(k, v). store k v) kvs s) k' =
     (case map_of (rev kvs) k' of None \<Rightarrow> lookup s k' | Some v \<Rightarrow> Some v)"
  by (induction kvs arbitrary: s)
     (auto simp: lookup_store map_add_def split: option.splits)

lemma lookup_store_fresh:
  "k' \<notin> fst ` set kvs \<Longrightarrow> lookup (fold (\<lambda>(k, v). store k v) kvs s) k' = lookup s k'"
  by (induction kvs arbitrary: s) (auto simp: lookup_store)

lemma store_twice: "lookup (store k v (store k w s)) k' = lookup (store k v s) k'"
  by (simp add: lookup_store)

lemma remove_after_store:
  "lookup s k = None \<Longrightarrow> lookup (remove k (store k v s)) k' = lookup s k'"
  by (simp add: lookup_store lookup_remove)

end

interpretation dict: keyed_store map_of AList.update AList.delete
  by unfold_locales simp_all

subsection \<open>Interface: a machine with an invariant\<close>

text \<open>
  A component is driven by a sequence of operations; \<open>allowed\<close> restricts which operations the
  sequence may contain, and \<open>inv\<close> is what every allowed operation keeps.
\<close>

locale invariant_machine =
  fixes step :: "'s \<Rightarrow> 'op \<Rightarrow> 's"
    and allowed :: "'op \<Rightarrow> bool"
    and inv :: "'s \<Rightarrow> bool"
  assumes step_inv: "inv s \<Longrightarrow> allowed x \<Longrightarrow> inv (step s x)"
begin

lemma run_inv: "inv s \<Longrightarrow> list_all allowed xs \<Longrightarrow> inv (foldl step s xs)"
  by (induction xs arbitrary: s) (auto simp: step_inv)

end

subsection \<open>Interface: refinement of a specification\<close>

text \<open>
  A machine with an invariant that implements an abstract one: \<open>abs\<close> reads the abstract state, and every
  operation is a step that the specification allows. A run of operations is then a run of the specification.
\<close>

inductive spec_run :: "('a \<Rightarrow> 'op \<Rightarrow> 'a \<Rightarrow> bool) \<Rightarrow> 'a \<Rightarrow> 'op list \<Rightarrow> 'a \<Rightarrow> bool" for spec where
  Nil: "spec_run spec a [] a"
| Cons: "spec a x b \<Longrightarrow> spec_run spec b xs c \<Longrightarrow> spec_run spec a (x # xs) c"

inductive_simps spec_run_simps [simp]: "spec_run spec a [] c" "spec_run spec a (x # xs) c"

locale simulation = invariant_machine step allowed inv
  for step :: "'s \<Rightarrow> 'op \<Rightarrow> 's" and allowed :: "'op \<Rightarrow> bool" and inv :: "'s \<Rightarrow> bool" +
  fixes abs :: "'s \<Rightarrow> 'a" and spec :: "'a \<Rightarrow> 'op \<Rightarrow> 'a \<Rightarrow> bool"
  assumes step_spec: "inv s \<Longrightarrow> allowed x \<Longrightarrow> spec (abs s) x (abs (step s x))"
begin

lemma run_spec: "inv s \<Longrightarrow> list_all allowed xs \<Longrightarrow> spec_run spec (abs s) xs (abs (foldl step s xs))"
  by (induction xs arbitrary: s) (auto simp: step_inv intro: step_spec)

end

text \<open>What every step of the specification keeps, its runs keep.\<close>

lemma spec_run_inv:
  assumes "spec_run spec a xs b" and "\<And>a x b. spec a x b \<Longrightarrow> P a \<Longrightarrow> P b" and "P a"
  shows "P b"
  using assms by (induction rule: spec_run.induct) blast+

subsection \<open>Interface: bounded attempts\<close>

text \<open>
  The state before attempt \<open>k\<close> when an attempt maps the state to a result and a state, and \<open>between\<close> is done
  before the next attempt.
\<close>

primrec attempt_state :: "('s \<Rightarrow> 'r \<times> 's) \<Rightarrow> ('s \<Rightarrow> 's) \<Rightarrow> nat \<Rightarrow> 's \<Rightarrow> 's" where
  "attempt_state attempt between 0 s = s"
| "attempt_state attempt between (Suc k) s = attempt_state attempt between k (between (snd (attempt s)))"

lemma attempt_state_later:
  "attempt_state attempt between (Suc k) s = between (snd (attempt (attempt_state attempt between k s)))"
  by (induction k arbitrary: s) simp_all

text \<open>
  A loop that is allowed a number of attempts: it goes on while an attempt asks for another and one is left.
  The services retry database calls, job runs, notifications and the kill switch in this way.
\<close>

locale bounded_attempts =
  fixes attempt :: "'s \<Rightarrow> 'r \<times> 's"
    and again :: "'r \<Rightarrow> bool"
    and between :: "'s \<Rightarrow> 's"
    and finish :: "'r \<Rightarrow> 's \<Rightarrow> 'o"
    and loop :: "nat \<Rightarrow> 's \<Rightarrow> 'o"
  assumes loop_Suc: "loop (Suc n) s = (case attempt s of (r, s') \<Rightarrow>
     if again r \<and> 0 < n then loop n (between s') else finish r s')"
begin

lemma outcome:
  "\<exists>k\<le>n. loop (Suc n) s = (case attempt (attempt_state attempt between k s) of (r, s') \<Rightarrow> finish r s') \<and>
     (\<forall>j<k. again (fst (attempt (attempt_state attempt between j s)))) \<and>
     (again (fst (attempt (attempt_state attempt between k s))) \<longrightarrow> k = n)"
proof (induction n arbitrary: s)
  case 0
  show ?case by (simp add: loop_Suc split: prod.split)
next
  case (Suc n)
  obtain r s' where a: "attempt s = (r, s')" by fastforce
  show ?case
  proof (cases "again r")
    case False
    then show ?thesis using a by (intro exI [of _ 0]) (simp add: loop_Suc)
  next
    case True
    obtain k where k: "k \<le> n" "loop (Suc n) (between s') = (case attempt (attempt_state attempt between k (between s')) of (r, s') \<Rightarrow> finish r s')"
      "\<forall>j<k. again (fst (attempt (attempt_state attempt between j (between s'))))"
      "again (fst (attempt (attempt_state attempt between k (between s')))) \<longrightarrow> k = n"
      using Suc.IH [of "between s'"] by blast
    have "loop (Suc (Suc n)) s = loop (Suc n) (between s')" using a True loop_Suc [of "Suc n" s] by simp
    then show ?thesis
      using a True k by (intro exI [of _ "Suc k"]) (auto simp: less_Suc_eq_0_disj)
  qed
qed

end

end
