(* ===== verification/Risk_Engine.thy ===== *)
theory Risk_Engine
  imports Prelude
begin

text \<open>
  The risk engine (\<^verbatim>\<open>trading_service/src/risk/engine.py\<close>): its rules, the check made
  before every trade, the position monitor and the kill switch. The engine's own fields are
  the record \<open>risk_engine\<close>; the objects it is wired to (repository, connector, execution
  engine, notifier, broadcaster, scheduler controller) are optional, as in the constructor,
  and are functions over the rest of the state \<open>'s\<close>. Clock readings are arguments.
\<close>

subsection \<open>Data\<close>

datatype risk_rule_type =
    MAX_POSITION_SIZE | MAX_DRAWDOWN | MAX_DAILY_LOSS | MAX_LEVERAGE | MIN_TIME_BETWEEN_TRADES
  | CORRELATION_LIMIT | MAX_SYMBOL_CONCENTRATION | MAX_OPEN_POSITIONS | MAX_ORDER_COUNT
  | MAX_EXPOSURE | STOP_LOSS_REQUIRED | TAKE_PROFIT_REQUIRED | MAX_SPREAD | MAX_SLIPPAGE
  | TRADING_HOURS_ONLY

fun rule_type_value :: "risk_rule_type \<Rightarrow> string" where
  "rule_type_value MAX_POSITION_SIZE = ''MAX_POSITION_SIZE''"
| "rule_type_value MAX_DRAWDOWN = ''MAX_DRAWDOWN''"
| "rule_type_value MAX_DAILY_LOSS = ''MAX_DAILY_LOSS''"
| "rule_type_value MAX_LEVERAGE = ''MAX_LEVERAGE''"
| "rule_type_value MIN_TIME_BETWEEN_TRADES = ''MIN_TIME_BETWEEN_TRADES''"
| "rule_type_value CORRELATION_LIMIT = ''CORRELATION_LIMIT''"
| "rule_type_value MAX_SYMBOL_CONCENTRATION = ''MAX_SYMBOL_CONCENTRATION''"
| "rule_type_value MAX_OPEN_POSITIONS = ''MAX_OPEN_POSITIONS''"
| "rule_type_value MAX_ORDER_COUNT = ''MAX_ORDER_COUNT''"
| "rule_type_value MAX_EXPOSURE = ''MAX_EXPOSURE''"
| "rule_type_value STOP_LOSS_REQUIRED = ''STOP_LOSS_REQUIRED''"
| "rule_type_value TAKE_PROFIT_REQUIRED = ''TAKE_PROFIT_REQUIRED''"
| "rule_type_value MAX_SPREAD = ''MAX_SPREAD''"
| "rule_type_value MAX_SLIPPAGE = ''MAX_SLIPPAGE''"
| "rule_type_value TRADING_HOURS_ONLY = ''TRADING_HOURS_ONLY''"

record risk_rule =
  rr_type :: risk_rule_type
  rr_parameters :: pydict
  rr_severity :: string
  rr_enabled :: bool
  rr_error_message :: string

record trade_approval =
  approved :: bool
  reason :: "string option"
  rule_violated :: "risk_rule_type option"
  warning :: "string option"

text \<open>\<open>RiskRule(t, p, error_message=m)\<close>: hard and enabled by default.\<close>

definition mk_rule :: "risk_rule_type \<Rightarrow> pydict \<Rightarrow> string \<Rightarrow> risk_rule" where
  "mk_rule t p m = \<lparr>rr_type = t, rr_parameters = p, rr_severity = ''hard'', rr_enabled = True,
     rr_error_message = m\<rparr>"

record risk_engine =
  re_kill_switch :: bool
  re_daily_loss :: "(string \<times> real) list"
  re_rules :: "(risk_rule_type \<times> risk_rule) list"
  re_last_trade_ts :: "datetime option"

definition default_rules :: "(risk_rule_type \<times> risk_rule) list" where
  "default_rules =
     [(MAX_POSITION_SIZE, mk_rule MAX_POSITION_SIZE [(''max_percent'', PFloat (5/100))] ''Max position size exceeded''),
      (MAX_DRAWDOWN, mk_rule MAX_DRAWDOWN [(''max_drawdown'', PFloat (2/10))] ''Max drawdown exceeded''),
      (MAX_DAILY_LOSS, mk_rule MAX_DAILY_LOSS [(''max_daily_loss'', PFloat (1/10))] ''Max daily loss exceeded''),
      (MAX_LEVERAGE, mk_rule MAX_LEVERAGE [(''max_leverage'', PInt 50)] ''Max leverage exceeded''),
      (MIN_TIME_BETWEEN_TRADES, mk_rule MIN_TIME_BETWEEN_TRADES [(''seconds'', PInt 1)] ''Too many trades'')]"

definition risk_init :: risk_engine where
  "risk_init = \<lparr>re_kill_switch = False, re_daily_loss = [], re_rules = default_rules,
     re_last_trade_ts = None\<rparr>"

text \<open>
  The objects the constructor takes. A method that the object does not have is one that raises
  \<open>AttributeError\<close>. The notifier is given the loss that its message text is formatted from.
\<close>

record 's risk_deps =
  dep_save_risk_incident :: "(pydict \<Rightarrow> ('s, unit) io) option"
  dep_close_all_positions :: "('s, unit) io option"
  dep_cancel_all_orders :: "('s, unit) io option"
  dep_notify :: "(string \<Rightarrow> real \<Rightarrow> ('s, unit) io) option"
  dep_broadcast :: "(string \<Rightarrow> pydict \<Rightarrow> ('s, unit) io) option"
  dep_disable_all_strategies :: "('s, unit) io option"

definition no_deps :: "'s risk_deps" where
  "no_deps = \<lparr>dep_save_risk_incident = None, dep_close_all_positions = None,
     dep_cancel_all_orders = None, dep_notify = None, dep_broadcast = None,
     dep_disable_all_strategies = None\<rparr>"

type_synonym 's risk_state = "risk_engine \<times> 's"

text \<open>A call to an optional collaborator: nothing happens when it is absent.\<close>

definition call_dep :: "('s, unit) io option \<Rightarrow> ('s risk_state, unit) io" where
  "call_dep f = (case f of None \<Rightarrow> io_return () | Some m \<Rightarrow> io_zoom snd (\<lambda>t (r, _). (r, t)) m)"

subsection \<open>Operations\<close>

definition add_rule :: "risk_rule \<Rightarrow> risk_engine \<Rightarrow> risk_engine" where
  "add_rule r e = e\<lparr>re_rules := AList.update (rr_type r) r (re_rules e)\<rparr>"

definition remove_rule :: "risk_rule_type \<Rightarrow> risk_engine \<Rightarrow> risk_engine" where
  "remove_rule t e = e\<lparr>re_rules := AList.delete t (re_rules e)\<rparr>"

definition persist_incident :: "'s risk_deps \<Rightarrow> pydict \<Rightarrow> ('s risk_state, unit) io" where
  "persist_incident dp incident = call_dep (map_option (\<lambda>f. f incident) (dep_save_risk_incident dp))"

text \<open>\<open>float(account_info.get(k, 0) or 0)\<close>\<close>

definition account_float :: "pydict \<Rightarrow> string \<Rightarrow> exn + real" where
  "account_float a k = py_float (py_or (dict_get a k (PInt 0)) (PInt 0))"

text \<open>The body of the loop over the rules up to \<open>if violated\<close>: the verdict and the values seen.\<close>

definition rule_check :: "risk_rule \<Rightarrow> pydict \<Rightarrow> datetime option \<Rightarrow> datetime \<Rightarrow> exn + (bool \<times> pydict)" where
  "rule_check rule acct last_ts now =
     (if rr_type rule = MAX_DRAWDOWN then
        (case account_float acct ''balance'' of Inl e \<Rightarrow> Inl e | Inr bal \<Rightarrow>
        (case account_float acct ''equity'' of Inl e \<Rightarrow> Inl e | Inr eq \<Rightarrow>
         (let dd = (if bal > 0 then (bal - eq) / bal else 0) in
         (case py_float (dict_get (rr_parameters rule) ''max_drawdown'' (PFloat (2/10))) of
            Inl e \<Rightarrow> Inl e | Inr bound \<Rightarrow> Inr (dd > bound, [(''drawdown'', PFloat dd)])))))
      else if rr_type rule = MAX_DAILY_LOSS then
        (case account_float acct ''balance'' of Inl e \<Rightarrow> Inl e | Inr bal \<Rightarrow>
        (case account_float acct ''profit'' of Inl e \<Rightarrow> Inl e | Inr pnl \<Rightarrow>
         (let daily = (if bal > 0 then \<bar>min pnl 0\<bar> / bal else 0) in
         (case py_float (dict_get (rr_parameters rule) ''max_daily_loss'' (PFloat (1/10))) of
            Inl e \<Rightarrow> Inl e | Inr bound \<Rightarrow> Inr (daily > bound, [(''daily_loss'', PFloat daily)])))))
      else if rr_type rule = MIN_TIME_BETWEEN_TRADES \<and> last_ts \<noteq> None then
        (let delta = of_int (now - the last_ts) / 1000000 in
         (case py_float (dict_get (rr_parameters rule) ''seconds'' (PInt 1)) of
            Inl e \<Rightarrow> Inl e | Inr bound \<Rightarrow> Inr (delta < bound, [(''seconds_since_last_trade'', PFloat delta)])))
      else Inr (False, []))"

definition rule_incident :: "risk_rule \<Rightarrow> pydict \<Rightarrow> pydict \<Rightarrow> datetime \<Rightarrow> pydict" where
  "rule_incident rule actual order stamp =
     [(''rule_type'', PStr (rule_type_value (rr_type rule))),
      (''parameters'', PDict (rr_parameters rule)),
      (''actual_values'', PDict actual),
      (''order_id'', pyget order ''id''),
      (''account_id'', py_str (dict_get order ''account_id'' (PStr ''unknown''))),
      (''action_taken'', PStr (if rr_severity rule = ''hard'' then ''reject'' else ''warning'')),
      (''created_at'', PIso stamp)]"

definition reject :: "risk_rule \<Rightarrow> trade_approval" where
  "reject rule = \<lparr>approved = False, reason = Some (rr_error_message rule),
     rule_violated = Some (rr_type rule), warning = None\<rparr>"

definition warn :: "risk_rule \<Rightarrow> trade_approval" where
  "warn rule = \<lparr>approved = True, reason = None, rule_violated = None,
     warning = Some (rr_error_message rule)\<rparr>"

definition approve :: trade_approval where
  "approve = \<lparr>approved = True, reason = None, rule_violated = None, warning = None\<rparr>"

definition killed :: trade_approval where
  "killed = \<lparr>approved = False, reason = Some ''Kill switch active'', rule_violated = None,
     warning = None\<rparr>"

text \<open>The loop over \<open>self.rules.values()\<close> and what follows it.\<close>

fun check_rules :: "'s risk_deps \<Rightarrow> pydict \<Rightarrow> pydict \<Rightarrow> datetime \<Rightarrow> datetime \<Rightarrow> risk_rule list
    \<Rightarrow> ('s risk_state, trade_approval) io" where
  "check_rules dp order acct now stamp [] (e, s) =
     (Inr approve, (e\<lparr>re_last_trade_ts := Some now\<rparr>, s))"
| "check_rules dp order acct now stamp (rule # rules) (e, s) =
     (if \<not> rr_enabled rule then check_rules dp order acct now stamp rules (e, s)
      else (case rule_check rule acct (re_last_trade_ts e) now of
          Inl x \<Rightarrow> (Inl x, (e, s))
        | Inr (violated, actual) \<Rightarrow>
            if violated then
              io_bind (persist_incident dp (rule_incident rule actual order stamp))
                (\<lambda>_. io_return (if rr_severity rule = ''hard'' then reject rule else warn rule)) (e, s)
            else check_rules dp order acct now stamp rules (e, s)))"

definition pre_trade_check :: "'s risk_deps \<Rightarrow> datetime \<Rightarrow> datetime \<Rightarrow> pydict \<Rightarrow> pydict \<Rightarrow> pydict list
    \<Rightarrow> ('s risk_state, trade_approval) io" where
  "pre_trade_check dp now stamp order acct positions = (\<lambda>(e, s).
     if re_kill_switch e then (Inr killed, (e, s))
     else check_rules dp order acct now stamp (map snd (re_rules e)) (e, s))"

text \<open>
  One round of \<open>monitor_positions\<close> (the body of its endless loop, up to the sleep).
  \<open>float(p.get("price_current", p.get("entry_price", 0)) or 0)\<close> is \<open>position_price\<close>.
\<close>

definition position_price :: "pydict \<Rightarrow> exn + real" where
  "position_price p =
     py_float (py_or (dict_get p ''price_current'' (dict_get p ''entry_price'' (PInt 0))) (PInt 0))"

definition position_exposure :: "pydict \<Rightarrow> exn + real" where
  "position_exposure p = (case account_float p ''volume'' of Inl e \<Rightarrow> Inl e | Inr v \<Rightarrow>
     (case position_price p of Inl e \<Rightarrow> Inl e | Inr q \<Rightarrow> Inr \<bar>v * q\<bar>))"

fun sum_results :: "(exn + real) list \<Rightarrow> exn + real" where
  "sum_results [] = Inr 0"
| "sum_results (x # xs) = (case x of Inl e \<Rightarrow> Inl e | Inr v \<Rightarrow>
     (case sum_results xs of Inl e \<Rightarrow> Inl e | Inr t \<Rightarrow> Inr (v + t)))"

definition max_percent :: "risk_engine \<Rightarrow> exn + real" where
  "max_percent e = py_float (dict_get
     (rr_parameters (dict_get (re_rules e) MAX_POSITION_SIZE
        (mk_rule MAX_POSITION_SIZE [(''max_percent'', PFloat (5/100))] ''Risk rule violated'')))
     ''max_percent'' (PFloat (5/100)))"

definition exposure_incident :: "string \<Rightarrow> real \<Rightarrow> datetime \<Rightarrow> pydict" where
  "exposure_incident account_id exposure stamp =
     [(''rule_type'', PStr (rule_type_value MAX_EXPOSURE)), (''parameters'', PDict []),
      (''actual_values'', PDict [(''exposure'', PFloat exposure)]), (''order_id'', PNone),
      (''account_id'', PStr account_id), (''action_taken'', PStr ''position_reduced''),
      (''created_at'', PIso stamp)]"

definition monitor_round :: "'s risk_deps \<Rightarrow> (string \<Rightarrow> ('s, pydict list) io) \<Rightarrow> string \<Rightarrow> datetime
    \<Rightarrow> ('s risk_state, unit) io" where
  "monitor_round dp get_positions account_id stamp =
     io_bind (io_zoom snd (\<lambda>t (r, _). (r, t)) (get_positions account_id)) (\<lambda>positions.
     io_bind (io_lift (sum_results (map (\<lambda>p. account_float p ''profit'') positions))) (\<lambda>total_pnl.
     io_bind (io_modify (\<lambda>(e, s). (e\<lparr>re_daily_loss :=
        AList.update account_id \<bar>min total_pnl 0\<bar> (re_daily_loss e)\<rparr>, s))) (\<lambda>_.
     io_bind (io_lift (sum_results (map position_exposure positions))) (\<lambda>exposure.
     io_bind (if exposure > 0 \<and> positions \<noteq> [] then
        io_bind (io_get (\<lambda>(e, s). max_percent e)) (\<lambda>r. io_bind (io_lift r) (\<lambda>pct.
          io_when (exposure > pct * max 1 exposure)
            (io_bind (call_dep (dep_close_all_positions dp)) (\<lambda>_.
               persist_incident dp (exposure_incident account_id exposure stamp)))))
        else io_return ()) (\<lambda>_.
     io_when (\<bar>min total_pnl 0\<bar> > 0)
       (call_dep (map_option (\<lambda>f. f account_id \<bar>min total_pnl 0\<bar>) (dep_notify dp))))))))"

definition kill_incident :: "string \<Rightarrow> string \<Rightarrow> datetime \<Rightarrow> pydict" where
  "kill_incident why who stamp =
     [(''rule_type'', PStr ''KILL_SWITCH''), (''parameters'', PDict [(''reason'', PStr why)]),
      (''actual_values'', PDict []), (''order_id'', PNone), (''account_id'', PStr ''global''),
      (''action_taken'', PStr ''kill_switch''), (''created_at'', PIso stamp),
      (''triggered_by'', PStr who), (''severity'', PStr ''CRITICAL'')]"

text \<open>The retry loop: at most \<open>n\<close> attempts, an exception of either call ends the attempt.\<close>

fun kill_attempts :: "'s risk_deps \<Rightarrow> nat \<Rightarrow> ('s risk_state, unit) io" where
  "kill_attempts dp 0 st = (Inr (), st)"
| "kill_attempts dp (Suc n) st =
     (case io_bind (call_dep (dep_cancel_all_orders dp))
             (\<lambda>_. call_dep (dep_close_all_positions dp)) st of
        (Inr _, st') \<Rightarrow> (Inr (), st')
      | (Inl _, st') \<Rightarrow> kill_attempts dp n st')"

definition kill_switch :: "'s risk_deps \<Rightarrow> string \<Rightarrow> string \<Rightarrow> datetime \<Rightarrow> ('s risk_state, unit) io" where
  "kill_switch dp why who stamp =
     io_bind (io_modify (\<lambda>(e, s). (e\<lparr>re_kill_switch := True\<rparr>, s))) (\<lambda>_.
     io_bind (persist_incident dp (kill_incident why who stamp)) (\<lambda>_.
     io_bind (kill_attempts dp 3) (\<lambda>_.
     io_bind (call_dep (map_option (\<lambda>f. f ''risk_events''
        [(''event'', PStr ''kill_switch''), (''reason'', PStr why), (''triggered_by'', PStr who)])
        (dep_broadcast dp))) (\<lambda>_.
     call_dep (dep_disable_all_strategies dp)))))"

definition release_incident :: "datetime \<Rightarrow> pydict" where
  "release_incident stamp =
     [(''rule_type'', PStr ''KILL_SWITCH_RELEASE''), (''parameters'', PDict []),
      (''actual_values'', PDict []), (''order_id'', PNone), (''account_id'', PStr ''global''),
      (''action_taken'', PStr ''warning''), (''created_at'', PIso stamp)]"

definition release_kill_switch :: "'s risk_deps \<Rightarrow> datetime \<Rightarrow> ('s risk_state, bool) io" where
  "release_kill_switch dp stamp =
     io_bind (io_modify (\<lambda>(e, s). (e\<lparr>re_kill_switch := False\<rparr>, s))) (\<lambda>_.
     io_bind (persist_incident dp (release_incident stamp)) (\<lambda>_. io_return True))"


subsection \<open>The engine driven by a sequence of calls\<close>

datatype 's risk_op =
    AddRule risk_rule
  | RemoveRule risk_rule_type
  | PreTradeCheck datetime datetime pydict pydict "pydict list"
  | MonitorRound "string \<Rightarrow> ('s, pydict list) io" string datetime
  | KillSwitch string string datetime
  | ReleaseKillSwitch datetime

fun risk_step :: "'s risk_deps \<Rightarrow> 's risk_state \<Rightarrow> 's risk_op \<Rightarrow> 's risk_state" where
  "risk_step dp (e, s) (AddRule r) = (add_rule r e, s)"
| "risk_step dp (e, s) (RemoveRule t) = (remove_rule t e, s)"
| "risk_step dp st (PreTradeCheck now stamp order acct ps) =
     snd (pre_trade_check dp now stamp order acct ps st)"
| "risk_step dp st (MonitorRound gp acc stamp) = snd (monitor_round dp gp acc stamp st)"
| "risk_step dp st (KillSwitch why who stamp) = snd (kill_switch dp why who stamp st)"
| "risk_step dp st (ReleaseKillSwitch stamp) = snd (release_kill_switch dp stamp st)"

fun is_release :: "'s risk_op \<Rightarrow> bool" where
  "is_release (ReleaseKillSwitch stamp) = True"
| "is_release _ = False"

text \<open>Every rule is filed under its own type, and no type is filed twice.\<close>

definition rules_wf :: "risk_engine \<Rightarrow> bool" where
  "rules_wf e = (distinct (map fst (re_rules e)) \<and> list_all (\<lambda>(t, r). rr_type r = t) (re_rules e))"

subsection \<open>What the collaborators cannot change\<close>

lemma call_dep_eq [io_simps]:
  "call_dep f (e, s) = (case f of None \<Rightarrow> (Inr (), (e, s)) | Some m \<Rightarrow> (fst (m s), (e, snd (m s))))"
  by (simp add: call_dep_def io_zoom_def io_return_def split: option.splits prod.splits)

lemma persist_incident_eq [io_simps]:
  "persist_incident dp i (e, s) = (case dep_save_risk_incident dp of None \<Rightarrow> (Inr (), (e, s))
     | Some f \<Rightarrow> (fst (f i s), (e, snd (f i s))))"
  by (simp add: persist_incident_def call_dep_eq split: option.splits)

lemma call_dep_engine [simp]: "fst (snd (call_dep f st)) = fst st"
  by (cases st) (simp add: call_dep_eq split: option.splits)

lemma call_dep_None [simp]: "call_dep None = io_return ()"
  by (simp add: call_dep_def)

lemma persist_incident_engine [simp]: "fst (snd (persist_incident dp i st)) = fst st"
  by (simp add: persist_incident_def)

lemma persist_incident_None [simp]: "dep_save_risk_incident dp = None \<Longrightarrow> persist_incident dp i = io_return ()"
  by (simp add: persist_incident_def)

lemma kill_attempts_engine [simp]: "fst (snd (kill_attempts dp n st)) = fst st"
proof (induction n arbitrary: st)
  case 0
  show ?case by simp
next
  case (Suc n)
  have "fst (snd (io_bind (call_dep (dep_cancel_all_orders dp))
           (\<lambda>_. call_dep (dep_close_all_positions dp)) st)) = fst st"
    by (rule io_bind_inv [where P = "\<lambda>st'. fst st' = fst st"]) (simp, metis call_dep_engine snd_conv)
  with Suc.IH show ?case
    by (auto split: prod.splits sum.splits)
qed

text \<open>The calls of one attempt, and the attempts of the kill switch as a bounded retry that swallows every exception.\<close>

definition kill_attempt :: "'s risk_deps \<Rightarrow> ('s risk_state, unit) io" where
  "kill_attempt dp = io_bind (call_dep (dep_cancel_all_orders dp)) (\<lambda>_. call_dep (dep_close_all_positions dp))"

interpretation kills: bounded_attempts "kill_attempt dp" isl "\<lambda>st. st" "\<lambda>_ st. (Inr (), st)" "kill_attempts dp"
  for dp :: "'s risk_deps"
proof
  fix n st
  show "kill_attempts dp (Suc n) st =
     (case kill_attempt dp st of (r, st') \<Rightarrow> if isl r \<and> 0 < n then kill_attempts dp n st' else (Inr (), st'))"
    by (cases n) (auto simp: kill_attempt_def split: prod.splits sum.splits)
qed

lemma kill_attempts_returns: "fst (kill_attempts dp n st) = Inr ()"
  by (induction n arbitrary: st) (auto split: prod.splits sum.splits)

lemma kill_attempts_outcome:
  obtains k where "k \<le> 2" and "kill_attempts dp 3 st = (Inr (), snd (kill_attempt dp (attempt_state (kill_attempt dp) (\<lambda>st. st) k st)))"
    and "\<forall>j<k. isl (fst (kill_attempt dp (attempt_state (kill_attempt dp) (\<lambda>st. st) j st)))"
    and "isl (fst (kill_attempt dp (attempt_state (kill_attempt dp) (\<lambda>st. st) k st))) \<longrightarrow> k = 2"
proof -
  have "kill_attempts dp 3 = kill_attempts dp (Suc 2)" by (simp only: eval_nat_numeral)
  then show thesis using kills.outcome [of 2 dp st] that by (auto simp del: kill_attempts.simps simp: case_prod_beta)
qed

lemma check_rules_engine:
  "fst (snd (check_rules dp order acct now stamp rules (e, s))) = e \<or>
   fst (snd (check_rules dp order acct now stamp rules (e, s))) = e\<lparr>re_last_trade_ts := Some now\<rparr>"
proof (induction rules)
  case Nil
  show ?case by simp
next
  case (Cons rule rules)
  have "fst (snd (io_bind (persist_incident dp i) (\<lambda>_. io_return a) (e, s))) = e" for i a
    by (simp add: io_simps split: option.splits sum.splits prod.splits)
  with Cons.IH show ?case
    by (auto split: sum.splits prod.splits)
qed


lemma pre_trade_check_frame:
  "re_kill_switch (fst (snd (pre_trade_check dp now stamp order acct ps st))) = re_kill_switch (fst st)"
  "re_rules (fst (snd (pre_trade_check dp now stamp order acct ps st))) = re_rules (fst st)"
  using check_rules_engine [of dp order acct now stamp "map snd (re_rules (fst st))" "fst st" "snd st"]
  by (cases st; auto simp: pre_trade_check_def)+

lemma keeps_call_dep [keeps]: "io_keeps (\<lambda>st. f (fst st)) (call_dep d)"
  by (simp add: io_keeps_def)

lemma keeps_persist [keeps]: "io_keeps (\<lambda>st. f (fst st)) (persist_incident dp i)"
  by (simp add: io_keeps_def)

lemma keeps_kill_attempts [keeps]: "io_keeps (\<lambda>st. f (fst st)) (kill_attempts dp n)"
  by (simp add: io_keeps_def)

lemma keeps_zoom_snd [keeps]: "io_keeps (\<lambda>st. f (fst st)) (io_zoom snd (\<lambda>t (r, _). (r, t)) m)"
  by (auto simp: io_keeps_def io_zoom_def split: prod.splits)

lemma monitor_round_keeps:
  assumes "\<And>e d. f (e\<lparr>re_daily_loss := d\<rparr>) = f e"
  shows "io_keeps (\<lambda>st. f (fst st)) (monitor_round dp gp acc stamp)"
proof -
  have loss: "io_keeps (\<lambda>st. f (fst st)) (io_modify (\<lambda>(e, s). (e\<lparr>re_daily_loss := g e\<rparr>, s)))" for g
    using assms by (intro io_keeps_modify) (simp split: prod.splits)
  show ?thesis
    unfolding monitor_round_def
    by (intro keeps loss)
qed

lemma kill_switch_engine:
  "fst (snd (kill_switch dp why who stamp (e, s))) = e\<lparr>re_kill_switch := True\<rparr>"
proof -
  have "io_keeps (\<lambda>st. fst st) (io_bind (persist_incident dp i) (\<lambda>_. io_bind (kill_attempts dp 3)
      (\<lambda>_. io_bind (call_dep c) (\<lambda>_. call_dep d))))" for i c d
    by (intro keeps)
  from io_keepsD [OF this] show ?thesis
    unfolding kill_switch_def by (simp add: io_modify_def io_bind_def [of "io_modify _"])
qed


lemma release_engine:
  "fst (snd (release_kill_switch dp stamp (e, s))) = e\<lparr>re_kill_switch := False\<rparr>"
proof -
  have "io_keeps (\<lambda>st. fst st) (io_bind (persist_incident dp i) (\<lambda>_. io_return True))" for i
    by (intro keeps)
  from io_keepsD [OF this] show ?thesis
    unfolding release_kill_switch_def by (simp add: io_modify_def io_bind_def [of "io_modify _"])
qed

subsection \<open>Invariants of the engine\<close>

interpretation kill_latch: invariant_machine "risk_step dp" "\<lambda>x. \<not> is_release x"
    "\<lambda>st. re_kill_switch (fst st)" for dp :: "'s risk_deps"
proof unfold_locales
  fix st :: "'s risk_state" and x :: "'s risk_op"
  assume "re_kill_switch (fst st)" and "\<not> is_release x"
  then show "re_kill_switch (fst (risk_step dp st x))"
    by (cases st; cases x)
       (auto simp: add_rule_def remove_rule_def pre_trade_check_frame kill_switch_engine
          io_keepsD [OF monitor_round_keeps [where f = re_kill_switch]])
qed

lemma rules_wf_update: "rules_wf e \<Longrightarrow> rules_wf (add_rule r e)"
  by (simp add: rules_wf_def add_rule_def distinct_update list_all_update)

interpretation rules_filed: invariant_machine "risk_step dp" "\<lambda>_. True"
    "\<lambda>st. rules_wf (fst st)" for dp :: "'s risk_deps"
proof unfold_locales
  fix st :: "'s risk_state" and x :: "'s risk_op"
  assume wf: "rules_wf (fst st)"
  have del: "rules_wf (remove_rule t e)" if "rules_wf e" for t e
    using that by (simp add: rules_wf_def remove_rule_def distinct_delete list_all_delete)
  have same: "rules_wf e'" if "re_rules e' = re_rules (fst st)" for e'
    using that wf by (simp add: rules_wf_def)
  show "rules_wf (fst (risk_step dp st x))"
    using wf
    by (cases st; cases x)
       (auto simp: rules_wf_update del pre_trade_check_frame kill_switch_engine release_engine
          io_keepsD [OF monitor_round_keeps [where f = re_rules]] intro!: same)
qed


subsection \<open>Verdicts\<close>

lemma verdicts_distinct [simp]:
  "reject r \<noteq> approve" "warn r \<noteq> approve" "killed \<noteq> approve"
  "approve \<noteq> reject r" "approve \<noteq> warn r" "approve \<noteq> killed"
  by (simp_all add: reject_def warn_def approve_def killed_def)

definition rule_passes :: "pydict \<Rightarrow> datetime option \<Rightarrow> datetime \<Rightarrow> risk_rule \<Rightarrow> bool" where
  "rule_passes acct last_ts now r =
     (rr_enabled r \<longrightarrow> (case rule_check r acct last_ts now of Inl _ \<Rightarrow> False | Inr (v, _) \<Rightarrow> \<not> v))"

definition trade_allowed :: "risk_engine \<Rightarrow> pydict \<Rightarrow> datetime \<Rightarrow> bool" where
  "trade_allowed e acct now = (\<not> re_kill_switch e \<and>
     list_all (rule_passes acct (re_last_trade_ts e) now) (map snd (re_rules e)))"

lemma check_rules_passing_prefix:
  assumes "list_all (rule_passes acct (re_last_trade_ts e) now) pre"
  shows "check_rules dp order acct now stamp (pre @ rules) (e, s) =
         check_rules dp order acct now stamp rules (e, s)"
  using assms by (induction pre) (auto simp: rule_passes_def split: sum.splits prod.splits)

lemma check_rules_approve_iff:
  "fst (check_rules dp order acct now stamp rules (e, s)) = Inr approve \<longleftrightarrow>
   list_all (rule_passes acct (re_last_trade_ts e) now) rules"
proof (induction rules)
  case Nil
  show ?case by simp
next
  case (Cons r rules)
  have "fst (io_bind (persist_incident dp i)
          (\<lambda>_. io_return (if rr_severity r = ''hard'' then reject r else warn r)) (e, s)) \<noteq> Inr approve" for i
    by (auto simp: io_simps split: option.splits sum.splits prod.splits)
  with Cons.IH show ?case
    by (auto simp: rule_passes_def split: sum.splits prod.splits)
qed

text \<open>
  C33. A check answers with an unconditional approval exactly when the kill switch is off and
  every enabled rule evaluates without an exception and is not violated; it then records the
  time of the check as the last trade and changes nothing else.
\<close>

theorem clean_approval_iff:
  "(fst (pre_trade_check dp now stamp order acct ps (e, s)) = Inr approve \<longleftrightarrow> trade_allowed e acct now) \<and>
   (trade_allowed e acct now \<longrightarrow>
      snd (pre_trade_check dp now stamp order acct ps (e, s)) = (e\<lparr>re_last_trade_ts := Some now\<rparr>, s))"
  using check_rules_passing_prefix [of acct e now "map snd (re_rules e)" dp order stamp "[]" s]
  by (auto simp: trade_allowed_def pre_trade_check_def check_rules_approve_iff)

text \<open>
  When the first violated rule is \<open>r\<close>, the verdict is decided by \<open>r\<close> alone: a rejection
  naming it if it is hard, an approval with its message as a warning otherwise. The rules after
  it are not looked at, exactly one incident is persisted, and the last trade time stays.
\<close>

theorem first_violation_decides:
  assumes "\<not> re_kill_switch e"
    and "map snd (re_rules e) = pre @ r # post"
    and "list_all (rule_passes acct (re_last_trade_ts e) now) pre"
    and "rr_enabled r" and "rule_check r acct (re_last_trade_ts e) now = Inr (True, actual)"
    and "dep_save_risk_incident dp = Some save"
    and "save (rule_incident r actual order stamp) s = (Inr (), s')"
  shows "pre_trade_check dp now stamp order acct ps (e, s) =
         (Inr (if rr_severity r = ''hard'' then reject r else warn r), (e, s'))"
  using assms(1,4-) by (simp add: pre_trade_check_def assms(2) check_rules_passing_prefix [OF assms(3)] io_simps)

text \<open>
  C4. The kill switch latches: once thrown, whatever calls follow (rules added or removed,
  checks, monitor rounds, further kill switch calls) short of a release, every check is refused
  with the kill switch as its reason and changes no state, whatever the collaborators do.
\<close>

theorem kill_switch_latches:
  assumes "list_all (\<lambda>x. \<not> is_release x) xs"
    and "st = foldl (risk_step dp) (snd (kill_switch dp why who t0 st0)) xs"
  shows "pre_trade_check dp now stamp order acct ps st = (Inr killed, st)"
proof -
  have "re_kill_switch (fst (snd (kill_switch dp why who t0 st0)))"
    by (cases st0) (simp add: kill_switch_engine)
  then have "re_kill_switch (fst st)"
    unfolding assms(2) by (rule kill_latch.run_inv [OF _ assms(1)])
  then show ?thesis
    by (cases st) (simp add: pre_trade_check_def)
qed

text \<open>
  Whatever sequence of calls is made on a new engine, every rule stays filed under its
  own type and no type is filed twice, so adding a rule replaces the rule of its type.
\<close>

theorem rules_stay_filed: "rules_wf (fst (foldl (risk_step dp) (risk_init, s) xs))"
  by (rule rules_filed.run_inv)
     (simp_all add: rules_wf_def risk_init_def default_rules_def mk_rule_def list_all_iff)


subsection \<open>The default rules\<close>

lemma account_float_PFloat [simp]:
  "map_of a k = Some (PFloat x) \<Longrightarrow> account_float a k = Inr x"
  by (cases "x = 0") (simp_all add: account_float_def dict_get_def)

lemma rule_passes_default [simp]:
  "rule_passes acct l now (mk_rule MAX_POSITION_SIZE p m)"
  "rule_passes acct l now (mk_rule MAX_LEVERAGE p m)"
  by (simp_all add: rule_passes_def mk_rule_def rule_check_def)

lemma rule_passes_drawdown:
  assumes "account_float acct ''balance'' = Inr bal" and "account_float acct ''equity'' = Inr eq"
  shows "rule_passes acct l now (mk_rule MAX_DRAWDOWN [(''max_drawdown'', PFloat p)] m) =
     ((if bal > 0 then (bal - eq) / bal else 0) \<le> p)"
  using assms by (simp add: rule_passes_def mk_rule_def rule_check_def Let_def not_less)

lemma rule_passes_daily_loss:
  assumes "account_float acct ''balance'' = Inr bal" and "account_float acct ''profit'' = Inr pnl"
  shows "rule_passes acct l now (mk_rule MAX_DAILY_LOSS [(''max_daily_loss'', PFloat p)] m) =
     ((if bal > 0 then \<bar>min pnl 0\<bar> / bal else 0) \<le> p)"
  using assms by (simp add: rule_passes_def mk_rule_def rule_check_def Let_def not_less)

lemma rule_passes_min_time:
  "rule_passes acct l now (mk_rule MIN_TIME_BETWEEN_TRADES [(''seconds'', PInt n)] m) =
     (\<forall>t. l = Some t \<longrightarrow> n * 1000000 \<le> now - t)"
proof -
  have "real_of_int (now - t) / 1000000 < real_of_int n \<longleftrightarrow> real_of_int (now - t) < real_of_int (n * 1000000)" for t
    by (simp add: divide_less_eq)
  then have "real_of_int (now - t) / 1000000 < real_of_int n \<longleftrightarrow> now - t < n * 1000000" for t
    by (simp only: of_int_less_iff)
  then show ?thesis
    by (cases l) (simp_all add: rule_passes_def mk_rule_def rule_check_def Let_def not_less
        del: of_int_diff)
qed

text \<open>
  For the rules a new engine starts with and an account whose balance, equity and profit
  are numbers, a clean approval means: either the balance is not positive, or the equity is at
  most twenty percent below the balance and the loss at most ten percent of it; and at least
  one second has passed since the last trade.
\<close>

theorem default_rules_limits:
  assumes "re_rules e = default_rules" and "\<not> re_kill_switch e"
    and "map_of acct ''balance'' = Some (PFloat bal)" and "map_of acct ''equity'' = Some (PFloat eq)"
    and "map_of acct ''profit'' = Some (PFloat pnl)"
  shows "fst (pre_trade_check dp now stamp order acct ps (e, s)) = Inr approve \<longleftrightarrow>
     (bal > 0 \<longrightarrow> eq \<ge> 8/10 * bal \<and> pnl \<ge> - (1/10) * bal) \<and>
     (\<forall>t. re_last_trade_ts e = Some t \<longrightarrow> now - t \<ge> 1000000)"
proof -
  have acct: "account_float acct ''balance'' = Inr bal" "account_float acct ''equity'' = Inr eq"
    "account_float acct ''profit'' = Inr pnl"
    using assms(3-5) by simp_all
  have dd: "(if bal > 0 then (bal - eq) / bal else 0) \<le> 2/10 \<longleftrightarrow> (bal > 0 \<longrightarrow> eq \<ge> 8/10 * bal)"
    by (auto simp: field_simps)
  have loss: "(if bal > 0 then \<bar>min pnl 0\<bar> / bal else 0) \<le> 1/10 \<longleftrightarrow> (bal > 0 \<longrightarrow> pnl \<ge> - (1/10) * bal)"
    by (auto simp: field_simps min_def abs_if)
  have "list_all (rule_passes acct (re_last_trade_ts e) now) (map snd (re_rules e)) \<longleftrightarrow>
     (bal > 0 \<longrightarrow> eq \<ge> 8/10 * bal) \<and> (bal > 0 \<longrightarrow> pnl \<ge> - (1/10) * bal) \<and>
     (\<forall>t. re_last_trade_ts e = Some t \<longrightarrow> 1 * 1000000 \<le> now - t)"
    unfolding assms(1) default_rules_def list.map snd_conv list.pred_inject
      rule_passes_drawdown [OF acct(1,2)] rule_passes_daily_loss [OF acct(1,3)]
      rule_passes_min_time dd loss
    by simp
  then show ?thesis
    using assms(2) by (auto simp: pre_trade_check_def check_rules_approve_iff)
qed

subsection \<open>What the engine does not look at\<close>

lemma check_rules_order_irrelevant:
  assumes "dep_save_risk_incident dp = None"
  shows "check_rules dp order acct now stamp rules st = check_rules dp order' acct now stamp' rules st"
  using assms
  by (cases st; induction rules) (auto split: sum.splits prod.splits)

text \<open>
  The verdict depends neither on the order (its symbol, side, quantity and prices) nor on
  the open positions: without a repository two checks that differ only in these agree in
  verdict and state. In particular the rules on position size, leverage, exposure, spread,
  stop loss and the like, which the engine accepts and partly installs by default, never
  refuse anything.
\<close>

theorem verdict_ignores_order_and_positions:
  assumes "dep_save_risk_incident dp = None"
  shows "pre_trade_check dp now stamp order acct ps st = pre_trade_check dp now stamp' order' acct ps' st"
  using check_rules_order_irrelevant [OF assms]
  by (cases st) (simp add: pre_trade_check_def)

lemma kill_attempts_all_fail:
  assumes "dep_cancel_all_orders dp = Some (io_raise x)"
  shows "kill_attempts dp n (e, s) = (Inr (), (e, s))"
  by (induction n) (simp_all add: io_simps assms)

text \<open>
  If the execution engine the risk engine was given has no working
  \<open>cancel_all_orders\<close> (the call raises), all three attempts of the kill switch end there:
  \<open>close_all_positions\<close> is never called, however the connector would answer, and the kill
  switch still returns normally.
\<close>

theorem kill_switch_skips_positions:
  assumes "dep_cancel_all_orders dp = Some (io_raise x)"
    and "dep_save_risk_incident dp = None" and "dep_broadcast dp = None"
    and "dep_disable_all_strategies dp = None"
  shows "kill_switch dp why who stamp (e, s) = (Inr (), (e\<lparr>re_kill_switch := True\<rparr>, s))"
  using assms
  by (simp add: kill_switch_def io_modify_def kill_attempts_all_fail
      io_bind_def [of "io_modify _"] io_bind_def [of "kill_attempts dp 3"] io_return_def)

text \<open>
  Without an execution engine the kill switch asks the connector to close all positions
  up to three times and stops at the first attempt that succeeds.
\<close>

theorem kill_switch_retries:
  assumes "dep_cancel_all_orders dp = None" and "dep_close_all_positions dp = Some close"
    and "k < 3" and "world 0 = s"
    and "\<forall>i < k. \<exists>x. close (world i) = (Inl x, world (Suc i))"
    and "close (world k) = (Inr (), s')"
  shows "kill_attempts dp 3 (e, s) = (Inr (), (e, s'))"
proof -
  have att: "kill_attempt dp (e, w) = (fst (close w), (e, snd (close w)))" for w
    using assms(1,2) by (simp add: kill_attempt_def io_simps split: prod.splits sum.splits)
  have at: "attempt_state (kill_attempt dp) (\<lambda>st. st) i (e, s) = (e, world i)" if "i \<le> k" for i
    using that
  proof (induction i)
    case (Suc i)
    then obtain x where "close (world i) = (Inl x, world (Suc i))" using assms(5) by (meson Suc_le_lessD)
    with Suc show ?case unfolding attempt_state_later by (simp add: att)
  qed (simp add: assms(4))
  obtain j where j: "j \<le> 2" "kill_attempts dp 3 (e, s) = (Inr (), snd (kill_attempt dp (attempt_state (kill_attempt dp) (\<lambda>st. st) j (e, s))))"
    "\<forall>i<j. isl (fst (kill_attempt dp (attempt_state (kill_attempt dp) (\<lambda>st. st) i (e, s))))"
    "isl (fst (kill_attempt dp (attempt_state (kill_attempt dp) (\<lambda>st. st) j (e, s)))) \<longrightarrow> j = 2"
    by (rule kill_attempts_outcome)
  have "\<not> k < j" using j(3) at [of k] assms(6) by (auto simp: att)
  moreover have "\<not> j < k" using j(1,4) at [of j] assms(3,5) by (auto simp: att)
  ultimately have "j = k" by simp
  then show ?thesis using j(2) at [of k] assms(6) by (simp add: att)
qed

text \<open>
  The monitor compares the exposure with a fraction of the exposure itself, not of the
  account: with any \<open>max_percent\<close> below one, every round that sees an exposure of one unit
  of currency or more asks the connector to close all positions.
\<close>

theorem monitor_closes_every_book:
  assumes "gp acc s = (Inr ps, s1)"
    and "sum_results (map (\<lambda>p. account_float p ''profit'') ps) = Inr pnl"
    and "sum_results (map position_exposure ps) = Inr x" and "1 \<le> x"
    and "max_percent e = Inr pct" and "pct < 1"
    and "dep_close_all_positions dp = Some close" and "close s1 = (Inr (), s2)"
    and "dep_save_risk_incident dp = None" and "dep_notify dp = None"
  shows "monitor_round dp gp acc stamp (e, s) =
    (Inr (), (e\<lparr>re_daily_loss := AList.update acc \<bar>min pnl 0\<bar> (re_daily_loss e)\<rparr>, s2))"
proof -
  have ps: "ps \<noteq> []" using assms(3,4) by auto
  have "pct * x < 1 * x" using assms(4,6) by (intro mult_strict_right_mono) auto
  then have "x > pct * max 1 x" using assms(4) by (simp add: max_def)
  moreover have "max_percent (e\<lparr>re_daily_loss := d\<rparr>) = Inr pct" for d
    using assms(5) by (simp add: max_percent_def)
  ultimately show ?thesis
    using assms ps unfolding monitor_round_def
    by (simp add: io_simps io_zoom_def)
qed

subsection \<open>Witnesses\<close>

definition demo_account :: "real \<Rightarrow> real \<Rightarrow> real \<Rightarrow> pydict" where
  "demo_account bal eq pnl =
     [(''balance'', PFloat bal), (''equity'', PFloat eq), (''profit'', PFloat pnl)]"

theorem clean_approval_iff_witness:
  "trade_allowed risk_init (demo_account 1000 900 (-50)) 7 \<and>
   fst (pre_trade_check no_deps 7 7 [] (demo_account 1000 900 (-50)) [] (risk_init, ())) = Inr approve \<and>
   snd (pre_trade_check no_deps 7 7 [] (demo_account 1000 900 (-50)) [] (risk_init, ())) =
     (risk_init\<lparr>re_last_trade_ts := Some 7\<rparr>, ())"
proof -
  have "trade_allowed risk_init (demo_account 1000 900 (-50)) 7"
    by (simp add: trade_allowed_def risk_init_def default_rules_def demo_account_def
        rule_passes_drawdown rule_passes_daily_loss rule_passes_min_time)
  then show ?thesis
    using clean_approval_iff [of no_deps 7 7 "[]" "demo_account 1000 900 (-50)" "[]" risk_init "()"]
    by simp
qed

theorem first_violation_decides_witness:
  "fst (pre_trade_check (no_deps\<lparr>dep_save_risk_incident := Some (\<lambda>i (n::nat). (Inr (), Suc n))\<rparr>)
      7 7 [] (demo_account 1000 700 0) [] (risk_init, 0)) =
     Inr (reject (mk_rule MAX_DRAWDOWN [(''max_drawdown'', PFloat (2/10))] ''Max drawdown exceeded''))"
  using first_violation_decides [of risk_init
      "[mk_rule MAX_POSITION_SIZE [(''max_percent'', PFloat (5/100))] ''Max position size exceeded'']"
      "mk_rule MAX_DRAWDOWN [(''max_drawdown'', PFloat (2/10))] ''Max drawdown exceeded''"
      "drop 2 (map snd default_rules)" "demo_account 1000 700 0" 7 "[(''drawdown'', PFloat (3/10))]"
      "no_deps\<lparr>dep_save_risk_incident := Some (\<lambda>i (n::nat). (Inr (), Suc n))\<rparr>"
      "\<lambda>i n. (Inr (), Suc n)" "[]" 7 0 "Suc 0" "[]"]
  by (simp add: risk_init_def default_rules_def mk_rule_def rule_check_def demo_account_def
      account_float_def rule_passes_def Let_def)

theorem kill_switch_latches_witness:
  "pre_trade_check no_deps 9 9 [] (demo_account 1000 1000 0) []
     (foldl (risk_step no_deps) (snd (kill_switch no_deps ''drill'' ''ops'' 1 (risk_init, ())))
        [RemoveRule MAX_LEVERAGE, PreTradeCheck 3 3 [] [] []]) =
   (Inr killed, foldl (risk_step no_deps) (snd (kill_switch no_deps ''drill'' ''ops'' 1 (risk_init, ())))
        [RemoveRule MAX_LEVERAGE, PreTradeCheck 3 3 [] [] []])"
  by (rule kill_switch_latches [where xs = "[RemoveRule MAX_LEVERAGE, PreTradeCheck 3 3 [] [] []]"
        and dp = no_deps, OF _ refl]) simp

theorem default_rules_limits_witness:
  "fst (pre_trade_check no_deps 7 7 [] (demo_account 1000 750 0) [] (risk_init, ())) \<noteq> Inr approve"
  using default_rules_limits [of risk_init "demo_account 1000 750 0" 1000 750 0 no_deps 7 7 "[]" "[]" "()"]
  by (simp add: risk_init_def demo_account_def)

theorem verdict_ignores_order_and_positions_witness:
  "pre_trade_check no_deps 7 7 [(''quantity'', PFloat 1)] (demo_account 1000 1000 0) [] (risk_init, ()) =
   pre_trade_check no_deps 7 7 [(''quantity'', PFloat 1000000)] (demo_account 1000 1000 0) [] (risk_init, ())"
  by (rule verdict_ignores_order_and_positions) (simp add: no_deps_def)

theorem kill_switch_skips_positions_witness:
  "kill_switch (no_deps\<lparr>dep_cancel_all_orders := Some (io_raise (AttributeError ''cancel_all_orders'')),
       dep_close_all_positions := Some (\<lambda>n. (Inr (), Suc n))\<rparr>) ''drill'' ''ops'' 1 (risk_init, 0) =
   (Inr (), (risk_init\<lparr>re_kill_switch := True\<rparr>, 0))"
  by (rule kill_switch_skips_positions) (simp_all add: no_deps_def)

theorem kill_switch_retries_witness:
  "kill_attempts (no_deps\<lparr>dep_close_all_positions :=
       Some (\<lambda>n. if n = (2::nat) then (Inr (), 10) else (Inl (OtherException ''busy''), Suc n))\<rparr>) 3 (risk_init, 0) =
   (Inr (), (risk_init, 10))"
  by (rule kill_switch_retries [where k = 2 and world = "\<lambda>i. i" and
        close = "\<lambda>n. if n = (2::nat) then (Inr (), 10) else (Inl (OtherException ''busy''), Suc n)"])
     (simp_all add: no_deps_def)

theorem monitor_closes_every_book_witness:
  "monitor_round (no_deps\<lparr>dep_close_all_positions := Some (\<lambda>n. (Inr (), Suc n))\<rparr>)
     (\<lambda>acc n. (Inr [[(''volume'', PFloat 1), (''price_current'', PFloat 2)]], n)) ''a'' 1 (risk_init, 0) =
   (Inr (), (risk_init\<lparr>re_daily_loss := [(''a'', 0)]\<rparr>, Suc 0))"
  using monitor_closes_every_book [of "\<lambda>acc n. (Inr [[(''volume'', PFloat 1), (''price_current'', PFloat 2)]], n)"
      "''a''" 0 "[[(''volume'', PFloat 1), (''price_current'', PFloat 2)]]" 0 0 2 risk_init "5/100"
      "no_deps\<lparr>dep_close_all_positions := Some (\<lambda>n. (Inr (), Suc n))\<rparr>" "\<lambda>n. (Inr (), Suc n)" "Suc 0" 1]
  by (simp add: no_deps_def risk_init_def max_percent_def default_rules_def mk_rule_def
      account_float_def position_exposure_def position_price_def)

end
