(* ===== verification/Execution_Engine.thy ===== *)
theory Execution_Engine
  imports Risk_Engine
begin

text \<open>
  The execution engine (\<^verbatim>\<open>trading_service/src/execution/engine.py\<close>): orders and their
  dictionary form, the status machine, submission, cancellation, status updates and callbacks.
  The engine is given a connector, a risk engine and a repository as objects of any class; their
  methods are the fields of \<open>exec_deps\<close>, computations over a state \<open>'s\<close>. The repository, connector
  and risk engine that \<^verbatim>\<open>tests/trading/test_execution_engine.py\<close> passes are \<open>test_deps\<close>.
\<close>

subsection \<open>Orders\<close>

datatype order_status = PENDING | VALIDATED | SUBMITTED | PARTIAL | FILLED | REJECTED | CANCELED | EXPIRED

datatype order_side = BUY | SELL

datatype order_type = MARKET | LIMIT | STOP | STOP_LIMIT

fun status_value :: "order_status \<Rightarrow> string" where
  "status_value PENDING = ''PENDING''" | "status_value VALIDATED = ''VALIDATED''"
| "status_value SUBMITTED = ''SUBMITTED''" | "status_value PARTIAL = ''PARTIAL''"
| "status_value FILLED = ''FILLED''" | "status_value REJECTED = ''REJECTED''"
| "status_value CANCELED = ''CANCELED''" | "status_value EXPIRED = ''EXPIRED''"

fun side_value :: "order_side \<Rightarrow> string" where
  "side_value BUY = ''BUY''" | "side_value SELL = ''SELL''"

fun type_value :: "order_type \<Rightarrow> string" where
  "type_value MARKET = ''MARKET''" | "type_value LIMIT = ''LIMIT''"
| "type_value STOP = ''STOP''" | "type_value STOP_LIMIT = ''STOP_LIMIT''"

text \<open>An enumeration called with a value: the member with that value, or \<open>ValueError\<close>.\<close>

definition enum_of :: "('e \<Rightarrow> string) \<Rightarrow> 'e list \<Rightarrow> pyval \<Rightarrow> exn + 'e" where
  "enum_of val members v = (case List.find (\<lambda>e. PStr (val e) = v) members of
     None \<Rightarrow> Inl (ValueError ''not a valid enum value'') | Some e \<Rightarrow> Inr e)"

definition status_of :: "pyval \<Rightarrow> exn + order_status" where
  "status_of = enum_of status_value [PENDING, VALIDATED, SUBMITTED, PARTIAL, FILLED, REJECTED, CANCELED, EXPIRED]"

definition side_of :: "pyval \<Rightarrow> exn + order_side" where
  "side_of = enum_of side_value [BUY, SELL]"

definition type_of :: "pyval \<Rightarrow> exn + order_type" where
  "type_of = enum_of type_value [MARKET, LIMIT, STOP, STOP_LIMIT]"

record order =
  o_id :: pyval
  o_client_order_id :: pyval
  o_account_id :: pyval
  o_strategy_id :: pyval
  o_model_id :: pyval
  o_symbol :: pyval
  o_side :: order_side
  o_order_type :: order_type
  o_quantity :: real
  o_filled_quantity :: real
  o_price :: pyval
  o_stop_price :: pyval
  o_limit_price :: pyval
  o_status :: order_status
  o_rejection_reason :: pyval
  o_commission :: real
  o_swap :: real
  o_profit :: real
  o_opened_at :: "datetime option"
  o_closed_at :: "datetime option"
  o_created_at :: pyval
  o_updated_at :: pyval

text \<open>\<open>if data.get(k): data[k] = data[k].isoformat()\<close>\<close>

definition iso_entry :: "pyval \<Rightarrow> exn + pyval" where
  "iso_entry v = (if \<not> truthy v then Inr v
     else (case v of PDatetime t \<Rightarrow> Inr (PIso t) | _ \<Rightarrow> Inl (AttributeError ''isoformat'')))"

definition opt_iso :: "datetime option \<Rightarrow> pyval" where
  "opt_iso x = (case x of None \<Rightarrow> PNone | Some t \<Rightarrow> PIso t)"

definition order_entries :: "order \<Rightarrow> pyval \<Rightarrow> pyval \<Rightarrow> pydict" where
  "order_entries o' created updated =
     [(''id'', o_id o'), (''client_order_id'', o_client_order_id o'), (''account_id'', o_account_id o'),
      (''strategy_id'', o_strategy_id o'), (''model_id'', o_model_id o'), (''symbol'', o_symbol o'),
      (''side'', PStr (side_value (o_side o'))), (''order_type'', PStr (type_value (o_order_type o'))),
      (''quantity'', PFloat (o_quantity o')), (''filled_quantity'', PFloat (o_filled_quantity o')),
      (''price'', o_price o'), (''stop_price'', o_stop_price o'), (''limit_price'', o_limit_price o'),
      (''status'', PStr (status_value (o_status o'))), (''rejection_reason'', o_rejection_reason o'),
      (''commission'', PFloat (o_commission o')), (''swap'', PFloat (o_swap o')), (''profit'', PFloat (o_profit o')),
      (''opened_at'', opt_iso (o_opened_at o')), (''closed_at'', opt_iso (o_closed_at o')),
      (''created_at'', created), (''updated_at'', updated)]"

definition to_dict :: "order \<Rightarrow> exn + pydict" where
  "to_dict o' = (case iso_entry (o_created_at o') of Inl e \<Rightarrow> Inl e | Inr created \<Rightarrow>
     (case iso_entry (o_updated_at o') of Inl e \<Rightarrow> Inl e | Inr updated \<Rightarrow>
      Inr (order_entries o' created updated)))"

definition opt_time :: "pydict \<Rightarrow> string \<Rightarrow> exn + datetime option" where
  "opt_time d k = (if truthy (pyget d k) then map_sum id Some (fromisoformat (pyget d k)) else Inr None)"

definition stamp_field :: "datetime \<Rightarrow> pydict \<Rightarrow> string \<Rightarrow> exn + pyval" where
  "stamp_field now d k = (if is_str (pyget d k) then map_sum id PDatetime (fromisoformat (pyget d k))
     else Inr (dict_get d k (PDatetime now)))"

text \<open>\<open>now\<close> is the clock reading used when a time stamp is missing.\<close>

definition hydrate :: "datetime \<Rightarrow> pydict \<Rightarrow> exn + order" where
  "hydrate now d =
     sum_bind (key d ''id'') (\<lambda>i.
     sum_bind (key d ''account_id'') (\<lambda>acc.
     sum_bind (key d ''symbol'') (\<lambda>sym.
     sum_bind (sum_bind (key d ''side'') side_of) (\<lambda>sd.
     sum_bind (sum_bind (key d ''order_type'') type_of) (\<lambda>ot.
     sum_bind (sum_bind (key d ''quantity'') py_float) (\<lambda>q.
     sum_bind (py_float (dict_get d ''filled_quantity'' (PInt 0))) (\<lambda>fq.
     sum_bind (sum_bind (key d ''status'') status_of) (\<lambda>st.
     sum_bind (py_float (dict_get d ''commission'' (PInt 0))) (\<lambda>cm.
     sum_bind (py_float (dict_get d ''swap'' (PInt 0))) (\<lambda>sw.
     sum_bind (py_float (dict_get d ''profit'' (PInt 0))) (\<lambda>pr.
     sum_bind (opt_time d ''opened_at'') (\<lambda>op.
     sum_bind (opt_time d ''closed_at'') (\<lambda>cl.
     sum_bind (stamp_field now d ''created_at'') (\<lambda>cr.
     sum_bind (stamp_field now d ''updated_at'') (\<lambda>up.
     Inr \<lparr>o_id = i, o_client_order_id = dict_get d ''client_order_id'' i, o_account_id = acc,
       o_strategy_id = pyget d ''strategy_id'', o_model_id = pyget d ''model_id'', o_symbol = sym,
       o_side = sd, o_order_type = ot, o_quantity = q, o_filled_quantity = fq,
       o_price = pyget d ''price'', o_stop_price = pyget d ''stop_price'', o_limit_price = pyget d ''limit_price'',
       o_status = st, o_rejection_reason = pyget d ''rejection_reason'', o_commission = cm, o_swap = sw,
       o_profit = pr, o_opened_at = op, o_closed_at = cl, o_created_at = cr, o_updated_at = up\<rparr>)))))))))))))))"

subsection \<open>The status machine\<close>

fun valid_transitions :: "order_status \<Rightarrow> order_status list" where
  "valid_transitions PENDING = [VALIDATED, REJECTED, CANCELED]"
| "valid_transitions VALIDATED = [SUBMITTED, REJECTED, CANCELED]"
| "valid_transitions SUBMITTED = [PARTIAL, FILLED, REJECTED, CANCELED, EXPIRED]"
| "valid_transitions PARTIAL = [FILLED, CANCELED, REJECTED, EXPIRED]"
| "valid_transitions FILLED = []"
| "valid_transitions REJECTED = []"
| "valid_transitions CANCELED = []"
| "valid_transitions EXPIRED = []"

subsection \<open>The engine\<close>

text \<open>
  The keyword arguments of \<open>update_order_status\<close>: any field of the order with a value of its
  type, or a name the order does not have, which is ignored. The field \<open>status\<close> cannot be among them:
  it is a parameter of the method, and Python refuses the call. Names of methods and values of
  another type, which the annotations of the class exclude, are not modelled.
\<close>

datatype order_attr =
    Id_attr pyval | Client_order_id pyval | Account_id pyval | Strategy_id pyval | Model_id pyval
  | Symbol_attr pyval | Side_attr order_side | Order_type_attr order_type
  | Quantity real | Filled_quantity real | Price pyval | Stop_price pyval | Limit_price pyval
  | Rejection_reason pyval | Commission real | Swap real | Profit real
  | Opened_at "datetime option" | Closed_at "datetime option" | Created_at datetime | Updated_at datetime
  | Unknown_attr string

fun set_attr :: "order_attr \<Rightarrow> order \<Rightarrow> order" where
  "set_attr (Id_attr v) o' = o'\<lparr>o_id := v\<rparr>"
| "set_attr (Client_order_id v) o' = o'\<lparr>o_client_order_id := v\<rparr>"
| "set_attr (Account_id v) o' = o'\<lparr>o_account_id := v\<rparr>"
| "set_attr (Strategy_id v) o' = o'\<lparr>o_strategy_id := v\<rparr>"
| "set_attr (Model_id v) o' = o'\<lparr>o_model_id := v\<rparr>"
| "set_attr (Symbol_attr v) o' = o'\<lparr>o_symbol := v\<rparr>"
| "set_attr (Side_attr v) o' = o'\<lparr>o_side := v\<rparr>"
| "set_attr (Order_type_attr v) o' = o'\<lparr>o_order_type := v\<rparr>"
| "set_attr (Quantity r) o' = o'\<lparr>o_quantity := r\<rparr>"
| "set_attr (Filled_quantity r) o' = o'\<lparr>o_filled_quantity := r\<rparr>"
| "set_attr (Price v) o' = o'\<lparr>o_price := v\<rparr>"
| "set_attr (Stop_price v) o' = o'\<lparr>o_stop_price := v\<rparr>"
| "set_attr (Limit_price v) o' = o'\<lparr>o_limit_price := v\<rparr>"
| "set_attr (Rejection_reason v) o' = o'\<lparr>o_rejection_reason := v\<rparr>"
| "set_attr (Commission r) o' = o'\<lparr>o_commission := r\<rparr>"
| "set_attr (Swap r) o' = o'\<lparr>o_swap := r\<rparr>"
| "set_attr (Profit r) o' = o'\<lparr>o_profit := r\<rparr>"
| "set_attr (Opened_at t) o' = o'\<lparr>o_opened_at := t\<rparr>"
| "set_attr (Closed_at t) o' = o'\<lparr>o_closed_at := t\<rparr>"
| "set_attr (Created_at t) o' = o'\<lparr>o_created_at := PDatetime t\<rparr>"
| "set_attr (Updated_at t) o' = o'\<lparr>o_updated_at := PDatetime t\<rparr>"
| "set_attr (Unknown_attr k) o' = o'"

record 's exec_deps =
  rp_save_order :: "pydict \<Rightarrow> ('s, pyval) io"
  rp_get_order :: "pyval \<Rightarrow> ('s, pydict option) io"
  rp_update_order :: "pyval \<Rightarrow> pydict \<Rightarrow> ('s, unit) io"
  rp_get_orders :: "pyval \<Rightarrow> pyval \<Rightarrow> ('s, pydict list) io"
  cn_get_account_info :: "('s, pydict) io"
  cn_get_positions :: "pyval \<Rightarrow> ('s, pydict list) io"
  cn_execute_order :: "pydict \<Rightarrow> ('s, pydict) io"
  cn_cancel_order :: "pyval \<Rightarrow> ('s, bool) io"
  rk_pre_trade_check :: "pydict \<Rightarrow> pydict \<Rightarrow> pydict list \<Rightarrow> ('s, trade_approval) io"
  cb_call :: "nat \<Rightarrow> pydict \<Rightarrow> ('s, unit) io"

text \<open>Registered callbacks, numbered, by event.\<close>

type_synonym callbacks = "(string \<times> nat list) list"

definition callbacks_init :: callbacks where
  "callbacks_init = [(''order_created'', []), (''order_updated'', []), (''order_filled'', []),
     (''order_rejected'', []), (''order_canceled'', [])]"

definition on_event :: "string \<Rightarrow> nat \<Rightarrow> callbacks \<Rightarrow> callbacks" where
  "on_event ev cb cbs = AList.update ev (List.insert cb (dict_get cbs ev [])) cbs"

definition off_event :: "string \<Rightarrow> nat \<Rightarrow> callbacks \<Rightarrow> callbacks" where
  "off_event ev cb cbs = (case map_of cbs ev of None \<Rightarrow> cbs | Some l \<Rightarrow> AList.update ev (removeAll cb l) cbs)"

definition emit :: "'s exec_deps \<Rightarrow> callbacks \<Rightarrow> string \<Rightarrow> pydict \<Rightarrow> ('s, unit) io" where
  "emit dp cbs ev payload =
     io_each (\<lambda>cb. io_bind (io_try (cb_call dp cb payload)) (\<lambda>_. io_return ())) (dict_get cbs ev [])"

definition get_order :: "'s exec_deps \<Rightarrow> datetime \<Rightarrow> pyval \<Rightarrow> ('s, order option) io" where
  "get_order dp now order_id = io_bind (rp_get_order dp order_id) (\<lambda>data. case data of
     None \<Rightarrow> io_return None
   | Some d \<Rightarrow> if d = [] then io_return None
       else io_bind (io_lift (hydrate now d)) (\<lambda>o'. io_return (Some o')))"

definition get_orders :: "'s exec_deps \<Rightarrow> datetime \<Rightarrow> pyval \<Rightarrow> order_status option \<Rightarrow> ('s, order list) io" where
  "get_orders dp now account_id status =
     io_bind (rp_get_orders dp account_id (case status of None \<Rightarrow> PNone | Some s \<Rightarrow> PStr (status_value s)))
       (\<lambda>rows. io_map (\<lambda>r. io_lift (hydrate now r)) rows)"

definition apply_update :: "order_status \<Rightarrow> order_attr list \<Rightarrow> datetime \<Rightarrow> order \<Rightarrow> order" where
  "apply_update status kwargs now o' =
     (fold set_attr kwargs (o'\<lparr>o_status := status\<rparr>))\<lparr>o_updated_at := PDatetime now\<rparr>"

definition update_order_status :: "'s exec_deps \<Rightarrow> callbacks \<Rightarrow> datetime \<Rightarrow> pyval \<Rightarrow> order_status \<Rightarrow> order_attr list
    \<Rightarrow> ('s, unit) io" where
  "update_order_status dp cbs now order_id status kwargs =
     io_bind (get_order dp now order_id) (\<lambda>r. case r of
       None \<Rightarrow> io_raise (ValueError ''order not found'')
     | Some o' \<Rightarrow>
        if status \<notin> set (valid_transitions (o_status o')) \<and> status \<noteq> o_status o'
        then io_raise (ValueError ''invalid status transition'')
        else io_bind (io_lift (to_dict (apply_update status kwargs now o'))) (\<lambda>d.
          io_bind (rp_update_order dp order_id d) (\<lambda>_.
          io_bind (emit dp cbs ''order_updated'' d) (\<lambda>_.
          io_when (status = REJECTED) (emit dp cbs ''order_rejected'' d)))))"

definition reason_value :: "string option \<Rightarrow> pyval" where
  "reason_value r = (case r of None \<Rightarrow> PNone | Some s \<Rightarrow> PStr s)"

text \<open>From the broker's answer to the end of \<open>submit_order\<close>.\<close>

definition record_response :: "'s exec_deps \<Rightarrow> callbacks \<Rightarrow> (nat \<Rightarrow> datetime) \<Rightarrow> order \<Rightarrow> pydict \<Rightarrow> pydict \<Rightarrow> ('s, order) io" where
  "record_response dp cbs clk o' d resp =
     (if \<not> truthy (pyget resp ''ok'') then
        io_bind (update_order_status dp cbs (clk 2) (o_id o') REJECTED
          [Rejection_reason (dict_get resp ''error'' (PStr ''broker rejected''))]) (\<lambda>_. io_return o')
      else (case dict_get resp ''result'' (PDict []) of
         PDict result \<Rightarrow>
           io_bind (io_lift (py_int (dict_get result ''retcode'' (PInt 0)))) (\<lambda>retcode.
           if retcode \<noteq> 0 then
             io_bind (update_order_status dp cbs (clk 4) (o_id o') SUBMITTED [Opened_at (Some (clk 3))]) (\<lambda>_.
             if truthy (pyget result ''deal'') then
               io_bind (update_order_status dp cbs (clk 6) (o_id o') FILLED
                 [Filled_quantity (o_quantity o'), Closed_at (Some (clk 5))]) (\<lambda>_.
               io_bind (emit dp cbs ''order_filled'' d) (\<lambda>_. io_return o'))
             else io_return o')
           else io_return o')
       | _ \<Rightarrow> io_raise (AttributeError ''get'')))"

text \<open>The clock readings of one submission are \<open>clk 0\<close>, \<open>clk 1\<close>, and so on.\<close>

definition submit_order :: "'s exec_deps \<Rightarrow> callbacks \<Rightarrow> (nat \<Rightarrow> datetime) \<Rightarrow> order \<Rightarrow> ('s, order) io" where
  "submit_order dp cbs clk o' =
     (if o_status o' \<noteq> PENDING then io_raise (ValueError ''Order must be pending'')
      else if o_quantity o' \<le> 0 then
        io_bind (update_order_status dp cbs (clk 0) (o_id o') REJECTED
          [Rejection_reason (PStr ''quantity must be positive'')]) (\<lambda>_. io_return o')
      else
        io_bind (cn_get_account_info dp) (\<lambda>account_info.
        io_bind (cn_get_positions dp (o_symbol o')) (\<lambda>positions.
        io_bind (io_lift (to_dict o')) (\<lambda>d.
        io_bind (rk_pre_trade_check dp d account_info positions) (\<lambda>approval.
        if \<not> approved approval then
          io_bind (update_order_status dp cbs (clk 0) (o_id o') REJECTED
            [Rejection_reason (reason_value (reason approval))]) (\<lambda>_. io_return o')
        else
          io_bind (update_order_status dp cbs (clk 1) (o_id o') VALIDATED []) (\<lambda>_.
          io_bind (rp_save_order dp d) (\<lambda>_.
          io_bind (emit dp cbs ''order_created'' d) (\<lambda>_.
          io_bind (cn_execute_order dp d) (record_response dp cbs clk o' d)))))))))"

definition cancel_order :: "'s exec_deps \<Rightarrow> callbacks \<Rightarrow> (nat \<Rightarrow> datetime) \<Rightarrow> pyval \<Rightarrow> ('s, bool) io" where
  "cancel_order dp cbs clk order_id =
     io_bind (get_order dp (clk 0) order_id) (\<lambda>r. case r of
       None \<Rightarrow> io_return False
     | Some o' \<Rightarrow>
        if o_status o' \<notin> {PENDING, VALIDATED, SUBMITTED, PARTIAL} then io_return False
        else io_bind (cn_cancel_order dp order_id) (\<lambda>ok.
          if ok then
            io_bind (update_order_status dp cbs (clk 1) order_id CANCELED []) (\<lambda>_.
            io_bind (io_lift (to_dict o')) (\<lambda>d.
            io_bind (emit dp cbs ''order_canceled'' d) (\<lambda>_. io_return ok)))
          else io_return ok))"

subsection \<open>The objects of the engine's test\<close>

text \<open>\<open>Repo\<close>, \<open>Connector\<close> and \<open>Risk\<close> of the test: the state is the dictionary \<open>Repo.db\<close>.\<close>

type_synonym test_db = "(pyval \<times> pydict) list"

definition test_deps :: "(nat \<Rightarrow> pydict \<Rightarrow> (test_db, unit) io) \<Rightarrow> test_db exec_deps" where
  "test_deps cb = \<lparr>
     rp_save_order = \<lambda>d. io_bind (io_lift (key d ''id'')) (\<lambda>i.
        io_bind (io_modify (AList.update i d)) (\<lambda>_. io_return i)),
     rp_get_order = \<lambda>i. io_get (\<lambda>db. map_of db i),
     rp_update_order = \<lambda>i d. io_modify (AList.update i d),
     rp_get_orders = \<lambda>acc st. io_get (\<lambda>db. filter (\<lambda>v. pyget v ''account_id'' = acc \<and>
        (st = PNone \<or> pyget v ''status'' = st)) (map snd db)),
     cn_get_account_info = io_return [(''balance'', PInt 10000), (''equity'', PInt 10000)],
     cn_get_positions = \<lambda>_. io_return [],
     cn_execute_order = \<lambda>_. io_return [(''ok'', PBool True),
        (''result'', PDict [(''retcode'', PInt 10010), (''deal'', PInt 1)])],
     cn_cancel_order = \<lambda>_. io_return True,
     rk_pre_trade_check = \<lambda>_ _ _. io_return approve,
     cb_call = cb\<rparr>"


subsection \<open>Orders and their dictionaries\<close>

lemma status_of_value [simp]: "status_of (PStr (status_value st)) = Inr st"
  by (cases st) (simp_all add: status_of_def enum_of_def)

lemma side_of_value [simp]: "side_of (PStr (side_value sd)) = Inr sd"
  by (cases sd) (simp_all add: side_of_def enum_of_def)

lemma type_of_value [simp]: "type_of (PStr (type_value ot)) = Inr ot"
  by (cases ot) (simp_all add: type_of_def enum_of_def)

definition order_stamped :: "order \<Rightarrow> bool" where
  "order_stamped o' = (\<exists>c u. o_created_at o' = PDatetime c \<and> o_updated_at o' = PDatetime u)"

definition dict_of :: "order \<Rightarrow> pydict" where
  "dict_of o' = (case to_dict o' of Inr d \<Rightarrow> d | Inl _ \<Rightarrow> [])"

lemma to_dict_stamped: "order_stamped o' \<Longrightarrow> to_dict o' = Inr (dict_of o')"
  by (auto simp: order_stamped_def dict_of_def to_dict_def iso_entry_def)

lemma dict_of_entries:
  "order_stamped o' \<Longrightarrow> \<exists>c u. dict_of o' = order_entries o' (PIso c) (PIso u) \<and>
     o_created_at o' = PDatetime c \<and> o_updated_at o' = PDatetime u"
  by (auto simp: order_stamped_def dict_of_def to_dict_def iso_entry_def)

lemma opt_time_iso [simp]: "pyget d k = opt_iso x \<Longrightarrow> opt_time d k = Inr x"
  by (cases x) (simp_all add: opt_time_def opt_iso_def)

lemma key_Some [simp]: "map_of d k = Some v \<Longrightarrow> key d k = Inr v"
  by (simp add: key_def)

lemma hydrate_dict_of: "order_stamped o' \<Longrightarrow> hydrate now (dict_of o') = Inr o'"
proof -
  assume "order_stamped o'"
  then obtain c u where d: "dict_of o' = order_entries o' (PIso c) (PIso u)"
    and cu: "o_created_at o' = PDatetime c" "o_updated_at o' = PDatetime u"
    using dict_of_entries by blast
  have times: "opt_time (order_entries o' (PIso c) (PIso u)) ''opened_at'' = Inr (o_opened_at o')"
    "opt_time (order_entries o' (PIso c) (PIso u)) ''closed_at'' = Inr (o_closed_at o')"
    by (rule opt_time_iso; simp add: order_entries_def)+
  have stamps: "stamp_field now (order_entries o' (PIso c) (PIso u)) ''created_at'' = Inr (PDatetime c)"
    "stamp_field now (order_entries o' (PIso c) (PIso u)) ''updated_at'' = Inr (PDatetime u)"
    by (simp_all add: stamp_field_def order_entries_def)
  show ?thesis
    unfolding d hydrate_def times stamps
    by (simp add: sum_bind_def key_def order_entries_def cu)
qed

text \<open>
  C13. An order whose creation and update times are set survives the trip through its
  dictionary: \<open>to_dict\<close> does not raise, and hydrating the result gives the same order, every
  field included.
\<close>

theorem order_round_trip:
  assumes "o_created_at o' = PDatetime c" and "o_updated_at o' = PDatetime u"
  shows "\<exists>d. to_dict o' = Inr d \<and> hydrate now d = Inr o'"
  using to_dict_stamped [of o'] hydrate_dict_of [of o'] assms by (auto simp: order_stamped_def)

subsection \<open>Status histories\<close>

inductive status_step :: "order_status \<Rightarrow> order_status \<Rightarrow> bool" where
  transition: "t \<in> set (valid_transitions s) \<Longrightarrow> status_step s t"

inductive_simps status_step_iff: "status_step s t"

inductive_cases status_step_from:
  "status_step PENDING t" "status_step VALIDATED t" "status_step SUBMITTED t" "status_step PARTIAL t"
  "status_step FILLED t" "status_step REJECTED t" "status_step CANCELED t" "status_step EXPIRED t"

fun status_history :: "order_status \<Rightarrow> order_status list \<Rightarrow> bool" where
  "status_history s [] = True"
| "status_history s (t # ts) = (status_step s t \<and> status_history t ts)"

text \<open>
  Statuses are ordered by what can come later: an update can only go up, and the order is exactly the
  reachability of the status machine.
\<close>

fun later_statuses :: "order_status \<Rightarrow> order_status list" where
  "later_statuses PENDING = [VALIDATED, SUBMITTED, PARTIAL, FILLED, REJECTED, CANCELED, EXPIRED]"
| "later_statuses VALIDATED = [SUBMITTED, PARTIAL, FILLED, REJECTED, CANCELED, EXPIRED]"
| "later_statuses SUBMITTED = [PARTIAL, FILLED, REJECTED, CANCELED, EXPIRED]"
| "later_statuses PARTIAL = [FILLED, REJECTED, CANCELED, EXPIRED]"
| "later_statuses _ = []"

instantiation order_status :: order
begin

definition less_order_status :: "order_status \<Rightarrow> order_status \<Rightarrow> bool" where
  "less_order_status s t = (t \<in> set (later_statuses s))"

definition less_eq_order_status :: "order_status \<Rightarrow> order_status \<Rightarrow> bool" where
  "less_eq_order_status s t = (s = t \<or> t \<in> set (later_statuses s))"

instance
proof
  fix s t u :: order_status
  show "s < t \<longleftrightarrow> s \<le> t \<and> \<not> t \<le> s"
    by (cases s; cases t) (simp_all add: less_order_status_def less_eq_order_status_def)
  show "s \<le> s" by (simp add: less_eq_order_status_def)
  show "s \<le> t \<Longrightarrow> t \<le> u \<Longrightarrow> s \<le> u"
    by (cases s; cases t) (auto simp: less_eq_order_status_def)
  show "s \<le> t \<Longrightarrow> t \<le> s \<Longrightarrow> s = t"
    by (cases s; cases t) (simp_all add: less_eq_order_status_def)
qed

end

lemma status_step_less: "status_step s t \<Longrightarrow> s < t"
  by (cases s) (auto simp: status_step_iff less_order_status_def)

lemma status_less_reachable: "s < t \<longleftrightarrow> status_step\<^sup>+\<^sup>+ s t"
proof
  have steps: "status_step PENDING VALIDATED" "status_step VALIDATED SUBMITTED" "status_step SUBMITTED PARTIAL"
    "t \<in> {FILLED, REJECTED, CANCELED, EXPIRED} \<Longrightarrow> status_step PARTIAL t"
    by (auto simp: status_step_iff)
  assume "s < t"
  then show "status_step\<^sup>+\<^sup>+ s t"
    using steps by (cases s; cases t) (auto simp: less_order_status_def intro: tranclp.r_into_trancl tranclp.trancl_into_trancl)
next
  assume "status_step\<^sup>+\<^sup>+ s t"
  then show "s < t" by (induction rule: tranclp_induct) (auto dest: status_step_less intro: less_trans)
qed

text \<open>A history goes up, so no status is ever taken twice.\<close>

lemma status_history_sorted: "status_history s ts \<Longrightarrow> sorted_wrt (<) (s # ts)"
proof (induction ts arbitrary: s)
  case (Cons t ts)
  then have "s < t" "sorted_wrt (<) (t # ts)" by (auto dest: status_step_less)
  then show ?case by (auto intro: less_trans)
qed simp

lemma sorted_wrt_less_distinct: "sorted_wrt (<) xs \<Longrightarrow> distinct xs" for xs :: "'a::order list"
  by (induction xs) auto

lemma status_history_distinct: "status_history s ts \<Longrightarrow> distinct (s # ts)"
  by (rule sorted_wrt_less_distinct [OF status_history_sorted])

fun status_rank :: "order_status \<Rightarrow> nat" where
  "status_rank PENDING = 4" | "status_rank VALIDATED = 3" | "status_rank SUBMITTED = 2"
| "status_rank PARTIAL = 1" | "status_rank _ = 0"

lemma status_step_rank: "status_step s t \<Longrightarrow> status_rank t < status_rank s"
  by (cases s) (auto simp: status_step_iff)

lemma status_history_rank: "status_history s ts \<Longrightarrow> length ts \<le> status_rank s"
  by (induction ts arbitrary: s) (auto dest!: status_step_rank, fastforce)

text \<open>
  C5. A new order changes status at most four times and never takes a status twice, and the only ways for it to end as
  filled are through validated and submitted, with or without a partial fill before the last
  step; filled, rejected, canceled and expired orders never change again.
\<close>

theorem status_histories:
  assumes "status_history PENDING ts"
  shows "length ts \<le> 4 \<and> distinct (PENDING # ts) \<and>
    (last (PENDING # ts) = FILLED \<longrightarrow>
       ts = [VALIDATED, SUBMITTED, FILLED] \<or> ts = [VALIDATED, SUBMITTED, PARTIAL, FILLED]) \<and>
    (\<forall>s \<in> {FILLED, REJECTED, CANCELED, EXPIRED}. \<forall>t. \<not> status_step s t)"
proof -
  have dead: "\<not> status_step s t" if "s \<in> {FILLED, REJECTED, CANCELED, EXPIRED}" for s t
    using that by (auto simp: status_step_iff)
  have stop: "us = []" if "status_history s us" "s \<in> {FILLED, REJECTED, CANCELED, EXPIRED}" for s us
    using that dead by (cases us) auto
  have partial: "us = [FILLED]" if "status_history PARTIAL us" "last (PARTIAL # us) = FILLED" for us
    using that stop by (cases us) (auto simp: status_step_iff)
  have submitted: "us = [FILLED] \<or> us = [PARTIAL, FILLED]"
    if "status_history SUBMITTED us" "last (SUBMITTED # us) = FILLED" for us
    using that stop partial by (cases us) (auto simp: status_step_iff)
  have validated: "us = [SUBMITTED, FILLED] \<or> us = [SUBMITTED, PARTIAL, FILLED]"
    if "status_history VALIDATED us" "last (VALIDATED # us) = FILLED" for us
    using that stop submitted by (cases us) (auto simp: status_step_iff)
  have "last (PENDING # ts) = FILLED \<longrightarrow>
       ts = [VALIDATED, SUBMITTED, FILLED] \<or> ts = [VALIDATED, SUBMITTED, PARTIAL, FILLED]"
  proof (cases ts)
    case Nil
    then show ?thesis by simp
  next
    case (Cons t us)
    then show ?thesis
      using assms stop [of t us] validated [of us] by (auto simp: status_step_iff)
  qed
  with status_history_rank [OF assms] status_history_distinct [OF assms] dead show ?thesis by simp
qed


lemma set_attr_stamps [simp]:
  "o_status (set_attr a o') = o_status o'" "order_stamped o' \<Longrightarrow> order_stamped (set_attr a o')"
  by (cases a; auto simp: order_stamped_def)+

lemma set_attrs_stamps [simp]:
  "o_status (fold set_attr as o') = o_status o'" "order_stamped o' \<Longrightarrow> order_stamped (fold set_attr as o')"
  by (induction as arbitrary: o') simp_all

lemma apply_update_fields [simp]:
  "o_updated_at (apply_update st as now o') = PDatetime now" "o_status (apply_update st as now o') = st"
  by (simp_all add: apply_update_def)

lemma apply_update_stamped: "order_stamped o' \<Longrightarrow> order_stamped (apply_update st as now o')"
proof -
  assume "order_stamped o'"
  then have "order_stamped (o'\<lparr>o_status := st\<rparr>)" by (simp add: order_stamped_def)
  then have "order_stamped (fold set_attr as (o'\<lparr>o_status := st\<rparr>))" by simp
  then show ?thesis by (auto simp: apply_update_def order_stamped_def)
qed

text \<open>What an update does to the dictionary of the order, entry by entry.\<close>

fun attr_entry :: "order_attr \<Rightarrow> (string \<times> pyval) option" where
  "attr_entry (Id_attr v) = Some (''id'', v)"
| "attr_entry (Client_order_id v) = Some (''client_order_id'', v)"
| "attr_entry (Account_id v) = Some (''account_id'', v)"
| "attr_entry (Strategy_id v) = Some (''strategy_id'', v)"
| "attr_entry (Model_id v) = Some (''model_id'', v)"
| "attr_entry (Symbol_attr v) = Some (''symbol'', v)"
| "attr_entry (Side_attr v) = Some (''side'', PStr (side_value v))"
| "attr_entry (Order_type_attr v) = Some (''order_type'', PStr (type_value v))"
| "attr_entry (Quantity r) = Some (''quantity'', PFloat r)"
| "attr_entry (Filled_quantity r) = Some (''filled_quantity'', PFloat r)"
| "attr_entry (Price v) = Some (''price'', v)"
| "attr_entry (Stop_price v) = Some (''stop_price'', v)"
| "attr_entry (Limit_price v) = Some (''limit_price'', v)"
| "attr_entry (Rejection_reason v) = Some (''rejection_reason'', v)"
| "attr_entry (Commission r) = Some (''commission'', PFloat r)"
| "attr_entry (Swap r) = Some (''swap'', PFloat r)"
| "attr_entry (Profit r) = Some (''profit'', PFloat r)"
| "attr_entry (Opened_at t) = Some (''opened_at'', opt_iso t)"
| "attr_entry (Closed_at t) = Some (''closed_at'', opt_iso t)"
| "attr_entry (Created_at t) = Some (''created_at'', PIso t)"
| "attr_entry (Updated_at t) = Some (''updated_at'', PIso t)"
| "attr_entry (Unknown_attr k) = None"
definition set_entry :: "(string \<times> pyval) option \<Rightarrow> pydict \<Rightarrow> pydict" where
  "set_entry e d = (case e of None \<Rightarrow> d | Some (k, v) \<Rightarrow> AList.update k v d)"

lemma dict_of_set_attr: "order_stamped o' \<Longrightarrow> dict_of (set_attr a o') = set_entry (attr_entry a) (dict_of o')"
  by (cases a) (auto simp: order_stamped_def dict_of_def to_dict_def iso_entry_def order_entries_def set_entry_def)

lemma dict_of_set_attrs:
  "order_stamped o' \<Longrightarrow> dict_of (fold set_attr as o') = fold (\<lambda>a. set_entry (attr_entry a)) as (dict_of o')"
  by (induction as arbitrary: o') (simp_all add: dict_of_set_attr)

lemma dict_of_update:
  assumes "order_stamped o'"
  shows "dict_of (apply_update st as now o') = AList.update ''updated_at'' (PIso now)
    (fold (\<lambda>a. set_entry (attr_entry a)) as (AList.update ''status'' (PStr (status_value st)) (dict_of o')))"
proof -
  have status: "dict_of (o2\<lparr>o_status := st\<rparr>) = AList.update ''status'' (PStr (status_value st)) (dict_of o2)"
      "dict_of (o2\<lparr>o_updated_at := PDatetime now\<rparr>) = AList.update ''updated_at'' (PIso now) (dict_of o2)"
    if "order_stamped o2" for o2
    using that by (auto simp: order_stamped_def dict_of_def to_dict_def iso_entry_def order_entries_def)
  have st: "order_stamped (o'\<lparr>o_status := st\<rparr>)" using assms by (simp add: order_stamped_def)
  then show ?thesis using assms by (simp add: apply_update_def status dict_of_set_attrs)
qed

subsection \<open>Interface: the order repository\<close>

text \<open>
  What the engine relies on: reading an order does not change the store and gives what is
  stored under its id, updating stores the dictionary under the id, and callbacks leave the
  stored orders alone.
\<close>

locale order_store =
  fixes dp :: "'s exec_deps" and view :: "'s \<Rightarrow> pyval \<Rightarrow> pydict option"
  assumes get_law: "rp_get_order dp i s = (Inr (view s i), s)"
    and update_law: "\<exists>s'. rp_update_order dp i d s = (Inr (), s') \<and> view s' = (view s)(i \<mapsto> d)"
    and callback_law: "view (snd (cb_call dp cb d s)) = view s"
begin

lemma emit_silent: "\<exists>s'. emit dp cbs ev d s = (Inr (), s') \<and> view s' = view s"
proof -
  let ?f = "\<lambda>cb. io_bind (io_try (cb_call dp cb d)) (\<lambda>_. io_return ())"
  have "\<exists>s'. io_each ?f l s = (Inr (), s') \<and> view s' = view s" for l s
  proof (induction l arbitrary: s)
    case Nil
    show ?case by (simp add: io_simps)
  next
    case (Cons cb l)
    obtain r s1 where c: "cb_call dp cb d s = (r, s1)" by fastforce
    with callback_law [of cb d s] have "view s1 = view s" by simp
    with c Cons.IH [of s1] show ?case by (simp add: io_simps)
  qed
  then show ?thesis by (simp add: emit_def)
qed

lemma get_order_stored:
  assumes "view s i = Some (dict_of o')" and "order_stamped o'"
  shows "get_order dp now i s = (Inr (Some o'), s)"
proof -
  have "dict_of o' \<noteq> []"
    using dict_of_entries [OF assms(2)] by (auto simp: order_entries_def)
  then show ?thesis
    using assms by (simp add: get_order_def get_law hydrate_dict_of io_lift_def io_return_def io_bind_def)
qed

lemma update_status_legal:
  assumes "view s i = Some (dict_of o')" and "order_stamped o'"
    and "st \<in> set (valid_transitions (o_status o')) \<or> st = o_status o'"
  shows "\<exists>s'. update_order_status dp cbs now i st kwargs s = (Inr (), s') \<and>
     view s' = (view s)(i \<mapsto> dict_of (apply_update st kwargs now o'))"
proof -
  let ?o = "apply_update st kwargs now o'"
  have st: "to_dict ?o = Inr (dict_of ?o)"
    by (rule to_dict_stamped) (use assms(2) apply_update_stamped in blast)
  obtain s1 where up: "rp_update_order dp i (dict_of ?o) s = (Inr (), s1)"
    and v1: "view s1 = (view s)(i \<mapsto> dict_of ?o)"
    using update_law by blast
  obtain s2 where e2: "emit dp cbs ''order_updated'' (dict_of ?o) s1 = (Inr (), s2)" and v2: "view s2 = view s1"
    using emit_silent by blast
  obtain s3 where e3: "emit dp cbs ''order_rejected'' (dict_of ?o) s2 = (Inr (), s3)" and v3: "view s3 = view s2"
    using emit_silent by blast
  have "update_order_status dp cbs now i st kwargs s = (Inr (), if st = REJECTED then s3 else s2)"
    using assms(3) up e2 e3
    by (auto simp: update_order_status_def get_order_stored [OF assms(1,2)] st
        io_lift_def io_when_def io_return_def)
  with v1 v2 v3 show ?thesis by simp
qed

lemma update_status_illegal:
  assumes "view s i = Some (dict_of o')" and "order_stamped o'"
    and "st \<notin> set (valid_transitions (o_status o'))" and "st \<noteq> o_status o'"
  shows "update_order_status dp cbs now i st kwargs s = (Inl (ValueError ''invalid status transition''), s)"
  using assms(3,4) by (simp add: update_order_status_def get_order_stored [OF assms(1,2)] io_raise_def)

end

lemma test_store: "order_store (test_deps cb) map_of" if "\<And>i d s. snd (cb i d s) = s"
  by unfold_locales (auto simp: test_deps_def io_simps that fun_eq_iff)

interpretation test_repo: order_store "test_deps (\<lambda>_ _. io_return ())" map_of
  by (rule test_store) (simp add: io_return_def)

text \<open>
  C7. On a repository that honours the interface, an update of a stored order either performs
  a transition the table allows (or keeps the status), and then exactly this order is replaced
  by the one with the new status, the given attributes and the new update time; or it raises
  \<open>ValueError\<close> and changes nothing.
\<close>

theorem update_respects_transitions:
  assumes "order_store dp view" and "view s i = Some (dict_of o')" and "order_stamped o'"
  shows "if st \<in> set (valid_transitions (o_status o')) \<or> st = o_status o'
    then \<exists>s'. update_order_status dp cbs now i st kwargs s = (Inr (), s') \<and>
      view s' = (view s)(i \<mapsto> dict_of (apply_update st kwargs now o'))
    else update_order_status dp cbs now i st kwargs s = (Inl (ValueError ''invalid status transition''), s)"
  using order_store.update_status_legal [OF assms] order_store.update_status_illegal [OF assms]
  by simp


subsection \<open>Submission\<close>

text \<open>
  A repository whose \<open>save_order\<close> puts the dictionary it is given in the place of what it has, as the one of
  the engine's test does.
\<close>

locale order_overwrites = order_store +
  assumes save_law: "map_of d ''id'' = Some i \<Longrightarrow> \<exists>v s'. rp_save_order dp d s = (Inr v, s') \<and> view s' = (view s)(i \<mapsto> d)"
begin

text \<open>Up to the broker: the order is marked validated, and then the caller's pending order is stored over it.\<close>

lemma validated_and_saved:
  assumes "view s (o_id o') = Some (dict_of o')" and "order_stamped o'" and "o_status o' = PENDING"
  shows "\<exists>s1 v s2 s3. update_order_status dp cbs now (o_id o') VALIDATED [] s = (Inr (), s1) \<and>
    rp_save_order dp (dict_of o') s1 = (Inr v, s2) \<and> emit dp cbs ''order_created'' (dict_of o') s2 = (Inr (), s3) \<and> view s3 = view s"
proof -
  let ?i = "o_id o'"
  have id: "map_of (dict_of o') ''id'' = Some ?i"
    using dict_of_entries [OF assms(2)] by (auto simp: order_entries_def)
  obtain s1 where s1: "update_order_status dp cbs now ?i VALIDATED [] s = (Inr (), s1)"
    and v1: "view s1 = (view s)(?i \<mapsto> dict_of (apply_update VALIDATED [] now o'))"
    using update_status_legal [OF assms(1,2), of VALIDATED] assms(3) by fastforce
  obtain v s2 where s2: "rp_save_order dp (dict_of o') s1 = (Inr v, s2)" "view s2 = (view s1)(?i \<mapsto> dict_of o')"
    using save_law [OF id] by blast
  obtain s3 where s3: "emit dp cbs ''order_created'' (dict_of o') s2 = (Inr (), s3)" "view s3 = view s2"
    using emit_silent by blast
  have "view s3 = view s" using v1 s2(2) s3(2) assms(1) by (simp add: fun_upd_idem)
  with s1 s2(1) s3(1) show ?thesis by blast
qed

end

lemma test_overwrites: "order_overwrites (test_deps cb) map_of" if "\<And>i d s. snd (cb i d s) = s"
  by (intro order_overwrites.intro test_store that order_overwrites_axioms.intro) (auto simp: test_deps_def io_simps key_def fun_eq_iff)

interpretation test_saves: order_overwrites "test_deps (\<lambda>_ _. io_return ())" map_of
  by (rule test_overwrites) (simp add: io_return_def)

text \<open>What the caller gets for an answer of the broker, and the reason filed if the broker refused.\<close>

fun submission_answer :: "order \<Rightarrow> exn + pydict \<Rightarrow> exn + order" where
  "submission_answer o' (Inl e) = Inl e"
| "submission_answer o' (Inr resp) =
     (if \<not> truthy (pyget resp ''ok'') then Inr o'
      else (case dict_get resp ''result'' (PDict []) of
         PDict result \<Rightarrow> (case py_int (dict_get result ''retcode'' (PInt 0)) of
             Inl e \<Rightarrow> Inl e
           | Inr retcode \<Rightarrow> if retcode = 0 then Inr o' else Inl (ValueError ''invalid status transition''))
       | _ \<Rightarrow> Inl (AttributeError ''get'')))"

fun broker_refusal :: "exn + pydict \<Rightarrow> pyval option" where
  "broker_refusal (Inl e) = None"
| "broker_refusal (Inr resp) =
     (if truthy (pyget resp ''ok'') then None else Some (dict_get resp ''error'' (PStr ''broker rejected'')))"

context order_store
begin

text \<open>The answer is recorded on an order that is stored as pending.\<close>

lemma pending_response:
  assumes "view s (o_id o') = Some (dict_of o')" and "order_stamped o'" and "o_status o' = PENDING"
  shows "\<exists>s'. record_response dp cbs clk o' d resp s = (submission_answer o' (Inr resp), s') \<and>
    view s' = (view s)(o_id o' \<mapsto> dict_of (case broker_refusal (Inr resp) of None \<Rightarrow> o'
      | Some v \<Rightarrow> apply_update REJECTED [Rejection_reason v] (clk 2) o'))"
proof (cases "truthy (pyget resp ''ok'')")
  case False
  then show ?thesis
    using update_status_legal [OF assms(1,2), of REJECTED cbs "clk 2"
        "[Rejection_reason (dict_get resp ''error'' (PStr ''broker rejected''))]"] assms(3)
    by (auto simp: record_response_def io_return_def)
next
  case True
  note ok = this
  have same: "(view s)(o_id o' \<mapsto> dict_of o') = view s" using assms(1) by (simp add: fun_upd_idem)
  have bad: "update_order_status dp cbs (clk 4) (o_id o') SUBMITTED kwargs s = (Inl (ValueError ''invalid status transition''), s)" for kwargs
    using update_status_illegal [OF assms(1,2), of SUBMITTED] assms(3) by simp
  have "record_response dp cbs clk o' d resp s = (submission_answer o' (Inr resp), s)"
  proof (cases "dict_get resp ''result'' (PDict [])")
    case (PDict result)
    then show ?thesis using ok bad
      by (cases "py_int (dict_get result ''retcode'' (PInt 0))")
         (auto simp: record_response_def io_lift_def io_return_def)
  qed (use ok in \<open>simp_all add: record_response_def io_raise_def\<close>)
  with ok same show ?thesis by simp
qed

end

text \<open>
  C3. Submission of a stored pending order that the risk engine approves, on a repository whose \<open>save_order\<close>
  overwrites (as that of the engine's test): whatever the broker answers or raises,
  the caller gets its own unchanged order if the broker refused or gave no return code, the broker's
  exception if it raised, and \<open>ValueError\<close> for an invalid transition if the broker
  accepted the order; and what is stored at the end is the rejected order with the broker's reason if it refused
  and the caller's still pending order otherwise: an accepted order is never recorded. No other order is touched.
\<close>

theorem submission_outcome:
  assumes repo: "order_overwrites dp view"
    and stored: "view s (o_id o') = Some (dict_of o')" "order_stamped o'"
    and pending: "o_status o' = PENDING" "0 < o_quantity o'"
    and account: "cn_get_account_info dp s = (Inr ai, s1)" and positions: "cn_get_positions dp (o_symbol o') s1 = (Inr ps, s2)"
    and check: "rk_pre_trade_check dp (dict_of o') ai ps s2 = (Inr approval, s3)" "approved approval" "view s3 = view s"
    and broker: "\<And>t. \<exists>t'. cn_execute_order dp (dict_of o') t = (r, t') \<and> view t' = view t"
  shows "\<exists>s'. submit_order dp cbs clk o' s = (submission_answer o' r, s') \<and>
    view s' = (view s)(o_id o' \<mapsto> dict_of (case broker_refusal r of None \<Rightarrow> o'
      | Some v \<Rightarrow> apply_update REJECTED [Rejection_reason v] (clk 2) o'))"
proof -
  let ?i = "o_id o'"
  have store: "order_store dp view" using repo by (simp add: order_overwrites_def)
  have in3: "view s3 ?i = Some (dict_of o')" using stored check(3) by simp
  obtain s4 v s5 s6 where s4: "update_order_status dp cbs (clk 1) ?i VALIDATED [] s3 = (Inr (), s4)"
    and s5: "rp_save_order dp (dict_of o') s4 = (Inr v, s5)" and s6: "emit dp cbs ''order_created'' (dict_of o') s5 = (Inr (), s6)"
    and v6: "view s6 = view s3"
    using order_overwrites.validated_and_saved [OF repo in3 stored(2) pending(1)] by blast
  obtain s7 where s7: "cn_execute_order dp (dict_of o') s6 = (r, s7)" and v7: "view s7 = view s6"
    using broker by blast
  have run: "submit_order dp cbs clk o' s =
      (case r of Inl e \<Rightarrow> (Inl e, s7) | Inr resp \<Rightarrow> record_response dp cbs clk o' (dict_of o') resp s7)"
    using pending account positions check(1,2) s4 s5 s6 s7
    by (simp add: submit_order_def to_dict_stamped [OF stored(2)] io_lift_def io_bind_def split: sum.split)
  have in7: "view s7 = view s" using v6 v7 check(3) by simp
  show ?thesis
  proof (cases r)
    case (Inl e)
    then show ?thesis using run in7 stored(1) by (simp add: fun_upd_idem)
  next
    case (Inr resp)
    have "view s7 ?i = Some (dict_of o')" using in7 stored(1) by simp
    from order_store.pending_response [OF store this stored(2) pending(1), of cbs clk "dict_of o'" resp]
    show ?thesis using run Inr in7 by auto
  qed
qed

text \<open>
  C14. A submission at any state either runs exactly as it would with any other \<open>execute_order\<close> in the
  connector's place, so the order never reaches the broker; or the order is pending with a positive quantity, and in
  this run the account and the positions of its symbol were read and the risk engine, asked about
  this very order with this account and these positions, approved it.
\<close>

theorem refused_orders_not_sent:
  "submit_order dp cbs clk o' s = submit_order (dp\<lparr>cn_execute_order := any\<rparr>) cbs clk o' s \<or>
   (o_status o' = PENDING \<and> 0 < o_quantity o' \<and>
    (\<exists>ai s1 ps s2 d a s3. cn_get_account_info dp s = (Inr ai, s1) \<and> cn_get_positions dp (o_symbol o') s1 = (Inr ps, s2) \<and>
       to_dict o' = Inr d \<and> rk_pre_trade_check dp d ai ps s2 = (Inr a, s3) \<and> approved a))"
proof -
  let ?dp = "dp\<lparr>cn_execute_order := any\<rparr>"
  have emit: "emit ?dp = emit dp" by (simp add: emit_def fun_eq_iff)
  have get: "get_order ?dp = get_order dp" by (simp add: get_order_def fun_eq_iff)
  have up: "update_order_status ?dp a b c d e = update_order_status dp a b c d e" for a b c d e
    unfolding update_order_status_def get
    by (rule arg_cong [where f = "io_bind _"]) (auto simp: fun_eq_iff emit split: option.splits)
  have bind: "io_bind m f t = io_bind m g t" if "\<And>a t'. m t = (Inr a, t') \<Longrightarrow> f a t' = g a t'"
    for m :: "('s, 'x) io" and f g :: "'x \<Rightarrow> ('s, order) io" and t
    using that by (auto simp: io_bind_def split: prod.splits sum.splits)
  have lift: "io_lift r t = (Inr a, t') \<Longrightarrow> r = Inr a \<and> t' = t" for r :: "exn + 'x" and t t' :: 's and a
    by (simp add: io_lift_def)
  show ?thesis
  proof (rule disjCI)
    assume no: "\<not> (o_status o' = PENDING \<and> 0 < o_quantity o' \<and>
      (\<exists>ai s1 ps s2 d a s3. cn_get_account_info dp s = (Inr ai, s1) \<and> cn_get_positions dp (o_symbol o') s1 = (Inr ps, s2) \<and>
         to_dict o' = Inr d \<and> rk_pre_trade_check dp d ai ps s2 = (Inr a, s3) \<and> approved a))"
    show "submit_order dp cbs clk o' s = submit_order ?dp cbs clk o' s"
    proof (cases "o_status o' = PENDING \<and> 0 < o_quantity o'")
      case False
      then show ?thesis by (auto simp: submit_order_def up)
    next
      case True
      then show ?thesis using no unfolding submit_order_def
        by (auto simp: up dest!: lift intro!: bind)
    qed
  qed
qed

subsection \<open>Witnesses\<close>

definition demo_o :: order where
  "demo_o = \<lparr>o_id = PStr ''1'', o_client_order_id = PStr ''c1'', o_account_id = PStr ''a1'', o_strategy_id = PNone,
     o_model_id = PNone, o_symbol = PStr ''EURUSD'', o_side = BUY, o_order_type = MARKET, o_quantity = 1,
     o_filled_quantity = 0, o_price = PNone, o_stop_price = PNone, o_limit_price = PNone, o_status = PENDING,
     o_rejection_reason = PNone, o_commission = 0, o_swap = 0, o_profit = 0, o_opened_at = None,
     o_closed_at = None, o_created_at = PDatetime 5, o_updated_at = PDatetime 6\<rparr>"

abbreviation noop_cb :: "nat \<Rightarrow> pydict \<Rightarrow> ('s, unit) io" where
  "noop_cb \<equiv> \<lambda>_ _. io_return ()"

lemma demo_o_stamped: "order_stamped demo_o"
  by (simp add: order_stamped_def demo_o_def)

theorem order_round_trip_witness: "\<exists>d. to_dict demo_o = Inr d \<and> hydrate 9 d = Inr demo_o"
  by (rule order_round_trip [where c = 5 and u = 6]) (simp_all add: demo_o_def)

theorem status_histories_witness:
  "status_history PENDING [VALIDATED, SUBMITTED, PARTIAL, FILLED] \<and> length [VALIDATED, SUBMITTED, PARTIAL, FILLED] \<le> (4::nat)"
  using status_histories [of "[VALIDATED, SUBMITTED, PARTIAL, FILLED]"] by (simp add: status_step_iff)

theorem update_respects_transitions_witness:
  "update_order_status (test_deps noop_cb) callbacks_init 7 (PStr ''1'') FILLED [] [(PStr ''1'', dict_of demo_o)] =
     (Inl (ValueError ''invalid status transition''), [(PStr ''1'', dict_of demo_o)])"
  using update_respects_transitions [OF test_repo.order_store_axioms, of "[(PStr ''1'', dict_of demo_o)]" "PStr ''1''" demo_o
      FILLED callbacks_init 7 "[]"]
  by (simp add: demo_o_stamped) (simp add: demo_o_def)

text \<open>
  The engine's test: the broker has filled the order, the caller gets an error and the repository has a pending
  order.
\<close>

theorem submission_outcome_witness:
  "\<exists>db'. submit_order (test_deps noop_cb) callbacks_init (\<lambda>n. 10) demo_o [(PStr ''1'', dict_of demo_o)] =
     (Inl (ValueError ''invalid status transition''), db') \<and> map_of db' (PStr ''1'') = Some (dict_of demo_o)"
proof -
  let ?resp = "[(''ok'', PBool True), (''result'', PDict [(''retcode'', PInt 10010), (''deal'', PInt 1)])]"
  let ?db = "[(PStr ''1'', dict_of demo_o)]"
  have "\<exists>db'. submit_order (test_deps noop_cb) callbacks_init (\<lambda>n. 10) demo_o ?db = (submission_answer demo_o (Inr ?resp), db') \<and>
    map_of db' = (map_of ?db)(o_id demo_o \<mapsto> dict_of (case broker_refusal (Inr ?resp) of None \<Rightarrow> demo_o
      | Some v \<Rightarrow> apply_update REJECTED [Rejection_reason v] 10 demo_o))"
    by (rule submission_outcome [OF test_saves.order_overwrites_axioms _ demo_o_stamped, where approval = approve and ps = "[]" and
          ai = "[(''balance'', PInt 10000), (''equity'', PInt 10000)]" and ?s1.0 = ?db and ?s2.0 = ?db and ?s3.0 = ?db])
       (simp_all add: demo_o_def test_deps_def io_simps approve_def)
  then show ?thesis by (auto simp: demo_o_def)
qed

end
