(* ===== verification/MT5_Connector.thy ===== *)
theory MT5_Connector
  imports Prelude
begin

text \<open>
  The broker connector (\<^verbatim>\<open>trading_service/src/connectors/mt5.py\<close>). The MetaTrader5 module
  is not part of the repository: it is the parameter \<open>mt5\<close> of every operation, \<open>None\<close> when the
  import failed, otherwise a record of its functions and constants over a terminal state \<open>'w\<close>.
  The state of an operation is the connector object with that terminal state. Dictionaries that
  the operations take and return are kept as dictionaries.
\<close>

subsection \<open>The broker module, a parameter\<close>

record symbol_info =
  si_trade_mode :: "int option"
  si_volume_min :: real
  si_volume_max :: real
  si_volume_step :: real
  si_trade_tick_size :: "real option"
  si_trade_stops_level :: "real option"
  si_point :: real

record tick_info =
  ti_bid :: real
  ti_ask :: real

record send_result =
  sr_retcode :: "int option"
  sr_asdict :: "pydict option"

record account_info =
  ai_margin_free :: real
  ai_asdict :: pydict

record position_info =
  pi_ticket :: int
  pi_symbol :: pyval
  pi_type :: int
  pi_volume :: real
  pi_asdict :: pydict

datatype get_filter = ByTicket int | BySymbol pyval | Everything

record 'w mt5_api =
  m_initialize :: "string option \<Rightarrow> int \<Rightarrow> ('w, bool) io"
  m_login :: "int \<Rightarrow> string \<Rightarrow> string \<Rightarrow> ('w, bool) io"
  m_shutdown :: "('w, unit) io"
  m_terminal_info :: "('w, bool) io"
  m_symbol_select :: "pyval \<Rightarrow> bool \<Rightarrow> ('w, bool) io"
  m_symbol_info :: "pyval \<Rightarrow> ('w, symbol_info option) io"
  m_symbol_info_tick :: "pyval \<Rightarrow> ('w, tick_info option) io"
  m_order_calc_margin :: "int \<Rightarrow> pyval \<Rightarrow> real \<Rightarrow> real \<Rightarrow> ('w, real option) io"
  m_account_info :: "('w, account_info option) io"
  m_order_send :: "pydict \<Rightarrow> ('w, send_result option) io"
  m_last_error :: "('w, string) io"
  m_positions_get :: "get_filter \<Rightarrow> ('w, position_info list option) io"
  m_orders_get :: "get_filter \<Rightarrow> ('w, pydict list option) io"
  m_copy_ticks_range :: "pyval \<Rightarrow> pyval \<Rightarrow> pyval \<Rightarrow> ('w, pyval list option) io"
  m_copy_ticks_from :: "pyval \<Rightarrow> pyval \<Rightarrow> int \<Rightarrow> ('w, pyval list option) io"
  m_copy_rates_range :: "pyval \<Rightarrow> pyval \<Rightarrow> pyval \<Rightarrow> pyval \<Rightarrow> ('w, pyval list option) io"
  m_copy_rates_from :: "pyval \<Rightarrow> pyval \<Rightarrow> pyval \<Rightarrow> int \<Rightarrow> ('w, pyval list option) io"
  c_trade_mode_disabled :: "int option"
  c_trade_mode_closeonly :: "int option"
  c_action_deal :: int
  c_action_pending :: int
  c_action_modify :: int
  c_action_remove :: int
  c_type_buy :: int
  c_type_sell :: int
  c_position_type_buy :: int
  c_time_gtc :: int
  c_filling_return :: int
  c_filling_ioc :: int

subsection \<open>Return codes\<close>

definition retcode_special :: "(int \<times> string) list" where
  "retcode_special =
     [(10004, ''Requote''), (10006, ''Request rejected''), (10007, ''Request canceled by trader''),
      (10008, ''Order placed''), (10009, ''Order modified''), (10010, ''Request accepted''),
      (10011, ''System order placed''), (10012, ''Order filled partially''), (10013, ''Order filled fully''),
      (10014, ''Order canceled''), (10015, ''Order deleted''), (10016, ''Order modified partially''),
      (10017, ''Order rejected''), (10018, ''Order activation triggered''),
      (10019, ''Order placed by external system''), (10030, ''Invalid stops''), (10031, ''Invalid volume''),
      (10032, ''Market closed''), (10033, ''No money''), (10034, ''Price changed''), (10035, ''Off quotes''),
      (10036, ''Broker busy''), (10039, ''Too many requests''), (10041, ''Trade disabled''),
      (10046, ''Invalid price''), (10051, ''Position closed''), (10060, ''Connection lost''),
      (10069, ''Trade timeout'')]"

definition RETCODE_MAPPING :: "(int \<times> string) list" where
  "RETCODE_MAPPING = fold (\<lambda>(k, v). AList.update k v) retcode_special
     (map (\<lambda>i. (i, ''MT5 retcode '' @ show_int i)) [10004..10069])"

definition success_codes :: "int list" where
  "success_codes = [10008, 10009, 10010, 10011, 10012, 10013, 10018, 10019]"

subsection \<open>The connector object\<close>

record mt5_credentials =
  cr_account_id :: int
  cr_password :: string
  cr_server :: string
  cr_path :: "string option"

record mt5_config =
  cf_reconnect_attempts :: nat
  cf_reconnect_delay :: real
  cf_backoff_multiplier :: real
  cf_heartbeat_interval :: int
  cf_timeout_ms :: int

definition default_config :: mt5_config where
  "default_config = \<lparr>cf_reconnect_attempts = 10, cf_reconnect_delay = 1, cf_backoff_multiplier = 2,
     cf_heartbeat_interval = 5, cf_timeout_ms = 30000\<rparr>"

text \<open>\<open>co_heartbeats\<close> counts the heartbeat tasks that have been started and not cancelled.\<close>

record connector =
  co_credentials :: mt5_credentials
  co_config :: mt5_config
  co_connected :: bool
  co_heartbeats :: nat
  co_has_task :: bool
  co_started_at :: "real option"
  co_last_heartbeat :: "datetime option"
  co_reconnect_count :: nat
  co_idempotency :: "(pyval \<times> int) list"

definition connector_init :: "mt5_credentials \<Rightarrow> mt5_config option \<Rightarrow> connector" where
  "connector_init cr cfg = \<lparr>co_credentials = cr,
     co_config = (case cfg of None \<Rightarrow> default_config | Some c \<Rightarrow> c), co_connected = False,
     co_heartbeats = 0, co_has_task = False, co_started_at = None, co_last_heartbeat = None,
     co_reconnect_count = 0, co_idempotency = []\<rparr>"

type_synonym 'w conn_state = "connector \<times> 'w"

text \<open>A call of the broker module from the connector.\<close>

definition broker :: "('w, 'a) io \<Rightarrow> ('w conn_state, 'a) io" where
  "broker m = io_zoom snd (\<lambda>w (c, _). (c, w)) m"

definition on_self :: "(connector \<Rightarrow> connector) \<Rightarrow> ('w conn_state, unit) io" where
  "on_self g = io_modify (\<lambda>(c, w). (g c, w))"

text \<open>An attribute of \<open>mt5\<close> is used without a test: \<open>None\<close> has no attributes.\<close>

definition with_mt5 :: "'w mt5_api option \<Rightarrow> ('w mt5_api \<Rightarrow> ('s, 'a) io) \<Rightarrow> ('s, 'a) io" where
  "with_mt5 mt5 k = (case mt5 of None \<Rightarrow> io_raise (AttributeError ''NoneType'') | Some api \<Rightarrow> k api)"

text \<open>The connector takes callbacks for events and drops them.\<close>

definition connector_on :: "string \<Rightarrow> nat \<Rightarrow> ('w conn_state, pyval) io" where
  "connector_on event cb = io_return PNone"

definition connector_off :: "string \<Rightarrow> nat \<Rightarrow> ('w conn_state, pyval) io" where
  "connector_off event cb = io_return PNone"

definition is_connected :: "('w conn_state, bool) io" where
  "is_connected = io_get (\<lambda>(c, w). co_connected c)"

subsection \<open>Connection\<close>

definition connect :: "'w mt5_api option \<Rightarrow> real \<Rightarrow> datetime \<Rightarrow> ('w conn_state, bool) io" where
  "connect mt5 t now = io_bind (io_get fst) (\<lambda>c.
     if co_connected c then io_return True
     else (case mt5 of None \<Rightarrow> io_return False
       | Some api \<Rightarrow>
          io_bind (broker (m_initialize api
             (case cr_path (co_credentials c) of Some p \<Rightarrow> if p \<noteq> [] then Some p else None | None \<Rightarrow> None)
             (cf_timeout_ms (co_config c)))) (\<lambda>ok.
          if \<not> ok then io_bind (broker (m_last_error api)) (\<lambda>_. io_return False)
          else io_bind (broker (m_login api (cr_account_id (co_credentials c))
               (cr_password (co_credentials c)) (cr_server (co_credentials c)))) (\<lambda>logged.
            if \<not> logged then io_bind (broker (m_last_error api)) (\<lambda>_.
               io_bind (broker (m_shutdown api)) (\<lambda>_. io_return False))
            else io_bind (on_self (\<lambda>c. c\<lparr>co_connected := True, co_started_at := Some t,
                co_last_heartbeat := Some now, co_has_task := True,
                co_heartbeats := Suc (co_heartbeats c)\<rparr>)) (\<lambda>_. io_return True)))))"

definition disconnect :: "'w mt5_api option \<Rightarrow> ('w conn_state, unit) io" where
  "disconnect mt5 = io_bind (on_self (\<lambda>c. if co_has_task c then c\<lparr>co_heartbeats := co_heartbeats c - 1\<rparr> else c)) (\<lambda>_.
     io_bind (case mt5 of None \<Rightarrow> io_return () | Some api \<Rightarrow> broker (m_shutdown api)) (\<lambda>_.
     on_self (\<lambda>c. c\<lparr>co_connected := False\<rparr>)))"

text \<open>
  The reconnect loop with \<open>n\<close> attempts left; besides the answer it returns the delays slept.
  \<open>clock\<close> gives the two clock readings of the attempt with \<open>n\<close> attempts left after it.
\<close>

fun reconnect_loop :: "'w mt5_api option \<Rightarrow> (nat \<Rightarrow> real \<times> datetime) \<Rightarrow> real \<Rightarrow> nat \<Rightarrow> real
    \<Rightarrow> ('w conn_state, bool \<times> real list) io" where
  "reconnect_loop mt5 clock mult 0 delay = io_return (False, [])"
| "reconnect_loop mt5 clock mult (Suc n) delay =
     io_bind (on_self (\<lambda>c. c\<lparr>co_reconnect_count := Suc (co_reconnect_count c)\<rparr>)) (\<lambda>_.
     io_bind (connect mt5 (fst (clock n)) (snd (clock n))) (\<lambda>ok.
       if ok then io_return (True, [delay])
       else io_bind (reconnect_loop mt5 clock mult n (delay * mult))
              (\<lambda>(r, ds). io_return (r, delay # ds))))"

definition reconnect :: "'w mt5_api option \<Rightarrow> (nat \<Rightarrow> real \<times> datetime) \<Rightarrow> ('w conn_state, bool \<times> real list) io" where
  "reconnect mt5 clock = io_bind (io_get (\<lambda>(c, w). co_config c)) (\<lambda>cfg.
     reconnect_loop mt5 clock (cf_backoff_multiplier cfg) (cf_reconnect_attempts cfg) (cf_reconnect_delay cfg))"

text \<open>
  One round of a heartbeat task, up to its sleep. The result says whether the task goes on:
  it ends when the connection is down at the head of the loop.
\<close>

definition heartbeat_round :: "'w mt5_api option \<Rightarrow> (nat \<Rightarrow> real \<times> datetime) \<Rightarrow> datetime \<Rightarrow> ('w conn_state, bool) io" where
  "heartbeat_round mt5 clock now = io_bind (io_get (\<lambda>(c, w). co_connected c)) (\<lambda>up.
     if \<not> up then io_return False
     else io_bind (io_try
        (io_bind (case mt5 of None \<Rightarrow> io_return False | Some api \<Rightarrow> broker (m_terminal_info api)) (\<lambda>info.
          if \<not> info then
            io_bind (on_self (\<lambda>c. c\<lparr>co_connected := False\<rparr>)) (\<lambda>_.
            io_bind (reconnect mt5 clock) (\<lambda>_. io_return ()))
          else on_self (\<lambda>c. c\<lparr>co_last_heartbeat := Some now\<rparr>)))) (\<lambda>_. io_return True))"

subsection \<open>Market data\<close>

definition subscribe_market_data :: "'w mt5_api option \<Rightarrow> string list \<Rightarrow> ('w conn_state, (string \<times> bool) list) io" where
  "subscribe_market_data mt5 symbols =
     io_bind (io_map (\<lambda>s. case mt5 of None \<Rightarrow> io_return (s, False)
        | Some api \<Rightarrow> io_bind (broker (m_symbol_select api (PStr s) True)) (\<lambda>b. io_return (s, b))) symbols)
       (\<lambda>kvs. io_return (fold (\<lambda>(k, v). AList.update k v) kvs []))"

definition unsubscribe_market_data :: "'w mt5_api option \<Rightarrow> string list \<Rightarrow> ('w conn_state, unit) io" where
  "unsubscribe_market_data mt5 symbols =
     io_each (\<lambda>s. case mt5 of None \<Rightarrow> io_return ()
        | Some api \<Rightarrow> io_bind (broker (m_symbol_select api (PStr s) False)) (\<lambda>_. io_return ())) symbols"

text \<open>
  \<open>data or []\<close> on what the module returns: \<open>None\<close> is false, and the truth value of an array is
  numpy's, the parameter \<open>np_truth\<close>. \<open>convert\<close> is the conversion of one row.
\<close>

definition rows_or_empty :: "(pyval list \<Rightarrow> exn + bool) \<Rightarrow> (pyval \<Rightarrow> pyval) \<Rightarrow> pyval list option \<Rightarrow> ('s, pyval list) io" where
  "rows_or_empty np_truth convert data = (case data of None \<Rightarrow> io_return []
     | Some rows \<Rightarrow> io_bind (io_lift (np_truth rows)) (\<lambda>b. io_return (if b then map convert rows else [])))"

definition get_ticks :: "(pyval list \<Rightarrow> exn + bool) \<Rightarrow> (pyval \<Rightarrow> pyval) \<Rightarrow> 'w mt5_api option
    \<Rightarrow> pyval \<Rightarrow> pyval \<Rightarrow> pyval \<Rightarrow> int \<Rightarrow> ('w conn_state, pyval list) io" where
  "get_ticks np_truth convert mt5 symbol from_date to_date cnt = with_mt5 mt5 (\<lambda>api.
     io_bind (broker (if truthy to_date then m_copy_ticks_range api symbol from_date to_date
                      else m_copy_ticks_from api symbol from_date cnt))
       (rows_or_empty np_truth convert))"

definition get_rates :: "(pyval list \<Rightarrow> exn + bool) \<Rightarrow> (pyval \<Rightarrow> pyval) \<Rightarrow> 'w mt5_api option
    \<Rightarrow> pyval \<Rightarrow> pyval \<Rightarrow> pyval \<Rightarrow> pyval \<Rightarrow> int \<Rightarrow> ('w conn_state, pyval list) io" where
  "get_rates np_truth convert mt5 symbol timeframe from_date to_date cnt = with_mt5 mt5 (\<lambda>api.
     io_bind (broker (if truthy to_date then m_copy_rates_range api symbol timeframe from_date to_date
                      else m_copy_rates_from api symbol timeframe from_date cnt))
       (rows_or_empty np_truth convert))"


subsection \<open>Validation of an order\<close>

definition validate_symbol :: "'w mt5_api option \<Rightarrow> pyval \<Rightarrow> ('w conn_state, string + symbol_info) io" where
  "validate_symbol mt5 symbol = (case mt5 of None \<Rightarrow> io_return (Inl ''symbol not found'')
     | Some api \<Rightarrow> io_bind (broker (m_symbol_info api symbol)) (\<lambda>info. io_return (case info of
         None \<Rightarrow> Inl ''symbol not found''
       | Some i \<Rightarrow>
          (let mode = (case si_trade_mode i of None \<Rightarrow> 0 | Some x \<Rightarrow> x) in
           if mode = (case c_trade_mode_disabled api of None \<Rightarrow> -1 | Some x \<Rightarrow> x) then Inl ''symbol trade mode disabled''
           else if mode = (case c_trade_mode_closeonly api of None \<Rightarrow> -2 | Some x \<Rightarrow> x) then Inl ''symbol is close-only''
           else Inr i))))"

definition misaligned :: "real \<Rightarrow> real \<Rightarrow> bool" where
  "misaligned x step = (\<bar>x / step - of_int (py_round (x / step))\<bar> > 1 / 10 ^ 9)"

definition validate_volume :: "symbol_info \<Rightarrow> real \<Rightarrow> string option" where
  "validate_volume i volume =
     (if volume < si_volume_min i \<or> volume > si_volume_max i then Some ''volume outside range''
      else if si_volume_step i > 0 \<and> misaligned volume (si_volume_step i) then Some ''volume step invalid''
      else None)"

definition validate_price_tick :: "symbol_info \<Rightarrow> real \<Rightarrow> string option" where
  "validate_price_tick i price =
     (let tick_size = (case si_trade_tick_size i of None \<Rightarrow> 0 | Some x \<Rightarrow> x) in
      if tick_size \<le> 0 then None
      else if misaligned price tick_size then Some ''price not aligned to tick size''
      else None)"

text \<open>An operand of an arithmetic operator: a number, otherwise a type error.\<close>

fun py_operand :: "pyval \<Rightarrow> exn + real" where
  "py_operand (PInt i) = Inr (of_int i)"
| "py_operand (PFloat r) = Inr r"
| "py_operand (PBool b) = Inr (if b then 1 else 0)"
| "py_operand _ = Inl (TypeError ''unsupported operand type(s) for -'')"

definition stop_too_close :: "real \<Rightarrow> real \<Rightarrow> pyval \<Rightarrow> exn + bool" where
  "stop_too_close level price v = (if \<not> truthy v then Inr False
     else (case py_operand v of Inl e \<Rightarrow> Inl e | Inr x \<Rightarrow> Inr (\<bar>price - x\<bar> < level)))"

definition validate_stops :: "symbol_info \<Rightarrow> real \<Rightarrow> pyval \<Rightarrow> pyval \<Rightarrow> exn + string option" where
  "validate_stops i price sl tp =
     (let level = (case si_trade_stops_level i of None \<Rightarrow> 0 | Some x \<Rightarrow> x) * si_point i in
      case stop_too_close level price sl of Inl e \<Rightarrow> Inl e
      | Inr True \<Rightarrow> Inr (Some ''stop loss too close'')
      | Inr False \<Rightarrow> (case stop_too_close level price tp of Inl e \<Rightarrow> Inl e
          | Inr True \<Rightarrow> Inr (Some ''take profit too close'')
          | Inr False \<Rightarrow> Inr None))"

subsection \<open>Orders\<close>

definition failure :: "string \<Rightarrow> pydict" where
  "failure msg = [(''ok'', PBool False), (''error'', PStr msg)]"

definition client_id_of :: "pydict \<Rightarrow> pyval" where
  "client_id_of order = py_str (py_or (py_or (pyget order ''client_order_id'') (pyget order ''idempotency_key'')) (PStr []))"

definition order_side :: "pydict \<Rightarrow> pyval" where
  "order_side order = py_upper (py_str (dict_get order ''side'' (PStr ''BUY'')))"

definition order_kind :: "pydict \<Rightarrow> pyval" where
  "order_kind order = py_upper (py_str (dict_get order ''type'' (PStr ''MARKET'')))"

definition order_volume :: "pydict \<Rightarrow> exn + real" where
  "order_volume order = py_float (py_or (py_or (pyget order ''volume'') (pyget order ''quantity'')) (PInt 0))"

fun text_prefix :: "nat \<Rightarrow> pyval \<Rightarrow> pyval" where
  "text_prefix n (PStr s) = PStr (take n s)"
| "text_prefix n v = v"

definition order_comment :: "pydict \<Rightarrow> pyval" where
  "order_comment order = text_prefix 31 (py_str (py_or (client_id_of order) (dict_get order ''comment'' (PStr ''mtrader''))))"

text \<open>The request dictionary, in the order in which its entries are evaluated.\<close>

definition order_request :: "'w mt5_api \<Rightarrow> pydict \<Rightarrow> real \<Rightarrow> real \<Rightarrow> exn + pydict" where
  "order_request api order volume price =
     (case py_float (py_or (pyget order ''stop_price'') (PInt 0)) of Inl e \<Rightarrow> Inl e | Inr sl \<Rightarrow>
     (case py_float (py_or (pyget order ''limit_price'') (PInt 0)) of Inl e \<Rightarrow> Inl e | Inr tp \<Rightarrow>
     (case py_int (dict_get order ''deviation'' (PInt 10)) of Inl e \<Rightarrow> Inl e | Inr dev \<Rightarrow>
     (case py_int (dict_get order ''magic'' (PInt 100001)) of Inl e \<Rightarrow> Inl e | Inr mg \<Rightarrow>
      Inr [(''action'', PInt (if order_kind order = PStr ''MARKET'' then c_action_deal api else c_action_pending api)),
           (''symbol'', pyget order ''symbol''),
           (''volume'', PFloat volume),
           (''type'', PInt (if order_side order = PStr ''BUY'' then c_type_buy api else c_type_sell api)),
           (''price'', PFloat price),
           (''sl'', PFloat sl),
           (''tp'', PFloat tp),
           (''deviation'', PInt dev),
           (''magic'', PInt mg),
           (''comment'', order_comment order),
           (''type_time'', PInt (c_time_gtc api)),
           (''type_filling'', PInt (c_filling_return api))]))))"

text \<open>From \<open>mt5.order_send\<close> to the end of \<open>execute_order\<close>.\<close>

definition send_order :: "'w mt5_api \<Rightarrow> pyval \<Rightarrow> pydict \<Rightarrow> ('w conn_state, pydict) io" where
  "send_order api client_id req =
     io_bind (broker (m_order_send api req)) (\<lambda>result. case result of
       None \<Rightarrow> io_bind (broker (m_last_error api)) (\<lambda>err. io_return (failure (''order_send failed '' @ err)))
     | Some res \<Rightarrow>
        (let retcode = (case sr_retcode res of None \<Rightarrow> 0 | Some r \<Rightarrow> r);
             payload = (case sr_asdict res of None \<Rightarrow> [(''retcode'', PInt retcode)] | Some d \<Rightarrow> d)
         in io_bind (io_lift (py_int (py_or (py_or (pyget payload ''order'') (pyget payload ''deal'')) (PInt 0)))) (\<lambda>oid.
            io_bind (if truthy client_id \<and> oid \<noteq> 0
                then on_self (\<lambda>c. c\<lparr>co_idempotency := AList.update client_id oid (co_idempotency c)\<rparr>)
                else io_return ()) (\<lambda>_.
            io_return [(''ok'', PBool (retcode \<in> set success_codes)), (''retcode'', PInt retcode),
              (''retcode_message'', PStr (dict_get RETCODE_MAPPING retcode (''Unknown retcode '' @ show_int retcode))),
              (''broker_order_id'', PInt oid), (''result'', PDict payload)]))))"

text \<open>
  Margin check and request, after validation: \<open>mt5.symbol_select\<close> to the end of \<open>execute_order\<close>.
\<close>

definition place_order :: "'w mt5_api \<Rightarrow> pydict \<Rightarrow> real \<Rightarrow> real \<Rightarrow> ('w conn_state, pydict) io" where
  "place_order api order volume price =
     (let symbol = pyget order ''symbol'';
          otype = (if order_side order = PStr ''BUY'' then c_type_buy api else c_type_sell api)
      in io_bind (broker (m_symbol_select api symbol True)) (\<lambda>selected.
         if \<not> selected then io_return (failure ''symbol select failed'')
         else io_bind (broker (m_order_calc_margin api otype symbol volume price)) (\<lambda>margin.
         io_bind (broker (m_account_info api)) (\<lambda>acct.
         if (case margin of None \<Rightarrow> True | Some mg \<Rightarrow>
              (case acct of None \<Rightarrow> True | Some a \<Rightarrow> ai_margin_free a < mg))
         then io_return (failure ''insufficient margin'')
         else io_bind (io_lift (order_request api order volume price))
                (send_order api (client_id_of order))))))"

text \<open>The path of an order that is not a known duplicate.\<close>

definition execute_new :: "'w mt5_api option \<Rightarrow> pydict \<Rightarrow> ('w conn_state, pydict) io" where
  "execute_new mt5 order =
     (let symbol = pyget order ''symbol'' in
      io_bind (io_lift (order_volume order)) (\<lambda>volume.
      if \<not> truthy symbol \<or> volume \<le> 0 then io_return (failure ''invalid order payload'')
      else io_bind (validate_symbol mt5 symbol) (\<lambda>v. case v of
        Inl msg \<Rightarrow> io_return (failure msg)
      | Inr info \<Rightarrow> (case validate_volume info volume of
          Some msg \<Rightarrow> io_return (failure msg)
        | None \<Rightarrow> with_mt5 mt5 (\<lambda>api.
            io_bind (broker (m_symbol_info_tick api symbol)) (\<lambda>tick. case tick of
              None \<Rightarrow> io_return (failure ''no market tick'')
            | Some tk \<Rightarrow>
              io_bind (io_lift (py_float (py_or (pyget order ''price'')
                  (PFloat (if order_side order = PStr ''BUY'' then ti_ask tk else ti_bid tk))))) (\<lambda>price.
              case validate_price_tick info price of
                Some msg \<Rightarrow> io_return (failure msg)
              | None \<Rightarrow> io_bind (io_lift (validate_stops info price
                    (pyget order ''stop_price'') (pyget order ''limit_price''))) (\<lambda>stops. case stops of
                  Some msg \<Rightarrow> io_return (failure msg)
                | None \<Rightarrow> place_order api order volume price))))))))"

definition execute_order :: "'w mt5_api option \<Rightarrow> pydict \<Rightarrow> ('w conn_state, pydict) io" where
  "execute_order mt5 order = io_bind (io_get (\<lambda>(c, w). co_idempotency c)) (\<lambda>seen.
     case (if truthy (client_id_of order) then map_of seen (client_id_of order) else None) of
       Some oid \<Rightarrow> io_return [(''ok'', PBool True), (''duplicate'', PBool True), (''broker_order_id'', PInt oid)]
     | None \<Rightarrow> execute_new mt5 order)"

definition opt_entry :: "string \<Rightarrow> pyval \<Rightarrow> pydict \<Rightarrow> exn + pydict" where
  "opt_entry k v req = (if v = PNone then Inr req
     else (case py_float v of Inl e \<Rightarrow> Inl e | Inr x \<Rightarrow> Inr (req @ [(k, PFloat x)])))"

definition modify_request :: "'w mt5_api \<Rightarrow> int \<Rightarrow> pyval \<Rightarrow> pyval \<Rightarrow> pyval \<Rightarrow> pyval \<Rightarrow> exn + pydict" where
  "modify_request api oid price stop_price limit_price quantity =
     (case opt_entry ''price'' price [(''action'', PInt (c_action_modify api)), (''order'', PInt oid)] of
        Inl e \<Rightarrow> Inl e | Inr r1 \<Rightarrow>
     (case opt_entry ''sl'' stop_price r1 of Inl e \<Rightarrow> Inl e | Inr r2 \<Rightarrow>
     (case opt_entry ''tp'' limit_price r2 of Inl e \<Rightarrow> Inl e | Inr r3 \<Rightarrow>
      opt_entry ''volume'' quantity r3)))"

text \<open>The answer to a modify or close request: the codes that count as success are given.\<close>

definition answer :: "int list \<Rightarrow> send_result \<Rightarrow> exn + pydict" where
  "answer codes res =
     (let retcode = (case sr_retcode res of None \<Rightarrow> 0 | Some r \<Rightarrow> r) in
      case sr_asdict res of None \<Rightarrow> Inl (AttributeError ''_asdict'')
      | Some d \<Rightarrow> Inr [(''ok'', PBool (retcode \<in> set codes)), (''retcode'', PInt retcode),
          (''retcode_message'', PStr (dict_get RETCODE_MAPPING retcode (show_int retcode))),
          (''result'', PDict d)])"

definition modify_order :: "'w mt5_api option \<Rightarrow> pyval \<Rightarrow> pyval \<Rightarrow> pyval \<Rightarrow> pyval \<Rightarrow> pyval
    \<Rightarrow> ('w conn_state, pydict) io" where
  "modify_order mt5 order_id price stop_price limit_price quantity = with_mt5 mt5 (\<lambda>api.
     io_bind (io_lift (py_int order_id)) (\<lambda>oid.
     io_bind (io_lift (modify_request api oid price stop_price limit_price quantity)) (\<lambda>req.
     io_bind (broker (m_order_send api req)) (\<lambda>res. case res of
       None \<Rightarrow> io_return (failure ''modify failed'')
     | Some r \<Rightarrow> io_lift (answer [10009, 10016] r)))))"

definition cancel_order :: "'w mt5_api option \<Rightarrow> pyval \<Rightarrow> ('w conn_state, bool) io" where
  "cancel_order mt5 order_id = with_mt5 mt5 (\<lambda>api.
     io_bind (io_lift (py_int order_id)) (\<lambda>oid.
     io_bind (broker (m_order_send api [(''action'', PInt (c_action_remove api)), (''order'', PInt oid)])) (\<lambda>res.
     io_return (case res of None \<Rightarrow> False
       | Some r \<Rightarrow> (case sr_retcode r of None \<Rightarrow> 0 | Some x \<Rightarrow> x) \<in> {10014, 10015}))))"

definition close_request :: "'w mt5_api \<Rightarrow> int \<Rightarrow> position_info \<Rightarrow> tick_info \<Rightarrow> int \<Rightarrow> pydict" where
  "close_request api pid pos tk deviation =
     (let close_type = (if pi_type pos = c_position_type_buy api then c_type_sell api else c_type_buy api) in
      [(''action'', PInt (c_action_deal api)), (''position'', PInt pid), (''symbol'', pi_symbol pos),
       (''volume'', PFloat (pi_volume pos)), (''type'', PInt close_type),
       (''price'', PFloat (if close_type = c_type_sell api then ti_bid tk else ti_ask tk)),
       (''deviation'', PInt deviation), (''type_time'', PInt (c_time_gtc api)),
       (''type_filling'', PInt (c_filling_ioc api))])"

definition close_position :: "'w mt5_api option \<Rightarrow> pyval \<Rightarrow> int \<Rightarrow> ('w conn_state, pydict) io" where
  "close_position mt5 position_id deviation = with_mt5 mt5 (\<lambda>api.
     io_bind (io_lift (py_int position_id)) (\<lambda>pid.
     io_bind (broker (m_positions_get api (ByTicket pid))) (\<lambda>ps. case ps of
       None \<Rightarrow> io_return (failure ''position not found'')
     | Some [] \<Rightarrow> io_return (failure ''position not found'')
     | Some (pos # _) \<Rightarrow>
        io_bind (broker (m_symbol_info_tick api (pi_symbol pos))) (\<lambda>tick. case tick of
          None \<Rightarrow> io_raise (AttributeError ''NoneType'')
        | Some tk \<Rightarrow>
          io_bind (broker (m_order_send api (close_request api pid pos tk deviation))) (\<lambda>res. case res of
            None \<Rightarrow> io_return (failure ''close failed'')
          | Some r \<Rightarrow> io_lift (answer [10013, 10012] r))))))"

definition position_filter :: "pyval \<Rightarrow> get_filter" where
  "position_filter symbol = (if truthy symbol then BySymbol symbol else Everything)"

definition close_all_positions :: "'w mt5_api option \<Rightarrow> pyval \<Rightarrow> ('w conn_state, pydict list) io" where
  "close_all_positions mt5 symbol = with_mt5 mt5 (\<lambda>api.
     io_bind (broker (m_positions_get api (position_filter symbol))) (\<lambda>rows.
     io_map (\<lambda>r. close_position mt5 (PInt (pi_ticket r)) 10) (case rows of None \<Rightarrow> [] | Some rs \<Rightarrow> rs)))"

definition get_account_info :: "'w mt5_api option \<Rightarrow> ('w conn_state, pydict) io" where
  "get_account_info mt5 = with_mt5 mt5 (\<lambda>api.
     io_bind (broker (m_account_info api)) (\<lambda>info. io_return (case info of None \<Rightarrow> []
       | Some a \<Rightarrow> (let d = ai_asdict a in
          [(''balance'', pyget d ''balance''), (''equity'', pyget d ''equity''), (''margin'', pyget d ''margin''),
           (''free_margin'', pyget d ''margin_free''), (''margin_level'', pyget d ''margin_level''),
           (''profit'', pyget d ''profit''), (''leverage'', pyget d ''leverage''), (''currency'', pyget d ''currency'')]))))"

definition get_positions :: "'w mt5_api option \<Rightarrow> pyval \<Rightarrow> ('w conn_state, pydict list) io" where
  "get_positions mt5 symbol = with_mt5 mt5 (\<lambda>api.
     io_bind (broker (m_positions_get api (position_filter symbol))) (\<lambda>rows.
     io_return (map pi_asdict (case rows of None \<Rightarrow> [] | Some rs \<Rightarrow> rs))))"

definition get_orders :: "'w mt5_api option \<Rightarrow> pyval \<Rightarrow> ('w conn_state, pydict list) io" where
  "get_orders mt5 symbol = with_mt5 mt5 (\<lambda>api.
     io_bind (broker (m_orders_get api (position_filter symbol))) (\<lambda>rows.
     io_return (case rows of None \<Rightarrow> [] | Some rs \<Rightarrow> rs)))"

definition connection_health :: "real \<Rightarrow> connector \<Rightarrow> pydict" where
  "connection_health t c =
     [(''uptime'', PInt (case co_started_at c of None \<Rightarrow> 0 | Some t0 \<Rightarrow> if t0 = 0 then 0 else truncate_real (t - t0))),
      (''last_heartbeat'', (case co_last_heartbeat c of None \<Rightarrow> PNone | Some h \<Rightarrow> PIso h)),
      (''reconnect_count'', PInt (int (co_reconnect_count c)))]"


subsection \<open>Rules for the connector's computations\<close>

lemma broker_eq [io_simps]: "broker m (c, w) = (fst (m w), (c, snd (m w)))"
  by (simp add: broker_def io_zoom_def split: prod.splits)

lemma brokerE:
  assumes "broker m (c, w) = (r, st)"
  obtains w' where "m w = (r, w')" and "st = (c, w')"
  using assms by (cases "m w") (auto simp: broker_eq)

lemma on_self_eq [io_simps]: "on_self g (c, w) = (Inr (), (g c, w))"
  by (simp add: on_self_def io_modify_def)

lemma keeps_broker [keeps]: "io_keeps (\<lambda>st. f (fst st)) (broker m)"
  by (auto simp: io_keeps_def io_simps)

lemma keeps_on_self: "(\<And>c. f (g c) = f c) \<Longrightarrow> io_keeps (\<lambda>st. f (fst st)) (on_self g)"
  by (auto simp: io_keeps_def io_simps)

lemma keeps_with_mt5 [keeps]: "(\<And>api. mt5 = Some api \<Longrightarrow> io_keeps f (k api)) \<Longrightarrow> io_keeps f (with_mt5 mt5 k)"
  by (simp add: with_mt5_def io_keeps_basic split: option.splits)

lemma keeps_option [keeps]:
  "(x = None \<Longrightarrow> io_keeps f m) \<Longrightarrow> (\<And>a. x = Some a \<Longrightarrow> io_keeps f (g a)) \<Longrightarrow>
   io_keeps f (case x of None \<Rightarrow> m | Some a \<Rightarrow> g a)"
  by (simp split: option.splits)

lemma keeps_list [keeps]:
  "(x = [] \<Longrightarrow> io_keeps f m) \<Longrightarrow> (\<And>a as. x = a # as \<Longrightarrow> io_keeps f (g a as)) \<Longrightarrow>
   io_keeps f (case x of [] \<Rightarrow> m | a # as \<Rightarrow> g a as)"
  by (simp split: list.splits)

lemma keeps_prod [keeps]:
  "(\<And>a b. x = (a, b) \<Longrightarrow> io_keeps f (g a b)) \<Longrightarrow> io_keeps f (case x of (a, b) \<Rightarrow> g a b)"
  by (simp split: prod.splits)

text \<open>Connecting leaves the table of sent orders alone, and so do all the other operations.\<close>

lemma keeps_connect [keeps]: "io_keeps (\<lambda>st. co_idempotency (fst st)) (connect mt5 t now)"
  unfolding connect_def by (intro keeps keeps_on_self) simp_all

lemma keeps_reconnect_loop: "io_keeps (\<lambda>st. co_idempotency (fst st)) (reconnect_loop mt5 clock mult n delay)"
  by (induction n arbitrary: delay) (auto intro!: keeps keeps_on_self)

lemma keeps_reconnect [keeps]: "io_keeps (\<lambda>st. co_idempotency (fst st)) (reconnect mt5 clock)"
  unfolding reconnect_def by (intro keeps keeps_reconnect_loop)

lemma keeps_disconnect [keeps]: "io_keeps (\<lambda>st. co_idempotency (fst st)) (disconnect mt5)"
  unfolding disconnect_def by (intro keeps keeps_on_self) simp_all

lemma keeps_heartbeat [keeps]: "io_keeps (\<lambda>st. co_idempotency (fst st)) (heartbeat_round mt5 clock now)"
  unfolding heartbeat_round_def by (intro keeps keeps_on_self) simp_all

lemma keeps_subscription [keeps]:
  "io_keeps (\<lambda>st. f (fst st)) (subscribe_market_data mt5 symbols)"
  "io_keeps (\<lambda>st. f (fst st)) (unsubscribe_market_data mt5 symbols)"
  unfolding subscribe_market_data_def unsubscribe_market_data_def by (intro keeps)+

lemma keeps_requests [keeps]:
  "io_keeps (\<lambda>st. f (fst st)) (modify_order mt5 oid a b d q)"
  "io_keeps (\<lambda>st. f (fst st)) (cancel_order mt5 oid)"
  "io_keeps (\<lambda>st. f (fst st)) (close_position mt5 oid dev)"
  unfolding modify_order_def cancel_order_def close_position_def by (intro keeps)+

lemma keeps_close_all [keeps]: "io_keeps (\<lambda>st. f (fst st)) (close_all_positions mt5 symbol)"
  unfolding close_all_positions_def by (intro keeps)

subsection \<open>The connector driven by a sequence of calls\<close>

datatype conn_op =
    Connect real datetime
  | Disconnect
  | Reconnect "nat \<Rightarrow> real \<times> datetime"
  | Heartbeat "nat \<Rightarrow> real \<times> datetime" datetime
  | Subscribe "string list"
  | Unsubscribe "string list"
  | ExecuteOrder pydict
  | ModifyOrder pyval pyval pyval pyval pyval
  | CancelOrder pyval
  | ClosePosition pyval int
  | CloseAllPositions pyval

fun conn_step :: "'w mt5_api option \<Rightarrow> 'w conn_state \<Rightarrow> conn_op \<Rightarrow> 'w conn_state" where
  "conn_step mt5 st (Connect t now) = snd (connect mt5 t now st)"
| "conn_step mt5 st Disconnect = snd (disconnect mt5 st)"
| "conn_step mt5 st (Reconnect clock) = snd (reconnect mt5 clock st)"
| "conn_step mt5 st (Heartbeat clock now) = snd (heartbeat_round mt5 clock now st)"
| "conn_step mt5 st (Subscribe ss) = snd (subscribe_market_data mt5 ss st)"
| "conn_step mt5 st (Unsubscribe ss) = snd (unsubscribe_market_data mt5 ss st)"
| "conn_step mt5 st (ExecuteOrder order) = snd (execute_order mt5 order st)"
| "conn_step mt5 st (ModifyOrder oid a b d q) = snd (modify_order mt5 oid a b d q st)"
| "conn_step mt5 st (CancelOrder oid) = snd (cancel_order mt5 oid st)"
| "conn_step mt5 st (ClosePosition pid dev) = snd (close_position mt5 pid dev st)"
| "conn_step mt5 st (CloseAllPositions s) = snd (close_all_positions mt5 s st)"


subsection \<open>Sent orders are remembered\<close>

lemma keeps_sum [keeps]:
  "(\<And>a. x = Inl a \<Longrightarrow> io_keeps f (g a)) \<Longrightarrow> (\<And>b. x = Inr b \<Longrightarrow> io_keeps f (h b)) \<Longrightarrow>
   io_keeps f (case x of Inl a \<Rightarrow> g a | Inr b \<Rightarrow> h b)"
  by (simp split: sum.splits)

lemma keeps_send_order:
  assumes "\<not> truthy cid \<or> cid \<noteq> k"
  shows "io_keeps (\<lambda>st. map_of (co_idempotency (fst st)) k) (send_order api cid req)"
  unfolding send_order_def Let_def
  using assms
  by (intro keeps keeps_on_self [where f = "\<lambda>c. map_of (co_idempotency c) k"]
      keeps_broker [where f = "\<lambda>c. map_of (co_idempotency c) k"]) auto

lemma keeps_execute_new:
  assumes "\<not> truthy (client_id_of order) \<or> client_id_of order \<noteq> k"
  shows "io_keeps (\<lambda>st. map_of (co_idempotency (fst st)) k) (execute_new mt5 order)"
  unfolding execute_new_def place_order_def validate_symbol_def Let_def
  using assms
  by (intro keeps keeps_send_order keeps_broker [where f = "\<lambda>c. map_of (co_idempotency c) k"])

lemma execute_order_eq:
  "execute_order mt5 order (c, w) =
     (case (if truthy (client_id_of order) then map_of (co_idempotency c) (client_id_of order) else None) of
        Some oid \<Rightarrow> (Inr [(''ok'', PBool True), (''duplicate'', PBool True), (''broker_order_id'', PInt oid)], (c, w))
      | None \<Rightarrow> execute_new mt5 order (c, w))"
  by (simp add: execute_order_def io_simps split: option.splits)

lemma execute_order_remembers:
  assumes "map_of (co_idempotency (fst st)) k = Some oid"
  shows "map_of (co_idempotency (fst (snd (execute_order mt5 order st)))) k = Some oid"
proof (cases "truthy (client_id_of order) \<and> client_id_of order = k")
  case True
  with assms show ?thesis by (cases st) (auto simp: execute_order_eq)
next
  case False
  then have "io_keeps (\<lambda>st. map_of (co_idempotency (fst st)) k) (execute_new mt5 order)"
    by (intro keeps_execute_new) auto
  from io_keepsD [OF this, of st] assms show ?thesis
    by (cases st) (simp add: execute_order_eq split: option.splits)
qed

interpretation sent_orders: invariant_machine "conn_step mt5" "\<lambda>_. True"
    "\<lambda>st. map_of (co_idempotency (fst st)) k = Some oid"
    for mt5 :: "'w mt5_api option" and k :: pyval and oid :: int
proof unfold_locales
  fix st :: "'w conn_state" and x :: conn_op
  assume k: "map_of (co_idempotency (fst st)) k = Some oid"
  show "map_of (co_idempotency (fst (conn_step mt5 st x))) k = Some oid"
  proof (cases x)
    case (ExecuteOrder order)
    with k show ?thesis by (simp add: execute_order_remembers)
  qed (use k in \<open>simp_all add: io_keepsD [OF keeps_connect] io_keepsD [OF keeps_disconnect]
      io_keepsD [OF keeps_reconnect] io_keepsD [OF keeps_heartbeat]
      io_keepsD [OF keeps_subscription(1) [where f = co_idempotency]]
      io_keepsD [OF keeps_subscription(2) [where f = co_idempotency]]
      io_keepsD [OF keeps_requests(1) [where f = co_idempotency]]
      io_keepsD [OF keeps_requests(2) [where f = co_idempotency]]
      io_keepsD [OF keeps_requests(3) [where f = co_idempotency]]
      io_keepsD [OF keeps_close_all [where f = co_idempotency]]\<close>)
qed

text \<open>
  C2. Once a client order id is recorded with a broker order number, then after any further
  sequence of calls on the connector (reconnects included) an order with that client id is
  answered as a duplicate carrying that number, and neither the connector nor the broker
  terminal is touched: the order is not sent again.
\<close>

theorem duplicate_order_not_resent:
  assumes "map_of (co_idempotency (fst st0)) (client_id_of order) = Some oid"
    and "truthy (client_id_of order)" and "st = foldl (conn_step mt5) st0 xs"
  shows "execute_order mt5 order st =
    (Inr [(''ok'', PBool True), (''duplicate'', PBool True), (''broker_order_id'', PInt oid)], st)"
proof -
  have "map_of (co_idempotency (fst st)) (client_id_of order) = Some oid"
    unfolding assms(3) by (rule sent_orders.run_inv [OF assms(1)]) (simp add: list_all_iff)
  with assms(2) show ?thesis
    by (cases st) (simp add: execute_order_eq)
qed


subsection \<open>Validation\<close>

lemma misaligned_iff:
  "misaligned x step \<longleftrightarrow> (\<forall>k::int. \<bar>x / step - of_int k\<bar> > 1 / 10 ^ 9)"
proof
  assume far: "misaligned x step"
  let ?y = "x / step"
  show "\<forall>k::int. \<bar>?y - of_int k\<bar> > 1 / 10 ^ 9"
  proof
    fix k :: int
    show "\<bar>?y - of_int k\<bar> > 1 / 10 ^ 9"
    proof (cases "k = py_round ?y")
      case True
      with far show ?thesis by (simp add: misaligned_def)
    next
      case False
      then have "1 \<le> \<bar>real_of_int k - real_of_int (py_round ?y)\<bar>" by linarith
      moreover have "\<bar>?y - of_int (py_round ?y)\<bar> \<le> 1/2" by (rule py_round_error)
      ultimately have "1/2 \<le> \<bar>?y - of_int k\<bar>" by linarith
      moreover have "(1::real) / 10 ^ 9 < 1/2" by simp
      ultimately show ?thesis by (rule less_le_trans [rotated])
    qed
  qed
next
  assume "\<forall>k::int. \<bar>x / step - of_int k\<bar> > 1 / 10 ^ 9"
  then show "misaligned x step" unfolding misaligned_def by blast
qed

text \<open>
  A volume passes validation exactly when it lies between the symbol's minimum and
  maximum and, if the symbol has a positive step, is within a billionth of a step of some
  whole multiple of it: rounding to the nearest integer misses no multiple.
\<close>

theorem volume_accepted_iff:
  "validate_volume i volume = None \<longleftrightarrow>
     si_volume_min i \<le> volume \<and> volume \<le> si_volume_max i \<and>
     (si_volume_step i > 0 \<longrightarrow> (\<exists>k::int. \<bar>volume / si_volume_step i - of_int k\<bar> \<le> 1 / 10 ^ 9))"
proof -
  have "\<not> misaligned volume step \<longleftrightarrow> (\<exists>k::int. \<bar>volume / step - of_int k\<bar> \<le> 1 / 10 ^ 9)" for step
    unfolding misaligned_iff by (simp only: not_all not_less)
  then show ?thesis
    unfolding validate_volume_def by (simp only: not_less split: if_splits) auto
qed

subsection \<open>Return codes\<close>

lemma map_of_codes:
  "map_of (map (\<lambda>i. (i, g i)) xs) k = (if k \<in> set xs then Some (g k) else None)"
  by (induction xs) auto

lemma RETCODE_MAPPING_lookup:
  "map_of RETCODE_MAPPING k = (case map_of (rev retcode_special) k of Some v \<Rightarrow> Some v
     | None \<Rightarrow> if 10004 \<le> k \<and> k \<le> 10069 then Some (''MT5 retcode '' @ show_int k) else None)"
  unfolding RETCODE_MAPPING_def dict.lookup_store_all map_of_codes set_upto
  by (simp only: atLeastAtMost_iff split: option.splits)

text \<open>
  The table of return codes covers the codes 10004 to 10069 and no other, and no code has
  an empty message.
\<close>

theorem retcodes_complete:
  "(map_of RETCODE_MAPPING k \<noteq> None \<longleftrightarrow> 10004 \<le> k \<and> k \<le> 10069) \<and> map_of RETCODE_MAPPING k \<noteq> Some []"
proof -
  have special: "10004 \<le> k \<and> k \<le> 10069 \<and> v \<noteq> []" if "map_of (rev retcode_special) k = Some v" for v
  proof -
    from map_of_SomeD [OF that] have "(k, v) \<in> set retcode_special" by simp
    moreover have "list_all (\<lambda>(k, v). 10004 \<le> k \<and> k \<le> 10069 \<and> v \<noteq> []) retcode_special"
      by (simp add: retcode_special_def)
    ultimately show ?thesis by (auto simp: list_all_iff)
  qed
  show ?thesis
    using special by (auto simp: RETCODE_MAPPING_lookup split: option.splits if_splits)
qed

subsection \<open>Connecting and reconnecting\<close>

text \<open>
  When \<open>connect\<close> returns, its answer is the connection flag it leaves behind, and an
  established connection is left as it is.
\<close>

lemma connect_result:
  assumes "connect mt5 t now (c, w) = (Inr b, (c', w'))"
  shows "co_connected c' = b \<and> (co_connected c \<longrightarrow> b \<and> c' = c \<and> w' = w)"
  using assms
  by (auto simp: connect_def io_simps split: if_splits option.splits prod.splits sum.splits)


lemma connect_frame:
  "co_reconnect_count (fst (snd (connect mt5 t now st))) = co_reconnect_count (fst st)"
  "co_config (fst (snd (connect mt5 t now st))) = co_config (fst st)"
proof -
  have "io_keeps (\<lambda>st. co_reconnect_count (fst st)) (connect mt5 t now)"
    and "io_keeps (\<lambda>st. co_config (fst st)) (connect mt5 t now)"
    unfolding connect_def by (intro keeps keeps_on_self; simp)+
  from this [THEN io_keepsD] show
    "co_reconnect_count (fst (snd (connect mt5 t now st))) = co_reconnect_count (fst st)"
    "co_config (fst (snd (connect mt5 t now st))) = co_config (fst st)" by simp_all
qed

lemma reconnect_loop_Suc:
  "reconnect_loop mt5 clock mult (Suc n) delay (c, w) =
     (case connect mt5 (fst (clock n)) (snd (clock n)) (c\<lparr>co_reconnect_count := Suc (co_reconnect_count c)\<rparr>, w) of
        (Inl e, st) \<Rightarrow> (Inl e, st)
      | (Inr ok, st) \<Rightarrow> if ok then (Inr (True, [delay]), st)
          else (case reconnect_loop mt5 clock mult n (delay * mult) st of
              (Inl e, st') \<Rightarrow> (Inl e, st') | (Inr (r, ds), st') \<Rightarrow> (Inr (r, delay # ds), st')))"
  by (auto simp: on_self_def io_simps split: prod.split sum.split)

lemma connect_counts:
  "connect mt5 t now (c\<lparr>co_reconnect_count := n\<rparr>, w) = (r, (c1, w1)) \<Longrightarrow> co_reconnect_count c1 = n"
  using connect_frame(1) [of mt5 t now "(c\<lparr>co_reconnect_count := n\<rparr>, w)"] by simp

lemma connect_beats:
  "connect mt5 t now (c, w) = (Inr ok, (c1, w1)) \<Longrightarrow> \<not> co_connected c \<Longrightarrow> co_heartbeats c1 = co_heartbeats c + (if ok then 1 else 0)"
  by (auto simp: connect_def io_simps broker_def on_self_def io_zoom_def split: if_splits option.splits prod.splits sum.splits)

text \<open>The broker's functions answer: they report a failure in their result.\<close>

definition mt5_answers :: "'w mt5_api option \<Rightarrow> bool" where
  "mt5_answers mt5 = (\<forall>api. mt5 = Some api \<longrightarrow> (\<forall>p t w. \<exists>b w'. m_initialize api p t w = (Inr b, w')) \<and>
     (\<forall>i p s w. \<exists>b w'. m_login api i p s w = (Inr b, w')) \<and> (\<forall>w. \<exists>e w'. m_last_error api w = (Inr e, w')) \<and>
     (\<forall>w. \<exists>x w'. m_shutdown api w = (Inr x, w')))"

lemma connect_answers: "mt5_answers mt5 \<Longrightarrow> \<exists>b st'. connect mt5 t now st = (Inr b, st')"
proof -
  assume answers: "mt5_answers mt5"
  obtain c w where st: "st = (c, w)" by (cases st)
  show ?thesis
  proof (cases mt5)
    case None
    then show ?thesis by (cases "co_connected (fst st)") (auto simp: connect_def io_bind_def io_get_def io_return_def)
  next
    case (Some api)
    let ?path = "case cr_path (co_credentials c) of Some p \<Rightarrow> if p \<noteq> [] then Some p else None | None \<Rightarrow> None"
    have calls: "\<And>p t w. \<exists>b w'. m_initialize api p t w = (Inr b, w')" "\<And>i p s w. \<exists>b w'. m_login api i p s w = (Inr b, w')"
      "\<And>w. \<exists>e w'. m_last_error api w = (Inr e, w')" "\<And>w. \<exists>x w'. m_shutdown api w = (Inr x, w')"
      using answers Some by (auto simp: mt5_answers_def)
    obtain ok w1 where init: "m_initialize api ?path (cf_timeout_ms (co_config c)) w = (Inr ok, w1)" using calls(1) by blast
    obtain e w2 where e: "m_last_error api w1 = (Inr e, w2)" using calls(3) by blast
    obtain logged w3 where login: "m_login api (cr_account_id (co_credentials c)) (cr_password (co_credentials c)) (cr_server (co_credentials c)) w1 = (Inr logged, w3)"
      using calls(2) by blast
    obtain e' w4 where e': "m_last_error api w3 = (Inr e', w4)" using calls(3) by blast
    obtain x w5 where down: "m_shutdown api w4 = (Inr x, w5)" using calls(4) by blast
    note run = connect_def io_bind_def io_get_def io_return_def broker_def io_zoom_def on_self_def io_modify_def
    show ?thesis
    proof (cases "co_connected c")
      case True
      then show ?thesis by (auto simp: run st)
    next
      case False
      then show ?thesis
        by (cases ok; cases logged) (auto simp: run st Some init e login e' down simp del: split_paired_Ex intro: exI [of _ True] exI [of _ False])
    qed
  qed
qed

lemma reconnect_loop_counts:
  "co_reconnect_count c \<le> co_reconnect_count (fst (snd (reconnect_loop mt5 clock mult n delay (c, w)))) \<and>
   co_reconnect_count (fst (snd (reconnect_loop mt5 clock mult n delay (c, w)))) \<le> co_reconnect_count c + n"
proof (induction n arbitrary: delay c w)
  case 0
  then show ?case by (simp add: io_simps)
next
  case (Suc n)
  obtain r c1 w1 where con: "connect mt5 (fst (clock n)) (snd (clock n)) (c\<lparr>co_reconnect_count := Suc (co_reconnect_count c)\<rparr>, w) = (r, (c1, w1))"
    by (metis surj_pair)
  from connect_counts [OF con] Suc.IH [of c1 "delay * mult" w1] show ?case
    by (auto simp: reconnect_loop_Suc con simp del: reconnect_loop.simps split: sum.split prod.splits)
qed

lemma reconnect_loop_answers: "mt5_answers mt5 \<Longrightarrow> \<exists>r ds st'. reconnect_loop mt5 clock mult n delay st = (Inr (r, ds), st')"
proof (induction n arbitrary: delay st)
  case 0
  show ?case by (auto simp: io_return_def)
next
  case (Suc n)
  obtain c w where st: "st = (c, w)" by (cases st)
  obtain b st1 where con: "connect mt5 (fst (clock n)) (snd (clock n)) (c\<lparr>co_reconnect_count := Suc (co_reconnect_count c)\<rparr>, w) = (Inr b, st1)"
    using connect_answers [OF Suc.prems] by blast
  obtain r ds st2 where "reconnect_loop mt5 clock mult n (delay * mult) st1 = (Inr (r, ds), st2)" using Suc by blast
  with con show ?case by (cases b) (auto simp: st reconnect_loop_Suc simp del: reconnect_loop.simps)
qed

lemma reconnect_loop_spec:
  assumes "reconnect_loop mt5 clock mult n delay (c, w) = (Inr (r, ds), (c', w'))"
    and "\<not> co_connected c"
  shows "co_connected c' = r \<and> (r \<longrightarrow> ds \<noteq> []) \<and> (\<not> r \<longrightarrow> length ds = n) \<and>
    (\<forall>i < length ds. ds ! i = (if i = 0 then delay else ds ! (i - 1) * mult)) \<and>
    co_reconnect_count c' = co_reconnect_count c + length ds \<and> co_heartbeats c' = co_heartbeats c + (if r then 1 else 0)"
  using assms
proof (induction n arbitrary: delay c w ds r)
  case 0
  then show ?case by (simp add: io_simps)
next
  case (Suc n)
  let ?c = "c\<lparr>co_reconnect_count := Suc (co_reconnect_count c)\<rparr>"
  obtain ok c1 w1 where con: "connect mt5 (fst (clock n)) (snd (clock n)) (?c, w) = (Inr ok, (c1, w1))"
    using Suc.prems(1) by (auto simp: reconnect_loop_Suc simp del: reconnect_loop.simps split: prod.splits sum.splits)
  have ok: "co_connected c1 = ok" using connect_result [OF con] by simp
  have cnt: "co_reconnect_count c1 = Suc (co_reconnect_count c)" by (rule connect_counts [OF con])
  have beats: "co_heartbeats c1 = co_heartbeats c + (if ok then 1 else 0)" using connect_beats [OF con] Suc.prems(2) by simp
  show ?case
  proof (cases ok)
    case True
    with Suc.prems(1) con ok cnt beats show ?thesis by (auto simp: reconnect_loop_Suc simp del: reconnect_loop.simps)
  next
    case False
    then obtain ds' where rec: "reconnect_loop mt5 clock mult n (delay * mult) (c1, w1) = (Inr (r, ds'), (c', w'))"
      and ds: "ds = delay # ds'"
      using Suc.prems(1) con by (auto simp: reconnect_loop_Suc simp del: reconnect_loop.simps split: prod.splits sum.splits)
    have "\<not> co_connected c1" using ok False by simp
    note IH = Suc.IH [OF rec this]
    have "ds ! i = (if i = 0 then delay else ds ! (i - 1) * mult)" if "i < length ds" for i
    proof (cases i)
      case 0
      then show ?thesis by (simp add: ds)
    next
      case (Suc j)
      then have "ds' ! j = (if j = 0 then delay * mult else ds' ! (j - 1) * mult)" using IH that by (simp add: ds)
      then show ?thesis using Suc by (cases j) (simp_all add: ds)
    qed
    with IH cnt beats ds False show ?thesis by simp
  qed
qed

text \<open>
  C40. A reconnect from a lost connection makes at most the configured number of attempts and counts each one, whatever the
  broker does, and it returns if the broker's functions answer. When it returns, its answer is whether the
  connection is up; it has failed only after all attempts; it slept the configured delay before the first attempt and
  then each time the last delay multiplied by the configured factor; and a success has started one heartbeat task.
\<close>

theorem reconnect_bounded:
  assumes "\<not> co_connected c"
  shows "case reconnect mt5 clock (c, w) of (res, (c', w')) \<Rightarrow>
    co_reconnect_count c \<le> co_reconnect_count c' \<and>
    co_reconnect_count c' \<le> co_reconnect_count c + cf_reconnect_attempts (co_config c) \<and>
    (mt5_answers mt5 \<longrightarrow> (\<exists>r ds. res = Inr (r, ds))) \<and>
    (\<forall>r ds. res = Inr (r, ds) \<longrightarrow> co_connected c' = r \<and> (r \<longrightarrow> ds \<noteq> []) \<and>
      (\<not> r \<longrightarrow> length ds = cf_reconnect_attempts (co_config c)) \<and>
      (\<forall>i < length ds. ds ! i = (if i = 0 then cf_reconnect_delay (co_config c) else ds ! (i - 1) * cf_backoff_multiplier (co_config c))) \<and>
      co_reconnect_count c' = co_reconnect_count c + length ds \<and> co_heartbeats c' = co_heartbeats c + (if r then 1 else 0))"
proof -
  have loop: "reconnect mt5 clock (c, w) = reconnect_loop mt5 clock (cf_backoff_multiplier (co_config c))
      (cf_reconnect_attempts (co_config c)) (cf_reconnect_delay (co_config c)) (c, w)" (is "_ = ?loop")
    by (simp add: reconnect_def io_simps)
  obtain res c' w' where run: "?loop = (res, (c', w'))" by (metis surj_pair)
  have "co_reconnect_count c \<le> co_reconnect_count c' \<and> co_reconnect_count c' \<le> co_reconnect_count c + cf_reconnect_attempts (co_config c)"
    using reconnect_loop_counts [of c mt5 clock "cf_backoff_multiplier (co_config c)" "cf_reconnect_attempts (co_config c)" "cf_reconnect_delay (co_config c)" w] run
    by simp
  moreover have "\<exists>r ds. res = Inr (r, ds)" if "mt5_answers mt5"
    using reconnect_loop_answers [OF that] run by (metis fst_conv)
  moreover have "co_connected c' = r \<and> (r \<longrightarrow> ds \<noteq> []) \<and> (\<not> r \<longrightarrow> length ds = cf_reconnect_attempts (co_config c)) \<and>
      (\<forall>i < length ds. ds ! i = (if i = 0 then cf_reconnect_delay (co_config c) else ds ! (i - 1) * cf_backoff_multiplier (co_config c))) \<and>
      co_reconnect_count c' = co_reconnect_count c + length ds \<and> co_heartbeats c' = co_heartbeats c + (if r then 1 else 0)"
    if "res = Inr (r, ds)" for r ds
    by (rule reconnect_loop_spec [OF _ assms]) (use run that in simp)
  ultimately show ?thesis
    unfolding loop run by (simp only: prod.case) blast
qed

text \<open>
  A heartbeat task that finds the terminal gone, reconnects at the first attempt and goes
  on running has started one more heartbeat task: the number of heartbeat tasks grows by one
  with every connection loss that is repaired.
\<close>

theorem heartbeat_tasks_accumulate:
  assumes "co_connected c" and "m_terminal_info api w = (Inr False, w1)"
    and "0 < cf_reconnect_attempts (co_config c)" and "cr_path (co_credentials c) = None"
    and "m_initialize api None (cf_timeout_ms (co_config c)) w1 = (Inr True, w2)"
    and "m_login api (cr_account_id (co_credentials c)) (cr_password (co_credentials c))
           (cr_server (co_credentials c)) w2 = (Inr True, w3)"
  shows "\<exists>c'. heartbeat_round (Some api) clock now (c, w) = (Inr True, (c', w3)) \<and>
    co_connected c' \<and> co_heartbeats c' = Suc (co_heartbeats c)"
proof -
  obtain n where n: "cf_reconnect_attempts (co_config c) = Suc n" using assms(3) gr0_conv_Suc by blast
  show ?thesis
    using assms(1,2,4-) n
    by (simp add: heartbeat_round_def reconnect_def connect_def io_simps)
qed

subsection \<open>What reaches the broker\<close>

lemma failure_no_retcode [simp]: "map_of (failure msg) ''retcode'' = None"
  by (simp add: failure_def)

lemma place_order_sent:
  assumes "place_order api order volume price (c, w) = (Inr resp, st')" and "map_of resp ''retcode'' \<noteq> None"
  shows "\<exists>mg a req res w1 w2 w3 w4.
    m_order_calc_margin api (if order_side order = PStr ''BUY'' then c_type_buy api else c_type_sell api)
      (pyget order ''symbol'') volume price w1 = (Inr (Some mg), w2) \<and>
    m_account_info api w2 = (Inr (Some a), w3) \<and> mg \<le> ai_margin_free a \<and>
    order_request api order volume price = Inr req \<and> m_order_send api req w3 = (Inr (Some res), w4)"
  using assms
  by (auto simp: place_order_def send_order_def Let_def not_less
      split: if_splits option.splits elim!: io_bindE brokerE) blast+

text \<open>
  C6. If \<open>execute_order\<close> answers with a broker return code, then the order was not a known
  duplicate, its volume is positive and accepted for the symbol as the broker described it,
  the price is aligned to the tick size, the stops are far enough, the margin asked for does
  not exceed the free margin, and the request sent is the one built from the order with that
  volume and price.
\<close>

theorem sent_orders_are_valid:
  assumes "execute_order (Some api) order (c, w) = (Inr resp, st')" and "map_of resp ''retcode'' \<noteq> None"
  shows "\<exists>volume info price tk mg a req res w1 w2 w3 w4 w5 w6.
    order_volume order = Inr volume \<and> 0 < volume \<and> truthy (pyget order ''symbol'') \<and>
    m_symbol_info api (pyget order ''symbol'') w = (Inr (Some info), w1) \<and> validate_volume info volume = None \<and>
    m_symbol_info_tick api (pyget order ''symbol'') w1 = (Inr (Some tk), w2) \<and>
    py_float (py_or (pyget order ''price'')
      (PFloat (if order_side order = PStr ''BUY'' then ti_ask tk else ti_bid tk))) = Inr price \<and>
    validate_price_tick info price = None \<and>
    validate_stops info price (pyget order ''stop_price'') (pyget order ''limit_price'') = Inr None \<and>
    m_order_calc_margin api (if order_side order = PStr ''BUY'' then c_type_buy api else c_type_sell api)
      (pyget order ''symbol'') volume price w3 = (Inr (Some mg), w4) \<and>
    m_account_info api w4 = (Inr (Some a), w5) \<and> mg \<le> ai_margin_free a \<and>
    order_request api order volume price = Inr req \<and> m_order_send api req w5 = (Inr (Some res), w6)"
proof -
  have new: "execute_new (Some api) order (c, w) = (Inr resp, st')"
    using assms by (auto simp: execute_order_eq split: option.splits if_splits)
  obtain volume info price tk w1 w2 where valid:
    "order_volume order = Inr volume" "0 < volume" "truthy (pyget order ''symbol'')"
    "m_symbol_info api (pyget order ''symbol'') w = (Inr (Some info), w1)" "validate_volume info volume = None"
    "m_symbol_info_tick api (pyget order ''symbol'') w1 = (Inr (Some tk), w2)"
    "py_float (py_or (pyget order ''price'')
      (PFloat (if order_side order = PStr ''BUY'' then ti_ask tk else ti_bid tk))) = Inr price"
    "validate_price_tick info price = None"
    "validate_stops info price (pyget order ''stop_price'') (pyget order ''limit_price'') = Inr None"
    and placed: "place_order api order volume price (c, w2) = (Inr resp, st')"
    using new assms(2)
    by (auto simp: execute_new_def validate_symbol_def with_mt5_def Let_def not_le
        split: if_splits option.splits sum.splits elim!: io_bindE brokerE)
  from place_order_sent [OF placed assms(2)] show ?thesis
    by (elim exE conjE, intro exI conjI) (assumption | rule valid)+
qed


text \<open>
  Arrays of two or more rows have no truth value in numpy: \<open>bool\<close> of such an array raises
  \<open>ValueError\<close>. Under this documented behaviour \<open>get_ticks\<close> and \<open>get_rates\<close>, which write
  \<open>data or []\<close>, raise whenever the broker delivers at least two rows.
\<close>

theorem several_rows_raise:
  assumes np: "\<And>rows. 2 \<le> length rows \<Longrightarrow> np_truth rows = Inl (ValueError ''ambiguous'')"
    and "2 \<le> length ticks" and "m_copy_ticks_from api symbol from_date n w = (Inr (Some ticks), w1)"
    and "2 \<le> length rates" and "m_copy_rates_from api symbol tf from_date n w = (Inr (Some rates), w2)"
  shows "get_ticks np_truth convert (Some api) symbol from_date PNone n (c, w) =
      (Inl (ValueError ''ambiguous''), (c, w1)) \<and>
    get_rates np_truth convert (Some api) symbol tf from_date PNone n (c, w) =
      (Inl (ValueError ''ambiguous''), (c, w2))"
  using assms(2-) np
  by (simp add: get_ticks_def get_rates_def with_mt5_def rows_or_empty_def io_simps)

subsection \<open>Witnesses\<close>

text \<open>A terminal that counts the requests sent to it and fills every order.\<close>

definition demo_symbol :: symbol_info where
  "demo_symbol = \<lparr>si_trade_mode = Some 4, si_volume_min = 1/100, si_volume_max = 100,
     si_volume_step = 1/100, si_trade_tick_size = None, si_trade_stops_level = None, si_point = 1/100000\<rparr>"

definition demo_api :: "nat mt5_api" where
  "demo_api = \<lparr>m_initialize = \<lambda>_ _ w. (Inr True, w), m_login = \<lambda>_ _ _ w. (Inr True, w),
     m_shutdown = \<lambda>w. (Inr (), w), m_terminal_info = \<lambda>w. (Inr False, w),
     m_symbol_select = \<lambda>_ _ w. (Inr True, w), m_symbol_info = \<lambda>_ w. (Inr (Some demo_symbol), w),
     m_symbol_info_tick = \<lambda>_ w. (Inr (Some \<lparr>ti_bid = 1, ti_ask = 1\<rparr>), w),
     m_order_calc_margin = \<lambda>_ _ _ _ w. (Inr (Some 1), w),
     m_account_info = \<lambda>w. (Inr (Some \<lparr>ai_margin_free = 100,
        ai_asdict = [(''balance'', PFloat 1000), (''equity'', PFloat 1000), (''profit'', PFloat 0)]\<rparr>), w),
     m_order_send = \<lambda>_ w. (Inr (Some \<lparr>sr_retcode = Some 10009,
        sr_asdict = Some [(''retcode'', PInt 10009), (''order'', PInt 77), (''deal'', PInt 5)]\<rparr>), Suc w),
     m_last_error = \<lambda>w. (Inr [], w), m_positions_get = \<lambda>_ w. (Inr None, w), m_orders_get = \<lambda>_ w. (Inr None, w),
     m_copy_ticks_range = \<lambda>_ _ _ w. (Inr None, w), m_copy_ticks_from = \<lambda>_ _ _ w. (Inr (Some [PInt 1, PInt 2]), w),
     m_copy_rates_range = \<lambda>_ _ _ _ w. (Inr None, w), m_copy_rates_from = \<lambda>_ _ _ _ w. (Inr (Some [PInt 1, PInt 2]), w),
     c_trade_mode_disabled = Some 0, c_trade_mode_closeonly = Some 3, c_action_deal = 1, c_action_pending = 5,
     c_action_modify = 7, c_action_remove = 8, c_type_buy = 0, c_type_sell = 1, c_position_type_buy = 0,
     c_time_gtc = 0, c_filling_return = 2, c_filling_ioc = 1\<rparr>"

definition demo_connector :: connector where
  "demo_connector = connector_init \<lparr>cr_account_id = 1, cr_password = [], cr_server = [], cr_path = None\<rparr> None"

definition demo_order :: pydict where
  "demo_order = [(''client_order_id'', PStr ''c1''), (''symbol'', PStr ''EURUSD''), (''quantity'', PFloat 1)]"

lemmas demo_defs = demo_symbol_def demo_api_def demo_connector_def connector_init_def default_config_def demo_order_def

theorem duplicate_order_not_resent_witness:
  "execute_order (Some demo_api) demo_order
     (foldl (conn_step (Some demo_api)) (demo_connector\<lparr>co_idempotency := [(PStr ''c1'', 77)]\<rparr>, 3) [Disconnect]) =
   (Inr [(''ok'', PBool True), (''duplicate'', PBool True), (''broker_order_id'', PInt 77)],
    foldl (conn_step (Some demo_api)) (demo_connector\<lparr>co_idempotency := [(PStr ''c1'', 77)]\<rparr>, 3) [Disconnect])"
  by (rule duplicate_order_not_resent [OF _ _ refl])
     (simp_all add: demo_order_def client_id_of_def)

theorem volume_accepted_iff_witness: "validate_volume demo_symbol (1/2) = None"
  using volume_accepted_iff [of demo_symbol "1/2"]
  by (simp add: demo_symbol_def) (rule exI [of _ 50], simp)

theorem reconnect_bounded_witness:
  "\<exists>c' w'. reconnect (None :: nat mt5_api option) (\<lambda>n. (0, 0)) (demo_connector, 0) =
     (Inr (False, [1, 2, 4, 8, 16, 32, 64, 128, 256, 512]), (c', w')) \<and>
   co_connected c' = False \<and> co_reconnect_count c' = 10"
proof -
  have r: "reconnect (None :: nat mt5_api option) (\<lambda>n. (0, 0)) (demo_connector, 0) =
     (Inr (False, [1, 2, 4, 8, 16, 32, 64, 128, 256, 512]), (demo_connector\<lparr>co_reconnect_count := 10\<rparr>, 0))"
    by (simp add: reconnect_def demo_defs io_simps connect_def eval_nat_numeral)
  have "\<not> co_connected demo_connector" by (simp add: demo_defs)
  from reconnect_bounded [OF this, of "None :: nat mt5_api option" "\<lambda>n. (0, 0)" 0] show ?thesis
    unfolding r by (simp add: demo_defs)
qed

theorem heartbeat_tasks_accumulate_witness:
  "\<exists>c'. heartbeat_round (Some demo_api) (\<lambda>n. (0, 0)) 9 (demo_connector\<lparr>co_connected := True, co_heartbeats := 1\<rparr>, 0) =
     (Inr True, (c', 0)) \<and> co_connected c' \<and> co_heartbeats c' = Suc 1"
  using heartbeat_tasks_accumulate [of "demo_connector\<lparr>co_connected := True, co_heartbeats := 1\<rparr>" demo_api 0 0 0 0
      "\<lambda>n. (0, 0)" 9]
  by (simp add: demo_defs)

theorem sent_orders_are_valid_witness:
  "\<exists>resp st'. execute_order (Some demo_api) demo_order (demo_connector, 0) = (Inr resp, st') \<and>
     map_of resp ''retcode'' \<noteq> None \<and> (\<exists>volume. order_volume demo_order = Inr volume \<and> 0 < volume)"
proof -
  obtain resp st' where e: "execute_order (Some demo_api) demo_order (demo_connector, 0) = (Inr resp, st')"
    and r: "map_of resp ''retcode'' \<noteq> None"
    by (simp add: demo_defs execute_order_eq execute_new_def client_id_of_def order_volume_def
        validate_symbol_def validate_volume_def misaligned_def validate_price_tick_def validate_stops_def
        stop_too_close_def place_order_def send_order_def order_request_def order_side_def order_kind_def
        with_mt5_def io_simps Let_def py_round_def upper_str_def upper_char_def)
  from sent_orders_are_valid [OF e r] e r show ?thesis by blast
qed

theorem several_rows_raise_witness:
  "get_ticks (\<lambda>rows. if 2 \<le> length rows then Inl (ValueError ''ambiguous'') else Inr (rows \<noteq> [])) (\<lambda>x. x)
     (Some demo_api) (PStr ''EURUSD'') (PDatetime 0) PNone 10 (demo_connector, 0) =
   (Inl (ValueError ''ambiguous''), (demo_connector, 0))"
  using several_rows_raise [where np_truth = "\<lambda>rows. if 2 \<le> length rows then Inl (ValueError ''ambiguous'') else Inr (rows \<noteq> [])"
      and api = demo_api and ticks = "[PInt 1, PInt 2]" and rates = "[PInt 1, PInt 2]" and symbol = "PStr ''EURUSD''"
      and from_date = "PDatetime 0" and n = 10 and w = 0 and ?w1.0 = 0 and ?w2.0 = 0 and tf = PNone
      and convert = "\<lambda>x. x" and c = demo_connector]
  by (simp add: demo_api_def)

end
