(* ===== verification/Order_Repository.thy ===== *)
theory Order_Repository
  imports Prelude
begin

text \<open>
  The PostgreSQL repositories of the trading service
  (\<^verbatim>\<open>trading_service/src/storage/postgres_repository.py\<close> and
  \<^verbatim>\<open>trading_service/src/repositories/postgres_repository.py\<close>). The database and its driver
  are not part of the repository: they are the parameter \<open>pg\<close>, the driver calls on a pooled
  connection over a database state \<open>'w\<close>, each given the SQL text and the arguments. Everything
  the Python code does around them is modelled: the pool assertion, transactions, retries on
  connection errors, and the construction of the update statements.
\<close>

record 'w pg_api =
  pg_create_pool :: "string \<Rightarrow> int \<Rightarrow> int \<Rightarrow> ('w, unit) io"
  pg_close_pool :: "('w, unit) io"
  pg_begin :: "('w, unit) io"
  pg_commit :: "('w, unit) io"
  pg_rollback :: "('w, unit) io"
  pg_fetchrow :: "string \<Rightarrow> pyval list \<Rightarrow> ('w, pydict option) io"
  pg_fetch :: "string \<Rightarrow> pyval list \<Rightarrow> ('w, pydict list) io"
  pg_fetchval :: "string \<Rightarrow> pyval list \<Rightarrow> ('w, pyval) io"
  pg_execute :: "string \<Rightarrow> pyval list \<Rightarrow> ('w, string) io"

record repository =
  rp_dsn :: string
  rp_min_size :: int
  rp_max_size :: int
  rp_pool :: bool

definition repository_init :: "string \<Rightarrow> repository" where
  "repository_init dsn = \<lparr>rp_dsn = dsn, rp_min_size = 2, rp_max_size = 20, rp_pool = False\<rparr>"

type_synonym 'w repo_state = "repository \<times> 'w"

definition driver :: "('w, 'a) io \<Rightarrow> ('w repo_state, 'a) io" where
  "driver m = io_zoom snd (\<lambda>w (r, _). (r, w)) m"

definition repo_connect :: "'w pg_api \<Rightarrow> ('w repo_state, unit) io" where
  "repo_connect pg = io_bind (io_get fst) (\<lambda>r.
     io_bind (driver (pg_create_pool pg (rp_dsn r) (rp_min_size r) (rp_max_size r))) (\<lambda>_.
     io_modify (\<lambda>(r, w). (r\<lparr>rp_pool := True\<rparr>, w))))"

definition repo_close :: "'w pg_api \<Rightarrow> ('w repo_state, unit) io" where
  "repo_close pg = io_bind (io_get fst) (\<lambda>r. io_when (rp_pool r) (driver (pg_close_pool pg)))"

text \<open>\<open>assert self.pool\<close> before the body.\<close>

definition with_pool :: "('w repo_state, 'a) io \<Rightarrow> ('w repo_state, 'a) io" where
  "with_pool m = io_bind (io_get fst) (\<lambda>r. if rp_pool r then m else io_raise AssertionError)"

text \<open>\<open>async with conn.transaction()\<close>: committed at the end, rolled back when the body raises.\<close>

definition in_transaction :: "'w pg_api \<Rightarrow> ('w repo_state, 'a) io \<Rightarrow> ('w repo_state, 'a) io" where
  "in_transaction pg m =
     io_bind (driver (pg_begin pg)) (\<lambda>_.
     io_bind (io_try m) (\<lambda>r. case r of
       Inl e \<Rightarrow> io_bind (driver (pg_rollback pg)) (\<lambda>_. io_raise e)
     | Inr a \<Rightarrow> io_bind (driver (pg_commit pg)) (\<lambda>_. io_return a)))"

subsection \<open>Retries\<close>

fun transient :: "exn \<Rightarrow> bool" where
  "transient PostgresConnectionError = True"
| "transient TooManyConnectionsError = True"
| "transient _ = False"

fun retry_loop :: "('s, 'a) io \<Rightarrow> nat \<Rightarrow> exn \<Rightarrow> ('s, 'a) io" where
  "retry_loop fn 0 last_exc s = (Inl last_exc, s)"
| "retry_loop fn (Suc n) last_exc s = (case fn s of
     (Inr a, s') \<Rightarrow> (Inr a, s')
   | (Inl e, s') \<Rightarrow> if transient e then retry_loop fn n e s' else (Inl e, s'))"

text \<open>With no attempt at all the code raises \<open>None\<close>, a type error.\<close>

definition execute_retry :: "('s, 'a) io \<Rightarrow> nat \<Rightarrow> ('s, 'a) io" where
  "execute_retry fn retries = retry_loop fn retries (TypeError ''exceptions must derive from BaseException'')"

subsection \<open>Orders\<close>

text \<open>The SQL texts are those of the source up to white space.\<close>

definition sql_find_client :: string where
  "sql_find_client = ''SELECT id FROM orders WHERE client_order_id=$1''"

definition sql_insert_order :: string where
  "sql_insert_order = ''INSERT INTO orders (id, client_order_id, account_id, strategy_id, model_id, symbol, side, order_type, quantity, filled_quantity, price, stop_price, limit_price, status, rejection_reason, commission, swap, profit, opened_at, closed_at, created_at, updated_at, version) VALUES (COALESCE($1::uuid, gen_random_uuid()), $2, $3::uuid, $4::uuid, $5::uuid, $6, $7, $8, $9, $10, $11, $12, $13, $14, $15, $16, $17, $18, $19, $20, NOW(), NOW(), 1) RETURNING id''"

definition float_entry :: "pydict \<Rightarrow> string \<Rightarrow> exn + pyval" where
  "float_entry d k = map_sum id PFloat (py_float (dict_get d k (PInt 0)))"

definition insert_args :: "pydict \<Rightarrow> exn + pyval list" where
  "insert_args d = sum_list_results
     [Inr (pyget d ''id''), Inr (pyget d ''client_order_id''), Inr (pyget d ''account_id''), Inr (pyget d ''strategy_id''),
      Inr (pyget d ''model_id''), Inr (pyget d ''symbol''), Inr (pyget d ''side''), Inr (pyget d ''order_type''),
      float_entry d ''quantity'', float_entry d ''filled_quantity'', Inr (pyget d ''price''), Inr (pyget d ''stop_price''),
      Inr (pyget d ''limit_price''), Inr (pyget d ''status''), Inr (pyget d ''rejection_reason''),
      float_entry d ''commission'', float_entry d ''swap'', float_entry d ''profit'',
      Inr (pyget d ''opened_at''), Inr (pyget d ''closed_at'')]"

text \<open>The truth value of a fetched row: \<open>None\<close> and a row without columns are false.\<close>

definition found :: "pydict option \<Rightarrow> pydict option" where
  "found row = (case row of None \<Rightarrow> None | Some d \<Rightarrow> if d = [] then None else Some d)"

text \<open>\<open>str(row["id"])\<close>\<close>

definition row_id :: "pydict option \<Rightarrow> exn + pyval" where
  "row_id row = (case row of None \<Rightarrow> Inl (TypeError ''NoneType object is not subscriptable'')
     | Some d \<Rightarrow> sum_bind (key d ''id'') (\<lambda>v. Inr (py_str v)))"

text \<open>The body of the transaction of \<open>save_order\<close>, and the transaction.\<close>

definition save_body :: "'w pg_api \<Rightarrow> pydict \<Rightarrow> ('w repo_state, pyval) io" where
  "save_body pg order =
     io_bind (driver (pg_fetchrow pg sql_find_client [pyget order ''client_order_id''])) (\<lambda>existing. case found existing of
        Some d \<Rightarrow> io_lift (row_id (Some d))
      | None \<Rightarrow> io_bind (io_lift (insert_args order)) (\<lambda>args.
          io_bind (driver (pg_fetchrow pg sql_insert_order args)) (\<lambda>row. io_lift (row_id row))))"

definition save_order_run :: "'w pg_api \<Rightarrow> pydict \<Rightarrow> ('w repo_state, pyval) io" where
  "save_order_run pg order = with_pool (in_transaction pg (save_body pg order))"

definition save_order :: "'w pg_api \<Rightarrow> pydict \<Rightarrow> ('w repo_state, pyval) io" where
  "save_order pg order = execute_retry (save_order_run pg order) 3"

definition pg_get_order :: "'w pg_api \<Rightarrow> pyval \<Rightarrow> ('w repo_state, pydict option) io" where
  "pg_get_order pg order_id = with_pool
     (io_bind (driver (pg_fetchrow pg ''SELECT * FROM orders WHERE id=$1::uuid'' [order_id])) (\<lambda>row. io_return (found row)))"

text \<open>The loop over the updates: the parts of the SET clause, the arguments and the next index.\<close>

fun set_clause :: "pydict \<Rightarrow> string list \<Rightarrow> pyval list \<Rightarrow> nat \<Rightarrow> string list \<times> pyval list \<times> nat" where
  "set_clause [] parts vals idx = (parts, vals, idx)"
| "set_clause ((k, v) # us) parts vals idx =
     (if v = PStr ''NOW()'' then set_clause us (parts @ [k @ ''=NOW()'']) vals idx
      else set_clause us (parts @ [k @ ''=$'' @ show_int (int idx)]) (vals @ [v]) (Suc idx))"

definition status_updates :: "string \<Rightarrow> int \<Rightarrow> pydict \<Rightarrow> pydict" where
  "status_updates status version kwargs = fold (\<lambda>(k, v). AList.update k v) kwargs
     [(''status'', PStr status), (''updated_at'', PStr ''NOW()''), (''version'', PInt (version + 1))]"

definition update_statement :: "pyval \<Rightarrow> string \<Rightarrow> int \<Rightarrow> pydict \<Rightarrow> string \<times> pyval list" where
  "update_statement order_id status version kwargs =
     (case set_clause (status_updates status version kwargs) [] [order_id] 2 of (parts, vals, idx) \<Rightarrow>
      (''UPDATE orders SET '' @ join '', '' parts @ '' WHERE id=$1::uuid AND version=$'' @ show_int (int idx),
       vals @ [PInt version]))"

definition endswith :: "string \<Rightarrow> string \<Rightarrow> bool" where
  "endswith s suf = (length suf \<le> length s \<and> drop (length s - length suf) s = suf)"

definition update_status_run :: "'w pg_api \<Rightarrow> pyval \<Rightarrow> string \<Rightarrow> pydict \<Rightarrow> ('w repo_state, bool) io" where
  "update_status_run pg order_id status kwargs = with_pool (in_transaction pg
     (io_bind (driver (pg_fetchrow pg ''SELECT version FROM orders WHERE id=$1::uuid FOR UPDATE'' [order_id])) (\<lambda>row.
      case found row of None \<Rightarrow> io_return False
      | Some d \<Rightarrow>
        io_bind (io_lift (sum_bind (key d ''version'') py_int)) (\<lambda>version.
        (case update_statement order_id status version kwargs of (sql, args) \<Rightarrow>
          io_bind (driver (pg_execute pg sql args)) (\<lambda>result. io_return (endswith result ''1'')))))))"

definition pg_update_order_status :: "'w pg_api \<Rightarrow> pyval \<Rightarrow> string \<Rightarrow> pydict \<Rightarrow> ('w repo_state, bool) io" where
  "pg_update_order_status pg order_id status kwargs = execute_retry (update_status_run pg order_id status kwargs) 3"

definition get_open_orders :: "'w pg_api \<Rightarrow> pyval \<Rightarrow> ('w repo_state, pydict list) io" where
  "get_open_orders pg account_id = with_pool (driver (pg_fetch pg
     ''SELECT * FROM orders WHERE account_id=$1::uuid AND status IN ('PENDING','VALIDATED','SUBMITTED','PARTIAL')'' [account_id]))"

subsection \<open>Trades, positions and incidents\<close>

definition sql_insert_trade :: string where
  "sql_insert_trade = ''INSERT INTO trades (id, order_id, account_id, position_id, symbol, side, volume, price, commission, swap, profit, created_at) VALUES (COALESCE($1::uuid, gen_random_uuid()), $2::uuid, $3::uuid, $4::uuid, $5, $6, $7, $8, $9, $10, $11, NOW()) RETURNING id''"

definition save_trade :: "'w pg_api \<Rightarrow> pydict \<Rightarrow> ('w repo_state, pyval) io" where
  "save_trade pg trade = with_pool
     (io_bind (io_lift (sum_list_results
        [Inr (pyget trade ''id''), Inr (pyget trade ''order_id''), Inr (pyget trade ''account_id''),
         Inr (pyget trade ''position_id''), Inr (pyget trade ''symbol''), Inr (pyget trade ''side''),
         float_entry trade ''volume'', float_entry trade ''price'', float_entry trade ''commission'',
         float_entry trade ''swap'', float_entry trade ''profit''])) (\<lambda>args.
      io_bind (driver (pg_fetchrow pg sql_insert_trade args)) (\<lambda>row. io_lift (row_id row))))"

definition get_position :: "'w pg_api \<Rightarrow> pyval \<Rightarrow> ('w repo_state, pydict option) io" where
  "get_position pg position_id = with_pool
     (io_bind (driver (pg_fetchrow pg ''SELECT * FROM positions WHERE id=$1::uuid'' [position_id])) (\<lambda>row. io_return (found row)))"

fun position_clause :: "pydict \<Rightarrow> nat \<Rightarrow> string list" where
  "position_clause [] idx = []"
| "position_clause ((k, v) # us) idx = (k @ ''=$'' @ show_int (int idx)) # position_clause us (Suc idx)"

definition update_position :: "'w pg_api \<Rightarrow> pyval \<Rightarrow> pydict \<Rightarrow> ('w repo_state, bool) io" where
  "update_position pg position_id kwargs = (if kwargs = [] then io_return True
     else with_pool (io_bind (driver (pg_execute pg
        (''UPDATE positions SET '' @ join '', '' (position_clause kwargs 2) @ '', updated_at=NOW() WHERE id=$1::uuid'')
        (position_id # map snd kwargs))) (\<lambda>result. io_return (endswith result ''1''))))"

definition pg_close_position :: "'w pg_api \<Rightarrow> pyval \<Rightarrow> pyval \<Rightarrow> ('w repo_state, bool) io" where
  "pg_close_position pg position_id exit_price =
     update_position pg position_id [(''current_price'', exit_price), (''closed_at'', PStr ''now'')]"

definition sql_insert_incident :: string where
  "sql_insert_incident = ''INSERT INTO risk_incidents (id, rule_type, parameters, actual_values, order_id, account_id, action_taken, created_at) VALUES (gen_random_uuid(), $1, $2::jsonb, $3::jsonb, $4, $5, $6, NOW()) RETURNING id''"

definition save_risk_incident :: "'w pg_api \<Rightarrow> pydict \<Rightarrow> ('w repo_state, pyval) io" where
  "save_risk_incident pg incident = with_pool
     (io_bind (io_lift (sum_list_results
        [Inr (pyget incident ''rule_type''), json_dumps (dict_get incident ''parameters'' (PDict [])),
         json_dumps (dict_get incident ''actual_values'' (PDict [])), Inr (pyget incident ''order_id''),
         Inr (pyget incident ''account_id''), Inr (pyget incident ''action_taken'')])) (\<lambda>args.
      io_bind (driver (pg_fetchrow pg sql_insert_incident args)) (\<lambda>row. io_lift (row_id row))))"

subsection \<open>The order repository\<close>

definition get_open_positions :: "'w pg_api \<Rightarrow> pyval \<Rightarrow> ('w repo_state, pydict list) io" where
  "get_open_positions pg account_id = with_pool (driver (pg_fetch pg
     ''SELECT * FROM positions WHERE account_id=$1::uuid AND closed_at IS NULL'' [account_id]))"

definition get_account_state :: "'w pg_api \<Rightarrow> pyval \<Rightarrow> ('w repo_state, pydict) io" where
  "get_account_state pg account_id = with_pool
     (io_bind (driver (pg_fetchrow pg ''SELECT id FROM broker_accounts WHERE id=$1::uuid'' [account_id])) (\<lambda>account.
      io_bind (driver (pg_fetchval pg ''SELECT COUNT(*) FROM orders WHERE account_id=$1::uuid AND status IN ('PENDING','VALIDATED','SUBMITTED','PARTIAL')'' [account_id])) (\<lambda>open_orders.
      io_bind (driver (pg_fetchval pg ''SELECT COUNT(*) FROM positions WHERE account_id=$1::uuid AND closed_at IS NULL'' [account_id])) (\<lambda>open_positions.
      io_bind (io_lift (case found account of None \<Rightarrow> Inr account_id | Some d \<Rightarrow> row_id (Some d))) (\<lambda>acc.
      io_bind (io_lift (py_int (py_or open_orders (PInt 0)))) (\<lambda>n_orders.
      io_bind (io_lift (py_int (py_or open_positions (PInt 0)))) (\<lambda>n_positions.
      io_return [(''account_id'', acc), (''open_orders'', PInt n_orders), (''open_positions'', PInt n_positions)])))))))"

definition save_audit_log :: "'w pg_api \<Rightarrow> pydict \<Rightarrow> ('w repo_state, unit) io" where
  "save_audit_log pg payload = with_pool (io_bind (driver (pg_execute pg
     ''INSERT INTO trade_audit_log (id, order_id, event_type, payload, created_at) VALUES (gen_random_uuid(), $1::uuid, $2, $3::jsonb, NOW())''
     [pyget payload ''order_id'', dict_get payload ''event_type'' (PStr ''event''), dict_get payload ''payload'' (PDict [])]))
     (\<lambda>_. io_return ()))"

subsection \<open>Driver calls\<close>

lemma driver_eq [io_simps]: "driver m (r, w) = (fst (m w), (r, snd (m w)))"
  by (simp add: driver_def io_zoom_def split: prod.splits)

lemma with_pool_open [simp]: "rp_pool r \<Longrightarrow> with_pool m (r, w) = m (r, w)"
  by (simp add: with_pool_def io_simps)

lemma with_pool_closed [simp]: "\<not> rp_pool r \<Longrightarrow> with_pool m (r, w) = (Inl AssertionError, (r, w))"
  by (simp add: with_pool_def io_simps)

subsection \<open>Retries are bounded and only for connection errors\<close>

text \<open>The state before attempt \<open>k\<close>.\<close>

definition before_attempt :: "('s, 'a) io \<Rightarrow> 's \<Rightarrow> nat \<Rightarrow> 's" where
  "before_attempt fn s k = ((\<lambda>t. snd (fn t)) ^^ k) s"

definition retried :: "(exn + 'a) \<Rightarrow> bool" where
  "retried r = (case r of Inl e \<Rightarrow> transient e | Inr _ \<Rightarrow> False)"

lemma before_attempt_simps [simp]:
  "before_attempt fn s 0 = s"
  "before_attempt fn s (Suc k) = before_attempt fn (snd (fn s)) k"
  by (simp_all add: before_attempt_def funpow_Suc_right del: funpow.simps(2))

lemma attempt_state_before: "attempt_state fn (\<lambda>s. s) k s = before_attempt fn s k"
  by (induction k arbitrary: s) simp_all

interpretation database_call: bounded_attempts fn retried "\<lambda>s. s" Pair "execute_retry fn"
  for fn :: "('s, 'a) io"
proof
  fix n s
  show "execute_retry fn (Suc n) s = (case fn s of (r, s') \<Rightarrow> if retried r \<and> 0 < n then execute_retry fn n s' else (r, s'))"
    by (cases n) (auto simp: execute_retry_def retried_def split: prod.splits sum.splits)
qed

text \<open>
  A retried database call runs at most as often as it is allowed to: its outcome is that
  of attempt \<open>k\<close>, where every earlier attempt failed with a connection error, and either
  attempt \<open>k\<close> did not, or it was the last one allowed. Any other exception ends the call at
  once.
\<close>

theorem retry_outcome:
  assumes "0 < retries"
  shows "\<exists>k<retries. execute_retry fn retries s = fn (before_attempt fn s k) \<and>
    (\<forall>j<k. retried (fst (fn (before_attempt fn s j)))) \<and>
    (retried (fst (fn (before_attempt fn s k))) \<longrightarrow> k = retries - 1)"
proof -
  obtain n where n: "retries = Suc n" using assms by (cases retries) auto
  show ?thesis
    using database_call.outcome [of n fn s]
    by (auto simp: n less_Suc_eq_le attempt_state_before)
qed

subsection \<open>Update statements\<close>

text \<open>
  The part \<open>p\<close> of the SET clause made for an entry: the database clock, or a placeholder whose
  argument is the entry's value.
\<close>

definition clause_ok :: "pyval list \<Rightarrow> string \<times> pyval \<Rightarrow> string \<Rightarrow> bool" where
  "clause_ok vals = (\<lambda>(k, v) p. if v = PStr ''NOW()'' then p = k @ ''=NOW()''
     else (\<exists>j. p = k @ ''=$'' @ show_int (int j) \<and> 1 < j \<and> j \<le> length vals \<and> vals ! (j - 1) = v))"

lemma set_clause_spec:
  assumes "set_clause us parts vals idx = (ps, vs, n)" and "idx = Suc (length vals)" and "vals \<noteq> []"
  shows "n = Suc (length vs) \<and> vs = vals @ map snd (filter (\<lambda>(k, v). v \<noteq> PStr ''NOW()'') us) \<and>
    (\<exists>ps'. ps = parts @ ps' \<and> list_all2 (clause_ok vs) us ps')"
  using assms
proof (induction us parts vals idx arbitrary: ps vs n rule: set_clause.induct)
  case (1 parts vals idx)
  then show ?case by auto
next
  case (2 k v us parts vals idx)
  show ?case
  proof (cases "v = PStr ''NOW()''")
    case True
    with "2.prems" "2.IH"(1) [OF True, of ps vs n] obtain ps' where
      "n = Suc (length vs)" "vs = vals @ map snd (filter (\<lambda>(k, v). v \<noteq> PStr ''NOW()'') us)"
      "ps = (parts @ [k @ ''=NOW()'']) @ ps'" "list_all2 (clause_ok vs) us ps'" by auto
    then show ?thesis using True by (auto simp: clause_ok_def intro!: exI [of _ "(k @ ''=NOW()'') # ps'"])
  next
    case False
    with "2.prems" "2.IH"(2) [OF False, of ps vs n] obtain ps' where ih:
      "n = Suc (length vs)" "vs = (vals @ [v]) @ map snd (filter (\<lambda>(k, v). v \<noteq> PStr ''NOW()'') us)"
      "ps = (parts @ [k @ ''=$'' @ show_int (int idx)]) @ ps'" "list_all2 (clause_ok vs) us ps'" by auto
    have "clause_ok vs (k, v) (k @ ''=$'' @ show_int (int idx))"
      using False ih(2) "2.prems"(2,3) by (auto simp: clause_ok_def nth_append intro!: exI [of _ idx])
    then show ?thesis
      using False ih by (auto intro!: exI [of _ "(k @ ''=$'' @ show_int (int idx)) # ps'"])
  qed
qed

lemma status_updates_base:
  assumes "k \<notin> fst ` set kwargs"
  shows "map_of (status_updates status version kwargs) k =
     map_of [(''status'', PStr status), (''updated_at'', PStr ''NOW()''), (''version'', PInt (version + 1))] k"
  using dict.lookup_store_fresh [OF assms] by (simp add: status_updates_def)

text \<open>
  The UPDATE statement built for a status change is well numbered, whatever the extra columns:
  its SET clause has one part per column, in order; each part is either the database clock or a
  placeholder that refers to that column's value in the argument list; \<open>$1\<close> is the order id; and
  the last argument, the one the WHERE clause compares with, is the version read under the lock.
  The columns are the status, the time stamp and the version plus one, unless a keyword argument
  replaces them.
\<close>

theorem update_statement_numbered:
  assumes "update_statement order_id status version kwargs = (sql, args)"
  shows "\<exists>parts. sql = ''UPDATE orders SET '' @ join '', '' parts @ '' WHERE id=$1::uuid AND version=$'' @
      show_int (int (length args)) \<and>
    list_all2 (clause_ok (butlast args)) (status_updates status version kwargs) parts \<and>
    hd args = order_id \<and> last args = PInt version \<and>
    (''version'' \<notin> fst ` set kwargs \<longrightarrow> map_of (status_updates status version kwargs) ''version'' = Some (PInt (version + 1)))"
proof -
  obtain ps vs n where st: "set_clause (status_updates status version kwargs) [] [order_id] 2 = (ps, vs, n)"
    by (metis prod_cases3)
  from set_clause_spec [OF st] have spec: "n = Suc (length vs)"
    "vs = order_id # map snd (filter (\<lambda>(k, v). v \<noteq> PStr ''NOW()'') (status_updates status version kwargs))"
    "list_all2 (clause_ok vs) (status_updates status version kwargs) ps"
    by auto
  have "sql = ''UPDATE orders SET '' @ join '', '' ps @ '' WHERE id=$1::uuid AND version=$'' @ show_int (int n)"
    and "args = vs @ [PInt version]"
    using assms st by (auto simp: update_statement_def)
  then show ?thesis
    using spec by (intro exI [of _ ps]) (auto simp: status_updates_base)
qed

subsection \<open>Saving an order twice\<close>

text \<open>
  What PostgreSQL documents of the table \<open>orders\<close>, for calls one after the other. A row is a client order id and a
  row id; \<open>com w\<close> are the committed rows and \<open>cur w\<close> those that the open transaction sees. Every statement may
  raise, with nothing changed by it. A transaction begins on the committed rows; the lookup answers with the id of some row
  that has the client order id, and without a row only if there is none or if the client order id is NULL, which
  equals nothing; an INSERT that answers has added one row and returns its id; a COMMIT that answers has made the
  transaction's rows the committed ones, and one that raises has done so or not; a ROLLBACK leaves the committed rows
  alone.
\<close>

type_synonym order_rows = "(pyval \<times> pyval) list"

definition orders_table :: "'w pg_api \<Rightarrow> ('w \<Rightarrow> order_rows) \<Rightarrow> ('w \<Rightarrow> order_rows) \<Rightarrow> bool" where
  "orders_table pg com cur =
     ((\<forall>w. case pg_begin pg w of (r, w') \<Rightarrow> com w' = com w \<and> (isl r \<or> cur w' = com w)) \<and>
      (\<forall>w c. case pg_fetchrow pg sql_find_client [c] w of (r, w') \<Rightarrow> com w' = com w \<and> cur w' = cur w \<and>
         (case r of Inl e \<Rightarrow> True
          | Inr None \<Rightarrow> c = PNone \<or> c \<notin> fst ` set (cur w)
          | Inr (Some row) \<Rightarrow> c \<noteq> PNone \<and> (\<exists>k. row = [(''id'', k)] \<and> (c, k) \<in> set (cur w)))) \<and>
      (\<forall>w args. case pg_fetchrow pg sql_insert_order args w of (r, w') \<Rightarrow> com w' = com w \<and>
         (isl r \<or> (\<exists>k. r = Inr (Some [(''id'', k)]) \<and> cur w' = cur w @ [(args ! 1, k)]))) \<and>
      (\<forall>w. case pg_commit pg w of (r, w') \<Rightarrow> com w' = cur w \<or> isl r \<and> com w' = com w) \<and>
      (\<forall>w. com (snd (pg_rollback pg w)) = com w))"

lemma orders_table_laws:
  assumes "orders_table pg com cur"
  shows begin_law: "pg_begin pg w = (x1, w') \<Longrightarrow> com w' = com w \<and> (isl x1 \<or> cur w' = com w)"
    and find_law: "pg_fetchrow pg sql_find_client [c] w = (x2, w') \<Longrightarrow> com w' = com w \<and> cur w' = cur w \<and>
         (case x2 of Inl e \<Rightarrow> True
          | Inr None \<Rightarrow> c = PNone \<or> c \<notin> fst ` set (cur w)
          | Inr (Some row) \<Rightarrow> c \<noteq> PNone \<and> (\<exists>k. row = [(''id'', k)] \<and> (c, k) \<in> set (cur w)))"
    and insert_law: "pg_fetchrow pg sql_insert_order args w = (x2, w') \<Longrightarrow> com w' = com w \<and>
         (isl x2 \<or> (\<exists>k. x2 = Inr (Some [(''id'', k)]) \<and> cur w' = cur w @ [(args ! 1, k)]))"
    and commit_law: "pg_commit pg w = (x1, w') \<Longrightarrow> com w' = cur w \<or> isl x1 \<and> com w' = com w"
    and rollback_law: "com (snd (pg_rollback pg w)) = com w"
proof -
  note laws = assms [unfolded orders_table_def]
  show "pg_begin pg w = (x1, w') \<Longrightarrow> com w' = com w \<and> (isl x1 \<or> cur w' = com w)"
    using conjunct1 [OF laws, rule_format, where w = w] by auto
  show "pg_fetchrow pg sql_find_client [c] w = (x2, w') \<Longrightarrow> com w' = com w \<and> cur w' = cur w \<and>
      (case x2 of Inl e \<Rightarrow> True
       | Inr None \<Rightarrow> c = PNone \<or> c \<notin> fst ` set (cur w)
       | Inr (Some row) \<Rightarrow> c \<noteq> PNone \<and> (\<exists>k. row = [(''id'', k)] \<and> (c, k) \<in> set (cur w)))"
    using conjunct1 [OF conjunct2 [OF laws], rule_format, where w = w and c = c] by simp
  show "pg_fetchrow pg sql_insert_order args w = (x2, w') \<Longrightarrow> com w' = com w \<and>
      (isl x2 \<or> (\<exists>k. x2 = Inr (Some [(''id'', k)]) \<and> cur w' = cur w @ [(args ! 1, k)]))"
    using conjunct1 [OF conjunct2 [OF conjunct2 [OF laws]], rule_format, where w = w and args = args] by simp
  show "pg_commit pg w = (x1, w') \<Longrightarrow> com w' = cur w \<or> isl x1 \<and> com w' = com w"
    using conjunct1 [OF conjunct2 [OF conjunct2 [OF conjunct2 [OF laws]]], rule_format, where w = w] by simp
  show "com (snd (pg_rollback pg w)) = com w"
    using conjunct2 [OF conjunct2 [OF conjunct2 [OF conjunct2 [OF laws]]], rule_format, where w = w] .
qed

text \<open>
  What a save with the client order id \<open>c\<close> that answers or raises \<open>x\<close> may make of the committed rows: nothing, or
  one more row if none has this id; and an answer is the text of the id of a row that has it.
\<close>

definition saved :: "pyval \<Rightarrow> exn + pyval \<Rightarrow> order_rows \<Rightarrow> order_rows \<Rightarrow> bool" where
  "saved c x C C' = ((C' = C \<or> c \<notin> fst ` set C \<and> (\<exists>k. C' = C @ [(c, k)])) \<and>
     (case x of Inl e \<Rightarrow> True | Inr t \<Rightarrow> \<exists>k. (c, k) \<in> set C' \<and> t = py_str k))"

lemma insert_args_client: "insert_args d = Inr args \<Longrightarrow> args ! 1 = pyget d ''client_order_id''"
  by (auto simp: insert_args_def split: sum.splits)

lemma save_body_saves:
  assumes tab: "orders_table pg com cur" and c: "pyget d ''client_order_id'' \<noteq> PNone"
    and run: "save_body pg d (r, w) = (x, (r', w'))"
  shows "r' = r \<and> com w' = com w \<and> (isl x \<or> saved (pyget d ''client_order_id'') x (cur w) (cur w'))"
proof -
  let ?c = "pyget d ''client_order_id''"
  obtain x1 w1 where find: "pg_fetchrow pg sql_find_client [?c] w = (x1, w1)" by fastforce
  note f = find_law [OF tab find]
  show ?thesis
  proof (cases x1)
    case (Inl e)
    then show ?thesis using run find f by (auto simp: save_body_def io_simps)
  next
    case (Inr row)
    show ?thesis
    proof (cases row)
      case (Some rw)
      with f Inr obtain k where "rw = [(''id'', k)]" "(?c, k) \<in> set (cur w)" by auto
      then show ?thesis using run find f Inr Some
        by (auto simp: save_body_def io_simps found_def row_id_def key_def sum_bind_def saved_def)
    next
      case None
      with f Inr c have new: "?c \<notin> fst ` set (cur w)" by simp
      show ?thesis
      proof (cases "insert_args d")
        case (Inl e)
        then show ?thesis using run find f Inr None \<open>x1 = Inr row\<close> by (auto simp: save_body_def io_simps found_def)
      next
        case (Inr args)
        obtain x2 w2 where ins: "pg_fetchrow pg sql_insert_order args w1 = (x2, w2)" by fastforce
        note n = insert_law [OF tab ins]
        show ?thesis
          using run find f n new ins None Inr \<open>x1 = Inr row\<close> insert_args_client [OF Inr]
          by (auto simp: save_body_def io_simps found_def row_id_def key_def sum_bind_def saved_def split: sum.splits)
      qed
    qed
  qed
qed

lemma save_run_saves:
  assumes tab: "orders_table pg com cur" and c: "pyget d ''client_order_id'' \<noteq> PNone" and pool: "rp_pool r"
    and run: "save_order_run pg d (r, w) = (x, (r', w'))"
  shows "r' = r \<and> saved (pyget d ''client_order_id'') x (com w) (com w')"
proof -
  have run: "in_transaction pg (save_body pg d) (r, w) = (x, (r', w'))"
    using run pool by (simp add: save_order_run_def)
  obtain x1 w1 where b: "pg_begin pg w = (x1, w1)" by fastforce
  show ?thesis
  proof (cases x1)
    case (Inl e)
    then show ?thesis using run begin_law [OF tab b] b by (auto simp: in_transaction_def io_simps saved_def)
  next
    case (Inr u)
    obtain x2 r2 w2 where m: "save_body pg d (r, w1) = (x2, (r2, w2))" by (metis prod_cases3)
    have law: "r2 = r \<and> com w2 = com w \<and> (isl x2 \<or> saved (pyget d ''client_order_id'') x2 (com w) (cur w2))"
      using save_body_saves [OF tab c m] begin_law [OF tab b] Inr by auto
    show ?thesis
    proof (cases x2)
      case (Inl e)
      have "com (snd (pg_rollback pg w2)) = com w" using rollback_law [OF tab] law by simp
      then show ?thesis using run b Inr m Inl law
        by (auto simp: in_transaction_def io_simps saved_def split: prod.splits sum.splits)
    next
      case (Inr t)
      obtain x3 w3 where k: "pg_commit pg w2 = (x3, w3)" by fastforce
      show ?thesis using run b \<open>x1 = Inr u\<close> m Inr k law commit_law [OF tab k]
        by (cases x3) (auto simp: in_transaction_def io_simps saved_def)
    qed
  qed
qed

lemma saved_again: "saved c (Inl e) C C1 \<Longrightarrow> saved c x C1 C2 \<Longrightarrow> saved c x C C2"
  by (auto simp: saved_def split: sum.splits)

lemma save_order_saves:
  assumes tab: "orders_table pg com cur" and c: "pyget d ''client_order_id'' \<noteq> PNone" and pool: "rp_pool r"
    and run: "save_order pg d (r, w) = (x, (r', w'))"
  shows "r' = r \<and> saved (pyget d ''client_order_id'') x (com w) (com w')"
proof -
  have "r' = r \<and> saved (pyget d ''client_order_id'') x (com w) (com w')"
    if "retry_loop (save_order_run pg d) n e (r, w) = (x, (r', w'))" for n e w
    using that
  proof (induction n arbitrary: e w)
    case 0
    then show ?case by (auto simp: saved_def)
  next
    case (Suc n)
    obtain x1 r1 w1 where 1: "save_order_run pg d (r, w) = (x1, (r1, w1))" by (metis prod_cases3)
    note s1 = save_run_saves [OF tab c pool 1]
    show ?case
    proof (cases "retried x1")
      case True
      then obtain e' where e': "x1 = Inl e'" "transient e'" by (auto simp: retried_def split: sum.splits)
      then have "retry_loop (save_order_run pg d) n e' (r, w1) = (x, (r', w'))" using Suc.prems 1 s1 by simp
      with Suc.IH s1 e'(1) show ?thesis by (blast intro: saved_again)
    next
      case False
      then have "(x, (r', w')) = (x1, (r1, w1))" using Suc.prems 1 by (auto simp: retried_def split: sum.splits if_splits)
      then show ?thesis using s1 by simp
    qed
  qed
  then show ?thesis using run by (simp add: save_order_def execute_retry_def)
qed

text \<open>
  C15. Saving is idempotent in the client order id, whatever statements fail and however often a save is retried:
  on a table in which no client order id other than NULL has two rows, a save under such an id leaves the other rows
  alone and keeps this so; if it answers, the table has exactly one row with the client order
  id, whose id it answers; and a later save of any dictionary with the same client order id changes nothing and,
  if it answers, gives the same id.
\<close>

theorem save_order_idempotent:
  assumes "orders_table pg com cur" and "rp_pool r" and "pyget d ''client_order_id'' = c" and "c \<noteq> PNone"
    and "\<forall>b. b \<noteq> PNone \<longrightarrow> length (filter (\<lambda>p. fst p = b) (com w)) \<le> 1"
    and "save_order pg d (r, w) = (x, (r1, w1))"
  shows "(\<forall>b. b \<noteq> PNone \<longrightarrow> length (filter (\<lambda>p. fst p = b) (com w1)) \<le> 1) \<and>
    filter (\<lambda>p. fst p \<noteq> c) (com w1) = filter (\<lambda>p. fst p \<noteq> c) (com w) \<and>
    (\<forall>i. x = Inr i \<longrightarrow> (\<exists>k. filter (\<lambda>p. fst p = c) (com w1) = [(c, k)] \<and> i = py_str k) \<and>
      (\<forall>d' x' r2 w2. pyget d' ''client_order_id'' = c \<and> save_order pg d' (r1, w1) = (x', (r2, w2)) \<longrightarrow>
         com w2 = com w1 \<and> (isl x' \<or> x' = Inr i)))"
proof -
  have r1: "r1 = r" and s1: "saved c x (com w) (com w1)"
    using save_order_saves [OF assms(1) _ assms(2,6)] assms(3,4) by auto
  have none: "filter (\<lambda>p. fst p = b) C = [] \<longleftrightarrow> b \<notin> fst ` set C" for b and C :: order_rows
    by (auto simp: filter_empty_conv)
  have one: "\<forall>b. b \<noteq> PNone \<longrightarrow> length (filter (\<lambda>p. fst p = b) (com w1)) \<le> 1"
    using s1 assms(5) by (auto simp: saved_def none [THEN iffD2])
  have others: "filter (\<lambda>p. fst p \<noteq> c) (com w1) = filter (\<lambda>p. fst p \<noteq> c) (com w)"
    using s1 by (auto simp: saved_def)
  have unique: "k' = k" if "filter (\<lambda>p. fst p = c) (com w1) = [(c, k)]" "(c, k') \<in> set (com w1)" for k k'
  proof -
    from that(2) have "(c, k') \<in> set (filter (\<lambda>p. fst p = c) (com w1))" by simp
    then show ?thesis using that(1) by simp
  qed
  have row: "\<exists>k. filter (\<lambda>p. fst p = c) (com w1) = [(c, k)] \<and> i = py_str k" if "x = Inr i" for i
  proof -
    from s1 that obtain k where k: "(c, k) \<in> set (com w1)" "i = py_str k" by (auto simp: saved_def)
    then have "(c, k) \<in> set (filter (\<lambda>p. fst p = c) (com w1))" by simp
    moreover have "length (filter (\<lambda>p. fst p = c) (com w1)) \<le> 1" using one assms(4) by blast
    ultimately have "filter (\<lambda>p. fst p = c) (com w1) = [(c, k)]"
      by (cases "filter (\<lambda>p. fst p = c) (com w1)") auto
    with k(2) show ?thesis by blast
  qed
  have again: "com w2 = com w1 \<and> (isl x' \<or> x' = Inr i)"
    if ok: "x = Inr i" and same: "pyget d' ''client_order_id'' = c" and later: "save_order pg d' (r1, w1) = (x', (r2, w2))" for i d' x' r2 w2
  proof -
    obtain k where k: "filter (\<lambda>p. fst p = c) (com w1) = [(c, k)]" "i = py_str k" using row [OF ok] by blast
    then have "c \<in> fst ` set (com w1)" using none [of c "com w1"] by auto
    moreover have s2: "saved c x' (com w1) (com w2)"
      using save_order_saves [OF assms(1) _ assms(2), of d' w1 x' r2 w2] same later assms(4) r1 by auto
    ultimately have "com w2 = com w1" by (auto simp: saved_def)
    with s2 unique [OF k(1)] k(2) show ?thesis by (cases x') (auto simp: saved_def)
  qed
  show ?thesis using one others row again by blast
qed

text \<open>
  Every repository operation needs the pool: before \<open>connect\<close>, or after a failed one, each of
  them fails with the assertion and touches nothing, also through the retries; the one exception
  is a position update without columns, which reports success.
\<close>

theorem closed_pool_fails:
  assumes "\<not> rp_pool r"
  shows "save_order pg d (r, w) = (Inl AssertionError, (r, w)) \<and>
    pg_get_order pg i (r, w) = (Inl AssertionError, (r, w)) \<and>
    pg_update_order_status pg i st kw (r, w) = (Inl AssertionError, (r, w)) \<and>
    get_open_orders pg a (r, w) = (Inl AssertionError, (r, w)) \<and>
    save_trade pg d (r, w) = (Inl AssertionError, (r, w)) \<and>
    get_position pg i (r, w) = (Inl AssertionError, (r, w)) \<and>
    update_position pg i kw (r, w) = (if kw = [] then Inr True else Inl AssertionError, (r, w)) \<and>
    save_risk_incident pg d (r, w) = (Inl AssertionError, (r, w)) \<and>
    get_open_positions pg a (r, w) = (Inl AssertionError, (r, w)) \<and>
    get_account_state pg a (r, w) = (Inl AssertionError, (r, w)) \<and>
    save_audit_log pg d (r, w) = (Inl AssertionError, (r, w))"
  using assms
  by (simp add: save_order_def save_order_run_def pg_get_order_def pg_update_order_status_def update_status_run_def
      get_open_orders_def save_trade_def get_position_def update_position_def save_risk_incident_def get_open_positions_def
      get_account_state_def save_audit_log_def execute_retry_def numeral_3_eq_3 io_return_def)

subsection \<open>Witnesses\<close>

text \<open>A table of client order ids with row ids, its committed rows and those of the open transaction.\<close>

definition table_pg :: "(order_rows \<times> order_rows) pg_api" where
  "table_pg = \<lparr>pg_create_pool = \<lambda>_ _ _. io_return (), pg_close_pool = io_return (),
     pg_begin = io_modify (\<lambda>(c, t). (c, c)), pg_commit = io_modify (\<lambda>(c, t). (t, t)), pg_rollback = io_modify (\<lambda>(c, t). (c, c)),
     pg_fetchrow = (\<lambda>sql args (c, t).
        if sql = sql_find_client then
          (Inr (if hd args = PNone then None else map_option (\<lambda>i. [(''id'', i)]) (map_of t (hd args))), (c, t))
        else if sql = sql_insert_order then
          (Inr (Some [(''id'', PInt (int (length t)))]), (c, t @ [(args ! 1, PInt (int (length t)))]))
        else (Inr None, (c, t))),
     pg_fetch = \<lambda>_ _. io_return [], pg_fetchval = \<lambda>_ _. io_return PNone, pg_execute = \<lambda>_ _. io_return ''UPDATE 1''\<rparr>"

lemma sql_texts_differ: "sql_insert_order \<noteq> sql_find_client"
  by (simp add: sql_insert_order_def sql_find_client_def)

lemma table_pg_table: "orders_table table_pg fst snd"
  by (auto simp: orders_table_def table_pg_def io_modify_def sql_texts_differ map_of_eq_None_iff
      dest: map_of_SomeD split: prod.splits option.splits)

definition open_repo :: repository where
  "open_repo = (repository_init ''postgresql://db/mtrader'')\<lparr>rp_pool := True\<rparr>"

theorem retry_outcome_witness:
  "\<exists>k<3. execute_retry (\<lambda>n::nat. (if n < 2 then Inl PostgresConnectionError else Inr n, n + 1)) 3 0 =
      (\<lambda>n. (if n < 2 then Inl PostgresConnectionError else Inr n, n + 1))
        (before_attempt (\<lambda>n. (if n < 2 then Inl PostgresConnectionError else Inr n, n + 1)) 0 k)"
  using retry_outcome [of 3 "\<lambda>n::nat. (if n < 2 then Inl PostgresConnectionError else Inr n, n + 1)" 0] by auto

lemma update_statement_text:
  "update_statement (PStr ''7'') ''FILLED'' 4 [(''filled_quantity'', PFloat 2)] =
     (''UPDATE orders SET status=$2, updated_at=NOW(), version=$3, filled_quantity=$4 WHERE id=$1::uuid AND version=$5'',
      [PStr ''7'', PStr ''FILLED'', PInt 5, PFloat 2, PInt 4])"
  by (simp add: update_statement_def status_updates_def join_def show_int_def show_nat_aux.simps char_of_def bit_Suc_0_iff)

theorem update_statement_numbered_witness:
  "\<exists>parts. ''UPDATE orders SET status=$2, updated_at=NOW(), version=$3, filled_quantity=$4 WHERE id=$1::uuid AND version=$5'' =
     ''UPDATE orders SET '' @ join '', '' parts @ '' WHERE id=$1::uuid AND version=$'' @ show_int 5 \<and>
     list_all2 (clause_ok [PStr ''7'', PStr ''FILLED'', PInt 5, PFloat 2])
       (status_updates ''FILLED'' 4 [(''filled_quantity'', PFloat 2)]) parts"
  using update_statement_numbered [OF update_statement_text] by (auto simp del: append.simps)

theorem save_order_idempotent_witness:
  "\<exists>w1 w2 x'. save_order table_pg [(''client_order_id'', PStr ''c1''), (''quantity'', PInt 1)] (open_repo, ([], [])) = (Inr (py_str (PInt 0)), (open_repo, w1)) \<and>
     fst w1 = [(PStr ''c1'', PInt 0)] \<and>
     save_order table_pg [(''client_order_id'', PStr ''c1''), (''quantity'', PInt 5)] (open_repo, w1) = (x', (open_repo, w2)) \<and>
     fst w2 = fst w1 \<and> (isl x' \<or> x' = Inr (py_str (PInt 0)))"
proof -
  let ?d = "[(''client_order_id'', PStr ''c1''), (''quantity'', PInt 1)]" and ?d' = "[(''client_order_id'', PStr ''c1''), (''quantity'', PInt 5)]"
  let ?w1 = "([(PStr ''c1'', PInt 0)], [(PStr ''c1'', PInt 0)])"
  have run: "save_order table_pg ?d (open_repo, ([], [])) = (Inr (py_str (PInt 0)), (open_repo, ?w1))"
    by (simp add: save_order_def save_order_run_def save_body_def execute_retry_def numeral_3_eq_3 open_repo_def in_transaction_def table_pg_def
        io_simps sql_texts_differ found_def row_id_def key_def sum_bind_def insert_args_def float_entry_def)
  obtain x' r2 w2 where again: "save_order table_pg ?d' (open_repo, ?w1) = (x', (r2, w2))" by (metis prod_cases3)
  have "rp_pool open_repo" by (simp add: open_repo_def)
  note idem = save_order_idempotent [OF table_pg_table this _ _ _ run, of "PStr ''c1''"]
  have "fst w2 = fst ?w1 \<and> (isl x' \<or> x' = Inr (py_str (PInt 0)))"
    by (rule idem [THEN conjunct2, THEN conjunct2, rule_format, THEN conjunct2, rule_format, OF _ _ _ refl, where d' = ?d'])
       (use again in simp_all)
  moreover have "r2 = open_repo"
    using save_order_saves [OF table_pg_table _ _ again] by (simp add: open_repo_def)
  ultimately show ?thesis using run again by (intro exI [of _ ?w1] exI [of _ w2] exI [of _ x'] conjI) simp_all
qed

theorem closed_pool_fails_witness:
  "save_order table_pg [] (repository_init [], ([], [])) = (Inl AssertionError, (repository_init [], ([], [])))"
  using closed_pool_fails [of "repository_init []" table_pg "[]" "([], [])" PNone "[]" "[]" PNone] by (simp add: repository_init_def)

end
