(* ===== verification/Trading_App.thy ===== *)
theory Trading_App
  imports Execution_Engine MT5_Connector Order_Repository
begin

text \<open>
  The trading service (\<^verbatim>\<open>trading_service/src/app.py\<close>): the repository, the connector, the
  risk engine and the execution engine as the module wires them, and its endpoints. The state of
  the service is the state of those objects with the database \<open>'p\<close> and the broker terminal \<open>'w\<close>
  behind them. The drivers \<open>pg\<close> and \<open>mt5\<close> are parameters, as in the theories of the repository and
  the connector.
\<close>

subsection \<open>Wiring\<close>

record ('p, 'w) service =
  sv_repo :: repository
  sv_db :: 'p
  sv_connector :: connector
  sv_terminal :: 'w
  sv_risk :: risk_engine

definition on_repo :: "('p repo_state, 'a) io \<Rightarrow> (('p, 'w) service, 'a) io" where
  "on_repo m = io_zoom (\<lambda>s. (sv_repo s, sv_db s)) (\<lambda>(r, w) s. s\<lparr>sv_repo := r, sv_db := w\<rparr>) m"

definition on_connector :: "('w conn_state, 'a) io \<Rightarrow> (('p, 'w) service, 'a) io" where
  "on_connector m = io_zoom (\<lambda>s. (sv_connector s, sv_terminal s)) (\<lambda>(c, w) s. s\<lparr>sv_connector := c, sv_terminal := w\<rparr>) m"

definition on_risk :: "(('p, 'w) service risk_state, 'a) io \<Rightarrow> (('p, 'w) service, 'a) io" where
  "on_risk m = io_zoom (\<lambda>s. (sv_risk s, s)) (\<lambda>(e, t) _. t\<lparr>sv_risk := e\<rparr>) m"

text \<open>
  \<open>service_init\<close>: the objects as the module creates them, the credentials read from the
  environment.
\<close>

definition service_init :: "string \<Rightarrow> mt5_credentials \<Rightarrow> 'p \<Rightarrow> 'w \<Rightarrow> ('p, 'w) service" where
  "service_init database_url credentials db terminal =
     \<lparr>sv_repo = repository_init database_url, sv_db = db,
      sv_connector = connector_init credentials (Some default_config), sv_terminal = terminal, sv_risk = risk_init\<rparr>"

text \<open>\<open>RiskEngine(repository=repository, connector=connector)\<close>: no other collaborator.\<close>

definition wired_risk_deps :: "'p pg_api \<Rightarrow> 'w mt5_api option \<Rightarrow> ('p, 'w) service risk_deps" where
  "wired_risk_deps pg mt5 = no_deps\<lparr>
     dep_save_risk_incident := Some (\<lambda>i. io_bind (on_repo (save_risk_incident pg i)) (\<lambda>_. io_return ())),
     dep_close_all_positions := Some (io_bind (on_connector (close_all_positions mt5 PNone)) (\<lambda>_. io_return ()))\<rparr>"

text \<open>
  \<open>ExecutionEngine(connector, risk_engine, repository)\<close>. The repository class has neither
  \<open>update_order\<close> nor \<open>get_orders\<close>. No callback is registered. \<open>now\<close> and \<open>stamp\<close> are the clock
  readings of the risk check.
\<close>

definition wired_deps :: "'p pg_api \<Rightarrow> 'w mt5_api option \<Rightarrow> datetime \<Rightarrow> datetime \<Rightarrow> ('p, 'w) service exec_deps" where
  "wired_deps pg mt5 now stamp =
     \<lparr>rp_save_order = \<lambda>d. on_repo (save_order pg d),
      rp_get_order = \<lambda>i. on_repo (pg_get_order pg i),
      rp_update_order = \<lambda>_ _. io_raise (AttributeError ''update_order''),
      rp_get_orders = \<lambda>_ _. io_raise (AttributeError ''get_orders''),
      cn_get_account_info = on_connector (get_account_info mt5),
      cn_get_positions = \<lambda>symbol. on_connector (get_positions mt5 symbol),
      cn_execute_order = \<lambda>d. on_connector (execute_order mt5 d),
      cn_cancel_order = \<lambda>i. on_connector (MT5_Connector.cancel_order mt5 i),
      rk_pre_trade_check = \<lambda>d acct ps. on_risk (pre_trade_check (wired_risk_deps pg mt5) now stamp d acct ps),
      cb_call = \<lambda>_ _. io_return ()\<rparr>"

definition lifespan_start :: "'p pg_api \<Rightarrow> (('p, 'w) service, unit) io" where
  "lifespan_start pg = on_repo (repo_connect pg)"

definition lifespan_stop :: "'p pg_api \<Rightarrow> (('p, 'w) service, unit) io" where
  "lifespan_stop pg = on_repo (repo_close pg)"

subsection \<open>Endpoints\<close>

record order_in =
  oi_account_id :: string
  oi_symbol :: string
  oi_side :: string
  oi_order_type :: string
  oi_quantity :: real
  oi_strategy_id :: "string option"
  oi_model_id :: "string option"

definition opt_str :: "string option \<Rightarrow> pyval" where
  "opt_str x = (case x of None \<Rightarrow> PNone | Some s \<Rightarrow> PStr s)"

text \<open>The order built from a request; \<open>oid\<close> and \<open>cid\<close> are the two random identifiers, \<open>t1\<close> and \<open>t2\<close> its time stamps.\<close>

definition make_order :: "string \<Rightarrow> string \<Rightarrow> datetime \<Rightarrow> datetime \<Rightarrow> order_in \<Rightarrow> exn + order" where
  "make_order oid cid t1 t2 payload =
     sum_bind (side_of (PStr (upper_str (oi_side payload)))) (\<lambda>side.
     sum_bind (type_of (PStr (upper_str (oi_order_type payload)))) (\<lambda>otype.
     Inr \<lparr>o_id = PStr oid, o_client_order_id = PStr cid, o_account_id = PStr (oi_account_id payload),
       o_strategy_id = opt_str (oi_strategy_id payload), o_model_id = opt_str (oi_model_id payload),
       o_symbol = PStr (oi_symbol payload), o_side = side, o_order_type = otype, o_quantity = oi_quantity payload,
       o_filled_quantity = 0, o_price = PNone, o_stop_price = PNone, o_limit_price = PNone, o_status = PENDING,
       o_rejection_reason = PNone, o_commission = 0, o_swap = 0, o_profit = 0, o_opened_at = None,
       o_closed_at = None, o_created_at = PDatetime t1, o_updated_at = PDatetime t2\<rparr>))"

text \<open>\<open>str(exc)\<close>\<close>

fun exn_text :: "exn \<Rightarrow> string" where
  "exn_text (ValueError m) = m"
| "exn_text (TypeError m) = m"
| "exn_text (AttributeError m) = m"
| "exn_text AssertionError = []"
| "exn_text (KeyError m) = m"
| "exn_text (RuntimeError m) = m"
| "exn_text (HTTPException code m) = m"
| "exn_text PostgresConnectionError = ''connection error''"
| "exn_text TooManyConnectionsError = ''too many connections''"
| "exn_text (OtherException m) = m"

definition post_order :: "('p, 'w) service exec_deps \<Rightarrow> (nat \<Rightarrow> datetime) \<Rightarrow> string \<Rightarrow> string \<Rightarrow> datetime \<Rightarrow> datetime
    \<Rightarrow> order_in \<Rightarrow> (('p, 'w) service, pydict) io" where
  "post_order dp clk oid cid t1 t2 payload =
     io_bind (io_try
       (io_bind (io_lift (make_order oid cid t1 t2 payload)) (\<lambda>o'.
        io_bind (io_lift (to_dict o')) (\<lambda>d.
        io_bind (rp_save_order dp d) (\<lambda>_.
        io_bind (submit_order dp callbacks_init clk o') (\<lambda>_. io_lift (to_dict o'))))))) (\<lambda>r.
     case r of Inl e \<Rightarrow> io_raise (HTTPException 400 (exn_text e)) | Inr d \<Rightarrow> io_return d)"

definition get_order_endpoint :: "('p, 'w) service exec_deps \<Rightarrow> datetime \<Rightarrow> string \<Rightarrow> (('p, 'w) service, pydict) io" where
  "get_order_endpoint dp now order_id =
     io_bind (get_order dp now (PStr order_id)) (\<lambda>r. case r of
       None \<Rightarrow> io_raise (HTTPException 404 ''order not found'')
     | Some o' \<Rightarrow> io_lift (to_dict o'))"

definition account_endpoint :: "'p pg_api \<Rightarrow> 'w mt5_api option \<Rightarrow> string \<Rightarrow> (('p, 'w) service, pydict) io" where
  "account_endpoint pg mt5 account_id =
     io_bind (on_connector (get_account_info mt5)) (\<lambda>info.
     io_bind (on_repo (get_account_state pg (PStr account_id))) (\<lambda>state.
     io_return [(''broker'', PDict info), (''state'', PDict state)]))"

subsection \<open>No order can be submitted\<close>

lemma update_without_method:
  assumes "rp_update_order dp = (\<lambda>_ _. io_raise e)"
  shows "update_order_status dp cbs now i st kw s \<noteq> (Inr u, s')"
  using assms by (auto simp: update_order_status_def split: option.splits if_splits elim!: io_bindE)

lemma submit_without_update:
  assumes "rp_update_order dp = (\<lambda>_ _. io_raise e)"
  shows "submit_order dp cbs clk o' s \<noteq> (Inr r, s')"
  using update_without_method [OF assms]
  by (auto simp: submit_order_def split: if_splits elim!: io_bindE)

lemma wired_update [simp]: "rp_update_order (wired_deps pg mt5 now stamp) = (\<lambda>_ _. io_raise (AttributeError ''update_order''))"
  by (simp add: wired_deps_def)

lemma wired_submit [simp]: "submit_order (wired_deps pg mt5 now stamp) cbs clk o' s \<noteq> (Inr r, s')"
  by (rule submit_without_update) (rule wired_update)

text \<open>
  C1. In the service as it is wired, every request to place an order is answered with status 400:
  whatever the request, the database, the broker and the rules, \<open>post_order\<close> ends in an
  \<open>HTTPException\<close> of that code, because each path of the submission reaches \<open>update_order\<close>, a
  method the repository does not have, or another exception.
\<close>

theorem post_order_always_fails:
  "\<exists>msg s'. post_order (wired_deps pg mt5 now stamp) clk oid cid t1 t2 payload s = (Inl (HTTPException 400 msg), s')"
proof -
  let ?dp = "wired_deps pg mt5 now stamp"
  define body where "body =
     (io_bind (io_lift (make_order oid cid t1 t2 payload)) (\<lambda>o'.
      io_bind (io_lift (to_dict o')) (\<lambda>d.
      io_bind (rp_save_order ?dp d) (\<lambda>_.
      io_bind (submit_order ?dp callbacks_init clk o') (\<lambda>_. io_lift (to_dict o'))))))"
  have never: "body s \<noteq> (Inr d, s')" for d s'
    unfolding body_def by (auto elim!: io_bindE)
  obtain e s' where "body s = (Inl e, s')"
    using never by (cases "body s"; cases "fst (body s)") auto
  then show ?thesis
    unfolding post_order_def body_def [symmetric] by (simp add: io_simps)
qed

subsection \<open>What reaches the broker\<close>

lemma to_dict_keys: "to_dict o' = Inr d \<Longrightarrow> map fst d = map fst (order_entries o' PNone PNone)"
  by (auto simp: to_dict_def order_entries_def split: sum.splits)

lemma to_dict_kind: "to_dict o' = Inr d \<Longrightarrow> order_kind d = PStr ''MARKET''"
  by (auto simp: to_dict_def order_entries_def order_kind_def upper_str_def upper_char_def code_of_def split: sum.splits)

text \<open>
  Whatever the type of an order, the request that the connector builds from the engine's
  dictionary is a market deal: the engine files the type under \<open>order_type\<close>, the connector
  reads \<open>type\<close>. The stop price becomes the stop loss and the limit price the take profit of
  that deal.
\<close>

theorem every_order_is_a_deal:
  assumes "to_dict o' = Inr d" and "order_request api d volume price = Inr req"
  shows "map_of req ''action'' = Some (PInt (c_action_deal api)) \<and>
    map_of req ''type'' = Some (PInt (if o_side o' = BUY then c_type_buy api else c_type_sell api)) \<and>
    (\<forall>x. o_stop_price o' = PFloat x \<longrightarrow> map_of req ''sl'' = Some (PFloat x)) \<and>
    (\<forall>x. o_limit_price o' = PFloat x \<longrightarrow> map_of req ''tp'' = Some (PFloat x))"
proof -
  have fields: "pyget d ''stop_price'' = o_stop_price o'" "pyget d ''limit_price'' = o_limit_price o'"
    "dict_get d ''side'' (PStr ''BUY'') = PStr (side_value (o_side o'))"
    using assms(1) by (auto simp: to_dict_def order_entries_def split: sum.splits)
  have side: "MT5_Connector.order_side d = PStr (side_value (o_side o'))"
    unfolding MT5_Connector.order_side_def fields
    by (cases "o_side o'") (simp_all add: upper_str_def upper_char_def code_of_def)
  have zero: "py_float (py_or (PFloat x) (PInt 0)) = Inr x" for x
    by (cases "x = 0") simp_all
  show ?thesis
    using assms(2) to_dict_kind [OF assms(1)] side
    by (cases "o_side o'")
       (auto simp: order_request_def fields zero split: sum.splits)
qed

subsection \<open>Cancelling\<close>

lemma connector_eq [io_simps]:
  "on_connector m s = (case m (sv_connector s, sv_terminal s) of (r, (c, w)) \<Rightarrow> (r, s\<lparr>sv_connector := c, sv_terminal := w\<rparr>))"
  by (simp add: on_connector_def io_zoom_def split: prod.splits)

lemma repo_eq [io_simps]:
  "on_repo m s = (case m (sv_repo s, sv_db s) of (r, (c, w)) \<Rightarrow> (r, s\<lparr>sv_repo := c, sv_db := w\<rparr>))"
  by (simp add: on_repo_def io_zoom_def split: prod.splits)

lemma keeps_connector_risk [keeps]: "io_keeps sv_risk (on_connector m)"
  by (simp add: io_keeps_def connector_eq split: prod.splits)

lemma keeps_repo_risk [keeps]: "io_keeps sv_risk (on_repo m)"
  by (simp add: io_keeps_def repo_eq split: prod.splits)

lemma keeps_repo_terminal [keeps]: "io_keeps sv_terminal (on_repo m)"
  by (simp add: io_keeps_def repo_eq split: prod.splits)

lemma connector_cancel_text:
  assumes "parse_int i = None"
  shows "\<exists>e. MT5_Connector.cancel_order mt5 (PStr i) st = (Inl e, st)"
  using assms by (simp add: MT5_Connector.cancel_order_def with_mt5_def io_simps split: option.splits)

text \<open>
  An order whose id is not the text of an integer, such as the random identifiers the service
  gives to its orders, is never cancelled: in the service as it is wired the engine's
  \<open>cancel_order\<close> answers \<open>False\<close> or raises, and the broker terminal is not touched.
\<close>

theorem uuid_orders_not_cancelled:
  assumes "parse_int i = None"
  shows "fst (Execution_Engine.cancel_order (wired_deps pg mt5 now stamp) cbs clk (PStr i) s) \<noteq> Inr True \<and>
    sv_terminal (snd (Execution_Engine.cancel_order (wired_deps pg mt5 now stamp) cbs clk (PStr i) s)) = sv_terminal s"
proof -
  let ?dp = "wired_deps pg mt5 now stamp"
  obtain r s1 where g: "get_order ?dp (clk 0) (PStr i) s = (r, s1)" by fastforce
  have kept: "sv_terminal s1 = sv_terminal s"
  proof -
    have "io_keeps sv_terminal (get_order ?dp (clk 0) (PStr i))"
      unfolding get_order_def wired_deps_def
      by (intro keeps) (auto split: option.splits intro!: keeps)
    from io_keepsD [OF this, of s] g show ?thesis by simp
  qed
  have raise: "\<exists>e. cn_cancel_order ?dp (PStr i) s1 = (Inl e, s1)"
    using connector_cancel_text [OF assms, of mt5 "(sv_connector s1, sv_terminal s1)"]
    by (auto simp: wired_deps_def connector_eq)
  show ?thesis
    using kept raise
    by (auto simp: Execution_Engine.cancel_order_def io_bind_def g io_return_def split: sum.splits option.splits)
qed

subsection \<open>The kill switch in the wired service\<close>

text \<open>
  While the kill switch is on, a submission sends nothing to the broker. The engine wired to
  the service's connector, repository and risk engine runs exactly as it would if the terminal's
  \<open>order_send\<close> were any other function. This is stated for every \<open>update_order\<close> the repository
  could be given.
\<close>

theorem kill_switch_blocks_sending:
  assumes "re_kill_switch (sv_risk s)"
  shows "submit_order ((wired_deps pg (Some api) now stamp)\<lparr>rp_update_order := upd\<rparr>) cbs clk o' s =
    submit_order ((wired_deps pg (Some (api\<lparr>m_order_send := any\<rparr>)) now stamp)\<lparr>rp_update_order := upd\<rparr>) cbs clk o' s"
proof -
  let ?dp = "(wired_deps pg (Some api) now stamp)\<lparr>rp_update_order := upd\<rparr>"
  let ?dq = "(wired_deps pg (Some (api\<lparr>m_order_send := any\<rparr>)) now stamp)\<lparr>rp_update_order := upd\<rparr>"
  have get: "get_order ?dq = get_order ?dp" by (simp add: get_order_def wired_deps_def fun_eq_iff)
  have emit: "emit ?dq = emit ?dp" by (simp add: emit_def wired_deps_def fun_eq_iff)
  have up: "update_order_status ?dq a b c d e = update_order_status ?dp a b c d e" for a b c d e
    unfolding update_order_status_def get
    by (rule arg_cong [where f = "io_bind _"]) (auto simp: fun_eq_iff emit split: option.splits)
  have info: "cn_get_account_info ?dq = cn_get_account_info ?dp"
    by (simp add: wired_deps_def get_account_info_def with_mt5_def)
  have pos: "cn_get_positions ?dq = cn_get_positions ?dp"
    by (simp add: wired_deps_def get_positions_def with_mt5_def fun_eq_iff)
  have risk: "rk_pre_trade_check (wired_deps pg mt5 now stamp) d ai ps t = (Inr killed, t)"
    if "re_kill_switch (sv_risk t)" for mt5 d ai ps t
    using that by (simp add: wired_deps_def on_risk_def io_zoom_def pre_trade_check_def)
  show ?thesis
  proof (cases "o_status o' \<noteq> PENDING \<or> o_quantity o' \<le> 0")
    case True
    then show ?thesis by (auto simp: submit_order_def up)
  next
    case False
    obtain r1 s1 where a: "cn_get_account_info ?dp s = (r1, s1)" by fastforce
    have k1: "re_kill_switch (sv_risk s1)"
      using a assms io_keepsD [OF keeps_connector_risk, of "get_account_info (Some api)" s]
      by (auto simp: wired_deps_def)
    obtain r2 s2 where p: "cn_get_positions ?dp (o_symbol o') s1 = (r2, s2)" by fastforce
    have k2: "re_kill_switch (sv_risk s2)"
      using p k1 io_keepsD [OF keeps_connector_risk, of "get_positions (Some api) (o_symbol o')" s1]
      by (auto simp: wired_deps_def)
    show ?thesis
      using False a p risk [OF k2]
      by (auto simp: submit_order_def up info pos io_bind_def io_lift_def killed_def split: sum.splits)
  qed
qed

subsection \<open>Witnesses\<close>

abbreviation demo_service :: "(order_rows \<times> order_rows, nat) service" where
  "demo_service \<equiv> service_init ''postgresql://db/mtrader''
     \<lparr>cr_account_id = 7, cr_password = ''pw'', cr_server = ''demo'', cr_path = None\<rparr> ([], []) 0"

theorem every_order_is_a_deal_witness:
  "\<exists>d req. to_dict (demo_o\<lparr>o_order_type := LIMIT, o_limit_price := PFloat 2\<rparr>) = Inr d \<and>
     order_request demo_api d 1 3 = Inr req \<and> map_of req ''action'' = Some (PInt (c_action_deal demo_api)) \<and>
     map_of req ''tp'' = Some (PFloat 2)"
proof -
  let ?o = "demo_o\<lparr>o_order_type := LIMIT, o_limit_price := PFloat 2\<rparr>"
  obtain d where d: "to_dict ?o = Inr d" by (simp add: to_dict_def iso_entry_def demo_o_def)
  obtain req where r: "order_request demo_api d 1 3 = Inr req"
    using d by (auto simp: to_dict_def iso_entry_def demo_o_def order_request_def order_entries_def)
  show ?thesis using every_order_is_a_deal [OF d r] d r by auto
qed

theorem uuid_orders_not_cancelled_witness:
  "parse_int ''3f2504e0-4f89-41d3-9a0c-0305e82c3301'' = None \<and>
   fst (Execution_Engine.cancel_order (wired_deps table_pg (Some demo_api) 0 0) callbacks_init (\<lambda>n. 0)
     (PStr ''3f2504e0-4f89-41d3-9a0c-0305e82c3301'') demo_service) \<noteq> Inr True"
proof -
  have n: "parse_int ''3f2504e0-4f89-41d3-9a0c-0305e82c3301'' = None"
    by (simp add: parse_int_def split_sign_def py_strip_def is_space_def is_digit_def code_of_def)
  show ?thesis
    using uuid_orders_not_cancelled [OF n, of table_pg "Some demo_api" 0 0 callbacks_init "\<lambda>n. 0" demo_service] n by simp
qed

theorem kill_switch_blocks_sending_witness:
  "submit_order ((wired_deps table_pg (Some demo_api) 0 0)\<lparr>rp_update_order := \<lambda>_ _. io_return ()\<rparr>) callbacks_init (\<lambda>n. 0) demo_o
     (demo_service\<lparr>sv_risk := risk_init\<lparr>re_kill_switch := True\<rparr>\<rparr>) =
   submit_order ((wired_deps table_pg (Some (demo_api\<lparr>m_order_send := \<lambda>_. io_raise (OtherException ''sent'')\<rparr>)) 0 0)
     \<lparr>rp_update_order := \<lambda>_ _. io_return ()\<rparr>) callbacks_init (\<lambda>n. 0) demo_o
     (demo_service\<lparr>sv_risk := risk_init\<lparr>re_kill_switch := True\<rparr>\<rparr>)"
  by (rule kill_switch_blocks_sending) simp

end
