(* ===== verification/Redis_Client.thy ===== *)
theory Redis_Client
  imports Prelude
begin

text \<open>
  The Redis client that the gateway and the token functions use is a parameter: a record of the
  commands they send, over the state \<open>'w\<close> of the server, its clock included. A key is the
  pattern in the source with the value filled in; the patterns of different keys never give
  the same text. A stored value is its text.
\<close>

type_synonym rkey = "string \<times> pyval"

record 'w redis_api =
  rd_exists :: "rkey \<Rightarrow> ('w, bool) io"
  rd_get :: "rkey \<Rightarrow> ('w, string option) io"
  rd_set :: "rkey \<Rightarrow> string \<Rightarrow> int \<Rightarrow> ('w, unit) io"
  rd_lpush :: "rkey \<Rightarrow> pyval \<Rightarrow> ('w, unit) io"
  rd_zremrangebyscore :: "rkey \<Rightarrow> real \<Rightarrow> real \<Rightarrow> ('w, unit) io"
  rd_zadd :: "rkey \<Rightarrow> pyval \<Rightarrow> real \<Rightarrow> ('w, unit) io"
  rd_zcard :: "rkey \<Rightarrow> ('w, nat) io"
  rd_scard :: "rkey \<Rightarrow> ('w, nat) io"
  rd_expire :: "rkey \<Rightarrow> int \<Rightarrow> ('w, unit) io"
  rd_sadd :: "rkey \<Rightarrow> pyval list \<Rightarrow> ('w, unit) io"
  rd_srem :: "rkey \<Rightarrow> pyval list \<Rightarrow> ('w, unit) io"
  rd_smembers :: "rkey \<Rightarrow> ('w, pyval list) io"
  rd_hset :: "rkey \<Rightarrow> (string \<times> pyval) list \<Rightarrow> ('w, unit) io"
  rd_hget :: "rkey \<Rightarrow> string \<Rightarrow> ('w, pyval option) io"
  rd_hgetall :: "rkey \<Rightarrow> ('w, pydict) io"
  rd_delete :: "rkey \<Rightarrow> ('w, unit) io"
  rd_publish :: "rkey \<Rightarrow> pyval \<Rightarrow> ('w, unit) io"

subsection \<open>Documented behaviour\<close>

text \<open>
  String keys: \<open>EXISTS\<close> and \<open>GET\<close> read the live keys, \<open>SET\<close> with a lifetime of at least a second
  makes the key live; \<open>view w\<close> is the live keys of the server state \<open>w\<close>.
\<close>

definition redis_strings :: "'w redis_api \<Rightarrow> ('w \<Rightarrow> rkey \<Rightarrow> string option) \<Rightarrow> bool" where
  "redis_strings rd view =
     ((\<forall>k w. rd_exists rd k w = (Inr (view w k \<noteq> None), w)) \<and>
      (\<forall>k w. rd_get rd k w = (Inr (view w k), w)) \<and>
      (\<forall>k v ex w. 1 \<le> ex \<longrightarrow> (\<exists>w'. rd_set rd k v ex w = (Inr (), w') \<and> view w' = (view w)(k \<mapsto> v))))"

lemma redis_strings_laws:
  assumes "redis_strings rd view"
  shows exists_law: "rd_exists rd k w = (Inr (view w k \<noteq> None), w)"
    and get_law: "rd_get rd k w = (Inr (view w k), w)"
    and set_law: "1 \<le> ex \<Longrightarrow> \<exists>w'. rd_set rd k v ex w = (Inr (), w') \<and> view w' = (view w)(k \<mapsto> v)"
  using assms unfolding redis_strings_def by blast+

text \<open>
  Sorted sets of scored members: \<open>view w k\<close> is the live set as a list of distinct members with
  their scores.
\<close>

definition redis_zsets :: "'w redis_api \<Rightarrow> ('w \<Rightarrow> rkey \<Rightarrow> (pyval \<times> real) list) \<Rightarrow> bool" where
  "redis_zsets rd view =
     ((\<forall>k w. rd_zcard rd k w = (Inr (length (view w k)), w)) \<and>
      (\<forall>k lo hi w. \<exists>w'. rd_zremrangebyscore rd k lo hi w = (Inr (), w') \<and>
         view w' = (view w)(k := filter (\<lambda>(m, x). \<not> (lo \<le> x \<and> x \<le> hi)) (view w k))) \<and>
      (\<forall>k m x w. \<exists>w'. rd_zadd rd k m x w = (Inr (), w') \<and> view w' = (view w)(k := AList.update m x (view w k))) \<and>
      (\<forall>k ex w. 1 \<le> ex \<longrightarrow> (\<exists>w'. rd_expire rd k ex w = (Inr (), w') \<and> view w' = view w)))"

lemma redis_zsets_laws:
  assumes "redis_zsets rd view"
  shows zcard_law: "rd_zcard rd k w = (Inr (length (view w k)), w)"
    and zrem_law: "\<exists>w'. rd_zremrangebyscore rd k lo hi w = (Inr (), w') \<and>
         view w' = (view w)(k := filter (\<lambda>(m, x). \<not> (lo \<le> x \<and> x \<le> hi)) (view w k))"
    and zadd_law: "\<exists>w'. rd_zadd rd k m x w = (Inr (), w') \<and> view w' = (view w)(k := AList.update m x (view w k))"
    and zexpire_law: "1 \<le> ex \<Longrightarrow> \<exists>w'. rd_expire rd k ex w = (Inr (), w') \<and> view w' = view w"
  using assms unfolding redis_zsets_def by blast+

text \<open>
  Plain sets: \<open>view w k\<close> is the members of the live set \<open>k\<close>. Commands on keys of the other kinds
  do not change them.
\<close>

definition redis_sets :: "'w redis_api \<Rightarrow> ('w \<Rightarrow> rkey \<Rightarrow> pyval set) \<Rightarrow> bool" where
  "redis_sets rd view =
     ((\<forall>k ms w. view (snd (rd_sadd rd k ms w)) \<in> {view w, (view w)(k := view w k \<union> set ms)}) \<and>
      (\<forall>k ms w. view (snd (rd_srem rd k ms w)) \<in> {view w, (view w)(k := view w k - set ms)}) \<and>
      (\<forall>k ex w. view (snd (rd_expire rd k ex w)) = view w) \<and> (\<forall>k w. view (snd (rd_scard rd k w)) = view w) \<and>
      (\<forall>k h w. view (snd (rd_hset rd k h w)) = view w) \<and>
      (\<forall>k lo hi w. view (snd (rd_zremrangebyscore rd k lo hi w)) = view w) \<and>
      (\<forall>k m x w. view (snd (rd_zadd rd k m x w)) = view w) \<and> (\<forall>k w. view (snd (rd_zcard rd k w)) = view w))"

lemma redis_sets_laws:
  assumes "redis_sets rd view"
  shows sadd_law: "view (snd (rd_sadd rd k ms w)) \<in> {view w, (view w)(k := view w k \<union> set ms)}"
    and srem_law: "view (snd (rd_srem rd k ms w)) \<in> {view w, (view w)(k := view w k - set ms)}"
    and quiet_laws: "view (snd (rd_expire rd k ex w)) = view w" "view (snd (rd_scard rd k w)) = view w"
      "view (snd (rd_hset rd k h w)) = view w" "view (snd (rd_zremrangebyscore rd k lo hi w)) = view w"
      "view (snd (rd_zadd rd k m x w)) = view w" "view (snd (rd_zcard rd k w)) = view w"
  using assms unfolding redis_sets_def by metis+

end
