(* ===== verification/Token_Security.thy ===== *)
theory Token_Security
  imports Redis_Client
begin

text \<open>
  Passwords and tokens (\<^verbatim>\<open>app/core/security.py\<close>). The password hasher, the token library with
  the configured keys, the hash function and Redis are parameters; claims are dictionaries.
  Clock readings are \<open>clk 0\<close>, \<open>clk 1\<close>, and so on, random identifiers are arguments.
\<close>

subsection \<open>Parameters\<close>

text \<open>
  \<open>jc_decode\<close> gives \<open>None\<close> where the library raises \<open>JWTError\<close>; it may read the clock, hence the
  state. \<open>jc_sha256\<close> is the hexadecimal digest.
\<close>

record 'w token_crypto =
  jc_encode :: "pydict \<Rightarrow> exn + string"
  jc_decode :: "string \<Rightarrow> ('w, pydict option) io"
  jc_sha256 :: "string \<Rightarrow> string"
  jc_hash_password :: "string \<Rightarrow> string"
  jc_verify_password :: "string \<Rightarrow> string \<Rightarrow> exn + bool"

record token_settings =
  ts_issuer :: string
  ts_audience :: string
  ts_access_ttl_minutes :: int
  ts_refresh_ttl_days :: int

record token_pair =
  tp_access_token :: string
  tp_refresh_token :: string
  tp_access_jti :: string
  tp_refresh_jti :: string
  tp_family_id :: pyval

definition hash_password :: "'w token_crypto \<Rightarrow> string \<Rightarrow> string" where
  "hash_password jc password = jc_hash_password jc password"

definition verify_password :: "'w token_crypto \<Rightarrow> string \<Rightarrow> string \<Rightarrow> bool" where
  "verify_password jc password password_hash =
     (case jc_verify_password jc password_hash password of Inl e \<Rightarrow> False | Inr b \<Rightarrow> b)"

subsection \<open>Issuing\<close>

text \<open>\<open>int(t.timestamp())\<close>\<close>

definition seconds :: "datetime \<Rightarrow> int" where
  "seconds t = truncate_real (of_int t / 1000000)"

definition build_claims :: "'w token_crypto \<Rightarrow> token_settings \<Rightarrow> datetime \<Rightarrow> string \<Rightarrow> pyval \<Rightarrow> int \<Rightarrow> string \<Rightarrow> pyval
    \<Rightarrow> string \<Rightarrow> pydict" where
  "build_claims jc st now jti subject ttl token_type family_id fingerprint =
     [(''sub'', subject), (''iss'', PStr (ts_issuer st)), (''aud'', PStr (ts_audience st)),
      (''iat'', PInt (seconds now)), (''nbf'', PInt (seconds now)), (''exp'', PInt (seconds (now + ttl))),
      (''jti'', PStr jti), (''typ'', PStr token_type)] @
     (if truthy family_id then [(''fid'', family_id)] else []) @
     (if fingerprint \<noteq> [] then [(''fp'', PStr (jc_sha256 jc fingerprint))] else [])"

definition create_access_token :: "'w token_crypto \<Rightarrow> token_settings \<Rightarrow> datetime \<Rightarrow> string \<Rightarrow> pyval \<Rightarrow> string \<Rightarrow> exn + string \<times> string" where
  "create_access_token jc st now jti subject fingerprint =
     sum_bind (jc_encode jc (build_claims jc st now jti subject (ts_access_ttl_minutes st * 60000000) ''access'' PNone fingerprint))
       (\<lambda>token. Inr (token, jti))"

definition create_refresh_token :: "'w token_crypto \<Rightarrow> token_settings \<Rightarrow> datetime \<Rightarrow> string \<Rightarrow> pyval \<Rightarrow> pyval \<Rightarrow> string
    \<Rightarrow> exn + string \<times> string" where
  "create_refresh_token jc st now jti subject family_id fingerprint =
     sum_bind (jc_encode jc (build_claims jc st now jti subject (ts_refresh_ttl_days st * 86400000000) ''refresh'' family_id fingerprint))
       (\<lambda>token. Inr (token, jti))"

text \<open>\<open>ja\<close>, \<open>jr\<close> and \<open>fid\<close> are the random identifiers of the two tokens and the family.\<close>

definition make_pair :: "'w token_crypto \<Rightarrow> token_settings \<Rightarrow> datetime \<Rightarrow> datetime \<Rightarrow> string \<Rightarrow> string \<Rightarrow> pyval \<Rightarrow> pyval \<Rightarrow> string
    \<Rightarrow> exn + token_pair" where
  "make_pair jc st t1 t2 ja jr subject fid fingerprint =
     sum_bind (create_access_token jc st t1 ja subject fingerprint) (\<lambda>(access, access_jti).
     sum_bind (create_refresh_token jc st t2 jr subject fid fingerprint) (\<lambda>(refresh, refresh_jti).
     Inr \<lparr>tp_access_token = access, tp_refresh_token = refresh, tp_access_jti = access_jti,
       tp_refresh_jti = refresh_jti, tp_family_id = fid\<rparr>))"

definition create_token_pair :: "'w token_crypto \<Rightarrow> token_settings \<Rightarrow> datetime \<Rightarrow> datetime \<Rightarrow> string \<Rightarrow> string \<Rightarrow> string \<Rightarrow> string \<Rightarrow> string
    \<Rightarrow> exn + token_pair" where
  "create_token_pair jc st t1 t2 ja jr fid subject fingerprint = make_pair jc st t1 t2 ja jr (PStr subject) (PStr fid) fingerprint"

subsection \<open>Verification and revocation\<close>

definition revoked_key :: "pyval \<Rightarrow> rkey" where
  "revoked_key jti = (''jwt:revoked:'', py_str jti)"

definition revoke_after_key :: "pyval \<Rightarrow> rkey" where
  "revoke_after_key user = (''jwt:user:revoke_after:'', py_str user)"

definition used_key :: "pyval \<Rightarrow> rkey" where
  "used_key jti = (''jwt:refresh:used:'', py_str jti)"

definition family_key :: "pyval \<Rightarrow> rkey" where
  "family_key fid = (''jwt:refresh:family:revoked:'', py_str fid)"

definition decode_payload :: "'w token_crypto \<Rightarrow> string \<Rightarrow> ('w, pydict) io" where
  "decode_payload jc token = io_bind (jc_decode jc token) (\<lambda>r. case r of
     None \<Rightarrow> io_raise (ValueError ''invalid token'') | Some payload \<Rightarrow> io_return payload)"

definition is_token_revoked :: "'w redis_api \<Rightarrow> pyval \<Rightarrow> ('w, bool) io" where
  "is_token_revoked rd jti = rd_exists rd (revoked_key jti)"

definition revoke_token :: "'w redis_api \<Rightarrow> pyval \<Rightarrow> int \<Rightarrow> ('w, unit) io" where
  "revoke_token rd jti expires_in = rd_set rd (revoked_key jti) ''1'' (if expires_in \<le> 0 then 1 else expires_in)"

definition revoke_all_user_tokens :: "'w redis_api \<Rightarrow> datetime \<Rightarrow> datetime \<Rightarrow> pyval \<Rightarrow> string \<Rightarrow> ('w, unit) io" where
  "revoke_all_user_tokens rd t1 t2 user_id why =
     io_bind (rd_set rd (revoke_after_key user_id) (show_int (seconds t1)) (60 * 60 * 24 * 90)) (\<lambda>_.
     rd_lpush rd (''audit:token_revocations:'', py_str user_id) (PList [PIso t2, PStr why]))"

text \<open>\<open>revoke_after and int(payload.get("iat", 0)) <= int(revoke_after.decode())\<close>\<close>

definition globally_revoked :: "pydict \<Rightarrow> string option \<Rightarrow> exn + bool" where
  "globally_revoked payload revoke_after = (case revoke_after of
     None \<Rightarrow> Inr False
   | Some t \<Rightarrow> if t = [] then Inr False
       else sum_bind (py_int (dict_get payload ''iat'' (PInt 0))) (\<lambda>iat.
            sum_bind (py_int (PStr t)) (\<lambda>limit. Inr (iat \<le> limit))))"

definition verify_token :: "'w token_crypto \<Rightarrow> 'w redis_api \<Rightarrow> string \<Rightarrow> string option \<Rightarrow> ('w, pydict) io" where
  "verify_token jc rd token fingerprint =
     io_bind (decode_payload jc token) (\<lambda>payload.
     let jti = py_str (pyget payload ''jti'') in
     if \<not> truthy jti then io_raise (ValueError ''missing jti'')
     else io_bind (is_token_revoked rd jti) (\<lambda>revoked.
       if revoked then io_raise (ValueError ''token revoked'')
       else io_bind (io_lift (key payload ''sub'')) (\<lambda>sub.
         io_bind (rd_get rd (revoke_after_key sub)) (\<lambda>revoke_after.
         io_bind (io_lift (globally_revoked payload revoke_after)) (\<lambda>gone.
         if gone then io_raise (ValueError ''token globally revoked'')
         else (case fingerprint of
             None \<Rightarrow> io_return payload
           | Some f \<Rightarrow> if f \<noteq> [] \<and> pyget payload ''fp'' \<noteq> PStr (jc_sha256 jc f)
               then io_raise (ValueError ''fingerprint mismatch'') else io_return payload))))))"

subsection \<open>Rotation\<close>

text \<open>From the two checks passed to the end: the old token is marked and a new pair is made.\<close>

definition rotate_checked :: "'w token_crypto \<Rightarrow> token_settings \<Rightarrow> 'w redis_api \<Rightarrow> (nat \<Rightarrow> datetime) \<Rightarrow> string \<Rightarrow> string \<Rightarrow> pydict \<Rightarrow> pyval
    \<Rightarrow> pyval \<Rightarrow> string \<Rightarrow> ('w, token_pair) io" where
  "rotate_checked jc st rd clk ja jr payload jti family_id fingerprint =
     (let now_ts = seconds (clk 0) in
      io_bind (io_lift (py_int (dict_get payload ''exp'' (PInt (now_ts + 1))))) (\<lambda>exp_ts.
      let ttl = max 1 (exp_ts - now_ts) in
      io_bind (rd_set rd (used_key jti) ''1'' ttl) (\<lambda>_.
      io_bind (revoke_token rd jti ttl) (\<lambda>_.
      io_bind (io_lift (key payload ''sub'')) (\<lambda>sub.
      io_lift (make_pair jc st (clk 1) (clk 2) ja jr (py_str sub) (py_str family_id) fingerprint))))))"

definition rotate_refresh_token :: "'w token_crypto \<Rightarrow> token_settings \<Rightarrow> 'w redis_api \<Rightarrow> (nat \<Rightarrow> datetime) \<Rightarrow> string \<Rightarrow> string \<Rightarrow> string \<Rightarrow> string
    \<Rightarrow> ('w, token_pair) io" where
  "rotate_refresh_token jc st rd clk ja jr refresh_token fingerprint =
     io_bind (verify_token jc rd refresh_token (Some fingerprint)) (\<lambda>payload.
     if pyget payload ''typ'' \<noteq> PStr ''refresh'' then io_raise (ValueError ''not refresh token'')
     else io_bind (io_lift (key payload ''jti'')) (\<lambda>jti.
       let family_id = pyget payload ''fid'' in
       io_bind (rd_exists rd (used_key jti)) (\<lambda>used.
       if used then
         io_bind (io_when (truthy family_id)
           (rd_set rd (family_key family_id) ''1'' (60 * 60 * 24 * ts_refresh_ttl_days st))) (\<lambda>_.
         io_raise (ValueError ''refresh token reuse detected''))
       else io_bind (if truthy family_id then rd_exists rd (family_key family_id) else io_return False) (\<lambda>dead.
         if dead then io_raise (ValueError ''token family revoked'')
         else rotate_checked jc st rd clk ja jr payload jti family_id fingerprint))))"

subsection \<open>Properties\<close>

lemma keys_distinct [simp]:
  "used_key a \<noteq> revoked_key b" "revoked_key b \<noteq> used_key a" "family_key f \<noteq> used_key a" "family_key f \<noteq> revoked_key b"
  "used_key a = used_key b \<longleftrightarrow> py_str a = py_str b" "revoked_key a = revoked_key b \<longleftrightarrow> py_str a = py_str b"
  by (auto simp: used_key_def revoked_key_def family_key_def)

lemma py_str_idem [simp]: "py_str (py_str v) = py_str v"
  by (cases v) simp_all

lemma revoked_key_str [simp]: "revoked_key (py_str v) = revoked_key v"
  by (simp add: revoked_key_def)

text \<open>Decoding does not write to the server.\<close>

definition decode_pure :: "'w token_crypto \<Rightarrow> ('w \<Rightarrow> rkey \<Rightarrow> string option) \<Rightarrow> bool" where
  "decode_pure jc view = (\<forall>token w. view (snd (jc_decode jc token w)) = view w)"

lemma verify_token_keeps:
  assumes rd: "redis_strings rd view" and jc: "decode_pure jc view"
  shows "view (snd (verify_token jc rd token fp w)) = view w"
proof -
  obtain r w1 where d: "jc_decode jc token w = (r, w1)" by fastforce
  have v1: "view w1 = view w" using jc d by (metis decode_pure_def snd_conv)
  show ?thesis
    using v1 by (auto simp: verify_token_def decode_payload_def is_token_revoked_def io_simps d Let_def
      exists_law [OF rd] get_law [OF rd] split: sum.splits option.splits)
qed

lemma verify_token_result:
  assumes rd: "redis_strings rd view" and jc: "decode_pure jc view"
    and dec: "jc_decode jc token w = (Inr (Some payload), w1)"
  shows "verify_token jc rd token fp w = (Inr p, w') \<longleftrightarrow>
    p = payload \<and> w' = w1 \<and> truthy (py_str (pyget payload ''jti'')) \<and> view w (revoked_key (pyget payload ''jti'')) = None \<and>
    (\<exists>sub. map_of payload ''sub'' = Some sub \<and> globally_revoked payload (view w (revoke_after_key sub)) = Inr False) \<and>
    (\<forall>f. fp = Some f \<and> f \<noteq> [] \<longrightarrow> pyget payload ''fp'' = PStr (jc_sha256 jc f))"
proof -
  have v1: "view w1 = view w" using jc dec by (metis decode_pure_def snd_conv)
  show ?thesis
    by (auto simp: verify_token_def decode_payload_def is_token_revoked_def dec v1 key_def Let_def
        exists_law [OF rd] get_law [OF rd] io_simps split: sum.splits option.splits if_splits)
qed

lemma verify_token_decoded:
  assumes "verify_token jc rd token fp w = (Inr p, w')" and rd: "redis_strings rd view"
  shows "jc_decode jc token w = (Inr (Some p), w')"
  using assms(1)
  by (auto simp: verify_token_def decode_payload_def is_token_revoked_def Let_def exists_law [OF rd] get_law [OF rd]
      split: option.splits if_splits elim!: io_bindE)

lemma show_nat_nonempty: "show_nat_aux n acc \<noteq> []"
  by (induction n acc rule: show_nat_aux.induct) (subst show_nat_aux.simps, simp add: Let_def)

lemma jti_guard: "truthy (py_str v) \<longleftrightarrow> v \<noteq> PStr []"
  by (cases v) (simp_all add: show_int_def show_nat_nonempty)

lemma not_globally_revoked: "globally_revoked p mark = Inr False \<longleftrightarrow>
    mark = None \<or> mark = Some [] \<or> (\<exists>t iat limit. mark = Some t \<and> py_int (dict_get p ''iat'' (PInt 0)) = Inr iat \<and>
      py_int (PStr t) = Inr limit \<and> limit < iat)"
  by (auto simp: globally_revoked_def sum_bind_def split: option.split sum.split)

text \<open>
  C32. A token is accepted exactly when the library decodes it, its identifier is not the empty text and is not
  revoked, it has a subject, it was issued after the last global revocation of the subject, if there is one, and, when a
  fingerprint is given, it was issued for that fingerprint. Accepting it gives its claims and changes no
  key. A token without identifier passes the first of these checks: \<^verbatim>\<open>str(None)\<close> is the text \<^verbatim>\<open>None\<close>,
  and what is looked up is whether that text is revoked.
\<close>

theorem token_accepted_iff:
  assumes rd: "redis_strings rd view" and jc: "decode_pure jc view"
    and dec: "jc_decode jc token w = (Inr r, w1)"
  shows "verify_token jc rd token fp w = (Inr p, w') \<longleftrightarrow> r = Some p \<and> w' = w1 \<and>
    map_of p ''jti'' \<noteq> Some (PStr []) \<and> view w (''jwt:revoked:'', py_str (pyget p ''jti'')) = None \<and>
    (\<exists>sub. map_of p ''sub'' = Some sub \<and>
      (let mark = view w (''jwt:user:revoke_after:'', py_str sub) in
       mark = None \<or> mark = Some [] \<or> (\<exists>t iat limit. mark = Some t \<and> py_int (dict_get p ''iat'' (PInt 0)) = Inr iat \<and>
         py_int (PStr t) = Inr limit \<and> limit < iat))) \<and>
    (\<forall>f. fp = Some f \<and> f \<noteq> [] \<longrightarrow> pyget p ''fp'' = PStr (jc_sha256 jc f))"
proof (cases r)
  case None
  then show ?thesis by (auto simp: verify_token_def decode_payload_def dec io_simps)
next
  case (Some payload)
  have "map_of p ''jti'' \<noteq> Some (PStr []) \<longleftrightarrow> truthy (py_str (pyget p ''jti''))"
    by (simp add: jti_guard dict_get_def split: option.split)
  then show ?thesis
    using Some verify_token_result [OF rd jc, of token w payload w1 fp p w'] dec
    unfolding not_globally_revoked Let_def revoked_key_def revoke_after_key_def by auto
qed

lemma revoke_token_law:
  assumes "redis_strings rd view"
  shows "\<exists>w'. revoke_token rd jti ttl w = (Inr (), w') \<and> view w' = (view w)(revoked_key jti \<mapsto> ''1'')"
  using set_law [OF assms, of "if ttl \<le> 0 then 1 else ttl"] by (simp add: revoke_token_def)

lemma rotate_checked_view:
  assumes rd: "redis_strings rd view"
  shows "view (snd (rotate_checked jc st rd clk ja jr payload jti fid fp w)) = view w \<and>
      (\<exists>e. fst (rotate_checked jc st rd clk ja jr payload jti fid fp w) = Inl e) \<or>
    view (snd (rotate_checked jc st rd clk ja jr payload jti fid fp w)) = (view w)(used_key jti \<mapsto> ''1'', revoked_key jti \<mapsto> ''1'')"
proof (cases "py_int (dict_get payload ''exp'' (PInt (seconds (clk 0) + 1)))")
  case (Inl e)
  then show ?thesis by (simp add: rotate_checked_def io_simps Let_def)
next
  case (Inr exp_ts)
  let ?ttl = "max 1 (exp_ts - seconds (clk 0))"
  obtain w1 where s: "rd_set rd (used_key jti) ''1'' ?ttl w = (Inr (), w1)" "view w1 = (view w)(used_key jti \<mapsto> ''1'')"
    using set_law [OF rd, of ?ttl] by fastforce
  obtain w2 where r: "revoke_token rd jti ?ttl w1 = (Inr (), w2)" "view w2 = (view w1)(revoked_key jti \<mapsto> ''1'')"
    using revoke_token_law [OF rd] by blast
  show ?thesis
    using Inr s r by (auto simp: rotate_checked_def io_simps Let_def split: sum.splits)
qed

text \<open>
  A rotated refresh token is dead: a successful rotation marks the token as used and as revoked,
  and as long as the revocation mark lives, rotating the token again fails with \<open>token revoked\<close>
  and writes nothing.
\<close>

theorem rotated_token_refused:
  assumes rd: "redis_strings rd view" and jc: "decode_pure jc view"
    and first: "rotate_refresh_token jc st rd clk ja jr token fp w = (Inr pair, w1)"
    and dec: "jc_decode jc token w = (Inr (Some payload), w0)"
  shows "view w1 = (view w)(used_key (pyget payload ''jti'') \<mapsto> ''1'', revoked_key (pyget payload ''jti'') \<mapsto> ''1'') \<and>
    (\<forall>w2 w3. view w2 (revoked_key (pyget payload ''jti'')) \<noteq> None \<and> jc_decode jc token w2 = (Inr (Some payload), w3) \<longrightarrow>
      (\<exists>w4. rotate_refresh_token jc st rd clk' ja' jr' token fp' w2 = (Inl (ValueError ''token revoked''), w4) \<and> view w4 = view w2))"
proof
  let ?jti = "pyget payload ''jti''"
  have v0: "view w0 = view w" using jc dec by (metis decode_pure_def snd_conv)
  from first obtain p w' where ver: "verify_token jc rd token (Some fp) w = (Inr p, w')"
    by (auto simp: rotate_refresh_token_def elim: io_bindE)
  then have p: "p = payload" "w' = w0" and tr: "truthy (py_str ?jti)"
    using verify_token_result [OF rd jc dec] by auto
  obtain fid where fin: "rotate_checked jc st rd clk ja jr payload ?jti fid fp w0 = (Inr pair, w1)"
    using first ver unfolding p
    by (auto simp: rotate_refresh_token_def key_def dict_get_def exists_law [OF rd] Let_def io_when_def
        split: if_splits option.splits elim!: io_bindE)
  show "view w1 = (view w)(used_key ?jti \<mapsto> ''1'', revoked_key ?jti \<mapsto> ''1'')"
    using rotate_checked_view [OF rd, of jc st clk ja jr payload ?jti fid fp w0] v0 fin by simp
  show "\<forall>w2 w3. view w2 (revoked_key ?jti) \<noteq> None \<and> jc_decode jc token w2 = (Inr (Some payload), w3) \<longrightarrow>
      (\<exists>w4. rotate_refresh_token jc st rd clk' ja' jr' token fp' w2 = (Inl (ValueError ''token revoked''), w4) \<and> view w4 = view w2)"
  proof (intro allI impI, elim conjE)
    fix w2 w3
    assume live: "view w2 (revoked_key ?jti) \<noteq> None" and d: "jc_decode jc token w2 = (Inr (Some payload), w3)"
    have v3: "view w3 = view w2" using jc d by (metis decode_pure_def snd_conv)
    have "verify_token jc rd token (Some fp') w2 = (Inl (ValueError ''token revoked''), w3)"
      using tr live v3 by (simp add: verify_token_def decode_payload_def d is_token_revoked_def exists_law [OF rd] io_simps)
    then show "\<exists>w4. rotate_refresh_token jc st rd clk' ja' jr' token fp' w2 = (Inl (ValueError ''token revoked''), w4) \<and> view w4 = view w2"
      using v3 by (intro exI [of _ w3]) (simp add: rotate_refresh_token_def)
  qed
qed

text \<open>Every used mark has a revocation mark: rotation sets both with one lifetime.\<close>

definition marks_paired :: "(rkey \<Rightarrow> string option) \<Rightarrow> bool" where
  "marks_paired v = (\<forall>j. v (used_key j) \<noteq> None \<longrightarrow> v (revoked_key j) \<noteq> None)"

text \<open>
  Reuse detection is unreachable: if every token marked as used is also marked as revoked, as
  rotation leaves it, then a rotation, whatever its outcome, changes no family revocation and
  leaves the marks paired. A replayed refresh token is refused as revoked, but the family of
  tokens descended from it stays valid.
\<close>

theorem family_never_revoked:
  assumes rd: "redis_strings rd view" and jc: "decode_pure jc view" and paired: "marks_paired (view w)"
    and run: "rotate_refresh_token jc st rd clk ja jr token fp w = (r, w1)"
  shows "view w1 (family_key fid) = view w (family_key fid) \<and> marks_paired (view w1)"
proof -
  obtain v w0 where ver: "verify_token jc rd token (Some fp) w = (v, w0)" by fastforce
  have v0: "view w0 = view w" using verify_token_keeps [OF rd jc, of token "Some fp" w] ver by simp
  have marked: "marks_paired ((view w)(used_key j \<mapsto> ''1'', revoked_key j \<mapsto> ''1''))" for j
    using paired by (auto simp: marks_paired_def used_key_def revoked_key_def)
  show ?thesis
  proof (cases v)
    case (Inl e)
    then show ?thesis using run ver v0 paired by (simp add: rotate_refresh_token_def)
  next
    case (Inr payload)
    have dec: "jc_decode jc token w = (Inr (Some payload), w0)"
      using verify_token_decoded [OF _ rd] ver Inr by blast
    have fresh: "view w (used_key (pyget payload ''jti'')) = None"
      using verify_token_result [OF rd jc dec] ver Inr paired unfolding marks_paired_def by blast
    have unused: "map_of payload ''jti'' = Some jti \<Longrightarrow> view w0 (used_key jti) = None" for jti
      using fresh v0 by (simp add: dict_get_def)
    have "view w1 = view w \<or> (\<exists>j. view w1 = (view w)(used_key j \<mapsto> ''1'', revoked_key j \<mapsto> ''1''))"
    proof (cases "pyget payload ''typ'' \<noteq> PStr ''refresh'' \<or> map_of payload ''jti'' = None")
      case True
      then show ?thesis using run ver Inr v0
        by (auto simp: rotate_refresh_token_def key_def io_simps split: if_splits)
    next
      case False
      then obtain jti where jti: "map_of payload ''jti'' = Some jti" by blast
      show ?thesis
        using run ver Inr v0 False jti unused [OF jti] rotate_checked_view [OF rd, of jc st clk ja jr payload jti "pyget payload ''fid''" fp w0]
        by (auto simp: rotate_refresh_token_def key_def io_simps exists_law [OF rd] Let_def split: if_splits)
    qed
    then show ?thesis using paired marked by auto
  qed
qed

subsection \<open>Witnesses\<close>

text \<open>A server with string keys only, and a token library that knows one refresh token.\<close>

definition string_redis :: "(rkey \<times> string) list redis_api" where
  "string_redis = \<lparr>rd_exists = \<lambda>k w. (Inr (map_of w k \<noteq> None), w), rd_get = \<lambda>k w. (Inr (map_of w k), w),
     rd_set = \<lambda>k v ex w. (Inr (), AList.update k v w), rd_lpush = \<lambda>_ _. io_return (),
     rd_zremrangebyscore = \<lambda>_ _ _. io_return (), rd_zadd = \<lambda>_ _ _. io_return (), rd_zcard = \<lambda>_. io_return 0,
     rd_scard = \<lambda>_. io_return 0, rd_expire = \<lambda>_ _. io_return (), rd_sadd = \<lambda>_ _. io_return (),
     rd_srem = \<lambda>_ _. io_return (), rd_smembers = \<lambda>_. io_return [], rd_hset = \<lambda>_ _. io_return (),
     rd_hget = \<lambda>_ _. io_return None, rd_hgetall = \<lambda>_. io_return [], rd_delete = \<lambda>_. io_return (),
     rd_publish = \<lambda>_ _. io_return ()\<rparr>"

lemma string_redis_strings: "redis_strings string_redis map_of"
  by (simp add: redis_strings_def string_redis_def fun_eq_iff)

definition demo_claims :: pydict where
  "demo_claims = [(''sub'', PStr ''u1''), (''iat'', PInt 100), (''exp'', PInt 5000), (''jti'', PStr ''j1''),
     (''typ'', PStr ''refresh''), (''fid'', PStr ''f1''), (''fp'', PStr ''dev'')]"

definition demo_crypto :: "(rkey \<times> string) list token_crypto" where
  "demo_crypto = \<lparr>jc_encode = \<lambda>_. Inr ''signed'', jc_decode = \<lambda>t w. (Inr (if t = ''tok'' then Some demo_claims else None), w),
     jc_sha256 = \<lambda>f. f, jc_hash_password = \<lambda>p. p, jc_verify_password = \<lambda>h p. Inr (h = p)\<rparr>"

definition demo_token_settings :: token_settings where
  "demo_token_settings = \<lparr>ts_issuer = ''mtrader'', ts_audience = ''web'', ts_access_ttl_minutes = 15, ts_refresh_ttl_days = 14\<rparr>"

lemma demo_decode_pure: "decode_pure demo_crypto map_of"
  by (simp add: decode_pure_def demo_crypto_def)

lemma demo_rotation:
  "\<exists>pair w1. rotate_refresh_token demo_crypto demo_token_settings string_redis (\<lambda>n. 0) ''a'' ''r'' ''tok'' ''dev'' [] = (Inr pair, w1)"
  by (simp add: rotate_refresh_token_def verify_token_def decode_payload_def is_token_revoked_def rotate_checked_def
      revoke_token_def demo_crypto_def demo_claims_def string_redis_def key_def globally_revoked_def make_pair_def
      create_access_token_def create_refresh_token_def sum_bind_def io_simps Let_def used_key_def family_key_def revoked_key_def)

theorem token_accepted_iff_witness:
  "\<exists>p w'. verify_token demo_crypto string_redis ''tok'' (Some ''dev'') [] = (Inr p, w') \<and> map_of p ''sub'' = Some (PStr ''u1'')"
proof -
  have dec: "jc_decode demo_crypto ''tok'' [] = (Inr (Some demo_claims), [])" by (simp add: demo_crypto_def)
  have "verify_token demo_crypto string_redis ''tok'' (Some ''dev'') [] = (Inr demo_claims, [])"
    using token_accepted_iff [OF string_redis_strings demo_decode_pure dec, of "Some ''dev''" demo_claims "[]"]
    by (simp add: demo_claims_def demo_crypto_def globally_revoked_def)
  then show ?thesis by (simp add: demo_claims_def)
qed

theorem rotated_token_refused_witness:
  "\<exists>pair w1 w4. rotate_refresh_token demo_crypto demo_token_settings string_redis (\<lambda>n. 0) ''a'' ''r'' ''tok'' ''dev'' [] = (Inr pair, w1) \<and>
     rotate_refresh_token demo_crypto demo_token_settings string_redis (\<lambda>n. 9) ''b'' ''s'' ''tok'' ''dev'' w1 =
       (Inl (ValueError ''token revoked''), w4)"
proof -
  have dec: "jc_decode demo_crypto ''tok'' w = (Inr (Some demo_claims), w)" for w by (simp add: demo_crypto_def)
  obtain pair w1 where r: "rotate_refresh_token demo_crypto demo_token_settings string_redis (\<lambda>n. 0) ''a'' ''r'' ''tok'' ''dev'' [] = (Inr pair, w1)"
    using demo_rotation by blast
  note refused = rotated_token_refused [OF string_redis_strings demo_decode_pure r dec]
  have "map_of w1 (revoked_key (pyget demo_claims ''jti'')) \<noteq> None" using refused by simp
  then show ?thesis using refused r dec by blast
qed

theorem family_never_revoked_witness:
  "\<exists>r w1. rotate_refresh_token demo_crypto demo_token_settings string_redis (\<lambda>n. 0) ''a'' ''r'' ''tok'' ''dev''
       [(used_key (PStr ''j1''), ''1''), (revoked_key (PStr ''j1''), ''1'')] = (r, w1) \<and>
     map_of w1 (family_key (PStr ''f1'')) = None \<and> marks_paired (map_of w1)"
proof -
  let ?w = "[(used_key (PStr ''j1''), ''1''), (revoked_key (PStr ''j1''), ''1'')]"
  have paired: "marks_paired (map_of ?w)" by (simp add: marks_paired_def)
  obtain r w1 where run: "rotate_refresh_token demo_crypto demo_token_settings string_redis (\<lambda>n. 0) ''a'' ''r'' ''tok'' ''dev'' ?w = (r, w1)"
    by fastforce
  from family_never_revoked [OF string_redis_strings demo_decode_pure paired run, of "PStr ''f1''"] run
  show ?thesis by auto
qed

end
