(* ===== verification/Tasks.thy ===== *)
theory Tasks
  imports Prelude
begin

text \<open>
  Concurrent calls. The services run many coroutines, in one event loop and in several processes,
  over one shared state: the Redis server, the database, the repository. A coroutine runs alone
  between two awaits, and one awaited command of the shared state is atomic; between two commands
  any other coroutine may act. A \<open>task\<close> is a coroutine cut into these commands, \<open>run_task\<close> is
  the coroutine run alone, and \<open>sched_step\<close> lets any coroutine of a pool take its next command.
  The locale \<open>interference\<close> is rely-guarantee reasoning: what every task guarantees of its own
  commands, every other task may rely on. An \<open>ltask\<close> is a coroutine that may also take and release
  one lock, and \<open>lock_step\<close> a step of a pool of such coroutines: one about to take the lock waits while it is held.
\<close>

subsection \<open>Coroutines cut at their awaits\<close>

text \<open>
  \<open>Act f g\<close> is about to perform a command that takes the shared state \<open>s\<close> to \<open>f s\<close> and goes on
  as \<open>g s\<close>.
\<close>

datatype ('s, 'a) task = Done "exn + 'a" | Act "'s \<Rightarrow> 's" "'s \<Rightarrow> ('s, 'a) task"

definition await :: "('s, 'a) io \<Rightarrow> ('s, 'a) task" where
  "await m = Act (\<lambda>s. snd (m s)) (\<lambda>s. Done (fst (m s)))"

definition t_return :: "'a \<Rightarrow> ('s, 'a) task" where
  "t_return a = Done (Inr a)"

definition t_raise :: "exn \<Rightarrow> ('s, 'a) task" where
  "t_raise e = Done (Inl e)"

definition t_lift :: "exn + 'a \<Rightarrow> ('s, 'a) task" where
  "t_lift r = Done r"

primrec t_bind :: "('s, 'a) task \<Rightarrow> ('a \<Rightarrow> ('s, 'b) task) \<Rightarrow> ('s, 'b) task" where
  "t_bind (Done r) k = (case r of Inl e \<Rightarrow> Done (Inl e) | Inr a \<Rightarrow> k a)"
| "t_bind (Act f g) k = Act f (\<lambda>s. t_bind (g s) k)"

primrec run_task :: "('s, 'a) task \<Rightarrow> ('s, 'a) io" where
  "run_task (Done r) = (\<lambda>s. (r, s))"
| "run_task (Act f g) = (\<lambda>s. run_task (g s) (f s))"

named_theorems task_runs \<comment> \<open>a coroutine run alone\<close>

lemma run_await [task_runs]: "run_task (await m) = m"
  by (rule ext) (simp add: await_def)

lemma run_lift [task_runs]: "run_task (t_lift r) = io_lift r"
  by (rule ext) (simp add: t_lift_def io_simps)

lemma run_return [task_runs]: "run_task (t_return a) = io_return a"
  by (rule ext) (simp add: t_return_def io_simps)

lemma run_raise [task_runs]: "run_task (t_raise e) = io_raise e"
  by (rule ext) (simp add: t_raise_def io_simps)

lemma run_bind [task_runs]: "run_task (t_bind t k) = io_bind (run_task t) (\<lambda>a. run_task (k a))"
proof (induction t)
  case (Done r)
  show ?case by (cases r) (auto simp: io_simps)
next
  case (Act f g)
  then show ?case by (simp add: fun_eq_iff io_bind_def)
qed

lemma run_if [task_runs]: "run_task (if b then t else u) = (if b then run_task t else run_task u)"
  by simp

lemma run_option [task_runs]: "run_task (case x of None \<Rightarrow> t | Some a \<Rightarrow> u a) = (case x of None \<Rightarrow> run_task t | Some a \<Rightarrow> run_task (u a))"
  by (cases x) simp_all

lemma t_bind_simps [simp]:
  "t_bind (t_return a) k = k a" "t_bind (t_raise e) k = t_raise e"
  by (simp_all add: t_return_def t_raise_def)

lemma t_bind_assoc: "t_bind (t_bind t k) l = t_bind t (\<lambda>a. t_bind (k a) l)"
  by (induction t) (auto split: sum.split)

lemma t_bind_await: "t_bind (await m) k =
    Act (\<lambda>s. snd (m s)) (\<lambda>s. case fst (m s) of Inl e \<Rightarrow> t_raise e | Inr a \<Rightarrow> k a)"
  by (simp add: await_def t_raise_def fun_eq_iff split: sum.split)

subsection \<open>Interleavings\<close>

type_synonym ('s, 'a) pool = "('s, 'a) task list \<times> 's"

inductive sched_step :: "('s, 'a) pool \<Rightarrow> ('s, 'a) pool \<Rightarrow> bool" where
  command: "i < length ts \<Longrightarrow> ts ! i = Act f g \<Longrightarrow> sched_step (ts, s) (ts[i := g s], f s)"

inductive_cases sched_stepE: "sched_step (ts, s) q"

text \<open>A schedule is the list of the coroutines that act; one that is done lets its turn pass.\<close>

definition sched_next :: "nat \<Rightarrow> ('s, 'a) pool \<Rightarrow> ('s, 'a) pool" where
  "sched_next i p = (case p of (ts, s) \<Rightarrow> if i < length ts then
     (case ts ! i of Done r \<Rightarrow> (ts, s) | Act f g \<Rightarrow> (ts[i := g s], f s)) else (ts, s))"

primrec run_schedule :: "nat list \<Rightarrow> ('s, 'a) pool \<Rightarrow> ('s, 'a) pool" where
  "run_schedule [] p = p"
| "run_schedule (i # sch) p = run_schedule sch (sched_next i p)"

lemma sched_next_step: "sched_next i p = p \<or> sched_step p (sched_next i p)"
  by (cases p) (auto simp: sched_next_def split: task.split intro: command)

lemma run_schedule_steps: "sched_step\<^sup>*\<^sup>* p (run_schedule sch p)"
proof (induction sch arbitrary: p)
  case (Cons i sch)
  have "sched_step\<^sup>*\<^sup>* p (sched_next i p)" using sched_next_step [of i p] by auto
  with Cons.IH [of "sched_next i p"] show ?case by simp
qed simp

lemma run_schedule_append: "run_schedule (sch @ sch') p = run_schedule sch' (run_schedule sch p)"
  by (induction sch arbitrary: p) simp_all

text \<open>Every interleaving is the run of a schedule.\<close>

lemma steps_run_schedule: "sched_step\<^sup>*\<^sup>* p q \<Longrightarrow> \<exists>sch. run_schedule sch p = q"
proof (induction rule: rtranclp_induct)
  case base
  show ?case by (rule exI [of _ "[]"]) simp
next
  case (step q r)
  then obtain sch where sch: "run_schedule sch p = q" by blast
  from step.hyps(2) have "\<exists>i. r = sched_next i q"
  proof cases
    case (command i ts f g s)
    then show ?thesis by (intro exI [of _ i]) (simp add: sched_next_def)
  qed
  then obtain i where "r = sched_next i q" ..
  then have "run_schedule (sch @ [i]) p = r" using sch by (simp add: run_schedule_append)
  then show ?case ..
qed

text \<open>The schedule that lets one coroutine run to its end is its run alone.\<close>

lemma run_alone:
  assumes "i < length ts"
  shows "\<exists>n. run_schedule (replicate n i) (ts, s) =
    (ts[i := Done (fst (run_task (ts ! i) s))], snd (run_task (ts ! i) s))"
proof -
  have "\<exists>n. run_schedule (replicate n i) (ts[i := t], s) = (ts[i := Done (fst (run_task t s))], snd (run_task t s))" for t
  proof (induction t arbitrary: s)
    case (Done r)
    show ?case by (rule exI [of _ 0]) simp
  next
    case (Act f g)
    obtain n where "run_schedule (replicate n i) (ts[i := g s], f s) =
        (ts[i := Done (fst (run_task (g s) (f s)))], snd (run_task (g s) (f s)))"
      using Act.IH [of "g s" "f s"] by blast
    then show ?case using assms by (intro exI [of _ "Suc n"]) (simp add: sched_next_def)
  qed
  from this [of "ts ! i"] show ?thesis by simp
qed

text \<open>The same up to a point inside a coroutine: \<open>t\<close> is what it does first.\<close>

lemma run_prefix:
  assumes "i < length ts" and "ts ! i = t_bind t k"
  shows "\<exists>n. run_schedule (replicate n i) (ts, s) =
    (ts[i := case fst (run_task t s) of Inl e \<Rightarrow> t_raise e | Inr a \<Rightarrow> k a], snd (run_task t s))"
proof -
  have "\<exists>n. run_schedule (replicate n i) (ts[i := t_bind t k], s) =
    (ts[i := case fst (run_task t s) of Inl e \<Rightarrow> t_raise e | Inr a \<Rightarrow> k a], snd (run_task t s))" for t
  proof (induction t arbitrary: s)
    case (Done r)
    show ?case by (rule exI [of _ 0]) (simp add: t_raise_def split: sum.split)
  next
    case (Act f g)
    obtain n where "run_schedule (replicate n i) (ts[i := t_bind (g s) k], f s) =
        (ts[i := case fst (run_task (g s) (f s)) of Inl e \<Rightarrow> t_raise e | Inr a \<Rightarrow> k a], snd (run_task (g s) (f s)))"
      using Act.IH [of "g s" "f s"] by blast
    then show ?case using assms(1) by (intro exI [of _ "Suc n"]) (simp add: sched_next_def)
  qed
  from this [of t] assms(2) show ?thesis by (metis list_update_id)
qed

subsection \<open>Interface: interference\<close>

text \<open>
  \<open>guarantees R t\<close>: every command of \<open>t\<close>, from whatever state, changes it within \<open>R\<close>.
  \<open>keeps_within R t s\<close>: started in \<open>s\<close>, with changes within \<open>R\<close> made by others before each of its
  commands, every command of \<open>t\<close> changes the state within \<open>R\<close>. \<open>ensures R Q t s\<close>: in the same
  circumstances \<open>t\<close> ends with a result that satisfies \<open>Q\<close>.
\<close>

primrec guarantees :: "('s \<Rightarrow> 's \<Rightarrow> bool) \<Rightarrow> ('s, 'a) task \<Rightarrow> bool" where
  "guarantees R (Done r) = True"
| "guarantees R (Act f g) = (\<forall>s. R s (f s) \<and> guarantees R (g s))"

primrec keeps_within :: "('s \<Rightarrow> 's \<Rightarrow> bool) \<Rightarrow> ('s, 'a) task \<Rightarrow> 's \<Rightarrow> bool" where
  "keeps_within R (Done r) = (\<lambda>s. True)"
| "keeps_within R (Act f g) = (\<lambda>s. \<forall>s'. R s s' \<longrightarrow> R s' (f s') \<and> keeps_within R (g s') (f s'))"

primrec ensures :: "('s \<Rightarrow> 's \<Rightarrow> bool) \<Rightarrow> (exn + 'a \<Rightarrow> bool) \<Rightarrow> ('s, 'a) task \<Rightarrow> 's \<Rightarrow> bool" where
  "ensures R Q (Done r) = (\<lambda>s. Q r)"
| "ensures R Q (Act f g) = (\<lambda>s. \<forall>s'. R s s' \<longrightarrow> ensures R Q (g s') (f s'))"

named_theorems guar \<comment> \<open>introduction rules for \<open>guarantees\<close>\<close>

lemma guarantees_basic [guar]: "guarantees R (t_lift r)" "guarantees R (t_return a)" "guarantees R (t_raise e)"
  by (simp_all add: t_lift_def t_return_def t_raise_def)

lemma guarantees_await [guar]: "(\<And>s. R s (snd (m s))) \<Longrightarrow> guarantees R (await m)"
  by (simp add: await_def)

lemma guarantees_bind [guar]: "guarantees R t \<Longrightarrow> (\<And>a. guarantees R (k a)) \<Longrightarrow> guarantees R (t_bind t k)"
  by (induction t) (auto split: sum.split)

lemma guarantees_if [guar]: "(b \<Longrightarrow> guarantees R t) \<Longrightarrow> (\<not> b \<Longrightarrow> guarantees R u) \<Longrightarrow> guarantees R (if b then t else u)"
  by simp

locale interference =
  fixes R :: "'s \<Rightarrow> 's \<Rightarrow> bool"
  assumes refl: "R s s" and trans: "R s t \<Longrightarrow> R t u \<Longrightarrow> R s u"
begin

lemma ensures_stable: "ensures R Q t s \<Longrightarrow> R s s' \<Longrightarrow> ensures R Q t s'"
  by (cases t) (auto intro: trans)

lemma keeps_within_stable: "keeps_within R t s \<Longrightarrow> R s s' \<Longrightarrow> keeps_within R t s'"
  by (cases t) (auto intro: trans)

lemma guarantees_keeps_within: "guarantees R t \<Longrightarrow> keeps_within R t s"
  by (induction t arbitrary: s) auto

text \<open>
  The rule of sequential composition, for the results and for the commands at once: what \<open>t\<close>
  ensures is what its continuation may assume, in any state others may have reached meanwhile.
\<close>

lemma bind_rule:
  assumes "ensures R P t s" and "keeps_within R t s"
    and "\<And>a s'. P (Inr a) \<Longrightarrow> R s s' \<Longrightarrow> K (k a) s'" and "\<And>e s'. P (Inl e) \<Longrightarrow> K (Done (Inl e)) s'"
    and "\<And>f g s. (\<And>s'. R s s' \<Longrightarrow> R s' (f s') \<and> K (g s') (f s')) \<Longrightarrow> K (Act f g) s"
  shows "K (t_bind t k) s"
  using assms(1,2,3)
proof (induction t arbitrary: s)
  case (Done r)
  then show ?case using assms(4) refl by (auto split: sum.split)
next
  case (Act f g)
  have "R s' (f s') \<and> K (t_bind (g s') k) (f s')" if "R s s'" for s'
  proof
    show step: "R s' (f s')" using Act.prems(2) that by simp
    show "K (t_bind (g s') k) (f s')"
    proof (rule Act.IH)
      show "g s' \<in> range g" by simp
      show "ensures R P (g s') (f s')" "keeps_within R (g s') (f s')" using Act.prems that by auto
      show "K (k a) s''" if "P (Inr a)" "R (f s') s''" for a s''
        using Act.prems(3) that step \<open>R s s'\<close> by (blast intro: trans)
    qed
  qed
  then show ?case using assms(5) by simp
qed

lemma ensures_bind:
  assumes "ensures R P t s" and "keeps_within R t s"
    and "\<And>e. P (Inl e) \<Longrightarrow> Q (Inl e)" and "\<And>a s'. P (Inr a) \<Longrightarrow> R s s' \<Longrightarrow> ensures R Q (k a) s'"
  shows "ensures R Q (t_bind t k) s"
  by (rule bind_rule [OF assms(1,2), where K = "ensures R Q"]) (use assms(3,4) in auto)

lemma keeps_within_bind:
  assumes "ensures R P t s" and "keeps_within R t s"
    and "\<And>a s'. P (Inr a) \<Longrightarrow> R s s' \<Longrightarrow> keeps_within R (k a) s'"
  shows "keeps_within R (t_bind t k) s"
  by (rule bind_rule [OF assms(1,2), where K = "keeps_within R"]) (use assms(3) in auto)

lemma ensures_any: "ensures R (\<lambda>_. True) t s"
  by (induction t arbitrary: s) auto

lemma ensures_run: "ensures R Q t s \<Longrightarrow> Q (fst (run_task t s))"
  by (induction t arbitrary: s) (auto intro: refl)

text \<open>A pool whose tasks all keep within \<open>R\<close> keeps within \<open>R\<close>.\<close>

lemma pool_keeps:
  assumes "sched_step\<^sup>*\<^sup>* p q" and "list_all (\<lambda>t. keeps_within R t (snd p)) (fst p)"
  shows "list_all (\<lambda>t. keeps_within R t (snd q)) (fst q) \<and> R (snd p) (snd q) \<and> length (fst q) = length (fst p)"
  using assms(1)
proof (induction rule: rtranclp_induct)
  case base
  then show ?case using assms(2) refl by simp
next
  case (step q r)
  from step.hyps(2) obtain i ts s f g where q: "q = (ts, s)" "r = (ts[i := g s], f s)" "i < length ts" "ts ! i = Act f g"
    by cases auto
  have "keeps_within R (Act f g) s" using step.IH q by (metis fst_conv snd_conv list_all_length)
  then have move: "R s (f s)" "keeps_within R (g s) (f s)" using refl by auto
  have "\<forall>n<length ts. keeps_within R (ts ! n) (f s)"
  proof (intro allI impI)
    fix n
    assume "n < length ts"
    then have "keeps_within R (ts ! n) s" using step.IH q by (simp add: list_all_length)
    then show "keeps_within R (ts ! n) (f s)" using move(1) by (rule keeps_within_stable)
  qed
  then show ?case
    using step.IH q move by (auto simp: list_all_length nth_list_update intro: trans)
qed

text \<open>What a task ensures under interference holds of its result in every interleaving.\<close>

lemma ensured:
  assumes "sched_step\<^sup>*\<^sup>* (ts, s) (us, t)" and "list_all (\<lambda>u. keeps_within R u s) ts" and "i < length ts" and "ensures R Q (ts ! i) s"
  shows "ensures R Q (us ! i) t"
proof -
  have "ensures R Q (fst q ! i) (snd q)" if "sched_step\<^sup>*\<^sup>* (ts, s) q" for q
    using that
  proof (induction rule: rtranclp_induct)
    case base
    show ?case using assms(4) by simp
  next
    case (step q r)
    have keep: "list_all (\<lambda>u. keeps_within R u (snd q)) (fst q)" "length (fst q) = length ts"
      using pool_keeps [OF step.hyps(1)] assms(2) by auto
    from step.hyps(2) obtain j vs v f g where q: "q = (vs, v)" "r = (vs[j := g v], f v)" "j < length vs" "vs ! j = Act f g"
      by cases auto
    have "keeps_within R (Act f g) v" using keep q by (metis fst_conv snd_conv list_all_length)
    then have "R v (f v)" using refl by auto
    show ?case
    proof (cases "j = i")
      case True
      then show ?thesis using step.IH q refl by simp
    next
      case False
      then show ?thesis using step.IH q ensures_stable [OF _ \<open>R v (f v)\<close>] by simp
    qed
  qed
  from this [OF assms(1)] show ?thesis by simp
qed

end

subsection \<open>Coroutines that take a lock\<close>

text \<open>
  A coroutine that may also wait for the one \<open>asyncio.Lock\<close> of its object. \<open>Acquire t\<close> waits until the lock is
  free and takes it; \<open>Release t\<close> frees it. The lock has no owner and is not reentrant. \<open>with_lock t\<close> is
  \<open>async with lock\<close> around \<open>t\<close>: it frees the lock however \<open>t\<close> ends. The cancellation of a coroutine from outside is
  not modelled.
\<close>

datatype ('s, 'a) ltask = LDone "exn + 'a" | LAct "'s \<Rightarrow> 's" "'s \<Rightarrow> ('s, 'a) ltask"
  | Acquire "('s, 'a) ltask" | Release "('s, 'a) ltask"

primrec unlocked :: "('s, 'a) task \<Rightarrow> ('s, 'a) ltask" where
  "unlocked (Done r) = LDone r"
| "unlocked (Act f g) = LAct f (\<lambda>s. unlocked (g s))"

primrec l_bind :: "('s, 'a) ltask \<Rightarrow> ('a \<Rightarrow> ('s, 'b) ltask) \<Rightarrow> ('s, 'b) ltask" where
  "l_bind (LDone r) k = (case r of Inl e \<Rightarrow> LDone (Inl e) | Inr a \<Rightarrow> k a)"
| "l_bind (LAct f g) k = LAct f (\<lambda>s. l_bind (g s) k)"
| "l_bind (Acquire t) k = Acquire (l_bind t k)"
| "l_bind (Release t) k = Release (l_bind t k)"

text \<open>\<open>try: await t except Exception: pass\<close>\<close>

primrec l_caught :: "('s, 'a) ltask \<Rightarrow> ('s, unit) ltask" where
  "l_caught (LDone r) = LDone (Inr ())"
| "l_caught (LAct f g) = LAct f (\<lambda>s. l_caught (g s))"
| "l_caught (Acquire t) = Acquire (l_caught t)"
| "l_caught (Release t) = Release (l_caught t)"

primrec l_each :: "('a \<Rightarrow> ('s, unit) ltask) \<Rightarrow> 'a list \<Rightarrow> ('s, unit) ltask" where
  "l_each f [] = LDone (Inr ())"
| "l_each f (x # xs) = l_bind (f x) (\<lambda>_. l_each f xs)"

primrec releasing :: "('s, 'a) ltask \<Rightarrow> ('s, 'a) ltask" where
  "releasing (LDone r) = Release (LDone r)"
| "releasing (LAct f g) = LAct f (\<lambda>s. releasing (g s))"
| "releasing (Acquire t) = Acquire (releasing t)"
| "releasing (Release t) = Release (releasing t)"

definition with_lock :: "('s, 'a) ltask \<Rightarrow> ('s, 'a) ltask" where
  "with_lock t = Acquire (releasing t)"

abbreviation l_await :: "('s, 'a) io \<Rightarrow> ('s, 'a) ltask" where
  "l_await m \<equiv> unlocked (await m)"

abbreviation l_lift :: "exn + 'a \<Rightarrow> ('s, 'a) ltask" where
  "l_lift r \<equiv> LDone r"

abbreviation l_return :: "'a \<Rightarrow> ('s, 'a) ltask" where
  "l_return a \<equiv> LDone (Inr a)"

abbreviation l_raise :: "exn \<Rightarrow> ('s, 'a) ltask" where
  "l_raise e \<equiv> LDone (Inl e)"

text \<open>A pool of coroutines, whether the lock is held, and the shared state.\<close>

type_synonym ('s, 'a) lock_pool = "('s, 'a) ltask list \<times> bool \<times> 's"

inductive lock_step :: "('s, 'a) lock_pool \<Rightarrow> ('s, 'a) lock_pool \<Rightarrow> bool" where
  l_command: "i < length ts \<Longrightarrow> ts ! i = LAct f g \<Longrightarrow> lock_step (ts, b, s) (ts[i := g s], b, f s)"
| l_acquire: "i < length ts \<Longrightarrow> ts ! i = Acquire t \<Longrightarrow> lock_step (ts, False, s) (ts[i := t], True, s)"
| l_release: "i < length ts \<Longrightarrow> ts ! i = Release t \<Longrightarrow> lock_step (ts, True, s) (ts[i := t], False, s)"

inductive_cases lock_stepE: "lock_step (ts, b, s) c"

text \<open>A coroutine that does not touch the lock, and what it does alone.\<close>

primrec lock_free :: "('s, 'a) ltask \<Rightarrow> bool" where
  "lock_free (LDone r) = True"
| "lock_free (LAct f g) = (\<forall>s. lock_free (g s))"
| "lock_free (Acquire t) = False"
| "lock_free (Release t) = False"

primrec run_ltask :: "('s, 'a) ltask \<Rightarrow> ('s, 'a) io" where
  "run_ltask (LDone r) = (\<lambda>s. (r, s))"
| "run_ltask (LAct f g) = (\<lambda>s. run_ltask (g s) (f s))"
| "run_ltask (Acquire t) = run_ltask t"
| "run_ltask (Release t) = run_ltask t"

lemma run_unlocked [task_runs]: "run_ltask (unlocked t) = run_task t"
  by (induction t) (simp_all add: fun_eq_iff)

lemma run_ldone [task_runs]: "run_ltask (LDone r) = io_lift r"
  by (rule ext) (simp add: io_simps)

lemma run_l_bind [task_runs]: "run_ltask (l_bind t k) = io_bind (run_ltask t) (\<lambda>a. run_ltask (k a))"
  by (induction t) (auto simp: io_simps fun_eq_iff split: sum.split)

lemma run_l_caught [task_runs]: "run_ltask (l_caught t) = io_bind (io_try (run_ltask t)) (\<lambda>_. io_return ())"
  by (induction t) (auto simp: io_simps fun_eq_iff split: sum.split)

lemma run_l_each [task_runs]: "run_ltask (l_each f xs) = io_each (\<lambda>x. run_ltask (f x)) xs"
proof (induction xs)
  case Nil
  show ?case by (rule ext) (simp add: io_return_def)
qed (simp add: task_runs)

lemma run_l_if [task_runs]: "run_ltask (if b then t else u) = (if b then run_ltask t else run_ltask u)"
  by simp

lemma run_l_option [task_runs]:
  "run_ltask (case x of None \<Rightarrow> t | Some a \<Rightarrow> u a) = (case x of None \<Rightarrow> run_ltask t | Some a \<Rightarrow> run_ltask (u a))"
  by (cases x) simp_all

named_theorems lock_frees \<comment> \<open>coroutines that do not touch the lock\<close>

lemma lock_free_unlocked [lock_frees]: "lock_free (unlocked t)"
  by (induction t) auto

lemma lock_free_done [lock_frees]: "lock_free (LDone r)"
  by simp

lemma lock_free_bind [lock_frees]: "lock_free t \<Longrightarrow> (\<And>a. lock_free (k a)) \<Longrightarrow> lock_free (l_bind t k)"
  by (induction t) (auto split: sum.split)

lemma lock_free_caught [lock_frees]: "lock_free t \<Longrightarrow> lock_free (l_caught t)"
  by (induction t) auto

lemma lock_free_each [lock_frees]: "(\<And>x. lock_free (f x)) \<Longrightarrow> lock_free (l_each f xs)"
  by (induction xs) (simp_all add: lock_free_bind)

lemma lock_free_if [lock_frees]: "(b \<Longrightarrow> lock_free t) \<Longrightarrow> (\<not> b \<Longrightarrow> lock_free u) \<Longrightarrow> lock_free (if b then t else u)"
  by simp

lemma releasing_free:
  "releasing t = LAct f g \<Longrightarrow> lock_free t \<Longrightarrow> \<exists>g'. t = LAct f g' \<and> g = (\<lambda>s. releasing (g' s))"
  "releasing t = Release u \<Longrightarrow> lock_free t \<Longrightarrow> \<exists>r. t = LDone r \<and> u = LDone r"
  "lock_free t \<Longrightarrow> releasing t \<noteq> Acquire u"
  by (cases t; auto)+

lemma all_wait_stuck:
  assumes "\<forall>u\<in>set us. \<exists>t. u = Acquire t"
  shows "\<not> lock_step (us, True, s) c"
proof
  assume "lock_step (us, True, s) c"
  then show False by (rule lock_stepE) (use assms nth_mem in fastforce)+
qed

subsection \<open>Bodies under the lock run one after the other\<close>

text \<open>Running coroutines one after the other, in the order of the indices, and what each answers at its turn.\<close>

primrec serial_state :: "('s, 'a) ltask list \<Rightarrow> nat list \<Rightarrow> 's \<Rightarrow> 's" where
  "serial_state ts [] s = s"
| "serial_state ts (i # is) s = serial_state ts is (snd (run_ltask (ts ! i) s))"

primrec serial_results :: "('s, 'a) ltask list \<Rightarrow> nat list \<Rightarrow> 's \<Rightarrow> (nat \<times> (exn + 'a)) list" where
  "serial_results ts [] s = []"
| "serial_results ts (i # is) s = (i, fst (run_ltask (ts ! i) s)) # serial_results ts is (snd (run_ltask (ts ! i) s))"

lemma serial_state_append: "serial_state ts (is @ js) s = serial_state ts js (serial_state ts is s)"
  by (induction "is" arbitrary: s) simp_all

lemma serial_results_append:
  "serial_results ts (is @ js) s = serial_results ts is s @ serial_results ts js (serial_state ts is s)"
  by (induction "is" arbitrary: s) simp_all

lemma serial_results_indices [simp]: "map fst (serial_results ts is s) = is"
  by (induction "is" arbitrary: s) simp_all

text \<open>
  The invariant: the finished coroutines ran one after the other, those that wait have not begun, and the
  rest of the one that holds the lock does what it would do from the state it entered in.
\<close>

definition coroutine_serial :: "('s, 'a) ltask list \<Rightarrow> 's \<Rightarrow> nat list \<Rightarrow> nat option \<Rightarrow> 's \<Rightarrow> nat \<Rightarrow> ('s, 'a) ltask \<Rightarrow> bool" where
  "coroutine_serial ts s0 ord h s j x =
     (if j \<in> set ord then \<exists>r. x = LDone r \<and> map_of (serial_results ts ord s0) j = Some r
      else if h = Some j then \<exists>t. x = releasing t \<and> lock_free t \<and> run_ltask t s = run_ltask (ts ! j) (serial_state ts ord s0)
      else x = with_lock (ts ! j))"

definition serialised :: "('s, 'a) ltask list \<Rightarrow> 's \<Rightarrow> nat list \<Rightarrow> nat option \<Rightarrow> ('s, 'a) lock_pool \<Rightarrow> bool" where
  "serialised ts s0 ord h c = (case c of (xs, b, s) \<Rightarrow> length xs = length ts \<and> distinct ord \<and> set ord \<subseteq> {..<length ts} \<and>
     (\<forall>j<length ts. coroutine_serial ts s0 ord h s j (xs ! j)) \<and> b = (h \<noteq> None) \<and>
     (case h of None \<Rightarrow> s = serial_state ts ord s0 | Some i \<Rightarrow> i < length ts \<and> i \<notin> set ord))"

lemma serialised_nth:
  "serialised ts s0 ord h (xs, b, s) \<Longrightarrow> i < length xs \<Longrightarrow> coroutine_serial ts s0 ord h s i (xs ! i)"
  by (simp add: serialised_def)

lemma serialised_command:
  assumes "serialised ts s0 ord h (xs, b, s)" and "i < length xs" and "xs ! i = LAct f g"
  shows "serialised ts s0 ord h (xs[i := g s], b, f s)"
proof -
  have i: "coroutine_serial ts s0 ord h s i (LAct f g)" using serialised_nth [OF assms(1,2)] assms(3) by simp
  then have h: "h = Some i" "i \<notin> set ord" by (auto simp: coroutine_serial_def with_lock_def split: if_splits)
  with i obtain t where t: "releasing t = LAct f g" "lock_free t" "run_ltask t s = run_ltask (ts ! i) (serial_state ts ord s0)"
    by (auto simp: coroutine_serial_def)
  obtain g' where g': "t = LAct f g'" "g = (\<lambda>s. releasing (g' s))" using releasing_free(1) [OF t(1,2)] by blast
  have "coroutine_serial ts s0 ord h (f s) i (g s)" using h g' t(2,3) by (auto simp: coroutine_serial_def)
  moreover have "coroutine_serial ts s0 ord h (f s) j x" if "coroutine_serial ts s0 ord h s j x" "j \<noteq> i" for j x
    using that h(1) by (auto simp: coroutine_serial_def split: if_splits)
  ultimately show ?thesis using assms(1,2) h(1) by (auto simp: serialised_def nth_list_update)
qed

lemma serialised_acquire:
  assumes "serialised ts s0 ord h (xs, False, s)" and "i < length xs" and "xs ! i = Acquire t" and "list_all lock_free ts"
  shows "serialised ts s0 ord (Some i) (xs[i := t], True, s)"
proof -
  have h: "h = None" "s = serial_state ts ord s0" using assms(1) by (auto simp: serialised_def)
  have "coroutine_serial ts s0 ord h s i (Acquire t)" using serialised_nth [OF assms(1,2)] assms(3) by simp
  then have i: "i \<notin> set ord" "t = releasing (ts ! i)"
    using h(1) by (auto simp: coroutine_serial_def with_lock_def split: if_splits)
  have "lock_free (ts ! i)" using assms(1,2,4) by (simp add: serialised_def list_all_length)
  then have "coroutine_serial ts s0 ord (Some i) s i t" using i h(2) by (auto simp: coroutine_serial_def)
  moreover have "coroutine_serial ts s0 ord (Some i) s j x" if "coroutine_serial ts s0 ord h s j x" "j \<noteq> i" for j x
    using that h(1) by (simp add: coroutine_serial_def)
  ultimately show ?thesis using assms(1,2) i(1) h(1) by (auto simp: serialised_def nth_list_update)
qed

lemma serialised_release:
  assumes "serialised ts s0 ord h (xs, True, s)" and "i < length xs" and "xs ! i = Release u"
  shows "serialised ts s0 (ord @ [i]) None (xs[i := u], False, s)"
proof -
  have "coroutine_serial ts s0 ord h s i (Release u)" using serialised_nth [OF assms(1,2)] assms(3) by simp
  then have h: "h = Some i" "i \<notin> set ord" and "\<exists>t. releasing t = Release u \<and> lock_free t \<and> run_ltask t s = run_ltask (ts ! i) (serial_state ts ord s0)"
    by (auto simp: coroutine_serial_def with_lock_def split: if_splits)
  then obtain t where t: "releasing t = Release u" "lock_free t" "run_ltask t s = run_ltask (ts ! i) (serial_state ts ord s0)"
    by blast
  obtain r where r: "t = LDone r" "u = LDone r" using releasing_free(2) [OF t(1,2)] by blast
  with t(3) have run: "run_ltask (ts ! i) (serial_state ts ord s0) = (r, s)" by simp
  have fresh: "map_of (serial_results ts ord s0) i = None"
    using h(2) by (simp add: map_of_eq_None_iff flip: set_map)
  have state: "serial_state ts (ord @ [i]) s0 = s" and
    results: "serial_results ts (ord @ [i]) s0 = serial_results ts ord s0 @ [(i, r)]"
    by (simp_all add: serial_state_append serial_results_append run)
  have "coroutine_serial ts s0 (ord @ [i]) None s i u"
    using fresh r(2) by (simp add: coroutine_serial_def results map_add_def)
  moreover have "coroutine_serial ts s0 (ord @ [i]) None s j x" if "coroutine_serial ts s0 ord h s j x" "j \<noteq> i" for j x
    using that h(1) by (auto simp: coroutine_serial_def results map_add_def split: if_splits)
  ultimately show ?thesis using assms(1,2) h by (auto simp: serialised_def nth_list_update state)
qed

lemma lock_serialised:
  assumes "lock_step\<^sup>*\<^sup>* (map with_lock ts, False, s0) c" and "list_all lock_free ts"
  shows "\<exists>ord h. serialised ts s0 ord h c"
  using assms(1)
proof (induction rule: rtranclp_induct)
  case base
  have "serialised ts s0 [] None (map with_lock ts, False, s0)" by (simp add: serialised_def coroutine_serial_def)
  then show ?case by blast
next
  case (step c d)
  then obtain ord h where "serialised ts s0 ord h c" by blast
  with step.hyps(2) assms(2) show ?case
    by cases (blast intro: serialised_command serialised_acquire serialised_release)+
qed

text \<open>Every interleaving of bodies under the lock is serial.\<close>

lemma lock_serial:
  assumes "lock_step\<^sup>*\<^sup>* (map with_lock ts, False, s0) (xs, b, s)" and "list_all lock_free ts"
    and "\<forall>x\<in>set xs. \<exists>r. x = LDone r"
  shows "\<not> b \<and> (\<exists>ord. distinct ord \<and> set ord = {..<length ts} \<and> s = serial_state ts ord s0 \<and>
    (\<forall>i<length ts. \<exists>r. xs ! i = LDone r \<and> map_of (serial_results ts ord s0) i = Some r))"
proof -
  obtain ord h where inv: "serialised ts s0 ord h (xs, b, s)" using lock_serialised [OF assms(1,2)] by blast
  have len: "length xs = length ts" using inv by (simp add: serialised_def)
  have ser: "coroutine_serial ts s0 ord h s j (xs ! j)" "\<exists>r. xs ! j = LDone r" if "j < length ts" for j
    using serialised_nth [OF inv, of j] assms(3) that len by auto
  have all: "j \<in> set ord" if "j < length ts" for j
  proof -
    have "releasing t \<noteq> LDone r" "LDone r \<noteq> releasing t" for t :: "('a, 'b) ltask" and r by (cases t; simp)+
    then show ?thesis using ser [OF that] by (auto simp: coroutine_serial_def with_lock_def split: if_splits)
  qed
  then have h: "h = None" using inv by (cases h) (auto simp: serialised_def)
  have "set ord = {..<length ts}" using inv all by (auto simp: serialised_def)
  moreover have "\<exists>r. xs ! i = LDone r \<and> map_of (serial_results ts ord s0) i = Some r" if "i < length ts" for i
    using ser(1) [OF that] all [OF that] by (simp add: coroutine_serial_def)
  ultimately show ?thesis using inv h by (intro conjI exI [of _ ord]) (simp_all add: serialised_def)
qed

subsection \<open>Runs of one coroutine\<close>

text \<open>Commands of one coroutine, up to a point inside it.\<close>

inductive l_moves :: "('s, 'a) ltask \<Rightarrow> 's \<Rightarrow> ('s, 'a) ltask \<Rightarrow> 's \<Rightarrow> bool" where
  stay: "l_moves t s t s"
| move: "l_moves (g s) (f s) t' s' \<Longrightarrow> l_moves (LAct f g) s t' s'"

lemma l_moves_trans: "l_moves t s t' s' \<Longrightarrow> l_moves t' s' t'' s'' \<Longrightarrow> l_moves t s t'' s''"
  by (induction rule: l_moves.induct) (auto intro: l_moves.intros)

lemma l_moves_bind: "l_moves t s t' s' \<Longrightarrow> l_moves (l_bind t k) s (l_bind t' k) s'"
  by (induction rule: l_moves.induct) (auto intro: l_moves.intros)

lemma l_moves_caught: "l_moves t s t' s' \<Longrightarrow> l_moves (l_caught t) s (l_caught t') s'"
  by (induction rule: l_moves.induct) (auto intro: l_moves.intros)

lemma l_moves_releasing: "l_moves t s t' s' \<Longrightarrow> l_moves (releasing t) s (releasing t') s'"
  by (induction rule: l_moves.induct) (auto intro: l_moves.intros)

lemma l_moves_done: "lock_free t \<Longrightarrow> l_moves t s (LDone (fst (run_ltask t s))) (snd (run_ltask t s))"
  by (induction t arbitrary: s) (auto intro: l_moves.intros)

text \<open>A part that does not touch the lock and returns leads to what comes after it.\<close>

lemma l_moves_after:
  "lock_free t \<Longrightarrow> run_ltask t s = (Inr a, s') \<Longrightarrow> l_moves (k a) s' u s'' \<Longrightarrow> l_moves (l_bind t k) s u s''"
  using l_moves_bind [OF l_moves_done [of t s], of k] by (auto intro: l_moves_trans)

lemma l_moves_await: "m s = (Inr a, s') \<Longrightarrow> l_moves (k a) s' u s'' \<Longrightarrow> l_moves (l_bind (l_await m) k) s u s''"
  by (rule l_moves_after [OF lock_free_unlocked]) (simp_all add: task_runs)

lemma pool_moves:
  assumes "l_moves t s t' s'" and "i < length ts"
  shows "lock_step\<^sup>*\<^sup>* (ts[i := t], b, s) (ts[i := t'], b, s')"
  using assms(1)
proof (induction rule: l_moves.induct)
  case (move g s f t' s')
  have "lock_step (ts[i := LAct f g], b, s) ((ts[i := LAct f g])[i := g s], b, f s)"
    by (rule l_command) (use assms(2) in simp_all)
  with move.IH show ?case by (simp add: converse_rtranclp_into_rtranclp)
qed simp

lemma pool_enters:
  assumes "i < length ts" and "ts ! i = with_lock t" and "l_moves t s t' s'"
  shows "lock_step\<^sup>*\<^sup>* (ts, False, s) (ts[i := releasing t'], True, s')"
proof -
  have "lock_step (ts, False, s) (ts[i := releasing t], True, s)"
    by (rule l_acquire) (use assms in \<open>simp_all add: with_lock_def\<close>)
  with pool_moves [OF l_moves_releasing [OF assms(3)] assms(1)] show ?thesis
    by (meson converse_rtranclp_into_rtranclp)
qed

text \<open>A body that does not touch the lock itself runs to its end and frees the lock.\<close>

lemma pool_runs:
  assumes "i < length ts" and "ts ! i = with_lock t" and "lock_free t" and "run_ltask t s = (r, s')"
  shows "lock_step\<^sup>*\<^sup>* (ts, False, s) (ts[i := LDone r], False, s')"
proof -
  have "lock_step\<^sup>*\<^sup>* (ts, False, s) (ts[i := Release (LDone r)], True, s')"
    using pool_enters [OF assms(1,2) l_moves_done [OF assms(3), of s]] assms(4) by simp
  moreover have "lock_step (ts[i := Release (LDone r)], True, s') (ts[i := LDone r], False, s')"
    using l_release [of i "ts[i := Release (LDone r)]" "LDone r" s'] assms(1) by simp
  ultimately show ?thesis by simp
qed

end
