(* ===== verification/Token_Races.thy ===== *)
theory Token_Races
  imports Token_Security Tasks
begin

text \<open>
  Concurrent refresh-token rotations (\<^verbatim>\<open>app/core/security.py\<close>). \<open>rotate_task\<close> is
  \<open>rotate_refresh_token\<close> cut at its awaits: one step decodes the token and every other step is one
  Redis command. Run alone it is \<open>rotate_refresh_token\<close> of the sequential model. The theorems
  show what interleaving with other requests, of this process or another, adds: two requests can
  rotate one token, the detection of reuse fires only in such a race, and a token or a family that
  is already revoked is refused in every interleaving.
\<close>

subsection \<open>Verification and rotation as tasks\<close>

definition verify_task :: "'w token_crypto \<Rightarrow> 'w redis_api \<Rightarrow> string \<Rightarrow> string option \<Rightarrow> ('w, pydict) task" where
  "verify_task jc rd token fingerprint =
     t_bind (await (decode_payload jc token)) (\<lambda>payload.
     let jti = py_str (pyget payload ''jti'') in
     if \<not> truthy jti then t_raise (ValueError ''missing jti'')
     else t_bind (await (is_token_revoked rd jti)) (\<lambda>revoked.
       if revoked then t_raise (ValueError ''token revoked'')
       else t_bind (t_lift (key payload ''sub'')) (\<lambda>sub.
         t_bind (await (rd_get rd (revoke_after_key sub))) (\<lambda>revoke_after.
         t_bind (t_lift (globally_revoked payload revoke_after)) (\<lambda>gone.
         if gone then t_raise (ValueError ''token globally revoked'')
         else (case fingerprint of
             None \<Rightarrow> t_return payload
           | Some f \<Rightarrow> if f \<noteq> [] \<and> pyget payload ''fp'' \<noteq> PStr (jc_sha256 jc f)
               then t_raise (ValueError ''fingerprint mismatch'') else t_return payload))))))"

text \<open>From a verified payload to both checks passed, and from there to the end.\<close>

definition used_checks_task :: "token_settings \<Rightarrow> 'w redis_api \<Rightarrow> pydict \<Rightarrow> ('w, pyval) task" where
  "used_checks_task st rd payload =
     (if pyget payload ''typ'' \<noteq> PStr ''refresh'' then t_raise (ValueError ''not refresh token'')
      else t_bind (t_lift (key payload ''jti'')) (\<lambda>jti.
        let family_id = pyget payload ''fid'' in
        t_bind (await (rd_exists rd (used_key jti))) (\<lambda>used.
        if used then
          t_bind (if truthy family_id
              then await (rd_set rd (family_key family_id) ''1'' (60 * 60 * 24 * ts_refresh_ttl_days st))
              else t_return ()) (\<lambda>_.
          t_raise (ValueError ''refresh token reuse detected''))
        else t_bind (if truthy family_id then await (rd_exists rd (family_key family_id)) else t_return False) (\<lambda>dead.
          if dead then t_raise (ValueError ''token family revoked'') else t_return jti))))"

definition rotate_marks_task :: "'w token_crypto \<Rightarrow> token_settings \<Rightarrow> 'w redis_api \<Rightarrow> (nat \<Rightarrow> datetime) \<Rightarrow> string \<Rightarrow> string \<Rightarrow> pydict \<Rightarrow> pyval
    \<Rightarrow> string \<Rightarrow> ('w, token_pair) task" where
  "rotate_marks_task jc st rd clk ja jr payload jti fingerprint =
     (let now_ts = seconds (clk 0) in
      t_bind (t_lift (py_int (dict_get payload ''exp'' (PInt (now_ts + 1))))) (\<lambda>exp_ts.
      let ttl = max 1 (exp_ts - now_ts) in
      t_bind (await (rd_set rd (used_key jti) ''1'' ttl)) (\<lambda>_.
      t_bind (await (revoke_token rd jti ttl)) (\<lambda>_.
      t_bind (t_lift (key payload ''sub'')) (\<lambda>sub.
      t_lift (make_pair jc st (clk 1) (clk 2) ja jr (py_str sub) (py_str (pyget payload ''fid'')) fingerprint))))))"

definition rotate_task :: "'w token_crypto \<Rightarrow> token_settings \<Rightarrow> 'w redis_api \<Rightarrow> (nat \<Rightarrow> datetime) \<Rightarrow> string \<Rightarrow> string \<Rightarrow> string \<Rightarrow> string
    \<Rightarrow> ('w, token_pair) task" where
  "rotate_task jc st rd clk ja jr refresh_token fingerprint =
     t_bind (verify_task jc rd refresh_token (Some fingerprint)) (\<lambda>payload.
     t_bind (used_checks_task st rd payload) (\<lambda>jti.
     rotate_marks_task jc st rd clk ja jr payload jti fingerprint))"

subsection \<open>A rotation alone\<close>

lemma run_verify [task_runs]: "run_task (verify_task jc rd token fp) = verify_token jc rd token fp"
  unfolding verify_task_def verify_token_def Let_def
  by (simp only: task_runs cong: if_cong option.case_cong)

lemma run_marks [task_runs]: "run_task (rotate_marks_task jc st rd clk ja jr payload jti fp) =
    rotate_checked jc st rd clk ja jr payload jti (pyget payload ''fid'') fp"
  unfolding rotate_marks_task_def rotate_checked_def Let_def
  by (simp only: task_runs)

lemma run_rotate:
  "run_task (rotate_task jc st rd clk ja jr token fp) = rotate_refresh_token jc st rd clk ja jr token fp"
proof -
  have "io_bind (run_task (used_checks_task st rd payload)) (\<lambda>jti. rotate_checked jc st rd clk ja jr payload jti (pyget payload ''fid'') fp) =
    (if pyget payload ''typ'' \<noteq> PStr ''refresh'' then io_raise (ValueError ''not refresh token'')
     else io_bind (io_lift (key payload ''jti'')) (\<lambda>jti.
       let family_id = pyget payload ''fid'' in
       io_bind (rd_exists rd (used_key jti)) (\<lambda>used.
       if used then
         io_bind (io_when (truthy family_id)
           (rd_set rd (family_key family_id) ''1'' (60 * 60 * 24 * ts_refresh_ttl_days st))) (\<lambda>_.
         io_raise (ValueError ''refresh token reuse detected''))
       else io_bind (if truthy family_id then rd_exists rd (family_key family_id) else io_return False) (\<lambda>dead.
         if dead then io_raise (ValueError ''token family revoked'')
         else rotate_checked jc st rd clk ja jr payload jti family_id fp))))" for payload
    unfolding used_checks_task_def Let_def io_when_def
    by (auto simp: task_runs fun_eq_iff io_simps split: sum.splits prod.splits)
  then show ?thesis unfolding rotate_task_def rotate_refresh_token_def by (simp only: task_runs)
qed

text \<open>
  Cutting a rotation at its awaits changes nothing for a rotation that runs alone: the task is the
  function \<open>rotate_refresh_token\<close>, result and effects, on every server and every token.
\<close>

theorem rotate_task_alone:
  "run_task (rotate_task jc st rd clk ja jr token fp) = rotate_refresh_token jc st rd clk ja jr token fp"
  by (rule run_rotate)

subsection \<open>Two rotations of one token\<close>

lemma used_checks_result:
  assumes rd: "redis_strings rd view"
  shows "run_task (used_checks_task st rd payload) w = (Inr jti, w') \<longleftrightarrow>
    w' = w \<and> pyget payload ''typ'' = PStr ''refresh'' \<and> map_of payload ''jti'' = Some jti \<and> view w (used_key jti) = None \<and>
    (truthy (pyget payload ''fid'') \<longrightarrow> view w (family_key (pyget payload ''fid'')) = None)"
  by (auto simp: used_checks_task_def Let_def task_runs io_simps exists_law [OF rd] key_def split: sum.splits prod.splits option.splits)

text \<open>The answer of a rotation that passed the checks does not depend on the server.\<close>

lemma rotate_checked_answer:
  assumes rd: "redis_strings rd view"
  shows "fst (rotate_checked jc st rd clk ja jr payload jti fid fp w) = fst (rotate_checked jc st rd clk ja jr payload jti fid fp w')"
proof (cases "py_int (dict_get payload ''exp'' (PInt (seconds (clk 0) + 1)))")
  case (Inl e)
  then show ?thesis by (simp add: rotate_checked_def io_simps Let_def)
next
  case (Inr exp_ts)
  let ?ttl = "max 1 (exp_ts - seconds (clk 0))"
  have "\<exists>v2. rotate_checked jc st rd clk ja jr payload jti fid fp v =
      (sum_bind (key payload ''sub'') (\<lambda>sub. make_pair jc st (clk 1) (clk 2) ja jr (py_str sub) (py_str fid) fp), v2)" for v
  proof -
    obtain v1 where "rd_set rd (used_key jti) ''1'' ?ttl v = (Inr (), v1)"
      using set_law [OF rd, of ?ttl] by fastforce
    moreover obtain v2 where "revoke_token rd jti ?ttl v1 = (Inr (), v2)"
      using revoke_token_law [OF rd] by blast
    ultimately show ?thesis
      using Inr by (simp add: rotate_checked_def io_simps Let_def sum_bind_def split: sum.split)
  qed
  then show ?thesis by (metis fst_conv)
qed

text \<open>What a successful rotation went through.\<close>

lemma rotation_phases:
  assumes rd: "redis_strings rd view" and jc: "decode_pure jc view"
    and ok: "rotate_refresh_token jc st rd clk ja jr token fp w = (Inr pair, w')"
    and dec: "jc_decode jc token w = (Inr (Some payload), w1)"
  obtains jti where "verify_token jc rd token (Some fp) w = (Inr payload, w1)"
    "run_task (used_checks_task st rd payload) w1 = (Inr jti, w1)"
    "rotate_checked jc st rd clk ja jr payload jti (pyget payload ''fid'') fp w1 = (Inr pair, w')"
proof -
  have run: "io_bind (verify_token jc rd token (Some fp)) (\<lambda>payload. io_bind (run_task (used_checks_task st rd payload)) (\<lambda>jti.
      rotate_checked jc st rd clk ja jr payload jti (pyget payload ''fid'') fp)) w = (Inr pair, w')"
    using ok unfolding run_rotate [symmetric] rotate_task_def by (simp only: task_runs)
  from run obtain p s where v: "verify_token jc rd token (Some fp) w = (Inr p, s)"
    and r: "io_bind (run_task (used_checks_task st rd p)) (\<lambda>jti. rotate_checked jc st rd clk ja jr p jti (pyget p ''fid'') fp) s = (Inr pair, w')"
    by (rule io_bindE)
  have p: "p = payload" "s = w1" using v verify_token_result [OF rd jc dec] by auto
  from r obtain jti s' where u: "run_task (used_checks_task st rd p) s = (Inr jti, s')"
    and c: "rotate_checked jc st rd clk ja jr p jti (pyget p ''fid'') fp s' = (Inr pair, w')"
    by (rule io_bindE)
  then have "s' = s" using used_checks_result [OF rd] by blast
  then show thesis using that v u c p by blast
qed

text \<open>The two points of a rotation at which another request can act, as moves of a pool.\<close>

lemma verify_phase:
  assumes "i < length ts" and "ts ! i = rotate_task jc st rd clk ja jr token fp"
    and "verify_token jc rd token (Some fp) s = (Inr payload, s')"
  shows "\<exists>n. run_schedule (replicate n i) (ts, s) =
    (ts[i := t_bind (used_checks_task st rd payload) (\<lambda>jti. rotate_marks_task jc st rd clk ja jr payload jti fp)], s')"
  using run_prefix [OF assms(1) assms(2) [unfolded rotate_task_def], of s] assms(3) by (simp add: run_verify)

lemma checks_phase:
  assumes "i < length ts" and "ts ! i = t_bind (used_checks_task st rd payload) (\<lambda>jti. rotate_marks_task jc st rd clk ja jr payload jti fp)"
    and "run_task (used_checks_task st rd payload) s = (Inr jti, s')"
  shows "\<exists>n. run_schedule (replicate n i) (ts, s) = (ts[i := rotate_marks_task jc st rd clk ja jr payload jti fp], s')"
  using run_prefix [OF assms(1,2), of s] assms(3) by simp

lemma marks_phase:
  assumes "i < length ts" and "ts ! i = rotate_marks_task jc st rd clk ja jr payload jti fp"
    and "rotate_checked jc st rd clk ja jr payload jti (pyget payload ''fid'') fp s = (r, s')"
  shows "\<exists>n. run_schedule (replicate n i) (ts, s) = (ts[i := Done r], s')"
  using run_alone [OF assms(1), of s] assms(2,3) by (simp add: run_marks)

text \<open>
  Refresh tokens are not single-use under concurrency: if each of two requests could rotate the
  token alone, then there is an interleaving of their Redis commands in which both succeed, each
  with the pair it would have had alone. The check of the used mark and its setting are two
  commands, and both requests check before either sets.
\<close>

theorem concurrent_rotations_both_succeed:
  assumes rd: "redis_strings rd view" and jc: "decode_pure jc view"
    and A: "rotate_refresh_token jc st rd clk1 ja1 jr1 token fp1 w = (Inr pair1, wa)"
    and B: "rotate_refresh_token jc st rd clk2 ja2 jr2 token fp2 w = (Inr pair2, wb)"
    and dec: "jc_decode jc token w = (Inr (Some payload), w1)" "jc_decode jc token w1 = (Inr (Some payload), w2)"
  shows "\<exists>sch w'. run_schedule sch
      ([rotate_task jc st rd clk1 ja1 jr1 token fp1, rotate_task jc st rd clk2 ja2 jr2 token fp2], w) =
    ([Done (Inr pair1), Done (Inr pair2)], w')"
proof -
  let ?A = "rotate_task jc st rd clk1 ja1 jr1 token fp1" and ?B = "rotate_task jc st rd clk2 ja2 jr2 token fp2"
  let ?am = "\<lambda>jti. rotate_marks_task jc st rd clk1 ja1 jr1 payload jti fp1"
    and ?bm = "\<lambda>jti. rotate_marks_task jc st rd clk2 ja2 jr2 payload jti fp2"
    and ?chk = "used_checks_task st rd payload"
  have views: "view w1 = view w" "view w2 = view w"
    using jc dec by (metis decode_pure_def snd_conv)+
  obtain jti where a: "verify_token jc rd token (Some fp1) w = (Inr payload, w1)" "run_task ?chk w1 = (Inr jti, w1)"
    "rotate_checked jc st rd clk1 ja1 jr1 payload jti (pyget payload ''fid'') fp1 w1 = (Inr pair1, wa)"
    by (rule rotation_phases [OF rd jc A dec(1)])
  obtain jti' where b: "verify_token jc rd token (Some fp2) w = (Inr payload, w1)" "run_task ?chk w1 = (Inr jti', w1)"
    "rotate_checked jc st rd clk2 ja2 jr2 payload jti' (pyget payload ''fid'') fp2 w1 = (Inr pair2, wb)"
    by (rule rotation_phases [OF rd jc B dec(1)])
  have same: "jti' = jti" using a(2) b(2) by simp
  have v2: "verify_token jc rd token (Some fp2) w1 = (Inr payload, w2)"
    using b(1) views verify_token_result [OF rd jc dec(1)] verify_token_result [OF rd jc dec(2)] by auto
  have c2: "run_task ?chk w2 = (Inr jti, w2)"
    using a(2) views by (simp add: used_checks_result [OF rd])
  obtain wa' where ma: "rotate_checked jc st rd clk1 ja1 jr1 payload jti (pyget payload ''fid'') fp1 w2 = (Inr pair1, wa')"
    using a(3) rotate_checked_answer [OF rd] by (metis fst_conv prod.collapse)
  obtain wb' where mb: "rotate_checked jc st rd clk2 ja2 jr2 payload jti (pyget payload ''fid'') fp2 wa' = (Inr pair2, wb')"
    using b(3) rotate_checked_answer [OF rd] unfolding same by (metis fst_conv prod.collapse)
  obtain n1 where 1: "run_schedule (replicate n1 0) ([?A, ?B], w) = ([t_bind ?chk ?am, ?B], w1)"
    using verify_phase [of 0 "[?A, ?B]" jc st rd clk1 ja1 jr1 token fp1 w payload w1] a(1) by auto
  obtain n2 where 2: "run_schedule (replicate n2 0) ([t_bind ?chk ?am, ?B], w1) = ([?am jti, ?B], w1)"
    using checks_phase [of 0 "[t_bind ?chk ?am, ?B]" st rd payload jc clk1 ja1 jr1 fp1 w1 jti w1] a(2) by auto
  obtain n3 where 3: "run_schedule (replicate n3 1) ([?am jti, ?B], w1) = ([?am jti, t_bind ?chk ?bm], w2)"
    using verify_phase [of 1 "[?am jti, ?B]" jc st rd clk2 ja2 jr2 token fp2 w1 payload w2] v2 by auto
  obtain n4 where 4: "run_schedule (replicate n4 1) ([?am jti, t_bind ?chk ?bm], w2) = ([?am jti, ?bm jti], w2)"
    using checks_phase [of 1 "[?am jti, t_bind ?chk ?bm]" st rd payload jc clk2 ja2 jr2 fp2 w2 jti w2] c2 by auto
  obtain n5 where 5: "run_schedule (replicate n5 0) ([?am jti, ?bm jti], w2) = ([Done (Inr pair1), ?bm jti], wa')"
    using marks_phase [of 0 "[?am jti, ?bm jti]" jc st rd clk1 ja1 jr1 payload jti fp1 w2 "Inr pair1" wa'] ma by auto
  obtain n6 where 6: "run_schedule (replicate n6 1) ([Done (Inr pair1), ?bm jti], wa') = ([Done (Inr pair1), Done (Inr pair2)], wb')"
    using marks_phase [of 1 "[Done (Inr pair1), ?bm jti]" jc st rd clk2 ja2 jr2 payload jti fp2 wa' "Inr pair2" wb'] mb by auto
  from 1 2 3 4 5 6 have "run_schedule (replicate n1 0 @ replicate n2 0 @ replicate n3 1 @ replicate n4 1 @ replicate n5 0 @ replicate n6 1)
      ([?A, ?B], w) = ([Done (Inr pair1), Done (Inr pair2)], wb')"
    by (simp only: run_schedule_append)
  then show ?thesis by blast
qed

subsection \<open>Every interleaving\<close>

text \<open>What a request may do to the others: as long as no mark expires, marks are only added.\<close>

definition marks_grow :: "('w \<Rightarrow> rkey \<Rightarrow> string option) \<Rightarrow> 'w \<Rightarrow> 'w \<Rightarrow> bool" where
  "marks_grow view s s' = (dom (view s) \<subseteq> dom (view s'))"

lemma marks_growD: "marks_grow view s s' \<Longrightarrow> view s k \<noteq> None \<Longrightarrow> view s' k \<noteq> None"
  by (auto simp: marks_grow_def)

lemma marks_grow_None: "marks_grow view s s' \<Longrightarrow> view s' k = None \<Longrightarrow> view s k = None"
  by (auto simp: marks_grow_def dom_def)

lemma marks_interference: "interference (marks_grow view)"
  by unfold_locales (auto simp: marks_grow_def)

interpretation marks: interference "marks_grow view" for view
  by (rule marks_interference)

lemma set_grows:
  assumes "redis_strings rd view" and "1 \<le> ex"
  shows "marks_grow view w (snd (rd_set rd k v ex w))"
proof -
  obtain w' where "rd_set rd k v ex w = (Inr (), w')" "view w' = (view w)(k \<mapsto> v)"
    using set_law [OF assms] by blast
  then show ?thesis by (auto simp: marks_grow_def)
qed

lemma verify_guarantees [guar]:
  assumes rd: "redis_strings rd view" and jc: "decode_pure jc view"
  shows "guarantees (marks_grow view) (verify_task jc rd token fp)"
proof -
  have d: "marks_grow view w (snd (decode_payload jc token w))" for w
  proof -
    obtain r w1 where "jc_decode jc token w = (r, w1)" by fastforce
    moreover from this have "view w1 = view w" using jc by (metis decode_pure_def snd_conv)
    ultimately show ?thesis
      by (auto simp: decode_payload_def io_simps marks_grow_def split: sum.split option.split)
  qed
  show ?thesis
    unfolding verify_task_def is_token_revoked_def Let_def
    by (auto intro!: guar d simp: exists_law [OF rd] get_law [OF rd] marks.refl split: option.split)
qed

lemma rotate_guarantees [guar]:
  assumes rd: "redis_strings rd view" and jc: "decode_pure jc view" and ttl: "1 \<le> ts_refresh_ttl_days st"
  shows "guarantees (marks_grow view) (rotate_task jc st rd clk ja jr token fp)"
  unfolding rotate_task_def used_checks_task_def rotate_marks_task_def revoke_token_def Let_def
  using ttl by (auto intro!: guar set_grows [OF rd] rd jc simp: exists_law [OF rd] marks.refl)

text \<open>A token whose revocation mark, or whose family's, is set; decoding is a function of the token while it is valid.\<close>

definition decodes_as :: "'w token_crypto \<Rightarrow> string \<Rightarrow> pydict \<Rightarrow> bool" where
  "decodes_as jc token payload = (\<forall>w p. fst (jc_decode jc token w) = Inr (Some p) \<longrightarrow> p = payload)"

definition dead_token :: "(rkey \<Rightarrow> string option) \<Rightarrow> pydict \<Rightarrow> bool" where
  "dead_token v payload = (v (revoked_key (pyget payload ''jti'')) \<noteq> None \<or>
     (truthy (pyget payload ''fid'') \<and> v (family_key (pyget payload ''fid'')) \<noteq> None))"

lemma dead_token_grows: "dead_token (view s) payload \<Longrightarrow> marks_grow view s s' \<Longrightarrow> dead_token (view s') payload"
  unfolding dead_token_def using marks_growD by metis

text \<open>Under interference a verification that succeeds gives the payload, and the token had no revocation mark at its start.\<close>

lemma verify_ensures:
  assumes rd: "redis_strings rd view" and jc: "decode_pure jc view" and dec: "decodes_as jc token payload"
  shows "ensures (marks_grow view) (\<lambda>r. case r of Inl e \<Rightarrow> True | Inr p \<Rightarrow> p = payload \<and> view w (revoked_key (pyget payload ''jti'')) = None)
    (verify_task jc rd token fp) w"
proof -
  have d: "fst (decode_payload jc token s) = Inr p \<Longrightarrow> p = payload" for s p
  proof -
    assume "fst (decode_payload jc token s) = Inr p"
    then have "fst (jc_decode jc token s) = Inr (Some p)"
      by (auto simp: decode_payload_def io_bind_def io_simps split: prod.splits sum.splits option.splits)
    then show "p = payload" using dec by (simp add: decodes_as_def)
  qed
  show ?thesis
    unfolding verify_task_def
  proof (rule marks.ensures_bind [where P = "\<lambda>r. case r of Inl e \<Rightarrow> True | Inr p \<Rightarrow> p = payload"])
    show "ensures (marks_grow view) (\<lambda>r. case r of Inl e \<Rightarrow> True | Inr p \<Rightarrow> p = payload) (await (decode_payload jc token)) w"
      using d by (auto simp: await_def split: sum.split)
    show "keeps_within (marks_grow view) (await (decode_payload jc token)) w"
      using verify_guarantees [OF rd jc, of token fp] by (simp add: verify_task_def await_def)
  qed (auto simp: Let_def t_bind_await t_raise_def t_return_def t_lift_def is_token_revoked_def exists_law [OF rd] get_law [OF rd]
      split: sum.split option.split dest!: marks_grow_None)
qed

lemma dead_token_ensures:
  assumes rd: "redis_strings rd view" and jc: "decode_pure jc view" and dec: "decodes_as jc token payload"
    and dead: "dead_token (view w) payload"
  shows "ensures (marks_grow view) (\<lambda>r. \<exists>e. r = Inl e) (rotate_task jc st rd clk ja jr token fp) w"
  unfolding rotate_task_def
proof (rule marks.ensures_bind [OF verify_ensures [OF rd jc dec] marks.guarantees_keeps_within [OF verify_guarantees [OF rd jc]]])
  fix p s'
  assume "case Inr p of Inl e \<Rightarrow> True | Inr p \<Rightarrow> p = payload \<and> view w (revoked_key (pyget payload ''jti'')) = None"
    and grow: "marks_grow view w s'"
  then have p: "p = payload" and fam: "truthy (pyget payload ''fid'')" "view s' (family_key (pyget payload ''fid'')) \<noteq> None"
    using dead marks_growD [OF grow] by (simp_all add: dead_token_def)
  show "ensures (marks_grow view) (\<lambda>r. \<exists>e. r = Inl e)
      (t_bind (used_checks_task st rd p) (\<lambda>jti. rotate_marks_task jc st rd clk ja jr p jti fp)) s'"
    using fam unfolding p used_checks_task_def
    by (auto simp: Let_def t_bind_await t_raise_def t_return_def t_lift_def exists_law [OF rd] split: sum.split option.split dest: marks_grow_None)
qed auto

text \<open>A request: the clock and the random identifiers it draws, the token and the device fingerprint it presents.\<close>

type_synonym rotate_request = "(nat \<Rightarrow> datetime) \<times> string \<times> string \<times> string \<times> string"

definition request_task :: "'w token_crypto \<Rightarrow> token_settings \<Rightarrow> 'w redis_api \<Rightarrow> rotate_request \<Rightarrow> ('w, token_pair) task" where
  "request_task jc st rd = (\<lambda>(clk, ja, jr, token, fp). rotate_task jc st rd clk ja jr token fp)"

text \<open>
  C31. Revocation holds under concurrency: however any number of rotation requests are interleaved, a
  request that starts when its token or its token's family is revoked never gets a pair, as long
  as no mark expires.
\<close>

theorem dead_tokens_refused_always:
  assumes rd: "redis_strings rd view" and jc: "decode_pure jc view" and ttl: "1 \<le> ts_refresh_ttl_days st"
    and dec: "decodes_as jc token payload" and dead: "dead_token (view w) payload"
    and i: "i < length reqs" "reqs ! i = (clk, ja, jr, token, fp)"
    and steps: "sched_step\<^sup>*\<^sup>* (map (request_task jc st rd) reqs, w) (us, w')" and finished: "us ! i = Done r"
  shows "\<exists>e. r = Inl e"
proof -
  have "list_all (\<lambda>t. keeps_within (marks_grow view) t w) (map (request_task jc st rd) reqs)"
    by (auto simp: list_all_iff request_task_def intro: marks.guarantees_keeps_within rotate_guarantees [OF rd jc ttl])
  moreover have "ensures (marks_grow view) (\<lambda>r. \<exists>e. r = Inl e) (map (request_task jc st rd) reqs ! i) w"
    using i dead_token_ensures [OF rd jc dec dead] by (simp add: request_task_def)
  ultimately have "ensures (marks_grow view) (\<lambda>r. \<exists>e. r = Inl e) (us ! i) w'"
    using marks.ensured [OF steps] i(1) by simp
  then show ?thesis using finished by simp
qed

text \<open>
  Reuse detection punishes a race: if each of two requests could rotate the token alone, there is
  an interleaving in which the first gets its pair and the second, verified before the first has
  marked the token, finds the used mark and revokes the family. From then on every refresh token
  of the family, the one just handed out included, is refused.
\<close>

theorem racing_rotation_revokes_family:
  assumes rd: "redis_strings rd view" and jc: "decode_pure jc view" and ttl: "1 \<le> ts_refresh_ttl_days st"
    and A: "rotate_refresh_token jc st rd clk1 ja1 jr1 token fp1 w = (Inr pair1, wa)"
    and B: "rotate_refresh_token jc st rd clk2 ja2 jr2 token fp2 w = (Inr pair2, wb)"
    and dec: "jc_decode jc token w = (Inr (Some payload), w1)" "jc_decode jc token w1 = (Inr (Some payload), w2)"
    and fam: "truthy (pyget payload ''fid'')"
  shows "\<exists>sch w'. run_schedule sch
      ([rotate_task jc st rd clk1 ja1 jr1 token fp1, rotate_task jc st rd clk2 ja2 jr2 token fp2], w) =
    ([Done (Inr pair1), Done (Inl (ValueError ''refresh token reuse detected''))], w') \<and>
    (\<forall>token' payload'. decodes_as jc token' payload' \<and> pyget payload' ''fid'' = pyget payload ''fid'' \<longrightarrow>
      (\<forall>clk ja jr fp s. marks_grow view w' s \<longrightarrow> (\<exists>e. fst (rotate_refresh_token jc st rd clk ja jr token' fp s) = Inl e)))"
proof -
  let ?A = "rotate_task jc st rd clk1 ja1 jr1 token fp1" and ?B = "rotate_task jc st rd clk2 ja2 jr2 token fp2"
  let ?am = "\<lambda>jti. rotate_marks_task jc st rd clk1 ja1 jr1 payload jti fp1"
    and ?bm = "\<lambda>jti. rotate_marks_task jc st rd clk2 ja2 jr2 payload jti fp2"
    and ?chk = "used_checks_task st rd payload" and ?fam = "family_key (pyget payload ''fid'')"
  have views: "view w1 = view w" "view w2 = view w"
    using jc dec by (metis decode_pure_def snd_conv)+
  obtain jti where a: "verify_token jc rd token (Some fp1) w = (Inr payload, w1)" "run_task ?chk w1 = (Inr jti, w1)"
    "rotate_checked jc st rd clk1 ja1 jr1 payload jti (pyget payload ''fid'') fp1 w1 = (Inr pair1, wa)"
    by (rule rotation_phases [OF rd jc A dec(1)])
  obtain jti' where b: "verify_token jc rd token (Some fp2) w = (Inr payload, w1)"
    by (rule rotation_phases [OF rd jc B dec(1)])
  have v2: "verify_token jc rd token (Some fp2) w1 = (Inr payload, w2)"
    using b views verify_token_result [OF rd jc dec(1)] verify_token_result [OF rd jc dec(2)] by auto
  have c2: "run_task ?chk w2 = (Inr jti, w2)"
    using a(2) views by (simp add: used_checks_result [OF rd])
  obtain w3 where ma: "rotate_checked jc st rd clk1 ja1 jr1 payload jti (pyget payload ''fid'') fp1 w2 = (Inr pair1, w3)"
    using a(3) rotate_checked_answer [OF rd] by (metis fst_conv prod.collapse)
  have used: "view w3 (used_key jti) \<noteq> None" and plain: "pyget payload ''typ'' = PStr ''refresh''" "map_of payload ''jti'' = Some jti"
    using rotate_checked_view [OF rd, of jc st clk1 ja1 jr1 payload jti "pyget payload ''fid''" fp1 w2] ma a(2)
    by (auto simp: used_checks_result [OF rd])
  obtain w4 where s4: "rd_set rd ?fam ''1'' (60 * 60 * 24 * ts_refresh_ttl_days st) w3 = (Inr (), w4)"
    and v4: "view w4 = (view w3)(?fam \<mapsto> ''1'')"
    using set_law [OF rd, of "60 * 60 * 24 * ts_refresh_ttl_days st"] ttl by fastforce
  have c4: "run_task ?chk w3 = (Inl (ValueError ''refresh token reuse detected''), w4)"
    using used plain fam s4 by (simp add: used_checks_task_def Let_def task_runs io_simps key_def exists_law [OF rd])
  obtain n1 where 1: "run_schedule (replicate n1 0) ([?A, ?B], w) = ([t_bind ?chk ?am, ?B], w1)"
    using verify_phase [of 0 "[?A, ?B]" jc st rd clk1 ja1 jr1 token fp1 w payload w1] a(1) by auto
  obtain n2 where 2: "run_schedule (replicate n2 1) ([t_bind ?chk ?am, ?B], w1) = ([t_bind ?chk ?am, t_bind ?chk ?bm], w2)"
    using verify_phase [of 1 "[t_bind ?chk ?am, ?B]" jc st rd clk2 ja2 jr2 token fp2 w1 payload w2] v2 by auto
  obtain n3 where 3: "run_schedule (replicate n3 0) ([t_bind ?chk ?am, t_bind ?chk ?bm], w2) = ([?am jti, t_bind ?chk ?bm], w2)"
    using checks_phase [of 0 "[t_bind ?chk ?am, t_bind ?chk ?bm]" st rd payload jc clk1 ja1 jr1 fp1 w2 jti w2] c2 by auto
  obtain n4 where 4: "run_schedule (replicate n4 0) ([?am jti, t_bind ?chk ?bm], w2) = ([Done (Inr pair1), t_bind ?chk ?bm], w3)"
    using marks_phase [of 0 "[?am jti, t_bind ?chk ?bm]" jc st rd clk1 ja1 jr1 payload jti fp1 w2 "Inr pair1" w3] ma by auto
  obtain n5 where 5: "run_schedule (replicate n5 1) ([Done (Inr pair1), t_bind ?chk ?bm], w3) =
      ([Done (Inr pair1), t_raise (ValueError ''refresh token reuse detected'')], w4)"
    using run_prefix [of 1 "[Done (Inr pair1), t_bind ?chk ?bm]" ?chk ?bm w3] c4 by auto
  from 1 2 3 4 5 have run: "run_schedule (replicate n1 0 @ replicate n2 1 @ replicate n3 0 @ replicate n4 0 @ replicate n5 1)
      ([?A, ?B], w) = ([Done (Inr pair1), Done (Inl (ValueError ''refresh token reuse detected''))], w4)"
    by (simp only: run_schedule_append t_raise_def)
  have refused: "\<exists>e. fst (rotate_refresh_token jc st rd clk ja jr token' fp s) = Inl e"
    if "decodes_as jc token' payload'" "pyget payload' ''fid'' = pyget payload ''fid''" "marks_grow view w4 s"
    for token' payload' clk ja jr fp s
  proof -
    have "dead_token (view w4) payload'" using v4 fam that(2) by (simp add: dead_token_def)
    from dead_token_ensures [OF rd jc that(1) dead_token_grows [OF this that(3)]]
    have "\<exists>e. fst (run_task (rotate_task jc st rd clk ja jr token' fp) s) = Inl e"
      by (rule marks.ensures_run)
    then show ?thesis by (simp add: run_rotate)
  qed
  show ?thesis using run refused by (intro exI conjI) blast+
qed

subsection \<open>Witnesses\<close>

abbreviation demo_rotate :: "datetime \<Rightarrow> string \<Rightarrow> string \<Rightarrow> ((rkey \<times> string) list, token_pair) task" where
  "demo_rotate t ja jr \<equiv> rotate_task demo_crypto demo_token_settings string_redis (\<lambda>_. t) ja jr ''tok'' ''dev''"

lemma demo_decodes: "jc_decode demo_crypto ''tok'' w = (Inr (Some demo_claims), w)"
  by (simp add: demo_crypto_def)

lemma demo_rotates:
  "\<exists>pair w1. rotate_refresh_token demo_crypto demo_token_settings string_redis (\<lambda>_. t) ja jr ''tok'' ''dev'' [] = (Inr pair, w1)"
  by (simp add: rotate_refresh_token_def verify_token_def decode_payload_def is_token_revoked_def rotate_checked_def
      revoke_token_def demo_crypto_def demo_claims_def string_redis_def key_def globally_revoked_def make_pair_def
      create_access_token_def create_refresh_token_def sum_bind_def io_simps Let_def used_key_def family_key_def revoked_key_def)

lemma demo_decodes_as: "decodes_as demo_crypto ''tok'' demo_claims"
  by (simp add: decodes_as_def demo_crypto_def)

theorem concurrent_rotations_both_succeed_witness:
  "\<exists>sch w' p q. run_schedule sch ([demo_rotate 0 ''a'' ''r'', demo_rotate 1 ''b'' ''s''], []) = ([Done (Inr p), Done (Inr q)], w')"
proof -
  obtain p wa q wb where
    "rotate_refresh_token demo_crypto demo_token_settings string_redis (\<lambda>_. 0) ''a'' ''r'' ''tok'' ''dev'' [] = (Inr p, wa)"
    "rotate_refresh_token demo_crypto demo_token_settings string_redis (\<lambda>_. 1) ''b'' ''s'' ''tok'' ''dev'' [] = (Inr q, wb)"
    using demo_rotates by blast
  from concurrent_rotations_both_succeed [OF string_redis_strings demo_decode_pure this demo_decodes demo_decodes]
  show ?thesis by blast
qed

theorem racing_rotation_revokes_family_witness:
  "\<exists>sch w' p. run_schedule sch ([demo_rotate 0 ''a'' ''r'', demo_rotate 1 ''b'' ''s''], []) =
     ([Done (Inr p), Done (Inl (ValueError ''refresh token reuse detected''))], w') \<and>
   (\<exists>e. fst (rotate_refresh_token demo_crypto demo_token_settings string_redis (\<lambda>_. 2) ''c'' ''t'' ''tok'' ''dev'' w') = Inl e)"
proof -
  obtain p wa q wb where ok:
    "rotate_refresh_token demo_crypto demo_token_settings string_redis (\<lambda>_. 0) ''a'' ''r'' ''tok'' ''dev'' [] = (Inr p, wa)"
    "rotate_refresh_token demo_crypto demo_token_settings string_redis (\<lambda>_. 1) ''b'' ''s'' ''tok'' ''dev'' [] = (Inr q, wb)"
    using demo_rotates by blast
  have ttl: "1 \<le> ts_refresh_ttl_days demo_token_settings" by (simp add: demo_token_settings_def)
  have fam: "truthy (pyget demo_claims ''fid'')" by (simp add: demo_claims_def)
  obtain sch w' where run: "run_schedule sch ([demo_rotate 0 ''a'' ''r'', demo_rotate 1 ''b'' ''s''], []) =
      ([Done (Inr p), Done (Inl (ValueError ''refresh token reuse detected''))], w')"
    and after: "\<forall>token' payload'. decodes_as demo_crypto token' payload' \<and> pyget payload' ''fid'' = pyget demo_claims ''fid'' \<longrightarrow>
      (\<forall>clk ja jr fp s. marks_grow map_of w' s \<longrightarrow>
        (\<exists>e. fst (rotate_refresh_token demo_crypto demo_token_settings string_redis clk ja jr token' fp s) = Inl e))"
    using racing_rotation_revokes_family [OF string_redis_strings demo_decode_pure ttl ok demo_decodes demo_decodes fam]
    by (elim exE conjE) (rule that)
  have "\<exists>e. fst (rotate_refresh_token demo_crypto demo_token_settings string_redis (\<lambda>_. 2) ''c'' ''t'' ''tok'' ''dev'' w') = Inl e"
    using after [rule_format, of "''tok''" demo_claims w' "\<lambda>_. 2" "''c''" "''t''" "''dev''"] demo_decodes_as marks.refl [of map_of w'] by simp
  then obtain e where "fst (rotate_refresh_token demo_crypto demo_token_settings string_redis (\<lambda>_. 2) ''c'' ''t'' ''tok'' ''dev'' w') = Inl e" ..
  with run show ?thesis by (intro exI conjI)
qed

theorem dead_tokens_refused_always_witness:
  "\<exists>us w' e. sched_step\<^sup>*\<^sup>* ([demo_rotate 0 ''a'' ''r'', demo_rotate 1 ''b'' ''s''], [(revoked_key (PStr ''j1''), ''1'')]) (us, w') \<and>
     us ! 1 = Done (Inl e)"
proof -
  let ?reqs = "[(\<lambda>_. 0, ''a'', ''r'', ''tok'', ''dev''), (\<lambda>_. 1, ''b'', ''s'', ''tok'', ''dev'')] :: rotate_request list"
  let ?w = "[(revoked_key (PStr ''j1''), ''1'')]"
  let ?ts = "map (request_task demo_crypto demo_token_settings string_redis) ?reqs"
  obtain n where "run_schedule (replicate n 1) (?ts, ?w) = (?ts[1 := Done (fst (run_task (?ts ! 1) ?w))], snd (run_task (?ts ! 1) ?w))"
    using run_alone [of 1 ?ts ?w] by auto
  then have steps: "sched_step\<^sup>*\<^sup>* (?ts, ?w) (?ts[1 := Done (fst (run_task (?ts ! 1) ?w))], snd (run_task (?ts ! 1) ?w))"
    by (metis run_schedule_steps)
  have ttl: "1 \<le> ts_refresh_ttl_days demo_token_settings" by (simp add: demo_token_settings_def)
  have dead: "dead_token (map_of ?w) demo_claims" by (simp add: dead_token_def demo_claims_def)
  have "\<exists>e. fst (run_task (?ts ! 1) ?w) = Inl e"
    by (rule dead_tokens_refused_always [OF string_redis_strings demo_decode_pure ttl demo_decodes_as dead _ _ steps, where i = 1 and clk = "\<lambda>_. 1" and
        ja = "''b''" and jr = "''s''" and fp = "''dev''"]) simp_all
  with steps show ?thesis by (auto simp: request_task_def)
qed

end
