(* ===== verification/Execution_Races.thy ===== *)
theory Execution_Races
  imports Execution_Engine Tasks
begin

text \<open>
  Concurrent calls of the engine (\<^verbatim>\<open>trading_service/src/execution/engine.py\<close>). Only \<open>submit_order\<close>
  holds the engine's lock; \<open>update_order_status\<close> and \<open>cancel_order\<close> do not. \<open>update_task\<close> and
  \<open>cancel_task\<close> are these methods cut at their awaits: reading the order, writing it back, the
  connector's answer and every callback are steps between which another coroutine can act. \<open>submit_task\<close> is
  \<open>submit_order\<close> in the same way, taking and releasing the lock, with callbacks that are coroutines of their own.
\<close>

subsection \<open>Updates and cancellations as tasks\<close>

primrec t_each :: "('a \<Rightarrow> ('s, unit) task) \<Rightarrow> 'a list \<Rightarrow> ('s, unit) task" where
  "t_each f [] = t_return ()"
| "t_each f (x # xs) = t_bind (f x) (\<lambda>_. t_each f xs)"

definition emit_task :: "'s exec_deps \<Rightarrow> callbacks \<Rightarrow> string \<Rightarrow> pydict \<Rightarrow> ('s, unit) task" where
  "emit_task dp cbs ev payload =
     t_each (\<lambda>cb. await (io_bind (io_try (cb_call dp cb payload)) (\<lambda>_. io_return ()))) (dict_get cbs ev [])"

definition get_order_task :: "'s exec_deps \<Rightarrow> datetime \<Rightarrow> pyval \<Rightarrow> ('s, order option) task" where
  "get_order_task dp now order_id = t_bind (await (rp_get_order dp order_id)) (\<lambda>data. case data of
     None \<Rightarrow> t_return None
   | Some d \<Rightarrow> if d = [] then t_return None else t_bind (t_lift (hydrate now d)) (\<lambda>o'. t_return (Some o')))"

definition write_order_task :: "'s exec_deps \<Rightarrow> callbacks \<Rightarrow> datetime \<Rightarrow> pyval \<Rightarrow> order_status \<Rightarrow> order_attr list \<Rightarrow> order option
    \<Rightarrow> ('s, unit) task" where
  "write_order_task dp cbs now order_id status kwargs r = (case r of
       None \<Rightarrow> t_raise (ValueError ''order not found'')
     | Some o' \<Rightarrow>
        if status \<notin> set (valid_transitions (o_status o')) \<and> status \<noteq> o_status o'
        then t_raise (ValueError ''invalid status transition'')
        else t_bind (t_lift (to_dict (apply_update status kwargs now o'))) (\<lambda>d.
          t_bind (await (rp_update_order dp order_id d)) (\<lambda>_.
          t_bind (emit_task dp cbs ''order_updated'' d) (\<lambda>_.
          if status = REJECTED then emit_task dp cbs ''order_rejected'' d else t_return ()))))"

definition update_task :: "'s exec_deps \<Rightarrow> callbacks \<Rightarrow> datetime \<Rightarrow> pyval \<Rightarrow> order_status \<Rightarrow> order_attr list \<Rightarrow> ('s, unit) task" where
  "update_task dp cbs now order_id status kwargs =
     t_bind (get_order_task dp now order_id) (write_order_task dp cbs now order_id status kwargs)"

definition cancel_task :: "'s exec_deps \<Rightarrow> callbacks \<Rightarrow> (nat \<Rightarrow> datetime) \<Rightarrow> pyval \<Rightarrow> ('s, bool) task" where
  "cancel_task dp cbs clk order_id =
     t_bind (get_order_task dp (clk 0) order_id) (\<lambda>r. case r of
       None \<Rightarrow> t_return False
     | Some o' \<Rightarrow>
        if o_status o' \<notin> {PENDING, VALIDATED, SUBMITTED, PARTIAL} then t_return False
        else t_bind (await (cn_cancel_order dp order_id)) (\<lambda>ok.
          if ok then
            t_bind (update_task dp cbs (clk 1) order_id CANCELED []) (\<lambda>_.
            t_bind (t_lift (to_dict o')) (\<lambda>d.
            t_bind (emit_task dp cbs ''order_canceled'' d) (\<lambda>_. t_return ok)))
          else t_return ok))"

lemma run_each [task_runs]: "run_task (t_each f xs) = io_each (\<lambda>x. run_task (f x)) xs"
  by (induction xs) (simp_all add: task_runs)

lemma run_emit [task_runs]: "run_task (emit_task dp cbs ev d) = emit dp cbs ev d"
  by (simp add: emit_task_def emit_def task_runs)

lemma run_get_order [task_runs]: "run_task (get_order_task dp now i) = get_order dp now i"
  unfolding get_order_task_def get_order_def by (simp only: task_runs cong: if_cong option.case_cong)

lemma run_update [task_runs]: "run_task (update_task dp cbs now i st kwargs) = update_order_status dp cbs now i st kwargs"
  unfolding update_task_def write_order_task_def update_order_status_def io_when_def
  by (simp only: task_runs cong: if_cong option.case_cong)

text \<open>
  Cut at their awaits, cancellations and updates that run alone are the methods of the sequential
  model, result and effects, for every repository, connector and callback.
\<close>

theorem engine_tasks_alone:
  "run_task (update_task dp cbs now i st kwargs) = update_order_status dp cbs now i st kwargs \<and>
   run_task (cancel_task dp cbs clk i) = cancel_order dp cbs clk i"
  unfolding cancel_task_def cancel_order_def by (simp only: task_runs simp_thms cong: if_cong option.case_cong)

subsection \<open>A lost update\<close>

context order_store
begin

lemma write_order_run:
  assumes "order_stamped o'" and "st \<in> set (valid_transitions (o_status o')) \<or> st = o_status o'"
  shows "\<exists>s'. run_task (write_order_task dp cbs now i st kwargs (Some o')) s = (Inr (), s') \<and>
    view s' = (view s)(i \<mapsto> dict_of (apply_update st kwargs now o'))"
proof -
  let ?o = "apply_update st kwargs now o'"
  have st: "to_dict ?o = Inr (dict_of ?o)"
    by (rule to_dict_stamped) (use assms(1) apply_update_stamped in blast)
  obtain s1 where up: "rp_update_order dp i (dict_of ?o) s = (Inr (), s1)" and v1: "view s1 = (view s)(i \<mapsto> dict_of ?o)"
    using update_law by blast
  obtain s2 where e2: "emit dp cbs ''order_updated'' (dict_of ?o) s1 = (Inr (), s2)" and v2: "view s2 = view s1"
    using emit_silent by blast
  obtain s3 where e3: "emit dp cbs ''order_rejected'' (dict_of ?o) s2 = (Inr (), s3)" and v3: "view s3 = view s2"
    using emit_silent by blast
  have "run_task (write_order_task dp cbs now i st kwargs (Some o')) s = (Inr (), if st = REJECTED then s3 else s2)"
    using assms(2) up e2 e3 by (auto simp: write_order_task_def task_runs st io_lift_def io_return_def)
  with v1 v2 v3 show ?thesis by simp
qed

lemma both_updates:
  assumes "view s i = Some (dict_of o')" and "order_stamped o'"
    and "st1 \<in> set (valid_transitions (o_status o')) \<or> st1 = o_status o'"
    and "st2 \<in> set (valid_transitions (o_status o')) \<or> st2 = o_status o'"
  shows "\<exists>sch s'. run_schedule sch ([update_task dp cbs now1 i st1 kwargs1, update_task dp cbs now2 i st2 kwargs2], s) =
      ([Done (Inr ()), Done (Inr ())], s') \<and> view s' = (view s)(i \<mapsto> dict_of (apply_update st2 kwargs2 now2 o'))"
proof -
  let ?A = "update_task dp cbs now1 i st1 kwargs1" and ?B = "update_task dp cbs now2 i st2 kwargs2"
  let ?wA = "write_order_task dp cbs now1 i st1 kwargs1 (Some o')" and ?wB = "write_order_task dp cbs now2 i st2 kwargs2 (Some o')"
  have read: "run_task (get_order_task dp now i) s = (Inr (Some o'), s)" for now
    using get_order_stored [OF assms(1,2)] by (simp add: run_get_order)
  obtain s1 where A: "run_task ?wA s = (Inr (), s1)" and v1: "view s1 = (view s)(i \<mapsto> dict_of (apply_update st1 kwargs1 now1 o'))"
    using write_order_run [OF assms(2,3)] by blast
  obtain s2 where B: "run_task ?wB s1 = (Inr (), s2)" and v2: "view s2 = (view s1)(i \<mapsto> dict_of (apply_update st2 kwargs2 now2 o'))"
    using write_order_run [OF assms(2,4)] by blast
  obtain n1 where 1: "run_schedule (replicate n1 0) ([?A, ?B], s) = ([?wA, ?B], s)"
    using run_prefix [of 0 "[?A, ?B]" "get_order_task dp now1 i" _ s] read by (auto simp: update_task_def)
  obtain n2 where 2: "run_schedule (replicate n2 1) ([?wA, ?B], s) = ([?wA, ?wB], s)"
    using run_prefix [of 1 "[?wA, ?B]" "get_order_task dp now2 i" _ s] read by (auto simp: update_task_def)
  obtain n3 where 3: "run_schedule (replicate n3 0) ([?wA, ?wB], s) = ([Done (Inr ()), ?wB], s1)"
    using run_alone [of 0 "[?wA, ?wB]" s] A by auto
  obtain n4 where 4: "run_schedule (replicate n4 1) ([Done (Inr ()), ?wB], s1) = ([Done (Inr ()), Done (Inr ())], s2)"
    using run_alone [of 1 "[Done (Inr ()), ?wB]" s1] B by auto
  from 1 2 3 4 have "run_schedule (replicate n1 0 @ replicate n2 1 @ replicate n3 0 @ replicate n4 1) ([?A, ?B], s) =
      ([Done (Inr ()), Done (Inr ())], s2)"
    by (simp only: run_schedule_append)
  moreover have "view s2 = (view s)(i \<mapsto> dict_of (apply_update st2 kwargs2 now2 o'))" using v1 v2 by simp
  ultimately show ?thesis by blast
qed

end

text \<open>
  C9. Status updates are not atomic: on a repository that honours the interface, two updates that the
  table allows for the stored order can be interleaved so that both succeed and the order ends as
  if the first had never been made, its status and attributes lost. So a canceled order can replace a filled
  one, which the transition table forbids.
\<close>

theorem concurrent_update_lost:
  assumes "order_store dp view" and "view s i = Some (dict_of o')" and "order_stamped o'"
    and "st1 \<in> set (valid_transitions (o_status o'))" and "st2 \<in> set (valid_transitions (o_status o'))"
  shows "\<exists>sch s'. run_schedule sch ([update_task dp cbs now1 i st1 kwargs1, update_task dp cbs now2 i st2 kwargs2], s) =
      ([Done (Inr ()), Done (Inr ())], s') \<and>
    view s' = (view s)(i \<mapsto> dict_of (apply_update st2 kwargs2 now2 o'))"
  using order_store.both_updates [OF assms(1-3)] assms(4,5) by blast

subsection \<open>Every interleaving\<close>

text \<open>
  What updates and cancellations of one order guarantee each other: every other order is left alone,
  and the stored order remains an order, of which every dictionary entry is the original one or one that
  some call writes. \<open>update_entries\<close> are the entries that an update writes.
\<close>

definition update_entries :: "order_status \<Rightarrow> order_attr list \<Rightarrow> datetime \<Rightarrow> (string \<times> pyval) list" where
  "update_entries st kwargs now = (''status'', PStr (status_value st)) # (''updated_at'', PIso now) # List.map_filter attr_entry kwargs"

definition entries_from :: "(string \<times> pyval) set \<Rightarrow> order \<Rightarrow> order \<Rightarrow> bool" where
  "entries_from E o1 o2 = (\<forall>k. pyget (dict_of o2) k = pyget (dict_of o1) k \<or> (k, pyget (dict_of o2) k) \<in> E)"

definition stored_as :: "('s \<Rightarrow> pyval \<Rightarrow> pydict option) \<Rightarrow> pyval \<Rightarrow> (string \<times> pyval) set \<Rightarrow> order \<Rightarrow> 's \<Rightarrow> bool" where
  "stored_as view i E o' s = (\<exists>o2. view s i = Some (dict_of o2) \<and> order_stamped o2 \<and> entries_from E o' o2)"

definition order_kept :: "('s \<Rightarrow> pyval \<Rightarrow> pydict option) \<Rightarrow> pyval \<Rightarrow> (string \<times> pyval) set \<Rightarrow> order \<Rightarrow> 's \<Rightarrow> 's \<Rightarrow> bool" where
  "order_kept view i E o' s s' = ((\<forall>k. k \<noteq> i \<longrightarrow> view s' k = view s k) \<and> (stored_as view i E o' s \<longrightarrow> stored_as view i E o' s'))"

interpretation kept: interference "order_kept view i E o'" for view i E o'
  by unfold_locales (auto simp: order_kept_def)

lemma entries_from_refl [simp]: "entries_from E o1 o1"
  by (simp add: entries_from_def)

lemma entries_from_trans: "entries_from E o1 o2 \<Longrightarrow> entries_from E o2 o3 \<Longrightarrow> entries_from E o1 o3"
  unfolding entries_from_def by metis

lemma pyget_set_entry: "pyget (set_entry e d) k = (case e of Some (n, v) \<Rightarrow> if n = k then v else pyget d k | None \<Rightarrow> pyget d k)"
  by (simp add: set_entry_def dict_get_def update_conv split: option.split prod.split)

lemma pyget_set_entries: "pyget (fold (\<lambda>a. set_entry (attr_entry a)) kwargs d) k = pyget d k \<or>
    (\<exists>a\<in>set kwargs. attr_entry a = Some (k, pyget (fold (\<lambda>a. set_entry (attr_entry a)) kwargs d) k))"
proof (induction kwargs arbitrary: d)
  case (Cons a kwargs)
  have "pyget (set_entry (attr_entry a) d) k = pyget d k \<or> attr_entry a = Some (k, pyget (set_entry (attr_entry a) d) k)"
    by (auto simp: pyget_set_entry split: option.split prod.split)
  with Cons.IH [of "set_entry (attr_entry a) d"] show ?case by auto
qed simp

lemma in_map_filter: "x \<in> set xs \<Longrightarrow> f x = Some y \<Longrightarrow> y \<in> set (List.map_filter f xs)"
  by (induction xs) (auto simp: map_filter_simps split: option.split)

text \<open>An update writes its own entries and no others.\<close>

lemma update_entries_from:
  assumes "order_stamped o1" and "set (update_entries st kwargs now) \<subseteq> E"
  shows "entries_from E o1 (apply_update st kwargs now o1)"
  unfolding entries_from_def
proof
  fix k
  let ?d = "AList.update ''status'' (PStr (status_value st)) (dict_of o1)"
  have E: "(''status'', PStr (status_value st)) \<in> E" "(''updated_at'', PIso now) \<in> E"
    "a \<in> set kwargs \<Longrightarrow> attr_entry a = Some e \<Longrightarrow> e \<in> E" for a e
    using assms(2) in_map_filter [of a kwargs attr_entry e] by (auto simp: update_entries_def)
  have "pyget ?d k = pyget (dict_of o1) k \<or> k = ''status'' \<and> pyget ?d k = PStr (status_value st)"
    by (simp add: dict_get_def update_conv)
  with pyget_set_entries [of kwargs ?d k] E
  show "pyget (dict_of (apply_update st kwargs now o1)) k = pyget (dict_of o1) k \<or>
      (k, pyget (dict_of (apply_update st kwargs now o1)) k) \<in> E"
    unfolding dict_of_update [OF assms(1)] by (auto simp: dict_get_def update_conv)
qed

lemma stored_as_kept: "stored_as view i E o' s \<Longrightarrow> order_kept view i E o' s s' \<Longrightarrow> stored_as view i E o' s'"
  by (simp add: order_kept_def)

lemma kept_same: "view s' = view s \<Longrightarrow> order_kept view i E o' s s'"
  by (simp add: order_kept_def stored_as_def)

lemma kept_write:
  assumes "order_stamped o2" and "entries_from E o' o2" and "view s' = (view s)(i \<mapsto> dict_of o2)"
  shows "order_kept view i E o' s s'"
  using assms by (auto simp: order_kept_def stored_as_def)

lemma guarantees_each [guar]: "(\<And>x. guarantees R (f x)) \<Longrightarrow> guarantees R (t_each f xs)"
  by (induction xs) (auto intro: guar)

context order_store
begin

lemma emit_guarantees: "guarantees (order_kept view i E o') (emit_task dp cbs ev d)"
proof -
  have "view (snd (io_bind (io_try (cb_call dp cb d)) (\<lambda>_. io_return ()) s)) = view s" for cb s
    using callback_law [of cb d s] by (cases "cb_call dp cb d s") (simp add: io_simps)
  then show ?thesis unfolding emit_task_def by (intro guar kept_same)
qed

lemma read_keeps: "keeps_within (order_kept view i E o') (get_order_task dp now i) s"
proof -
  have "guarantees (order_kept view i E o') (get_order_task dp now i)"
    unfolding get_order_task_def by (intro guar) (auto simp: get_law kept.refl intro: guar split: option.split)
  then show ?thesis by (rule kept.guarantees_keeps_within)
qed

lemma read_ensures:
  assumes "stored_as view i E o' s"
  shows "ensures (order_kept view i E o') (\<lambda>r. \<exists>o2. r = Inr (Some o2) \<and> order_stamped o2 \<and> entries_from E o' o2)
    (get_order_task dp now i) s"
proof -
  have "ensures (order_kept view i E o') (\<lambda>r. \<exists>o2. r = Inr (Some o2) \<and> order_stamped o2 \<and> entries_from E o' o2)
      (case fst (rp_get_order dp i s') of Inl e \<Rightarrow> t_raise e | Inr data \<Rightarrow> (case data of None \<Rightarrow> t_return None
         | Some d \<Rightarrow> if d = [] then t_return None else t_bind (t_lift (hydrate now d)) (\<lambda>o'. t_return (Some o')))) s''"
    if "order_kept view i E o' s s'" for s' s''
  proof -
    have "stored_as view i E o' s'" using stored_as_kept [OF assms that] .
    then obtain o2 where o2: "view s' i = Some (dict_of o2)" "order_stamped o2" "entries_from E o' o2"
      by (auto simp: stored_as_def)
    moreover have "dict_of o2 \<noteq> []" using dict_of_entries [OF o2(2)] by (auto simp: order_entries_def)
    ultimately show ?thesis by (simp add: get_law hydrate_dict_of t_lift_def t_return_def)
  qed
  then show ?thesis by (simp add: get_order_task_def t_bind_await)
qed

lemma write_keeps:
  assumes "order_stamped o2" and "entries_from E o' o2" and "set (update_entries st kwargs now) \<subseteq> E"
  shows "keeps_within (order_kept view i E o') (write_order_task dp cbs now i st kwargs (Some o2)) s"
proof -
  let ?o = "apply_update st kwargs now o2"
  have stamped: "order_stamped ?o" by (rule apply_update_stamped [OF assms(1)])
  have from_o': "entries_from E o' ?o" by (rule entries_from_trans [OF assms(2) update_entries_from [OF assms(1,3)]])
  have st: "to_dict ?o = Inr (dict_of ?o)" by (rule to_dict_stamped [OF stamped])
  have step: "order_kept view i E o' s' (snd (rp_update_order dp i (dict_of ?o) s'))" for s'
  proof -
    obtain s1 where "rp_update_order dp i (dict_of ?o) s' = (Inr (), s1)" "view s1 = (view s')(i \<mapsto> dict_of ?o)"
      using update_law by blast
    then show ?thesis using kept_write [OF stamped from_o'] by simp
  qed
  have rest: "keeps_within (order_kept view i E o') (t_bind (emit_task dp cbs ''order_updated'' (dict_of ?o)) (\<lambda>_.
      if st = REJECTED then emit_task dp cbs ''order_rejected'' (dict_of ?o) else t_return ())) s'" for s'
    by (intro kept.guarantees_keeps_within guar emit_guarantees)
  show ?thesis
    using step rest by (auto simp: write_order_task_def st t_bind_await t_lift_def t_raise_def split: sum.split)
qed

lemma update_keeps:
  assumes "stored_as view i E o' s" and "set (update_entries st kwargs now) \<subseteq> E"
  shows "keeps_within (order_kept view i E o') (update_task dp cbs now i st kwargs) s"
  unfolding update_task_def
  by (rule kept.keeps_within_bind [OF read_ensures [OF assms(1)] read_keeps]) (use assms(2) in \<open>auto intro: write_keeps\<close>)

lemma cancel_keeps:
  assumes stored: "stored_as view i E o' s" and cancel: "\<And>k s. view (snd (cn_cancel_order dp k s)) = view s"
    and E: "set (update_entries CANCELED [] (clk 1)) \<subseteq> E"
  shows "keeps_within (order_kept view i E o') (cancel_task dp cbs clk i) s"
  unfolding cancel_task_def
proof (rule kept.keeps_within_bind [OF read_ensures [OF stored] read_keeps])
  fix r s1
  assume "\<exists>o2. Inr r = Inr (Some o2) \<and> order_stamped o2 \<and> entries_from E o' o2" and k1: "order_kept view i E o' s s1"
  then obtain o2 where r: "r = Some o2" by blast
  let ?rest = "\<lambda>_. t_bind (t_lift (to_dict o2)) (\<lambda>d. t_bind (emit_task dp cbs ''order_canceled'' d) (\<lambda>_. t_return True))"
  have rest: "guarantees (order_kept view i E o') (?rest u)" for u
    by (intro guar emit_guarantees)
  have up: "keeps_within (order_kept view i E o') (t_bind (update_task dp cbs (clk 1) i CANCELED []) ?rest) s'"
    if "stored_as view i E o' s'" for s'
    by (rule kept.keeps_within_bind [OF kept.ensures_any update_keeps [OF that E]])
       (rule kept.guarantees_keeps_within [OF rest])
  have same: "order_kept view i E o' s' (snd (cn_cancel_order dp i s'))" for s' by (rule kept_same) (rule cancel)
  have "keeps_within (order_kept view i E o') (if ok then t_bind (update_task dp cbs (clk 1) i CANCELED []) ?rest else t_return ok)
      (snd (cn_cancel_order dp i s'))" if "order_kept view i E o' s1 s'" for ok s'
    using up stored_as_kept [OF stored kept.trans [OF k1 kept.trans [OF that same]]] by (simp add: t_return_def)
  then show "keeps_within (order_kept view i E o') (case r of None \<Rightarrow> t_return False
     | Some o' \<Rightarrow> if o_status o' \<notin> {PENDING, VALIDATED, SUBMITTED, PARTIAL} then t_return False
        else t_bind (await (cn_cancel_order dp i)) (\<lambda>ok.
          if ok then t_bind (update_task dp cbs (clk 1) i CANCELED []) (\<lambda>_.
            t_bind (t_lift (to_dict o')) (\<lambda>d. t_bind (emit_task dp cbs ''order_canceled'' d) (\<lambda>_. t_return ok)))
          else t_return ok)) s1"
    using same by (auto simp: r t_bind_await t_return_def t_raise_def split: sum.split cong: if_cong)
qed

end

text \<open>The calls on one order that run beside each other; an update's answer is replaced by True.\<close>

datatype engine_call = UpdateCall datetime order_status "order_attr list" | CancelCall "nat \<Rightarrow> datetime"

definition call_task :: "'s exec_deps \<Rightarrow> callbacks \<Rightarrow> pyval \<Rightarrow> engine_call \<Rightarrow> ('s, bool) task" where
  "call_task dp cbs i c = (case c of
     UpdateCall now st kwargs \<Rightarrow> t_bind (update_task dp cbs now i st kwargs) (\<lambda>_. t_return True)
   | CancelCall clk \<Rightarrow> cancel_task dp cbs clk i)"

text \<open>The entries that a call may write.\<close>

definition call_entries :: "engine_call \<Rightarrow> (string \<times> pyval) list" where
  "call_entries c = (case c of UpdateCall now st kwargs \<Rightarrow> update_entries st kwargs now | CancelCall clk \<Rightarrow> update_entries CANCELED [] (clk 1))"

text \<open>
  C10. However updates and cancellations of a stored order are interleaved, it remains stored as a
  well-formed order, and every entry of its dictionary is the original one or one that one of the calls writes: the
  status, the time stamp or a keyword argument of this call. So an attribute that no call names is never lost or
  changed, and no race invents a value. No other order is touched.
\<close>

theorem interleaved_calls_keep_order:
  assumes store: "order_store dp view" and cancel: "\<And>k s. view (snd (cn_cancel_order dp k s)) = view s"
    and stored: "view s i = Some (dict_of o')" "order_stamped o'"
    and steps: "sched_step\<^sup>*\<^sup>* (map (call_task dp cbs i) cs, s) (us, s')"
  shows "(\<exists>o2. view s' i = Some (dict_of o2) \<and> order_stamped o2 \<and>
      (\<forall>k. pyget (dict_of o2) k = pyget (dict_of o') k \<or> (k, pyget (dict_of o2) k) \<in> set (concat (map call_entries cs)))) \<and>
    (\<forall>k. k \<noteq> i \<longrightarrow> view s' k = view s k)"
proof -
  let ?E = "set (concat (map call_entries cs))"
  have as: "stored_as view i ?E o' s" using stored by (auto simp: stored_as_def)
  have "keeps_within (order_kept view i ?E o') (call_task dp cbs i c) s" if c: "c \<in> set cs" for c
  proof (cases c)
    case (UpdateCall now st kwargs)
    with c have E: "set (update_entries st kwargs now) \<subseteq> ?E" by (force simp: call_entries_def)
    have "keeps_within (order_kept view i ?E o') (t_bind (update_task dp cbs now i st kwargs) (\<lambda>_. t_return True)) s"
      by (rule kept.keeps_within_bind [OF kept.ensures_any order_store.update_keeps [OF store as E]])
         (simp add: t_return_def)
    with UpdateCall show ?thesis by (simp add: call_task_def)
  next
    case (CancelCall clk)
    with c have "set (update_entries CANCELED [] (clk 1)) \<subseteq> ?E" by (force simp: call_entries_def)
    with CancelCall order_store.cancel_keeps [OF store as cancel] show ?thesis by (simp add: call_task_def)
  qed
  then have "list_all (\<lambda>t. keeps_within (order_kept view i ?E o') t s) (map (call_task dp cbs i) cs)"
    by (simp add: list_all_iff)
  with kept.pool_keeps [OF steps] have "order_kept view i ?E o' s s'" by simp
  with as have "stored_as view i ?E o' s'" "\<forall>k. k \<noteq> i \<longrightarrow> view s' k = view s k" by (simp_all add: order_kept_def)
  then show ?thesis by (simp add: stored_as_def entries_from_def)
qed

subsection \<open>Submissions under the engine's lock\<close>

text \<open>
  \<open>submit_order\<close> cut at its awaits, with its lock. A callback is a coroutine of its own here (\<open>cbt\<close>): it may do
  anything, including to wait for the lock.
\<close>

definition l_emit :: "(nat \<Rightarrow> pydict \<Rightarrow> ('s, unit) ltask) \<Rightarrow> callbacks \<Rightarrow> string \<Rightarrow> pydict \<Rightarrow> ('s, unit) ltask" where
  "l_emit cbt cbs ev payload = l_each (\<lambda>cb. l_caught (cbt cb payload)) (dict_get cbs ev [])"

definition l_update :: "'s exec_deps \<Rightarrow> (nat \<Rightarrow> pydict \<Rightarrow> ('s, unit) ltask) \<Rightarrow> callbacks \<Rightarrow> datetime \<Rightarrow> pyval \<Rightarrow> order_status
    \<Rightarrow> order_attr list \<Rightarrow> ('s, unit) ltask" where
  "l_update dp cbt cbs now order_id status kwargs =
     l_bind (unlocked (get_order_task dp now order_id)) (\<lambda>r. case r of
       None \<Rightarrow> l_raise (ValueError ''order not found'')
     | Some o' \<Rightarrow>
        if status \<notin> set (valid_transitions (o_status o')) \<and> status \<noteq> o_status o'
        then l_raise (ValueError ''invalid status transition'')
        else l_bind (l_lift (to_dict (apply_update status kwargs now o'))) (\<lambda>d.
          l_bind (l_await (rp_update_order dp order_id d)) (\<lambda>_.
          l_bind (l_emit cbt cbs ''order_updated'' d) (\<lambda>_.
          if status = REJECTED then l_emit cbt cbs ''order_rejected'' d else l_return ()))))"

definition record_task :: "'s exec_deps \<Rightarrow> (nat \<Rightarrow> pydict \<Rightarrow> ('s, unit) ltask) \<Rightarrow> callbacks \<Rightarrow> (nat \<Rightarrow> datetime) \<Rightarrow> order
    \<Rightarrow> pydict \<Rightarrow> pydict \<Rightarrow> ('s, order) ltask" where
  "record_task dp cbt cbs clk o' d resp =
     (if \<not> truthy (pyget resp ''ok'') then
        l_bind (l_update dp cbt cbs (clk 2) (o_id o') REJECTED
          [Rejection_reason (dict_get resp ''error'' (PStr ''broker rejected''))]) (\<lambda>_. l_return o')
      else (case dict_get resp ''result'' (PDict []) of
         PDict result \<Rightarrow>
           l_bind (l_lift (py_int (dict_get result ''retcode'' (PInt 0)))) (\<lambda>retcode.
           if retcode \<noteq> 0 then
             l_bind (l_update dp cbt cbs (clk 4) (o_id o') SUBMITTED [Opened_at (Some (clk 3))]) (\<lambda>_.
             if truthy (pyget result ''deal'') then
               l_bind (l_update dp cbt cbs (clk 6) (o_id o') FILLED
                 [Filled_quantity (o_quantity o'), Closed_at (Some (clk 5))]) (\<lambda>_.
               l_bind (l_emit cbt cbs ''order_filled'' d) (\<lambda>_. l_return o'))
             else l_return o')
           else l_return o')
       | _ \<Rightarrow> l_raise (AttributeError ''get'')))"

definition submit_body :: "'s exec_deps \<Rightarrow> (nat \<Rightarrow> pydict \<Rightarrow> ('s, unit) ltask) \<Rightarrow> callbacks \<Rightarrow> (nat \<Rightarrow> datetime) \<Rightarrow> order
    \<Rightarrow> ('s, order) ltask" where
  "submit_body dp cbt cbs clk o' =
     (if o_status o' \<noteq> PENDING then l_raise (ValueError ''Order must be pending'')
      else if o_quantity o' \<le> 0 then
        l_bind (l_update dp cbt cbs (clk 0) (o_id o') REJECTED
          [Rejection_reason (PStr ''quantity must be positive'')]) (\<lambda>_. l_return o')
      else
        l_bind (l_await (cn_get_account_info dp)) (\<lambda>account_info.
        l_bind (l_await (cn_get_positions dp (o_symbol o'))) (\<lambda>positions.
        l_bind (l_lift (to_dict o')) (\<lambda>d.
        l_bind (l_await (rk_pre_trade_check dp d account_info positions)) (\<lambda>approval.
        if \<not> approved approval then
          l_bind (l_update dp cbt cbs (clk 0) (o_id o') REJECTED
            [Rejection_reason (reason_value (reason approval))]) (\<lambda>_. l_return o')
        else
          l_bind (l_update dp cbt cbs (clk 1) (o_id o') VALIDATED []) (\<lambda>_.
          l_bind (l_await (rp_save_order dp d)) (\<lambda>_.
          l_bind (l_emit cbt cbs ''order_created'' d) (\<lambda>_.
          l_bind (l_await (cn_execute_order dp d)) (record_task dp cbt cbs clk o' d)))))))))"

definition submit_task :: "'s exec_deps \<Rightarrow> (nat \<Rightarrow> pydict \<Rightarrow> ('s, unit) ltask) \<Rightarrow> callbacks \<Rightarrow> (nat \<Rightarrow> datetime) \<Rightarrow> order
    \<Rightarrow> ('s, order) ltask" where
  "submit_task dp cbt cbs clk o' = with_lock (submit_body dp cbt cbs clk o')"

text \<open>Callbacks that leave the lock alone: each is then a computation, and a submission alone is \<open>submit_order\<close>.\<close>

abbreviation with_callbacks :: "'s exec_deps \<Rightarrow> (nat \<Rightarrow> pydict \<Rightarrow> ('s, unit) ltask) \<Rightarrow> 's exec_deps" where
  "with_callbacks dp cbt \<equiv> dp\<lparr>cb_call := \<lambda>cb d. run_ltask (cbt cb d)\<rparr>"

lemma run_l_emit [task_runs]: "run_ltask (l_emit cbt cbs ev d) = emit (with_callbacks dp cbt) cbs ev d"
  by (simp add: l_emit_def emit_def task_runs)

lemma callbacks_fields:
  "rp_save_order (with_callbacks dp cbt) = rp_save_order dp" "rp_update_order (with_callbacks dp cbt) = rp_update_order dp"
  "cn_get_account_info (with_callbacks dp cbt) = cn_get_account_info dp" "cn_get_positions (with_callbacks dp cbt) = cn_get_positions dp"
  "cn_execute_order (with_callbacks dp cbt) = cn_execute_order dp" "rk_pre_trade_check (with_callbacks dp cbt) = rk_pre_trade_check dp"
  by simp_all

lemma get_order_callbacks: "get_order (with_callbacks dp cbt) now i = get_order dp now i"
  by (simp add: get_order_def)

lemma run_l_update: "run_ltask (l_update dp cbt cbs now i st kwargs) = update_order_status (with_callbacks dp cbt) cbs now i st kwargs"
  unfolding l_update_def update_order_status_def io_when_def get_order_callbacks
  by (simp only: task_runs io_lift_simps run_l_emit [where dp = dp] callbacks_fields cong: if_cong option.case_cong)

lemma run_record: "run_ltask (record_task dp cbt cbs clk o' d resp) = record_response (with_callbacks dp cbt) cbs clk o' d resp"
  unfolding record_task_def record_response_def
  by (cases "dict_get resp ''result'' (PDict [])")
     (simp_all only: task_runs io_lift_simps run_l_emit [where dp = dp] run_l_update pyval.case cong: if_cong)

lemma run_submit: "run_ltask (submit_body dp cbt cbs clk o') = submit_order (with_callbacks dp cbt) cbs clk o'"
  unfolding submit_body_def submit_order_def
  by (simp only: task_runs io_lift_simps run_l_emit [where dp = dp] run_l_update run_record callbacks_fields cong: if_cong)

lemma submit_lock_free:
  assumes "\<And>cb d. lock_free (cbt cb d)"
  shows "lock_free (submit_body dp cbt cbs clk o')"
proof -
  have emit: "lock_free (l_emit cbt cbs ev d)" for ev d
    unfolding l_emit_def by (intro lock_frees assms)
  have up: "lock_free (l_update dp cbt cbs now i st kwargs)" for now i st kwargs
    unfolding l_update_def by (intro lock_frees) (auto intro!: lock_frees emit split: option.split sum.split)
  have "lock_free (record_task dp cbt cbs clk o' d resp)" for d resp
    unfolding record_task_def by (auto intro!: lock_frees emit up split: pyval.split sum.split)
  then show ?thesis unfolding submit_body_def by (intro lock_frees emit up)
qed

text \<open>The submissions made one after the other: what each answers, and the state at the end.\<close>

fun submit_in_turn :: "'s exec_deps \<Rightarrow> callbacks \<Rightarrow> ((nat \<Rightarrow> datetime) \<times> order) list \<Rightarrow> 's \<Rightarrow> (exn + order) list \<times> 's" where
  "submit_in_turn dp cbs [] s = ([], s)"
| "submit_in_turn dp cbs ((clk, o') # subs) s = (case submit_order dp cbs clk o' s of (r, s1) \<Rightarrow>
     case submit_in_turn dp cbs subs s1 of (rs, s2) \<Rightarrow> (r # rs, s2))"

abbreviation submissions :: "'s exec_deps \<Rightarrow> (nat \<Rightarrow> pydict \<Rightarrow> ('s, unit) ltask) \<Rightarrow> callbacks \<Rightarrow> ((nat \<Rightarrow> datetime) \<times> order) list
    \<Rightarrow> ('s, order) ltask list" where
  "submissions dp cbt cbs subs \<equiv> map (\<lambda>(clk, o'). submit_task dp cbt cbs clk o') subs"

abbreviation bodies :: "'s exec_deps \<Rightarrow> (nat \<Rightarrow> pydict \<Rightarrow> ('s, unit) ltask) \<Rightarrow> callbacks \<Rightarrow> ((nat \<Rightarrow> datetime) \<times> order) list
    \<Rightarrow> ('s, order) ltask list" where
  "bodies dp cbt cbs subs \<equiv> map (\<lambda>(clk, o'). submit_body dp cbt cbs clk o') subs"

lemma submissions_locked: "submissions dp cbt cbs subs = map with_lock (bodies dp cbt cbs subs)"
  by (auto simp: submit_task_def)

lemma in_turn_serial:
  assumes "\<forall>i\<in>set ord. i < length subs"
  shows "submit_in_turn (with_callbacks dp cbt) cbs (map ((!) subs) ord) s =
    (map snd (serial_results (bodies dp cbt cbs subs) ord s), serial_state (bodies dp cbt cbs subs) ord s)"
  using assms
proof (induction ord arbitrary: s)
  case (Cons i ord)
  then show ?case
    by (cases "subs ! i", cases "submit_order (with_callbacks dp cbt) cbs (fst (subs ! i)) (snd (subs ! i)) s") (simp add: run_submit)
qed simp

text \<open>
  C11. Submissions are atomic, by the lock that \<open>submit_order\<close> holds: however concurrent submissions interleave, with any
  collaborators and with callbacks that leave the lock alone, when all have returned the lock is free, every
  caller has the answer, and the state is the one, of making the same submissions one after the other in some
  order.
\<close>

theorem concurrent_submissions_serialised:
  assumes "\<And>cb d. lock_free (cbt cb d)"
    and "lock_step\<^sup>*\<^sup>* (map (\<lambda>(clk, o'). submit_task dp cbt cbs clk o') subs, False, s) (us, b, s')"
    and "\<forall>u\<in>set us. \<exists>r. u = LDone r"
  shows "\<not> b \<and> (\<exists>ord rs. distinct ord \<and> set ord = {..<length subs} \<and>
    submit_in_turn (dp\<lparr>cb_call := \<lambda>cb d. run_ltask (cbt cb d)\<rparr>) cbs (map ((!) subs) ord) s = (rs, s') \<and>
    map ((!) us) ord = map LDone rs)"
proof -
  let ?ts = "bodies dp cbt cbs subs"
  have free: "list_all lock_free ?ts" using submit_lock_free [OF assms(1)] by (auto simp: list_all_iff)
  have "\<not> b" and "\<exists>ord. distinct ord \<and> set ord = {..<length subs} \<and> s' = serial_state ?ts ord s \<and>
      (\<forall>i<length subs. \<exists>r. us ! i = LDone r \<and> map_of (serial_results ?ts ord s) i = Some r)"
    using lock_serial [OF assms(2) [unfolded submissions_locked] free assms(3)] by simp_all
  then obtain ord where ord: "distinct ord" "set ord = {..<length subs}" and s': "s' = serial_state ?ts ord s"
    and ans: "\<And>i. i < length subs \<Longrightarrow> \<exists>r. us ! i = LDone r \<and> map_of (serial_results ?ts ord s) i = Some r" by blast
  have "us ! i = LDone r" if "(i, r) \<in> set (serial_results ?ts ord s)" for i r
  proof -
    from that have "map_of (serial_results ?ts ord s) i = Some r" using ord(1) by simp
    moreover have "i \<in> set ord" using that serial_results_indices [of ?ts ord s] by (metis fst_conv image_eqI set_map)
    ultimately show ?thesis using ans [of i] ord(2) by auto
  qed
  then have "map ((!) us) (map fst (serial_results ?ts ord s)) = map LDone (map snd (serial_results ?ts ord s))"
    unfolding map_map by (intro map_cong) auto
  then have "map ((!) us) ord = map LDone (map snd (serial_results ?ts ord s))" by simp
  moreover have "submit_in_turn (with_callbacks dp cbt) cbs (map ((!) subs) ord) s = (map snd (serial_results ?ts ord s), s')"
    using in_turn_serial [of ord subs] ord(2) s' by simp
  ultimately show ?thesis using \<open>\<not> b\<close> ord by blast
qed

subsection \<open>A callback that submits\<close>

text \<open>A submission, up to the first callback of \<open>order_updated\<close>; the callback takes the lock first.\<close>

lemma update_reaches_callback:
  assumes "order_store dp view" and "view s i = Some (dict_of o')" and "order_stamped o'"
    and "st \<in> set (valid_transitions (o_status o'))"
    and "dict_get cbs ''order_updated'' [] = cb # others" and "\<And>d. \<exists>t. cbt cb d = Acquire t"
  shows "\<exists>t s'. l_moves (l_update dp cbt cbs now i st kwargs) s (Acquire t) s'"
proof -
  let ?d = "dict_of (apply_update st kwargs now o')"
  have d: "to_dict (apply_update st kwargs now o') = Inr ?d"
    by (rule to_dict_stamped [OF apply_update_stamped [OF assms(3)]])
  have get: "run_ltask (unlocked (get_order_task dp now i)) s = (Inr (Some o'), s)"
    using order_store.get_order_stored [OF assms(1-3)] by (simp add: task_runs)
  obtain s1 where up: "rp_update_order dp i ?d s = (Inr (), s1)" using order_store.update_law [OF assms(1)] by blast
  obtain t where "cbt cb ?d = Acquire t" using assms(6) by blast
  then have emit: "\<exists>t'. l_bind (l_emit cbt cbs ''order_updated'' ?d) k = Acquire t'" for k :: "unit \<Rightarrow> ('a, unit) ltask"
    by (simp add: l_emit_def assms(5))
  have writes: "\<exists>t. l_moves (l_bind (l_await (rp_update_order dp i ?d)) (\<lambda>_. l_bind (l_emit cbt cbs ''order_updated'' ?d) k)) s (Acquire t) s1"
    for k :: "unit \<Rightarrow> ('a, unit) ltask"
    using emit [of k] up by (metis l_moves_await stay)
  obtain t where "l_moves (l_bind (l_await (rp_update_order dp i ?d)) (\<lambda>_. l_bind (l_emit cbt cbs ''order_updated'' ?d)
      (\<lambda>_. if st = REJECTED then l_emit cbt cbs ''order_rejected'' ?d else l_return ()))) s (Acquire t) s1"
    using writes by blast
  then have "l_moves (l_update dp cbt cbs now i st kwargs) s (Acquire t) s1"
    unfolding l_update_def by (intro l_moves_after [OF lock_free_unlocked get]) (use assms(4) in \<open>simp add: d\<close>)
  then show ?thesis by blast
qed

text \<open>
  C12. The lock is not reentrant, and callbacks run while it is held: if the first callback of \<open>order_updated\<close> takes
  the lock, as one that awaits \<open>submit_order\<close> does, the submission of a pending order that
  the risk engine approves can stop the engine for ever. Whatever other submissions are under way, a state
  can be reached in which the lock is held and every submission waits for it: no step is possible any more and
  none has returned.
\<close>

theorem submitting_callback_deadlocks:
  assumes store: "order_store dp view"
    and stored: "view s (o_id o') = Some (dict_of o')" "order_stamped o'"
    and pending: "o_status o' = PENDING" "0 < o_quantity o'"
    and account: "cn_get_account_info dp s = (Inr ai, s1)" and positions: "cn_get_positions dp (o_symbol o') s1 = (Inr ps, s2)"
    and check: "rk_pre_trade_check dp (dict_of o') ai ps s2 = (Inr approval, s3)" "approved approval" "view s3 = view s"
    and callback: "dict_get cbs ''order_updated'' [] = cb # others" "\<And>d. \<exists>t. cbt cb d = Acquire t"
  shows "\<exists>us s'. lock_step\<^sup>*\<^sup>* (map (\<lambda>(clk, o'). submit_task dp cbt cbs clk o') ((clk, o') # subs), False, s) (us, True, s') \<and>
    (\<forall>u\<in>set us. \<exists>t. u = Acquire t) \<and> (\<nexists>c. lock_step (us, True, s') c)"
proof -
  let ?ts = "map (\<lambda>(clk, o'). submit_task dp cbt cbs clk o') ((clk, o') # subs)"
  have in3: "view s3 (o_id o') = Some (dict_of o')" using stored(1) check(3) by simp
  obtain t s4 where up: "l_moves (l_update dp cbt cbs (clk 1) (o_id o') VALIDATED []) s3 (Acquire t) s4"
    using update_reaches_callback [where cbs = cbs and cbt = cbt and now = "clk 1" and kwargs = "[]", OF store in3 stored(2) _ callback(1), of VALIDATED] pending(1) callback(2) by auto
  have "\<exists>u. l_moves (submit_body dp cbt cbs clk o') s (Acquire u) s4"
    unfolding submit_body_def
    using pending account positions check(1,2) l_moves_bind [OF up]
    by (auto simp: to_dict_stamped [OF stored(2)] intro!: exI l_moves_await)
  then obtain u where u: "l_moves (submit_body dp cbt cbs clk o') s (Acquire u) s4" by blast
  let ?us = "?ts[0 := releasing (Acquire u)]"
  have run: "lock_step\<^sup>*\<^sup>* (?ts, False, s) (?us, True, s4)"
    by (rule pool_enters [OF _ _ u]) (simp_all add: submit_task_def)
  have wait: "\<forall>u\<in>set ?us. \<exists>t. u = Acquire t" by (auto simp: submit_task_def with_lock_def)
  have "\<nexists>c. lock_step (?us, True, s4) c" using all_wait_stuck [OF wait] by simp
  with run wait show ?thesis by (intro exI [of _ ?us] exI [of _ s4] conjI)
qed

subsection \<open>Witnesses\<close>

abbreviation submitted_o :: order where
  "submitted_o \<equiv> demo_o\<lparr>o_status := SUBMITTED\<rparr>"

lemma submitted_o_stamped: "order_stamped submitted_o"
  by (simp add: order_stamped_def demo_o_def)

theorem concurrent_update_lost_witness:
  "\<exists>sch db o2. run_schedule sch
     ([update_task (test_deps noop_cb) callbacks_init 7 (PStr ''1'') FILLED [Filled_quantity 1],
       update_task (test_deps noop_cb) callbacks_init 8 (PStr ''1'') CANCELED []], [(PStr ''1'', dict_of submitted_o)]) =
     ([Done (Inr ()), Done (Inr ())], db) \<and> map_of db (PStr ''1'') = Some (dict_of o2) \<and> o_status o2 = CANCELED \<and> o_filled_quantity o2 = 0"
proof -
  obtain sch db where run: "run_schedule sch
     ([update_task (test_deps noop_cb) callbacks_init 7 (PStr ''1'') FILLED [Filled_quantity 1],
       update_task (test_deps noop_cb) callbacks_init 8 (PStr ''1'') CANCELED []], [(PStr ''1'', dict_of submitted_o)]) =
     ([Done (Inr ()), Done (Inr ())], db)"
    and db: "map_of db = (map_of [(PStr ''1'', dict_of submitted_o)])(PStr ''1'' \<mapsto> dict_of (apply_update CANCELED [] 8 submitted_o))"
    using concurrent_update_lost [OF test_repo.order_store_axioms, of "[(PStr ''1'', dict_of submitted_o)]" "PStr ''1''" submitted_o FILLED CANCELED
        callbacks_init 7 "[Filled_quantity 1]" 8 "[]"] submitted_o_stamped by (auto simp: demo_o_def)
  have "o_status (apply_update CANCELED [] 8 submitted_o) = CANCELED" "o_filled_quantity (apply_update CANCELED [] 8 submitted_o) = 0"
    by (simp_all add: apply_update_def demo_o_def)
  moreover have "map_of db (PStr ''1'') = Some (dict_of (apply_update CANCELED [] 8 submitted_o))" using db by simp
  ultimately show ?thesis using run by (intro exI conjI)
qed

theorem interleaved_calls_keep_order_witness:
  "\<exists>us db o2. sched_step\<^sup>*\<^sup>*
     (map (call_task (test_deps noop_cb) callbacks_init (PStr ''1'')) [UpdateCall 7 FILLED [Filled_quantity 1], CancelCall (\<lambda>_. 8)],
      [(PStr ''1'', dict_of submitted_o)]) (us, db) \<and>
     map_of db (PStr ''1'') = Some (dict_of o2) \<and> pyget (dict_of o2) ''quantity'' = PFloat 1 \<and>
     pyget (dict_of o2) ''filled_quantity'' \<in> {PFloat 0, PFloat 1}"
proof -
  let ?cs = "[UpdateCall 7 FILLED [Filled_quantity 1], CancelCall (\<lambda>_. 8)]"
  let ?p = "(map (call_task (test_deps noop_cb) callbacks_init (PStr ''1'')) ?cs, [(PStr ''1'', dict_of submitted_o)])"
  obtain us db where q: "run_schedule [0, 1, 0, 1, 0, 1] ?p = (us, db)" by fastforce
  have steps: "sched_step\<^sup>*\<^sup>* ?p (us, db)" using run_schedule_steps [of ?p "[0, 1, 0, 1, 0, 1]"] by (simp only: q)
  have cancel: "map_of (snd (cn_cancel_order (test_deps noop_cb) k s)) = map_of s" for k s
    by (simp add: test_deps_def io_return_def)
  from interleaved_calls_keep_order [OF test_repo.order_store_axioms cancel _ submitted_o_stamped steps]
  obtain o2 where o2: "map_of db (PStr ''1'') = Some (dict_of o2)"
    and entries: "\<And>k. pyget (dict_of o2) k = pyget (dict_of submitted_o) k \<or> (k, pyget (dict_of o2) k) \<in> set (concat (map call_entries ?cs))"
    by auto
  have old: "pyget (dict_of submitted_o) ''quantity'' = PFloat 1" "pyget (dict_of submitted_o) ''filled_quantity'' = PFloat 0"
    by (simp_all add: dict_of_def to_dict_def iso_entry_def order_entries_def demo_o_def)
  have "pyget (dict_of o2) ''quantity'' = PFloat 1" "pyget (dict_of o2) ''filled_quantity'' \<in> {PFloat 0, PFloat 1}"
    using entries [of "''quantity''"] entries [of "''filled_quantity''"] old
    by (auto simp: call_entries_def update_entries_def map_filter_def)
  then show ?thesis using steps o2 by blast
qed

text \<open>Two submissions for one order, on the repository of the engine's test.\<close>

abbreviation two_submissions :: "((nat \<Rightarrow> datetime) \<times> order) list" where
  "two_submissions \<equiv> [(\<lambda>_. 10, demo_o), (\<lambda>_. 11, demo_o)]"

abbreviation noop_task :: "nat \<Rightarrow> pydict \<Rightarrow> (test_db, unit) ltask" where
  "noop_task \<equiv> \<lambda>_ _. l_return ()"

theorem concurrent_submissions_serialised_witness:
  "\<exists>us db ord rs. lock_step\<^sup>*\<^sup>* (map (\<lambda>(clk, o'). submit_task (test_deps noop_cb) noop_task callbacks_init clk o') two_submissions, False,
      [(PStr ''1'', dict_of demo_o)]) (us, False, db) \<and> set ord = {0, 1} \<and> distinct ord \<and>
    submit_in_turn (with_callbacks (test_deps noop_cb) noop_task) callbacks_init (map ((!) two_submissions) ord) [(PStr ''1'', dict_of demo_o)] = (rs, db) \<and>
    map ((!) us) ord = map LDone rs"
proof -
  let ?dp = "test_deps noop_cb" and ?db = "[(PStr ''1'', dict_of demo_o)]"
  let ?t = "\<lambda>clk. submit_body ?dp noop_task callbacks_init clk demo_o" and ?c1 = "\<lambda>_. 10" and ?c2 = "\<lambda>_. 11"
  let ?ts = "map (\<lambda>(clk, o'). submit_task ?dp noop_task callbacks_init clk o') two_submissions"
  have free: "lock_free (noop_task cb d)" for cb d by simp
  obtain r1 db1 where 1: "run_ltask (?t ?c1) ?db = (r1, db1)" by fastforce
  obtain r2 db2 where 2: "run_ltask (?t ?c2) db1 = (r2, db2)" by fastforce
  have "lock_step\<^sup>*\<^sup>* (?ts, False, ?db) (?ts[0 := LDone r1], False, db1)"
    by (rule pool_runs [OF _ _ submit_lock_free [OF free] 1]) (simp_all add: submit_task_def)
  moreover have "lock_step\<^sup>*\<^sup>* (?ts[0 := LDone r1], False, db1) (?ts[0 := LDone r1, 1 := LDone r2], False, db2)"
    by (rule pool_runs [OF _ _ submit_lock_free [OF free] 2]) (simp_all add: submit_task_def)
  ultimately have run: "lock_step\<^sup>*\<^sup>* (?ts, False, ?db) ([LDone r1, LDone r2], False, db2)" by simp
  have "{..<length two_submissions} = {0, 1}" by auto
  with concurrent_submissions_serialised [OF free run] run show ?thesis by auto
qed

text \<open>A callback that submits a further order whenever an order is updated.\<close>

theorem submitting_callback_deadlocks_witness:
  "\<exists>us db. lock_step\<^sup>*\<^sup>* (map (\<lambda>(clk, o'). submit_task (test_deps noop_cb)
        (\<lambda>_ _. l_bind (submit_task (test_deps noop_cb) noop_task callbacks_init (\<lambda>_. 12) demo_o) (\<lambda>_. l_return ()))
        (on_event ''order_updated'' 0 callbacks_init) clk o') two_submissions, False, [(PStr ''1'', dict_of demo_o)]) (us, True, db) \<and>
    (\<nexists>c. lock_step (us, True, db) c)"
proof -
  let ?db = "[(PStr ''1'', dict_of demo_o)]"
  let ?cbt = "\<lambda>_ _. l_bind (submit_task (test_deps noop_cb) noop_task callbacks_init (\<lambda>_. 12) demo_o) (\<lambda>_. l_return ())"
  have cb: "\<exists>t. ?cbt cb d = Acquire t" for cb :: nat and d :: pydict by (simp add: submit_task_def with_lock_def)
  have reg: "dict_get (on_event ''order_updated'' 0 callbacks_init) ''order_updated'' [] = [0]"
    by (simp add: on_event_def callbacks_init_def dict_get_def)
  have "\<exists>us db. lock_step\<^sup>*\<^sup>* (map (\<lambda>(clk, o'). submit_task (test_deps noop_cb) ?cbt (on_event ''order_updated'' 0 callbacks_init) clk o')
        (((\<lambda>_. 10), demo_o) # [(\<lambda>_. 11, demo_o)]), False, ?db) (us, True, db) \<and>
      (\<forall>u\<in>set us. \<exists>t. u = Acquire t) \<and> (\<nexists>c. lock_step (us, True, db) c)"
    by (rule submitting_callback_deadlocks [OF test_repo.order_store_axioms _ demo_o_stamped _ _ _ _ _ _ _ reg cb,
          where approval = approve and ps = "[]" and ai = "[(''balance'', PInt 10000), (''equity'', PInt 10000)]" and
          ?s1.0 = ?db and ?s2.0 = ?db and ?s3.0 = ?db])
       (simp_all add: demo_o_def test_deps_def io_simps approve_def)
  then show ?thesis by blast
qed

end
