(* ===== verification/Settings.thy ===== *)
theory Settings
  imports Prelude "HOL-Library.Word" "HOL-Library.Sublist"
begin

text \<open>
  The settings (\<^verbatim>\<open>app/core/config.py\<close>): Python's bytes, \<open>base64.b64decode\<close> as the standard library
  decodes (characters outside the alphabet are skipped, padding ends the text), the field
  validators and the loading of the keys. What pydantic does before the validators (reading the
  environment, converting integers and enumerations) has already happened to the fields of
  \<open>settings_env\<close>. Parsing a PEM key and the file system are parameters.
\<close>

subsection \<open>Bytes and base64\<close>

type_synonym byte = "8 word"

definition byte_of :: "nat \<Rightarrow> byte" where
  "byte_of n = word_of_nat n"

text \<open>\<open>str.encode()\<close>: UTF-8, for the characters below 256 that the strings of the model have.\<close>

definition utf8_char :: "char \<Rightarrow> byte list" where
  "utf8_char c = (let n = code_of c in
     if n < 128 then [byte_of n] else [byte_of (192 + n div 64), byte_of (128 + n mod 64)])"

definition encode_str :: "string \<Rightarrow> byte list" where
  "encode_str s = concat (map utf8_char s)"

text \<open>\<open>bytes.decode()\<close>; a text with a character from 256 on is outside the model.\<close>

fun decode_str :: "byte list \<Rightarrow> exn + string" where
  "decode_str [] = Inr []"
| "decode_str (a # bs) =
     (if unat a < 128 then sum_bind (decode_str bs) (\<lambda>s. Inr (char_of (unat a) # s))
      else (case bs of [] \<Rightarrow> Inl (ValueError ''UnicodeDecodeError'')
        | b # bs' \<Rightarrow> if 194 \<le> unat a \<and> unat a \<le> 195 \<and> 128 \<le> unat b \<and> unat b < 192
            then sum_bind (decode_str bs') (\<lambda>s. Inr (char_of ((unat a - 192) * 64 + (unat b - 128)) # s))
            else Inl (ValueError ''UnicodeDecodeError'')))"

definition sextet_of :: "char \<Rightarrow> nat option" where
  "sextet_of c = (let n = code_of c in
     if 65 \<le> n \<and> n \<le> 90 then Some (n - 65)
     else if 97 \<le> n \<and> n \<le> 122 then Some (n - 71)
     else if 48 \<le> n \<and> n \<le> 57 then Some (n + 4)
     else if n = 43 then Some 62 else if n = 47 then Some 63 else None)"

text \<open>
  The scan of \<open>binascii.a2b_base64\<close>: the position in the quad, the padding characters seen, the
  bits left over.
\<close>

fun b64_scan :: "nat \<Rightarrow> nat \<Rightarrow> nat \<Rightarrow> string \<Rightarrow> exn + byte list" where
  "b64_scan q pads left [] = (if q = 0 then Inr [] else Inl (ValueError ''Incorrect padding''))"
| "b64_scan q pads left (c # cs) =
     (if c = CHR ''='' then
        (if 2 \<le> q then (if 4 \<le> q + Suc pads then Inr [] else b64_scan q (Suc pads) left cs)
         else b64_scan q pads left cs)
      else (case sextet_of c of
          None \<Rightarrow> b64_scan q pads left cs
        | Some v \<Rightarrow>
            if q = 0 then b64_scan 1 0 v cs
            else if q = 1 then sum_bind (b64_scan 2 0 (v mod 16) cs) (\<lambda>bs. Inr (byte_of (left * 4 + v div 16) # bs))
            else if q = 2 then sum_bind (b64_scan 3 0 (v mod 4) cs) (\<lambda>bs. Inr (byte_of (left * 16 + v div 4) # bs))
            else sum_bind (b64_scan 0 0 0 cs) (\<lambda>bs. Inr (byte_of (left * 64 + v) # bs))))"

definition b64decode :: "string \<Rightarrow> exn + byte list" where
  "b64decode s = (if list_all (\<lambda>c. code_of c < 128) s then b64_scan 0 0 0 s
     else Inl (ValueError ''string argument should contain only ASCII characters''))"

text \<open>The encoder, against which the decoder is checked.\<close>

definition char_of_sextet :: "nat \<Rightarrow> char" where
  "char_of_sextet v = char_of (if v < 26 then v + 65 else if v < 52 then v + 71 else if v < 62 then v - 4
     else if v = 62 then 43 else 47 :: nat)"

fun b64encode :: "byte list \<Rightarrow> string" where
  "b64encode [] = []"
| "b64encode [a] = [char_of_sextet (unat a div 4), char_of_sextet (unat a mod 4 * 16), CHR ''='', CHR ''='']"
| "b64encode [a, b] = [char_of_sextet (unat a div 4), char_of_sextet (unat a mod 4 * 16 + unat b div 16),
     char_of_sextet (unat b mod 16 * 4), CHR ''='']"
| "b64encode (a # b # c # bs) =
     char_of_sextet (unat a div 4) # char_of_sextet (unat a mod 4 * 16 + unat b div 16) #
     char_of_sextet (unat b mod 16 * 4 + unat c div 64) # char_of_sextet (unat c mod 64) # b64encode bs"

subsection \<open>The fields\<close>

datatype environment = development | staging | production

datatype ssl_mode = SSL_disable | SSL_allow | SSL_prefer | SSL_require | SSL_verify_ca | SSL_verify_full

record settings_env =
  se_environment :: environment
  se_database_url :: string
  se_redis_url :: string
  se_ssl_mode :: ssl_mode
  se_jwt_issuer :: string
  se_jwt_audience :: string
  se_jwt_access_ttl_minutes :: int
  se_jwt_refresh_ttl_days :: int
  se_jwt_private_key :: "string option"
  se_jwt_private_key_path :: "string option"
  se_jwt_public_key :: "string option"
  se_jwt_public_key_path :: "string option"
  se_encryption_master_key :: string
  se_ws_rate_limit_per_minute :: int
  se_ws_max_connections_per_ip :: int
  se_app_port :: int

text \<open>
  \<open>kl_private\<close> and \<open>kl_public\<close> load a key: an exception, or whether it is an RSA key. \<open>kl_file\<close> is
  the text of a regular file.
\<close>

record key_loader =
  kl_private :: "byte list \<Rightarrow> exn + bool"
  kl_public :: "byte list \<Rightarrow> exn + bool"
  kl_file :: "string \<Rightarrow> string option"

definition read_from_path :: "key_loader \<Rightarrow> string option \<Rightarrow> exn + string option" where
  "read_from_path kl path = (case path of
     None \<Rightarrow> Inr None
   | Some p \<Rightarrow> if p = [] then Inr None
       else (case kl_file kl p of None \<Rightarrow> Inl (ValueError ''Configured key path does not exist'') | Some t \<Rightarrow> Inr (Some t)))"

subsection \<open>Field validators\<close>

definition validate_db_url :: "string \<Rightarrow> exn + string" where
  "validate_db_url v = (if prefix ''postgresql'' v then Inr v else Inl (ValueError ''FATAL: DATABASE_URL must be postgresql scheme''))"

definition validate_redis_url :: "string \<Rightarrow> exn + string" where
  "validate_redis_url v = (if prefix ''redis://'' v \<or> prefix ''rediss://'' v then Inr v
     else Inl (ValueError ''FATAL: REDIS_URL must be redis:// or rediss://''))"

definition validate_port :: "int \<Rightarrow> exn + int" where
  "validate_port v = (if 1 \<le> v \<and> v \<le> 65535 then Inr v else Inl (ValueError ''FATAL: APP_PORT out of range''))"

definition validate_ttls :: "int \<Rightarrow> exn + int" where
  "validate_ttls v = (if v \<le> 0 then Inl (ValueError ''FATAL: token TTL values must be positive'') else Inr v)"

definition validate_master_key :: "string \<Rightarrow> exn + string" where
  "validate_master_key v = (case b64decode v of
     Inl e \<Rightarrow> Inl (ValueError ''FATAL: ENCRYPTION_MASTER_KEY must be valid base64'')
   | Inr raw \<Rightarrow> if length raw \<noteq> 32 then Inl (ValueError ''FATAL: ENCRYPTION_MASTER_KEY must decode to exactly 32 bytes'')
       else Inr v)"

subsection \<open>Loading the keys\<close>

text \<open>\<open>self.jwt_private_key or _read_from_path(self.jwt_private_key_path)\<close>\<close>

definition key_or_file :: "key_loader \<Rightarrow> string option \<Rightarrow> string option \<Rightarrow> exn + string option" where
  "key_or_file kl k path = (if k \<noteq> None \<and> k \<noteq> Some [] then Inr k else read_from_path kl path)"

definition decode_keys :: "string \<Rightarrow> string \<Rightarrow> exn + byte list \<times> byte list" where
  "decode_keys priv pub = (case sum_bind (b64decode priv) (\<lambda>p. sum_bind (b64decode pub) (\<lambda>q. Inr (p, q))) of
     Inl e \<Rightarrow> Inl (ValueError ''FATAL: JWT keys must be base64-encoded PEM data'') | Inr r \<Rightarrow> Inr r)"

definition check_keys :: "key_loader \<Rightarrow> byte list \<Rightarrow> byte list \<Rightarrow> exn + unit" where
  "check_keys kl p q = (case (kl_private kl p, kl_public kl q) of
     (Inr True, Inr True) \<Rightarrow> Inr ()
   | _ \<Rightarrow> Inl (ValueError ''FATAL: JWT_PRIVATE_KEY/JWT_PUBLIC_KEY are not valid RSA keys''))"

definition load_and_validate_keys :: "key_loader \<Rightarrow> settings_env \<Rightarrow> exn + settings_env" where
  "load_and_validate_keys kl s =
     sum_bind (key_or_file kl (se_jwt_private_key s) (se_jwt_private_key_path s)) (\<lambda>priv.
     sum_bind (key_or_file kl (se_jwt_public_key s) (se_jwt_public_key_path s)) (\<lambda>pub.
     (case priv of None \<Rightarrow> Inl (ValueError ''FATAL: JWT_PRIVATE_KEY environment variable is required'')
      | Some pk \<Rightarrow> if pk = [] then Inl (ValueError ''FATAL: JWT_PRIVATE_KEY environment variable is required'')
     else (case pub of None \<Rightarrow> Inl (ValueError ''FATAL: JWT_PUBLIC_KEY environment variable is required'')
      | Some qk \<Rightarrow> if qk = [] then Inl (ValueError ''FATAL: JWT_PUBLIC_KEY environment variable is required'')
     else sum_bind (decode_keys pk qk) (\<lambda>(p, q).
          sum_bind (check_keys kl p q) (\<lambda>_.
          Inr (s\<lparr>se_jwt_private_key := Some pk, se_jwt_public_key := Some qk\<rparr>)))))))"

subsection \<open>Construction\<close>

text \<open>
  The field validators all run; the model validator runs when none failed. Either way a failure
  reaches the module as a \<open>ValidationError\<close>, which becomes one fixed \<open>RuntimeError\<close>.
\<close>

definition error_of :: "exn + 'a \<Rightarrow> exn list" where
  "error_of r = (case r of Inl e \<Rightarrow> [e] | Inr _ \<Rightarrow> [])"

definition field_errors :: "settings_env \<Rightarrow> exn list" where
  "field_errors s =
     error_of (validate_db_url (se_database_url s)) @ error_of (validate_redis_url (se_redis_url s)) @
     error_of (validate_ttls (se_jwt_access_ttl_minutes s)) @ error_of (validate_ttls (se_jwt_refresh_ttl_days s)) @
     error_of (validate_master_key (se_encryption_master_key s)) @ error_of (validate_port (se_app_port s))"

definition validate_settings :: "key_loader \<Rightarrow> settings_env \<Rightarrow> exn list + settings_env" where
  "validate_settings kl s = (if field_errors s \<noteq> [] then Inl (field_errors s)
     else (case load_and_validate_keys kl s of Inl e \<Rightarrow> Inl [e] | Inr s' \<Rightarrow> Inr s'))"

definition load_settings :: "key_loader \<Rightarrow> settings_env \<Rightarrow> exn + settings_env" where
  "load_settings kl s = (case validate_settings kl s of
     Inl es \<Rightarrow> Inl (RuntimeError ''FATAL: invalid configuration; verify required environment variables'')
   | Inr s' \<Rightarrow> Inr s')"

text \<open>Reading an attribute of the settings object: the declared fields, and nothing else.\<close>

definition environment_value :: "environment \<Rightarrow> string" where
  "environment_value e = (case e of development \<Rightarrow> ''development'' | staging \<Rightarrow> ''staging'' | production \<Rightarrow> ''production'')"

definition ssl_mode_value :: "ssl_mode \<Rightarrow> string" where
  "ssl_mode_value m = (case m of SSL_disable \<Rightarrow> ''disable'' | SSL_allow \<Rightarrow> ''allow'' | SSL_prefer \<Rightarrow> ''prefer''
     | SSL_require \<Rightarrow> ''require'' | SSL_verify_ca \<Rightarrow> ''verify-ca'' | SSL_verify_full \<Rightarrow> ''verify-full'')"

definition optional_str :: "string option \<Rightarrow> pyval" where
  "optional_str x = (case x of None \<Rightarrow> PNone | Some s \<Rightarrow> PStr s)"

definition settings_attr :: "settings_env \<Rightarrow> string \<Rightarrow> exn + pyval" where
  "settings_attr s name = (case map_of
     [(''environment'', PStr (environment_value (se_environment s))), (''database_url'', PStr (se_database_url s)),
      (''redis_url'', PStr (se_redis_url s)), (''ssl_mode'', PStr (ssl_mode_value (se_ssl_mode s))),
      (''jwt_issuer'', PStr (se_jwt_issuer s)), (''jwt_audience'', PStr (se_jwt_audience s)),
      (''jwt_access_ttl_minutes'', PInt (se_jwt_access_ttl_minutes s)), (''jwt_refresh_ttl_days'', PInt (se_jwt_refresh_ttl_days s)),
      (''jwt_private_key'', optional_str (se_jwt_private_key s)), (''jwt_private_key_path'', optional_str (se_jwt_private_key_path s)),
      (''jwt_public_key'', optional_str (se_jwt_public_key s)), (''jwt_public_key_path'', optional_str (se_jwt_public_key_path s)),
      (''encryption_master_key'', PStr (se_encryption_master_key s)),
      (''ws_rate_limit_per_minute'', PInt (se_ws_rate_limit_per_minute s)),
      (''ws_max_connections_per_ip'', PInt (se_ws_max_connections_per_ip s)), (''app_port'', PInt (se_app_port s))] name of
     None \<Rightarrow> Inl (AttributeError name) | Some v \<Rightarrow> Inr v)"

subsection \<open>Base64 round trip\<close>

lemma code_of_char_of [simp]: "n < 256 \<Longrightarrow> code_of (char_of n) = n"
  by (simp add: code_of_def)

lemma code_of_less: "code_of c < 256"
  by (simp add: code_of_def)

lemma char_of_code_of [simp]: "char_of (code_of c) = c"
  by (simp add: code_of_def)

lemma code_of_sextet:
  "v < 64 \<Longrightarrow> code_of (char_of_sextet v) =
     (if v < 26 then v + 65 else if v < 52 then v + 71 else if v < 62 then v - 4 else if v = 62 then 43 else 47)"
  by (simp add: char_of_sextet_def)

lemma sextet_of_char [simp]: "v < 64 \<Longrightarrow> sextet_of (char_of_sextet v) = Some v"
  by (auto simp: sextet_of_def code_of_sextet Let_def)

lemma sextet_not_pad [simp]: "v < 64 \<Longrightarrow> char_of_sextet v \<noteq> CHR ''=''"
proof
  assume v: "v < 64" and c: "char_of_sextet v = CHR ''=''"
  have "code_of (char_of_sextet v) = 61" by (simp add: c code_of_def)
  then show False using v by (simp add: code_of_sextet split: if_splits)
qed

lemma sextet_ascii: "v < 64 \<Longrightarrow> code_of (char_of_sextet v) < 128"
  by (simp add: code_of_sextet) linarith

lemma unat_byte: "unat (b :: byte) < 256"
  using unsigned_less [of b] by simp

lemma byte_of_unat [simp]: "byte_of (unat b) = b"
  by (simp add: byte_of_def)

lemma unat_byte_of [simp]: "n < 256 \<Longrightarrow> unat (byte_of n) = n"
  by (simp add: byte_of_def unat_of_nat take_bit_nat_eq_self_iff)

lemma nibbles [simp]:
  "unat (b :: byte) div 16 < 16" "unat (b :: byte) div 64 < 4" "unat (b :: byte) div 4 < 64"
  "unat (b :: byte) div 16 div 16 = 0" "unat (b :: byte) div 64 div 4 = 0"
  "unat (b :: byte) div 16 mod 16 = unat b div 16" "unat (b :: byte) div 64 mod 4 = unat b div 64"
  using unat_byte [of b] by (simp_all add: less_mult_imp_div_less div_mult2_eq [symmetric])

lemma sextets_in_range [simp]:
  "unat (a :: byte) mod 4 * 16 + unat (b :: byte) div 16 < 64" "unat (a :: byte) mod 4 * 16 < 64"
  "unat (b :: byte) mod 16 * 4 + unat (c :: byte) div 64 < 64" "unat (b :: byte) mod 16 * 4 < 64"
proof -
  have "x mod 4 \<le> 3" "x mod 16 \<le> 15" for x :: nat
    using mod_less_divisor [of 4 x] mod_less_divisor [of 16 x] by linarith+
  note m = this [of "unat a"] this [of "unat b"]
  show "unat a mod 4 * 16 + unat b div 16 < 64" "unat a mod 4 * 16 < 64"
    "unat b mod 16 * 4 + unat c div 64 < 64" "unat b mod 16 * 4 < 64"
    using m nibbles(1) [of b] nibbles(2) [of c] by linarith+
qed

lemma b64_scan_encode: "b64_scan 0 0 0 (b64encode bs) = Inr bs"
  by (induction bs rule: b64encode.induct) (simp_all add: sum_bind_def)

lemma b64encode_ascii: "list_all (\<lambda>c. code_of c < 128) (b64encode bs)"
  by (induction bs rule: b64encode.induct) (simp_all add: sextet_ascii code_of_def [of "CHR ''=''"])

text \<open>
  Decoding inverts encoding: the bytes of every base64 text are decoded back.
\<close>

theorem b64_round_trip: "b64decode (b64encode bs) = Inr bs"
  by (simp add: b64decode_def b64encode_ascii b64_scan_encode)

text \<open>A text decodes to at most three bytes for four characters.\<close>

lemma b64_scan_length:
  "b64_scan q pads left cs = Inr bs \<Longrightarrow> q \<le> 3 \<Longrightarrow> 4 * length bs \<le> 3 * length cs + (if q = 0 then 0 else 4 - q)"
proof (induction q pads left cs arbitrary: bs rule: b64_scan.induct)
  case (1 q pads left)
  then show ?case by (simp split: if_splits)
next
  case (2 q pads left c cs)
  show ?case
  proof (cases "c = CHR ''=''")
    case True
    then show ?thesis using 2 by (fastforce split: if_splits)
  next
    case False
    show ?thesis
    proof (cases "sextet_of c")
      case None
      then show ?thesis using 2 False by fastforce
    next
      case (Some v)
      consider "q = 0" | "q = 1" | "q = 2" | "q = 3" using 2(9) by linarith
      then show ?thesis
      proof cases
        case 1
        then show ?thesis using 2(4) [of v bs] 2(8) False Some by simp
      next
        case q: 2
        with 2(8) False Some obtain bs' where "b64_scan 2 0 (v mod 16) cs = Inr bs'" "length bs = Suc (length bs')"
          by (auto simp: sum_bind_def split: sum.splits)
        then show ?thesis using 2(5) [of v bs'] False Some q by simp
      next
        case q: 3
        with 2(8) False Some obtain bs' where "b64_scan 3 0 (v mod 4) cs = Inr bs'" "length bs = Suc (length bs')"
          by (auto simp: sum_bind_def split: sum.splits)
        then show ?thesis using 2(6) [of v bs'] False Some q by simp
      next
        case q: 4
        with 2(8) False Some obtain bs' where "b64_scan 0 0 0 cs = Inr bs'" "length bs = Suc (length bs')"
          by (auto simp: sum_bind_def split: sum.splits)
        then show ?thesis using 2(7) [of v bs'] False Some q by simp
      qed
    qed
  qed
qed

lemma b64decode_length: "b64decode s = Inr bs \<Longrightarrow> 4 * length bs \<le> 3 * length s"
  using b64_scan_length [of 0 0 0 s bs] by (simp add: b64decode_def split: if_splits)

lemma master_key_text: "validate_master_key v = Inr w \<Longrightarrow> w = v \<and> 43 \<le> length v"
  by (auto simp: validate_master_key_def split: sum.splits if_splits dest!: b64decode_length)

subsection \<open>What is accepted\<close>

lemma validators_accept:
  "(\<exists>a. validate_db_url v = Inr a) \<longleftrightarrow> prefix ''postgresql'' v"
  "(\<exists>a. validate_redis_url v = Inr a) \<longleftrightarrow> prefix ''redis://'' v \<or> prefix ''rediss://'' v"
  "(\<exists>a. validate_ttls n = Inr a) \<longleftrightarrow> 0 < n"
  "(\<exists>a. validate_port n = Inr a) \<longleftrightarrow> 1 \<le> n \<and> n \<le> 65535"
  "(\<exists>a. validate_master_key v = Inr a) \<longleftrightarrow> (\<exists>raw. b64decode v = Inr raw \<and> length raw = 32)"
  by (simp_all add: validate_db_url_def validate_redis_url_def validate_ttls_def validate_port_def validate_master_key_def
      split: sum.split)

lemma error_of_Nil: "error_of r = [] \<longleftrightarrow> (\<exists>a. r = Inr a)"
  by (simp add: error_of_def split: sum.split)

lemma field_errors_Nil:
  "field_errors s = [] \<longleftrightarrow> prefix ''postgresql'' (se_database_url s) \<and>
     (prefix ''redis://'' (se_redis_url s) \<or> prefix ''rediss://'' (se_redis_url s)) \<and>
     0 < se_jwt_access_ttl_minutes s \<and> 0 < se_jwt_refresh_ttl_days s \<and>
     (\<exists>raw. b64decode (se_encryption_master_key s) = Inr raw \<and> length raw = 32) \<and>
     1 \<le> se_app_port s \<and> se_app_port s \<le> 65535"
  unfolding field_errors_def by (simp del: prefix_code add: error_of_Nil validators_accept)

lemma load_keys_result:
  "load_and_validate_keys kl s = Inr s' \<longleftrightarrow>
     (\<exists>pk qk p q. key_or_file kl (se_jwt_private_key s) (se_jwt_private_key_path s) = Inr (Some pk) \<and> pk \<noteq> [] \<and>
        key_or_file kl (se_jwt_public_key s) (se_jwt_public_key_path s) = Inr (Some qk) \<and> qk \<noteq> [] \<and>
        b64decode pk = Inr p \<and> b64decode qk = Inr q \<and> kl_private kl p = Inr True \<and> kl_public kl q = Inr True \<and>
        s' = s\<lparr>se_jwt_private_key := Some pk, se_jwt_public_key := Some qk\<rparr>)"
  by (auto simp: load_and_validate_keys_def decode_keys_def check_keys_def sum_bind_def
      split: sum.splits option.splits if_splits bool.splits)

text \<open>
  Settings are accepted exactly when the database and Redis URLs have their schemes, both token
  lifetimes are positive, the port is in range, the master key decodes to 32 bytes, and both RSA
  keys are present, decode and load; the settings then hold the keys read from their files. In
  every other case the module raises one RuntimeError.
\<close>

theorem settings_accepted_iff:
  "(load_settings kl s = Inr s' \<longleftrightarrow>
     prefix ''postgresql'' (se_database_url s) \<and>
     (prefix ''redis://'' (se_redis_url s) \<or> prefix ''rediss://'' (se_redis_url s)) \<and>
     0 < se_jwt_access_ttl_minutes s \<and> 0 < se_jwt_refresh_ttl_days s \<and>
     (\<exists>raw. b64decode (se_encryption_master_key s) = Inr raw \<and> length raw = 32) \<and>
     1 \<le> se_app_port s \<and> se_app_port s \<le> 65535 \<and>
     (\<exists>pk qk p q. key_or_file kl (se_jwt_private_key s) (se_jwt_private_key_path s) = Inr (Some pk) \<and> pk \<noteq> [] \<and>
        key_or_file kl (se_jwt_public_key s) (se_jwt_public_key_path s) = Inr (Some qk) \<and> qk \<noteq> [] \<and>
        b64decode pk = Inr p \<and> b64decode qk = Inr q \<and> kl_private kl p = Inr True \<and> kl_public kl q = Inr True \<and>
        s' = s\<lparr>se_jwt_private_key := Some pk, se_jwt_public_key := Some qk\<rparr>)) \<and>
   ((\<exists>x. load_settings kl s = Inr x) \<or>
    load_settings kl s = Inl (RuntimeError ''FATAL: invalid configuration; verify required environment variables''))"
proof -
  have "load_settings kl s = Inr s' \<longleftrightarrow> field_errors s = [] \<and> load_and_validate_keys kl s = Inr s'"
    by (auto simp: load_settings_def validate_settings_def split: sum.splits)
  moreover have "(\<exists>x. load_settings kl s = Inr x) \<or>
      load_settings kl s = Inl (RuntimeError ''FATAL: invalid configuration; verify required environment variables'')"
    by (auto simp: load_settings_def split: sum.splits)
  ultimately show ?thesis unfolding field_errors_Nil load_keys_result by blast
qed

lemma settings_master_key:
  assumes "load_settings kl s = Inr s'"
  shows "43 \<le> length (se_encryption_master_key s') \<and> se_encryption_master_key s' = se_encryption_master_key s"
proof -
  from assms have "field_errors s = []" "load_and_validate_keys kl s = Inr s'"
    by (auto simp: load_settings_def validate_settings_def split: sum.splits if_splits)
  then show ?thesis
    by (auto simp: field_errors_Nil load_keys_result dest!: b64decode_length)
qed

subsection \<open>Text round trip\<close>

lemma decode_encode_str: "decode_str (encode_str s) = Inr s"
proof (induction s)
  case Nil
  then show ?case by (simp add: encode_str_def)
next
  case (Cons c s)
  let ?n = "code_of c"
  have n: "?n < 256" by (rule code_of_less)
  have IH: "decode_str (concat (map utf8_char s)) = Inr s" using Cons by (simp add: encode_str_def)
  show ?case
  proof (cases "?n < 128")
    case True
    then show ?thesis using IH by (simp add: encode_str_def utf8_char_def sum_bind_def Let_def)
  next
    case False
    then have "2 \<le> ?n div 64" "?n div 64 \<le> 3" "?n mod 64 < 64" using n by auto
    moreover have "?n div 64 * 64 + ?n mod 64 = ?n" by simp
    ultimately show ?thesis using IH False
      by (simp add: encode_str_def utf8_char_def sum_bind_def Let_def)
  qed
qed

end
