(* ===== verification/Account_Store.thy ===== *)
theory Account_Store
  imports Settings
begin

text \<open>
  The tables of the accounts (\<^verbatim>\<open>app/models.py\<close>), a database session over them (\<^verbatim>\<open>app/db.py\<close>) and
  the audit trail (\<^verbatim>\<open>app/services/audit_service.py\<close>). A session has the committed tables and the
  tables as the pending changes leave them. It does not flush before a query, so queries read the
  committed tables; a commit checks the constraints of the schema and either makes the pending
  changes permanent or drops them; closing a session drops what was not committed.
\<close>

subsection \<open>Rows\<close>

datatype role = ADMIN | USER

datatype audit_action = LOGIN | LOGOUT | KEY_ACCESS | SETTINGS_CHANGED | TOKEN_REFRESH

record user_row =
  ur_id :: int
  ur_email :: string
  ur_password_hash :: string
  ur_role :: role
  ur_is_active :: bool
  ur_created_at :: datetime

record refresh_row =
  rr_id :: int
  rr_user_id :: int
  rr_token_hash :: string
  rr_device_fingerprint :: string
  rr_expires_at :: datetime
  rr_revoked :: bool
  rr_last_activity_at :: datetime
  rr_created_at :: datetime

record audit_row =
  ar_id :: int
  ar_user_id :: "int option"
  ar_action :: audit_action
  ar_resource_type :: string
  ar_resource_id :: "string option"
  ar_details :: pydict
  ar_ip_address :: "string option"
  ar_created_at :: datetime

record vault_row =
  vr_id :: int
  vr_user_id :: int
  vr_provider :: string
  vr_key_last4 :: string
  vr_encrypted_dek :: "byte list"
  vr_dek_nonce :: "byte list"
  vr_ciphertext :: "byte list"
  vr_data_nonce :: "byte list"
  vr_meta :: pydict
  vr_created_at :: datetime
  vr_updated_at :: datetime

text \<open>\<open>tb_next\<close> is the value the sequence of the ids hands out next.\<close>

record tables =
  tb_users :: "user_row list"
  tb_refresh_tokens :: "refresh_row list"
  tb_audit :: "audit_row list"
  tb_vault :: "vault_row list"
  tb_next :: int

definition empty_tables :: tables where
  "empty_tables = \<lparr>tb_users = [], tb_refresh_tokens = [], tb_audit = [], tb_vault = [], tb_next = 1\<rparr>"

subsection \<open>Constraints\<close>

text \<open>Primary keys from the sequence, unique columns, foreign keys to the users, and column widths.\<close>

definition ids_ok :: "int list \<Rightarrow> int \<Rightarrow> bool" where
  "ids_ok ids nxt = (distinct ids \<and> list_all (\<lambda>i. i < nxt) ids)"

definition tables_ok :: "tables \<Rightarrow> bool" where
  "tables_ok t =
     (ids_ok (map ur_id (tb_users t)) (tb_next t) \<and> ids_ok (map rr_id (tb_refresh_tokens t)) (tb_next t) \<and>
      ids_ok (map ar_id (tb_audit t)) (tb_next t) \<and> ids_ok (map vr_id (tb_vault t)) (tb_next t) \<and>
      distinct (map ur_email (tb_users t)) \<and> distinct (map (\<lambda>r. (vr_user_id r, vr_provider r)) (tb_vault t)) \<and>
      list_all (\<lambda>r. rr_user_id r \<in> set (map ur_id (tb_users t))) (tb_refresh_tokens t) \<and>
      list_all (\<lambda>r. vr_user_id r \<in> set (map ur_id (tb_users t))) (tb_vault t) \<and>
      list_all (\<lambda>r. pred_option (\<lambda>u. u \<in> set (map ur_id (tb_users t))) (ar_user_id r)) (tb_audit t) \<and>
      list_all (\<lambda>r. length (ur_email r) \<le> 320) (tb_users t) \<and>
      list_all (\<lambda>r. length (rr_device_fingerprint r) \<le> 256) (tb_refresh_tokens t) \<and>
      list_all (\<lambda>r. length (vr_provider r) \<le> 100) (tb_vault t))"

subsection \<open>Sessions\<close>

record session =
  sn_committed :: tables
  sn_pending :: tables

definition open_session :: "tables \<Rightarrow> session" where
  "open_session t = \<lparr>sn_committed = t, sn_pending = t\<rparr>"

text \<open>
  What \<open>tables_ok\<close> says of the pending tables is what PostgreSQL checks of the constraints that
  \<^verbatim>\<open>app/models.py\<close> declares, so that a commit keeps it by itself; that the services do not rely on
  this is \<open>requests_meet_constraints\<close> (theory Api_Routes).
\<close>

definition db_commit :: "(session, unit) io" where
  "db_commit s = (if tables_ok (sn_pending s) then (Inr (), s\<lparr>sn_committed := sn_pending s\<rparr>)
     else (Inl (OtherException ''DBAPIError''), s\<lparr>sn_pending := sn_committed s\<rparr>))"

text \<open>\<open>get_db\<close>: a request works on a session of its own and closes it.\<close>

definition with_session :: "(session, 'a) io \<Rightarrow> (tables, 'a) io" where
  "with_session m t = (case m (open_session t) of (r, s) \<Rightarrow> (r, sn_committed s))"

definition db_change :: "(tables \<Rightarrow> tables) \<Rightarrow> (session, unit) io" where
  "db_change f = io_modify (\<lambda>s. s\<lparr>sn_pending := f (sn_pending s)\<rparr>)"

text \<open>Adding a row: \<open>f\<close> makes it from its id.\<close>

definition db_insert :: "(int \<Rightarrow> tables \<Rightarrow> tables) \<Rightarrow> (session, int) io" where
  "db_insert f = io_bind (io_get (\<lambda>s. tb_next (sn_pending s))) (\<lambda>i.
     io_bind (db_change (\<lambda>t. (f i t)\<lparr>tb_next := i + 1\<rparr>)) (\<lambda>_. io_return i))"

definition db_query :: "(tables \<Rightarrow> 'a) \<Rightarrow> (session, 'a) io" where
  "db_query f = io_get (\<lambda>s. f (sn_committed s))"

subsection \<open>The audit trail\<close>

definition audit_entry :: "datetime \<Rightarrow> int option \<Rightarrow> audit_action \<Rightarrow> string \<Rightarrow> string option \<Rightarrow> pydict option \<Rightarrow> string option \<Rightarrow> int
    \<Rightarrow> audit_row" where
  "audit_entry now user_id action rtype rid details ip i =
     \<lparr>ar_id = i, ar_user_id = user_id, ar_action = action, ar_resource_type = rtype, ar_resource_id = rid,
      ar_details = (case details of None \<Rightarrow> [] | Some d \<Rightarrow> d), ar_ip_address = ip, ar_created_at = now\<rparr>"

definition record_audit :: "datetime \<Rightarrow> int option \<Rightarrow> audit_action \<Rightarrow> string \<Rightarrow> string option \<Rightarrow> pydict option \<Rightarrow> string option
    \<Rightarrow> (session, unit) io" where
  "record_audit now user_id action rtype rid details ip =
     io_bind (db_insert (\<lambda>i t. t\<lparr>tb_audit := tb_audit t @ [audit_entry now user_id action rtype rid details ip i]\<rparr>)) (\<lambda>_.
     db_commit)"

subsection \<open>Steps of a session\<close>

named_theorems db_simps \<comment> \<open>runs of the session operations\<close>

lemma db_commit_run [db_simps]:
  "tables_ok (sn_pending s) \<Longrightarrow> db_commit s = (Inr (), open_session (sn_pending s))"
  "\<not> tables_ok (sn_pending s) \<Longrightarrow> db_commit s = (Inl (OtherException ''DBAPIError''), open_session (sn_committed s))"
  by (simp_all add: db_commit_def open_session_def)

lemma db_change_run [db_simps]: "db_change f s = (Inr (), s\<lparr>sn_pending := f (sn_pending s)\<rparr>)"
  by (simp add: db_change_def io_simps)

lemma db_insert_run [db_simps]:
  "db_insert f s = (Inr (tb_next (sn_pending s)),
     s\<lparr>sn_pending := (f (tb_next (sn_pending s)) (sn_pending s))\<lparr>tb_next := tb_next (sn_pending s) + 1\<rparr>\<rparr>)"
  by (simp add: db_insert_def db_change_def io_simps)

lemma db_query_run [db_simps]: "db_query f s = (Inr (f (sn_committed s)), s)"
  by (simp add: db_query_def io_simps)

lemma open_session_simps [simp]:
  "sn_committed (open_session t) = t" "sn_pending (open_session t) = t"
  by (simp_all add: open_session_def)

lemma ids_ok_add: "ids_ok ids n \<Longrightarrow> ids_ok (ids @ [n]) (n + 1)"
  by (auto simp: ids_ok_def list_all_iff)

lemma ids_ok_later: "ids_ok ids n \<Longrightarrow> n \<le> m \<Longrightarrow> ids_ok ids m"
  by (auto simp: ids_ok_def list_all_iff)

text \<open>An audit record without a user, or with an existing one, can always be added.\<close>

definition with_audit :: "audit_row \<Rightarrow> tables \<Rightarrow> tables" where
  "with_audit a t = t\<lparr>tb_audit := tb_audit t @ [a], tb_next := tb_next t + 1\<rparr>"

lemma with_audit_simps [simp]:
  "tb_users (with_audit a t) = tb_users t" "tb_refresh_tokens (with_audit a t) = tb_refresh_tokens t"
  "tb_vault (with_audit a t) = tb_vault t" "tb_audit (with_audit a t) = tb_audit t @ [a]"
  by (simp_all add: with_audit_def)

lemma with_audit_ok:
  assumes "tables_ok t" and "ar_id a = tb_next t" and "\<And>u. ar_user_id a = Some u \<Longrightarrow> u \<in> ur_id ` set (tb_users t)"
  shows "tables_ok (with_audit a t)"
  using assms unfolding tables_ok_def with_audit_def
  by (cases "ar_user_id a") (auto simp: ids_ok_add intro: ids_ok_later)

lemma record_audit_known:
  assumes "tables_ok t" and "\<And>u. user_id = Some u \<Longrightarrow> u \<in> ur_id ` set (tb_users t)"
  shows "record_audit now user_id action rtype rid details ip (open_session t) =
    (Inr (), open_session (with_audit (audit_entry now user_id action rtype rid details ip (tb_next t)) t))"
proof -
  let ?a = "audit_entry now user_id action rtype rid details ip (tb_next t)"
  have "tables_ok (with_audit ?a t)"
    using assms by (intro with_audit_ok) (auto simp: audit_entry_def)
  then show ?thesis
    by (simp add: record_audit_def io_bind_def db_insert_run db_commit_run with_audit_def)
qed

lemma record_audit_run [db_simps]:
  "tables_ok t \<Longrightarrow> u \<in> ur_id ` set (tb_users t) \<Longrightarrow> record_audit now (Some u) action rtype rid details ip (open_session t) =
    (Inr (), open_session (with_audit (audit_entry now (Some u) action rtype rid details ip (tb_next t)) t))"
  by (rule record_audit_known) auto

text \<open>Whatever a session does, the committed tables satisfy the constraints.\<close>

definition session_ok :: "session \<Rightarrow> bool" where
  "session_ok s = tables_ok (sn_committed s)"

lemma session_ok_steps [preserves]:
  "io_preserves session_ok db_commit" "io_preserves session_ok (db_change f)" "io_preserves session_ok (db_insert g)"
  "io_preserves session_ok (db_query q)"
  by (simp_all add: io_preserves_def session_ok_def db_commit_def db_change_run db_insert_run db_query_run)

lemma session_ok_audit [preserves]: "io_preserves session_ok (record_audit now u a t r d ip)"
  unfolding record_audit_def by (intro preserves)

lemma with_session_ok:
  assumes "io_preserves session_ok m"
  shows "io_preserves tables_ok (with_session m)"
  unfolding io_preserves_def
proof (intro allI impI)
  fix t assume "tables_ok t"
  then have "session_ok (open_session t)" by (simp add: session_ok_def)
  from io_preservesD [OF assms this] show "tables_ok (snd (with_session m t))"
    by (simp add: with_session_def session_ok_def case_prod_beta)
qed

end
