(* ===== verification/Accounts.thy ===== *)
theory Accounts
  imports Account_Store
begin

text \<open>
  Registration, login and refresh sessions (\<^verbatim>\<open>app/services/auth_service.py\<close>) and the user of a
  request (\<^verbatim>\<open>app/api/deps.py\<close>). The functions the service imports are the record \<open>auth_lib\<close>, as
  the service calls them: \<open>create_refresh_token\<close> without arguments, \<open>create_access_token\<close> with the
  user id and the role. The security module of the repository defines them otherwise, which
  \<open>al_create_refresh_token\<close> expresses as the exception of that call; \<open>hash_refresh_token\<close> is not
  defined anywhere in the repository. \<open>al_settings\<close> reads an attribute of the settings, and
  \<open>al_aware\<close> tells whether the driver loads times with a time zone, as it does for PostgreSQL.
\<close>

subsection \<open>Times\<close>

datatype pytime = Naive datetime | Aware datetime

fun py_less :: "pytime \<Rightarrow> pytime \<Rightarrow> exn + bool" where
  "py_less (Naive a) (Naive b) = Inr (a < b)"
| "py_less (Aware a) (Aware b) = Inr (a < b)"
| "py_less _ _ = Inl (TypeError ''compare offset-naive and offset-aware datetimes'')"

fun py_minus :: "pytime \<Rightarrow> pytime \<Rightarrow> exn + int" where
  "py_minus (Naive a) (Naive b) = Inr (a - b)"
| "py_minus (Aware a) (Aware b) = Inr (a - b)"
| "py_minus _ _ = Inl (TypeError ''subtract offset-naive and offset-aware datetimes'')"

subsection \<open>Collaborators\<close>

record auth_lib =
  al_hash_password :: "string \<Rightarrow> string"
  al_verify_password :: "string \<Rightarrow> string \<Rightarrow> bool"
  al_create_refresh_token :: "exn + string"
  al_hash_refresh_token :: "string \<Rightarrow> string"
  al_create_access_token :: "string \<Rightarrow> string \<Rightarrow> exn + string"
  al_settings :: "string \<Rightarrow> exn + pyval"
  al_aware :: bool

definition loaded :: "auth_lib \<Rightarrow> datetime \<Rightarrow> pytime" where
  "loaded lib t = (if al_aware lib then Aware t else Naive t)"

definition int_setting :: "auth_lib \<Rightarrow> string \<Rightarrow> exn + int" where
  "int_setting lib name = sum_bind (al_settings lib name) py_int"

record auth_tokens =
  at_access_token :: string
  at_refresh_token :: string
  at_token_type :: string

definition role_value :: "role \<Rightarrow> string" where
  "role_value r = (case r of ADMIN \<Rightarrow> ''ADMIN'' | USER \<Rightarrow> ''USER'')"

definition find_user :: "string \<Rightarrow> tables \<Rightarrow> user_row option" where
  "find_user email t = List.find (\<lambda>u. ur_email u = email) (tb_users t)"

definition get_user :: "int \<Rightarrow> tables \<Rightarrow> user_row option" where
  "get_user i t = List.find (\<lambda>u. ur_id u = i) (tb_users t)"

subsection \<open>Registration and login\<close>

definition new_user :: "auth_lib \<Rightarrow> datetime \<Rightarrow> string \<Rightarrow> string \<Rightarrow> int \<Rightarrow> user_row" where
  "new_user lib now email password i =
     \<lparr>ur_id = i, ur_email = lower_str email, ur_password_hash = al_hash_password lib password, ur_role = USER,
      ur_is_active = True, ur_created_at = now\<rparr>"

definition register_user :: "auth_lib \<Rightarrow> datetime \<Rightarrow> string \<Rightarrow> string \<Rightarrow> (session, user_row) io" where
  "register_user lib now email password =
     io_bind (db_query (find_user (lower_str email))) (\<lambda>found.
     if found \<noteq> None then io_raise (HTTPException 409 ''Email already registered'')
     else
       io_bind (db_insert (\<lambda>i t. t\<lparr>tb_users := tb_users t @ [new_user lib now email password i]\<rparr>)) (\<lambda>i.
       io_bind db_commit (\<lambda>_.
       io_bind (record_audit now (Some i) SETTINGS_CHANGED ''user'' (Some (show_int i)) (Some [(''event'', PStr ''register'')]) None) (\<lambda>_.
       io_return (new_user lib now email password i)))))"

definition new_refresh_row :: "auth_lib \<Rightarrow> datetime \<Rightarrow> int \<Rightarrow> int \<Rightarrow> string \<Rightarrow> string \<Rightarrow> int \<Rightarrow> refresh_row" where
  "new_refresh_row lib now ttl_days user_id token fingerprint i =
     \<lparr>rr_id = i, rr_user_id = user_id, rr_token_hash = al_hash_refresh_token lib token, rr_device_fingerprint = fingerprint,
      rr_expires_at = now + ttl_days * 86400000000, rr_revoked = False, rr_last_activity_at = now, rr_created_at = now\<rparr>"

definition add_refresh_row :: "refresh_row \<Rightarrow> tables \<Rightarrow> tables" where
  "add_refresh_row r t = t\<lparr>tb_refresh_tokens := tb_refresh_tokens t @ [r]\<rparr>"

definition token_pair_for :: "auth_lib \<Rightarrow> user_row \<Rightarrow> string \<Rightarrow> exn + auth_tokens" where
  "token_pair_for lib user refresh =
     sum_bind (al_create_access_token lib (show_int (ur_id user)) (role_value (ur_role user))) (\<lambda>access.
     Inr \<lparr>at_access_token = access, at_refresh_token = refresh, at_token_type = ''bearer''\<rparr>)"

definition login :: "auth_lib \<Rightarrow> datetime \<Rightarrow> string \<Rightarrow> string \<Rightarrow> string \<Rightarrow> string option \<Rightarrow> (session, auth_tokens) io" where
  "login lib now email password fingerprint ip =
     io_bind (db_query (find_user (lower_str email))) (\<lambda>found.
     (case found of None \<Rightarrow> io_raise (HTTPException 401 ''Invalid credentials'')
      | Some user \<Rightarrow>
          if \<not> al_verify_password lib password (ur_password_hash user) then io_raise (HTTPException 401 ''Invalid credentials'')
          else
            io_bind (io_lift (al_create_refresh_token lib)) (\<lambda>refresh.
            io_bind (io_lift (int_setting lib ''refresh_token_ttl_days'')) (\<lambda>ttl.
            io_bind (db_insert (\<lambda>i. add_refresh_row (new_refresh_row lib now ttl (ur_id user) refresh fingerprint i))) (\<lambda>i.
            io_bind db_commit (\<lambda>_.
            io_bind (record_audit now (Some (ur_id user)) LOGIN ''session'' (Some (show_int i)) None ip) (\<lambda>_.
            io_lift (token_pair_for lib user refresh))))))))"

subsection \<open>Refresh\<close>

definition find_refresh :: "string \<Rightarrow> tables \<Rightarrow> refresh_row option" where
  "find_refresh h t = List.find (\<lambda>r. rr_token_hash r = h \<and> \<not> rr_revoked r) (tb_refresh_tokens t)"

definition revoke_row :: "int \<Rightarrow> tables \<Rightarrow> tables" where
  "revoke_row i t = t\<lparr>tb_refresh_tokens := map (\<lambda>r. if rr_id r = i then r\<lparr>rr_revoked := True\<rparr> else r) (tb_refresh_tokens t)\<rparr>"

definition revoke_and_fail :: "int \<Rightarrow> string \<Rightarrow> (session, 'a) io" where
  "revoke_and_fail i msg = io_bind (db_change (revoke_row i)) (\<lambda>_. io_bind db_commit (\<lambda>_. io_raise (HTTPException 401 msg)))"

definition rotate_session :: "auth_lib \<Rightarrow> datetime \<Rightarrow> refresh_row \<Rightarrow> string \<Rightarrow> string option \<Rightarrow> (session, auth_tokens) io" where
  "rotate_session lib now rt fingerprint ip =
     io_bind (db_query (get_user (rr_user_id rt))) (\<lambda>found.
     io_bind (db_change (revoke_row (rr_id rt))) (\<lambda>_.
     io_bind (io_lift (al_create_refresh_token lib)) (\<lambda>new_refresh.
     (case found of None \<Rightarrow> io_raise (AttributeError ''id'')
      | Some user \<Rightarrow>
          io_bind (io_lift (int_setting lib ''refresh_token_ttl_days'')) (\<lambda>ttl.
          io_bind (db_insert (\<lambda>i. add_refresh_row (new_refresh_row lib now ttl (ur_id user) new_refresh fingerprint i))) (\<lambda>_.
          io_bind db_commit (\<lambda>_.
          io_bind (record_audit now (Some (ur_id user)) TOKEN_REFRESH ''session'' None None ip) (\<lambda>_.
          io_lift (token_pair_for lib user new_refresh)))))))))"

definition refresh_tokens :: "auth_lib \<Rightarrow> datetime \<Rightarrow> string \<Rightarrow> string \<Rightarrow> string option \<Rightarrow> (session, auth_tokens) io" where
  "refresh_tokens lib now token fingerprint ip =
     io_bind (db_query (find_refresh (al_hash_refresh_token lib token))) (\<lambda>found.
     (case found of None \<Rightarrow> io_raise (HTTPException 401 ''Invalid refresh token'')
      | Some rt \<Rightarrow>
          io_bind (io_lift (py_less (loaded lib (rr_expires_at rt)) (Naive now))) (\<lambda>expired.
          if expired then revoke_and_fail (rr_id rt) ''Refresh token expired''
          else
            io_bind (io_lift (py_minus (Naive now) (loaded lib (rr_last_activity_at rt)))) (\<lambda>idle.
            io_bind (io_lift (int_setting lib ''inactivity_timeout_minutes'')) (\<lambda>timeout.
            if of_int timeout < (of_int idle / 60000000 :: real) then revoke_and_fail (rr_id rt) ''Session inactive''
            else if rr_device_fingerprint rt \<noteq> fingerprint then io_raise (HTTPException 401 ''Device mismatch'')
            else rotate_session lib now rt fingerprint ip)))))"

subsection \<open>The user of a request\<close>

text \<open>\<open>decode\<close> is the library's: token, secret, algorithm; \<open>JWTError\<close> is its exception.\<close>

definition decoded_user_id :: "(string \<Rightarrow> exn + pyval) \<Rightarrow> (string \<Rightarrow> pyval \<Rightarrow> pyval \<Rightarrow> exn + pydict) \<Rightarrow> string \<Rightarrow> exn + int" where
  "decoded_user_id attr decode token =
     sum_bind (attr ''jwt_secret'') (\<lambda>secret.
     sum_bind (attr ''jwt_algo'') (\<lambda>algo.
     sum_bind (decode token secret algo) (\<lambda>payload.
     py_int (pyget payload ''sub''))))"

definition is_auth_error :: "exn \<Rightarrow> bool" where
  "is_auth_error e = (case e of OtherException n \<Rightarrow> n = ''JWTError'' | TypeError _ \<Rightarrow> True | ValueError _ \<Rightarrow> True | _ \<Rightarrow> False)"

definition get_current_user :: "(string \<Rightarrow> exn + pyval) \<Rightarrow> (string \<Rightarrow> pyval \<Rightarrow> pyval \<Rightarrow> exn + pydict) \<Rightarrow> string \<Rightarrow> (session, user_row) io" where
  "get_current_user attr decode token =
     (case decoded_user_id attr decode token of
        Inl e \<Rightarrow> io_raise (if is_auth_error e then HTTPException 401 ''Invalid token'' else e)
      | Inr i \<Rightarrow> io_bind (db_query (get_user i)) (\<lambda>found.
          case found of None \<Rightarrow> io_raise (HTTPException 401 ''User not found'') | Some u \<Rightarrow> io_return u))"

definition require_admin :: "user_row \<Rightarrow> (session, user_row) io" where
  "require_admin user = (if ur_role user \<noteq> ADMIN then io_raise (HTTPException 403 ''Admin required'') else io_return user)"

subsection \<open>Tables of a rotation\<close>

lemma map_revoke:
  "map f (map (\<lambda>r. if rr_id r = i then r\<lparr>rr_revoked := True\<rparr> else r) rs) = map f rs"
  if "\<And>r. f (r\<lparr>rr_revoked := True\<rparr>) = f r"
  using that by simp

lemma revoke_row_ok: "tables_ok t \<Longrightarrow> tables_ok (revoke_row i t)"
  unfolding tables_ok_def revoke_row_def by (auto simp: comp_def if_distrib list_all_iff cong: if_cong)

lemma add_refresh_ok:
  assumes "tables_ok t" and "rr_id r = tb_next t" and "rr_user_id r \<in> ur_id ` set (tb_users t)" and "length (rr_device_fingerprint r) \<le> 256"
  shows "tables_ok ((add_refresh_row r t)\<lparr>tb_next := tb_next t + 1\<rparr>)"
  using assms unfolding tables_ok_def add_refresh_row_def
  by (auto simp: ids_ok_add intro: ids_ok_later)

lemma get_user_known:
  assumes "tables_ok t" and "i \<in> ur_id ` set (tb_users t)"
  obtains u where "get_user i t = Some u" "ur_id u = i"
proof -
  have "get_user i t \<noteq> None" using assms(2) by (auto simp: get_user_def find_None_iff)
  then obtain u where "get_user i t = Some u" by auto
  with that show ?thesis by (auto simp: get_user_def find_Some_iff)
qed

text \<open>The tables after a rotation.\<close>

definition rotated :: "auth_lib \<Rightarrow> datetime \<Rightarrow> int \<Rightarrow> string \<Rightarrow> refresh_row \<Rightarrow> tables \<Rightarrow> tables" where
  "rotated lib now ttl new rt t = (add_refresh_row
     (new_refresh_row lib now ttl (rr_user_id rt) new (rr_device_fingerprint rt) (tb_next t)) (revoke_row (rr_id rt) t))
     \<lparr>tb_next := tb_next t + 1\<rparr>"

definition working_lib :: "auth_lib \<Rightarrow> string \<Rightarrow> int \<Rightarrow> int \<Rightarrow> bool" where
  "working_lib lib new ttl timeout = (\<not> al_aware lib \<and> al_create_refresh_token lib = Inr new \<and>
     int_setting lib ''refresh_token_ttl_days'' = Inr ttl \<and> int_setting lib ''inactivity_timeout_minutes'' = Inr timeout \<and>
     (\<forall>a b. \<exists>x. al_create_access_token lib a b = Inr x))"

lemma find_refresh_Some: "find_refresh h t = Some rt \<Longrightarrow> rt \<in> set (tb_refresh_tokens t) \<and> rr_token_hash rt = h \<and> \<not> rr_revoked rt"
  by (auto simp: find_refresh_def find_Some_iff)

lemma rotate_session_known:
  assumes ok: "tables_ok t" and lib: "working_lib lib new ttl timeout"
    and known: "rr_user_id rt \<in> ur_id ` set (tb_users t)" and width: "length (rr_device_fingerprint rt) \<le> 256"
  shows "\<exists>a p. rotate_session lib now rt (rr_device_fingerprint rt) ip (open_session t) =
    (Inr p, open_session (with_audit a (rotated lib now ttl new rt t))) \<and> at_refresh_token p = new \<and>
    tables_ok (with_audit a (rotated lib now ttl new rt t))"
proof -
  obtain u where u: "get_user (rr_user_id rt) t = Some u" "ur_id u = rr_user_id rt" using get_user_known [OF ok known] .
  obtain x where x: "al_create_access_token lib (show_int (ur_id u)) (role_value (ur_role u)) = Inr x"
    using lib by (auto simp: working_lib_def)
  have next_rev: "tb_next (revoke_row (rr_id rt) t) = tb_next t" "tb_users (revoke_row (rr_id rt) t) = tb_users t"
    by (simp_all add: revoke_row_def)
  have rot: "tables_ok (rotated lib now ttl new rt t)"
    using add_refresh_ok [OF revoke_row_ok [OF ok], of "new_refresh_row lib now ttl (rr_user_id rt) new (rr_device_fingerprint rt) (tb_next t)" "rr_id rt"]
      known width by (simp add: rotated_def new_refresh_row_def next_rev)
  have user: "rr_user_id rt \<in> ur_id ` set (tb_users (rotated lib now ttl new rt t))"
    using known by (simp add: rotated_def add_refresh_row_def next_rev)
  let ?a = "audit_entry now (Some (rr_user_id rt)) TOKEN_REFRESH ''session'' None None ip (tb_next (rotated lib now ttl new rt t))"
  have audited: "tables_ok (with_audit ?a (rotated lib now ttl new rt t))"
    by (rule with_audit_ok [OF rot]) (use user in \<open>auto simp: audit_entry_def\<close>)
  define p where "p = \<lparr>at_access_token = x, at_refresh_token = new, at_token_type = ''bearer''\<rparr>"
  have "rotate_session lib now rt (rr_device_fingerprint rt) ip (open_session t) = (Inr p, open_session (with_audit ?a (rotated lib now ttl new rt t)))"
    using lib rot u x user
    by (simp add: rotate_session_def working_lib_def io_bind_def io_lift_def db_query_run db_change_run db_insert_run
        next_rev rotated_def [symmetric] db_commit_run record_audit_run token_pair_for_def sum_bind_def p_def)
  moreover have "at_refresh_token p = new" by (simp add: p_def)
  ultimately show ?thesis using audited by blast
qed

lemma rotate_session_run:
  assumes "tables_ok t" and "working_lib lib new ttl timeout" and "rt \<in> set (tb_refresh_tokens t)"
  shows "\<exists>a p. rotate_session lib now rt (rr_device_fingerprint rt) ip (open_session t) =
    (Inr p, open_session (with_audit a (rotated lib now ttl new rt t)))"
proof -
  have "rr_user_id rt \<in> ur_id ` set (tb_users t)" "length (rr_device_fingerprint rt) \<le> 256"
    using assms(1,3) by (auto simp: tables_ok_def list_all_iff)
  with rotate_session_known [OF assms(1,2)] show ?thesis by blast
qed

lemma refresh_unknown:
  "find_refresh (al_hash_refresh_token lib token) t = None \<Longrightarrow>
     refresh_tokens lib now token fingerprint ip (open_session t) = (Inl (HTTPException 401 ''Invalid refresh token''), open_session t)"
  by (simp add: refresh_tokens_def db_query_run io_simps)

lemma revoke_and_fail_run:
  "tables_ok t \<Longrightarrow> revoke_and_fail i msg (open_session t) = (Inl (HTTPException 401 msg), open_session (revoke_row i t))"
  by (simp add: revoke_and_fail_def io_bind_def db_change_run db_commit_run revoke_row_ok io_raise_def)

text \<open>What \<open>refresh_tokens\<close> does with a known token when times are naive.\<close>

lemma refresh_known:
  assumes ok: "tables_ok t" and lib: "working_lib lib new ttl timeout"
    and rt: "find_refresh (al_hash_refresh_token lib token) t = Some rt"
  shows "refresh_tokens lib now token fingerprint ip (open_session t) =
    (if rr_expires_at rt < now then (Inl (HTTPException 401 ''Refresh token expired''), open_session (revoke_row (rr_id rt) t))
     else if timeout * 60000000 < now - rr_last_activity_at rt
       then (Inl (HTTPException 401 ''Session inactive''), open_session (revoke_row (rr_id rt) t))
     else if rr_device_fingerprint rt \<noteq> fingerprint then (Inl (HTTPException 401 ''Device mismatch''), open_session t)
     else rotate_session lib now rt fingerprint ip (open_session t))"
proof -
  have "(of_int timeout < (of_int d / 60000000 :: real)) = (timeout * 60000000 < d)" for d
  proof -
    have "(of_int timeout < (of_int d / 60000000 :: real)) = (of_int (timeout * 60000000) < (of_int d :: real))"
      by (simp add: less_divide_eq)
    then show ?thesis by (simp only: of_int_less_iff)
  qed
  then show ?thesis
    using lib rt by (simp add: refresh_tokens_def working_lib_def loaded_def db_query_run io_bind_def io_lift_def
        revoke_and_fail_run [OF ok] io_raise_def)
qed

text \<open>
  With naive times and working collaborators, a refresh succeeds exactly when the token belongs
  to an unrevoked session that has not expired, was used within the inactivity limit and is
  presented by the device it was issued to.
\<close>

theorem refresh_accepted_iff:
  assumes "tables_ok t" and "working_lib lib new ttl timeout"
  shows "(\<exists>p. fst (with_session (refresh_tokens lib now token fingerprint ip) t) = Inr p) \<longleftrightarrow>
    (\<exists>rt. find_refresh (al_hash_refresh_token lib token) t = Some rt \<and> now \<le> rr_expires_at rt \<and>
       now - rr_last_activity_at rt \<le> timeout * 60000000 \<and> rr_device_fingerprint rt = fingerprint)"
proof (cases "find_refresh (al_hash_refresh_token lib token) t")
  case None
  then show ?thesis by (simp add: with_session_def refresh_unknown)
next
  case (Some rt)
  from rotate_session_run [OF assms, of rt now ip] find_refresh_Some [OF Some] obtain a p where
    "rotate_session lib now rt (rr_device_fingerprint rt) ip (open_session t) =
      (Inr p, open_session (with_audit a (rotated lib now ttl new rt t)))" by blast
  then show ?thesis using Some
    by (auto simp: with_session_def refresh_known [OF assms Some])
qed

text \<open>
  C20. As the service stands no session is ever issued: \<open>create_refresh_token\<close> called without arguments raises, so
  whatever the request, the tables and the rest of the library, login fails and leaves the tables as they were, and
  refresh fails too; and since the driver loads times with a zone, refresh fails already at comparing
  them and leaves the tables as they were.
\<close>

theorem no_session_is_issued:
  assumes "al_create_refresh_token lib = Inl e"
  shows "(\<exists>e1. with_session (login lib now email password fingerprint ip) t = (Inl e1, t)) \<and>
    (\<exists>e2 t'. with_session (refresh_tokens lib now token fingerprint ip) t = (Inl e2, t') \<and> (al_aware lib \<longrightarrow> t' = t))"
proof
  show "\<exists>e1. with_session (login lib now email password fingerprint ip) t = (Inl e1, t)"
    using assms by (cases "find_user (lower_str email) t")
      (auto simp: with_session_def login_def io_bind_def db_query_run io_lift_def io_raise_def)
  have aware: "\<exists>e2. with_session (refresh_tokens lib now token fingerprint ip) t = (Inl e2, t)" if "al_aware lib"
    using that by (cases "find_refresh (al_hash_refresh_token lib token) t")
      (auto simp: with_session_def refresh_tokens_def loaded_def io_bind_def db_query_run io_lift_def io_raise_def)
  have "fst (rotate_session lib now rt fingerprint ip s) = Inl e" for rt s
    using assms by (simp add: rotate_session_def io_bind_def db_query_run db_change_run io_lift_def)
  moreover have "\<exists>e2. fst (revoke_and_fail i msg s) = (Inl e2 :: exn + auth_tokens)" for i msg s
    by (auto simp: revoke_and_fail_def io_bind_def db_change_run db_commit_def io_raise_def)
  ultimately have "\<exists>e2. fst (refresh_tokens lib now token fingerprint ip (open_session t)) = Inl e2"
    by (auto simp: refresh_tokens_def io_bind_def db_query_run io_lift_def io_raise_def split: option.split sum.split)
  then obtain e2 where "fst (with_session (refresh_tokens lib now token fingerprint ip) t) = Inl e2"
    by (auto simp: with_session_def case_prod_beta)
  then show "\<exists>e2 t'. with_session (refresh_tokens lib now token fingerprint ip) t = (Inl e2, t') \<and> (al_aware lib \<longrightarrow> t' = t)"
    using aware by (metis prod.collapse prod.inject)
qed

subsection \<open>Registration\<close>

text \<open>A registered address, in any spelling, is refused from then on, and nothing is changed.\<close>

lemma registered_email_conflicts:
  assumes "find_user (lower_str email) t = Some u" and "lower_str email' = lower_str email"
  shows "with_session (register_user lib now email' password) t = (Inl (HTTPException 409 ''Email already registered''), t)"
  using assms by (simp add: with_session_def register_user_def db_query_run io_bind_def io_raise_def)

subsection \<open>Witnesses\<close>

definition demo_lib :: auth_lib where
  "demo_lib = \<lparr>al_hash_password = rev, al_verify_password = (\<lambda>p h. h = rev p), al_create_refresh_token = Inr ''new'',
     al_hash_refresh_token = rev, al_create_access_token = (\<lambda>a b. Inr (a @ b)), al_settings = (\<lambda>n. Inr (PInt 30)), al_aware = False\<rparr>"

definition demo_accounts :: tables where
  "demo_accounts = empty_tables\<lparr>tb_users := [\<lparr>ur_id = 1, ur_email = ''a@b.c'', ur_password_hash = ''drowssap'', ur_role = USER,
     ur_is_active = True, ur_created_at = 0\<rparr>],
     tb_refresh_tokens := [\<lparr>rr_id = 2, rr_user_id = 1, rr_token_hash = ''dlo'', rr_device_fingerprint = ''device-1'',
       rr_expires_at = 1000, rr_revoked = False, rr_last_activity_at = 0, rr_created_at = 0\<rparr>], tb_next := 3\<rparr>"

lemma demo_accounts_ok: "tables_ok demo_accounts" "working_lib demo_lib ''new'' 30 30"
  by (simp_all add: demo_accounts_def empty_tables_def tables_ok_def ids_ok_def working_lib_def demo_lib_def int_setting_def sum_bind_def)

lemma demo_find:
  "find_refresh (al_hash_refresh_token demo_lib ''old'') demo_accounts = Some \<lparr>rr_id = 2, rr_user_id = 1, rr_token_hash = ''dlo'',
     rr_device_fingerprint = ''device-1'', rr_expires_at = 1000, rr_revoked = False, rr_last_activity_at = 0, rr_created_at = 0\<rparr>"
  by (simp add: find_refresh_def demo_lib_def demo_accounts_def empty_tables_def)

theorem refresh_accepted_iff_witness:
  "\<exists>p. fst (with_session (refresh_tokens demo_lib 500 ''old'' ''device-1'' None) demo_accounts) = Inr p"
  unfolding refresh_accepted_iff [OF demo_accounts_ok] by (simp add: demo_find)

lemma demo_refreshed:
  obtains p t where "with_session (refresh_tokens demo_lib 500 ''old'' ''device-1'' None) demo_accounts = (Inr p, t)"
  using rotate_session_run [OF demo_accounts_ok conjunct1 [OF find_refresh_Some [OF demo_find]], of 500 None]
  by (auto simp: with_session_def refresh_known [OF demo_accounts_ok demo_find])

theorem no_session_is_issued_witness:
  "\<exists>e. with_session (login (demo_lib\<lparr>al_create_refresh_token := Inl (TypeError ''missing argument''), al_aware := True\<rparr>)
     500 ''a@b.c'' ''password'' ''device-1'' None) demo_accounts = (Inl e, demo_accounts)"
  using no_session_is_issued [of "demo_lib\<lparr>al_create_refresh_token := Inl (TypeError ''missing argument''), al_aware := True\<rparr>"
      "TypeError ''missing argument''" 500 "''a@b.c''" "''password''" "''device-1''" None demo_accounts] by simp

end
