(* ===== verification/Session_Races.thy ===== *)
theory Session_Races
  imports Accounts Tasks
begin

text \<open>
  Concurrent requests of the accounts (\<^verbatim>\<open>app/services/auth_service.py\<close>). The routes are plain
  functions, which the framework runs in threads, and the service may run in several processes; each
  request has a database session of its own. The database runs with its default isolation: a query reads what is
  committed when it runs, and a commit applies the pending changes of its session to what is
  committed then, or fails when a constraint would break. A request is therefore cut at its queries and its
  commits.
\<close>

subsection \<open>Queries and commits as commands\<close>

definition query_task :: "(tables \<Rightarrow> 'a) \<Rightarrow> (tables, 'a) task" where
  "query_task f = await (io_get f)"

definition commit_change :: "(tables \<Rightarrow> tables) \<Rightarrow> (tables, unit) io" where
  "commit_change f t = (if tables_ok (f t) then (Inr (), f t) else (Inl (OtherException ''DBAPIError''), t))"

definition commit_insert :: "(int \<Rightarrow> tables \<Rightarrow> tables) \<Rightarrow> (tables, int) io" where
  "commit_insert f t = (let t' = (f (tb_next t) t)\<lparr>tb_next := tb_next t + 1\<rparr> in
     if tables_ok t' then (Inr (tb_next t), t') else (Inl (OtherException ''DBAPIError''), t))"

definition audit_task :: "datetime \<Rightarrow> int option \<Rightarrow> audit_action \<Rightarrow> string \<Rightarrow> string option \<Rightarrow> pydict option \<Rightarrow> string option
    \<Rightarrow> (tables, int) task" where
  "audit_task now user_id action rtype rid details ip =
     await (commit_insert (\<lambda>i t. t\<lparr>tb_audit := tb_audit t @ [audit_entry now user_id action rtype rid details ip i]\<rparr>))"

subsection \<open>The requests as tasks\<close>

definition register_task :: "auth_lib \<Rightarrow> datetime \<Rightarrow> string \<Rightarrow> string \<Rightarrow> (tables, user_row) task" where
  "register_task lib now email password =
     t_bind (query_task (find_user (lower_str email))) (\<lambda>found.
     if found \<noteq> None then t_raise (HTTPException 409 ''Email already registered'')
     else
       t_bind (await (commit_insert (\<lambda>i t. t\<lparr>tb_users := tb_users t @ [new_user lib now email password i]\<rparr>))) (\<lambda>i.
       t_bind (audit_task now (Some i) SETTINGS_CHANGED ''user'' (Some (show_int i)) (Some [(''event'', PStr ''register'')]) None) (\<lambda>_.
       t_return (new_user lib now email password i))))"

definition login_task :: "auth_lib \<Rightarrow> datetime \<Rightarrow> string \<Rightarrow> string \<Rightarrow> string \<Rightarrow> string option \<Rightarrow> (tables, auth_tokens) task" where
  "login_task lib now email password fingerprint ip =
     t_bind (query_task (find_user (lower_str email))) (\<lambda>found.
     (case found of None \<Rightarrow> t_raise (HTTPException 401 ''Invalid credentials'')
      | Some user \<Rightarrow>
          if \<not> al_verify_password lib password (ur_password_hash user) then t_raise (HTTPException 401 ''Invalid credentials'')
          else
            t_bind (t_lift (al_create_refresh_token lib)) (\<lambda>refresh.
            t_bind (t_lift (int_setting lib ''refresh_token_ttl_days'')) (\<lambda>ttl.
            t_bind (await (commit_insert (\<lambda>i. add_refresh_row (new_refresh_row lib now ttl (ur_id user) refresh fingerprint i)))) (\<lambda>i.
            t_bind (audit_task now (Some (ur_id user)) LOGIN ''session'' (Some (show_int i)) None ip) (\<lambda>_.
            t_lift (token_pair_for lib user refresh)))))))"

definition revoke_task :: "int \<Rightarrow> string \<Rightarrow> (tables, 'a) task" where
  "revoke_task i msg = t_bind (await (commit_change (revoke_row i))) (\<lambda>_. t_raise (HTTPException 401 msg))"

definition rotate_session_task :: "auth_lib \<Rightarrow> datetime \<Rightarrow> refresh_row \<Rightarrow> string \<Rightarrow> string option \<Rightarrow> (tables, auth_tokens) task" where
  "rotate_session_task lib now rt fingerprint ip =
     t_bind (query_task (get_user (rr_user_id rt))) (\<lambda>found.
     t_bind (t_lift (al_create_refresh_token lib)) (\<lambda>new_refresh.
     (case found of None \<Rightarrow> t_raise (AttributeError ''id'')
      | Some user \<Rightarrow>
          t_bind (t_lift (int_setting lib ''refresh_token_ttl_days'')) (\<lambda>ttl.
          t_bind (await (commit_insert (\<lambda>i t. add_refresh_row (new_refresh_row lib now ttl (ur_id user) new_refresh fingerprint i)
            (revoke_row (rr_id rt) t)))) (\<lambda>_.
          t_bind (audit_task now (Some (ur_id user)) TOKEN_REFRESH ''session'' None None ip) (\<lambda>_.
          t_lift (token_pair_for lib user new_refresh)))))))"

text \<open>\<open>refresh_checks\<close> is what a refresh does with the row it has found.\<close>

definition refresh_checks :: "auth_lib \<Rightarrow> datetime \<Rightarrow> string \<Rightarrow> string option \<Rightarrow> refresh_row option \<Rightarrow> (tables, auth_tokens) task" where
  "refresh_checks lib now fingerprint ip found =
     (case found of None \<Rightarrow> t_raise (HTTPException 401 ''Invalid refresh token'')
      | Some rt \<Rightarrow>
          t_bind (t_lift (py_less (loaded lib (rr_expires_at rt)) (Naive now))) (\<lambda>expired.
          if expired then revoke_task (rr_id rt) ''Refresh token expired''
          else
            t_bind (t_lift (py_minus (Naive now) (loaded lib (rr_last_activity_at rt)))) (\<lambda>idle.
            t_bind (t_lift (int_setting lib ''inactivity_timeout_minutes'')) (\<lambda>timeout.
            if of_int timeout < (of_int idle / 60000000 :: real) then revoke_task (rr_id rt) ''Session inactive''
            else if rr_device_fingerprint rt \<noteq> fingerprint then t_raise (HTTPException 401 ''Device mismatch'')
            else rotate_session_task lib now rt fingerprint ip))))"

definition refresh_task :: "auth_lib \<Rightarrow> datetime \<Rightarrow> string \<Rightarrow> string \<Rightarrow> string option \<Rightarrow> (tables, auth_tokens) task" where
  "refresh_task lib now token fingerprint ip =
     t_bind (query_task (find_refresh (al_hash_refresh_token lib token))) (refresh_checks lib now fingerprint ip)"

subsection \<open>A request alone\<close>

text \<open>Cut at its queries and commits, a request that runs alone is the request on a session of its own.\<close>

lemma with_session_query:
  "with_session (io_bind (db_query f) k) = io_bind (io_get f) (\<lambda>a. with_session (k a))"
  by (simp add: fun_eq_iff with_session_def io_bind_def io_simps db_query_run)

lemma with_session_raise: "with_session (io_raise e) = io_raise e"
  by (simp add: fun_eq_iff with_session_def io_simps)

lemma with_session_return: "with_session (io_return a) = io_return a"
  by (simp add: fun_eq_iff with_session_def io_simps)

lemma with_session_lift: "with_session (io_lift r) = io_lift r"
  by (cases r) (simp_all add: fun_eq_iff with_session_def io_simps)

lemma with_session_lift_bind: "with_session (io_bind (io_lift r) k) = io_bind (io_lift r) (\<lambda>a. with_session (k a))"
  by (cases r) (simp_all add: fun_eq_iff with_session_def io_simps)

lemma with_session_insert:
  "with_session (io_bind (db_insert f) (\<lambda>i. io_bind db_commit (\<lambda>_. k i))) = io_bind (commit_insert f) (\<lambda>i. with_session (k i))"
  by (rule ext) (simp add: with_session_def io_bind_def db_insert_run db_commit_def commit_insert_def Let_def open_session_def)

lemma with_session_change:
  "with_session (io_bind (db_change f) (\<lambda>_. io_bind db_commit (\<lambda>_. k))) = io_bind (commit_change f) (\<lambda>_. with_session k)"
  by (rule ext) (simp add: with_session_def io_bind_def db_change_run db_commit_def commit_change_def open_session_def)

lemmas session_runs = with_session_query with_session_raise with_session_return with_session_lift with_session_lift_bind
  with_session_insert with_session_change

lemma run_query [task_runs]: "run_task (query_task f) = io_get f"
  by (simp add: query_task_def task_runs)

lemma run_audit [task_runs]:
  "io_bind (run_task (audit_task now u a rt rid d ip)) (\<lambda>_. with_session k) = with_session (io_bind (record_audit now u a rt rid d ip) (\<lambda>_. k))"
  by (rule ext) (simp add: audit_task_def task_runs record_audit_def with_session_def io_bind_def db_insert_run db_commit_def
      commit_insert_def Let_def open_session_def)

lemma if_with_session: "with_session (if b then m else n) = (if b then with_session m else with_session n)"
  by simp

lemma option_with_session: "with_session (case x of None \<Rightarrow> m | Some a \<Rightarrow> n a) = (case x of None \<Rightarrow> with_session m | Some a \<Rightarrow> with_session (n a))"
  by (cases x) simp_all

lemma run_register: "run_task (register_task lib now email password) = with_session (register_user lib now email password)"
  unfolding register_task_def register_user_def
  by (simp only: task_runs session_runs if_with_session flip: run_audit cong: if_cong)

lemma run_login: "run_task (login_task lib now email password fp ip) = with_session (login lib now email password fp ip)"
  unfolding login_task_def login_def
  by (simp only: task_runs session_runs if_with_session option_with_session flip: run_audit cong: if_cong option.case_cong)

lemma run_revoke [task_runs]: "run_task (revoke_task i msg) = with_session (revoke_and_fail i msg)"
  unfolding revoke_task_def revoke_and_fail_def by (simp only: task_runs session_runs)

lemma run_rotate_session [task_runs]: "run_task (rotate_session_task lib now rt fp ip) = with_session (rotate_session lib now rt fp ip)"
proof (rule ext)
  fix t
  let ?row = "\<lambda>ttl u new i. new_refresh_row lib now ttl u new fp i"
  have revoked: "tb_next (revoke_row i t) = tb_next t" for i by (simp add: revoke_row_def)
  have get: "io_bind (io_get f) k t = k (f t) t" for f :: "tables \<Rightarrow> 'c" and k :: "'c \<Rightarrow> (tables, 'd) io"
    by (simp add: io_simps)
  have lift: "io_bind (io_lift (Inr a)) k = k a" for a :: 'c and k :: "'c \<Rightarrow> (tables, 'd) io"
    by (simp add: fun_eq_iff io_simps)
  show "run_task (rotate_session_task lib now rt fp ip) t = with_session (rotate_session lib now rt fp ip) t"
  proof (cases "al_create_refresh_token lib")
    case (Inl e)
    then show ?thesis
      by (simp add: rotate_session_task_def rotate_session_def task_runs with_session_def io_simps db_query_run db_change_run)
  next
    case (Inr new)
    show ?thesis
    proof (cases "get_user (rr_user_id rt) t")
      case None
      with Inr show ?thesis
        by (simp add: rotate_session_task_def rotate_session_def task_runs with_session_def io_simps db_query_run db_change_run)
    next
      case (Some user)
      let ?audit = "\<lambda>k. with_session (io_bind (record_audit now (Some (ur_id user)) TOKEN_REFRESH ''session'' None None ip) k)"
      let ?rest = "\<lambda>_. io_lift (token_pair_for lib user new)"
      have "run_task (rotate_session_task lib now rt fp ip) t =
          io_bind (io_lift (int_setting lib ''refresh_token_ttl_days'')) (\<lambda>ttl.
          io_bind (commit_insert (\<lambda>i t. add_refresh_row (?row ttl (ur_id user) new i) (revoke_row (rr_id rt) t))) (\<lambda>_. ?audit ?rest)) t"
        unfolding rotate_session_task_def by (simp only: task_runs get lift Inr Some option.case with_session_lift flip: run_audit)
      also have "\<dots> = with_session (rotate_session lib now rt fp ip) t"
        using Inr Some revoked
        by (cases "int_setting lib ''refresh_token_ttl_days''")
           (simp_all add: rotate_session_def with_session_def io_bind_def io_lift_def db_query_run db_change_run db_insert_run db_commit_def
             commit_insert_def Let_def open_session_def)
      finally show ?thesis .
    qed
  qed
qed

lemma run_refresh: "run_task (refresh_task lib now token fp ip) = with_session (refresh_tokens lib now token fp ip)"
  unfolding refresh_task_def refresh_checks_def refresh_tokens_def
  by (simp only: task_runs session_runs if_with_session option_with_session cong: if_cong option.case_cong)

theorem requests_alone:
  "run_task (register_task lib now email password) = with_session (register_user lib now email password) \<and>
   run_task (login_task lib now email password fp ip) = with_session (login lib now email password fp ip) \<and>
   run_task (refresh_task lib now token fp ip) = with_session (refresh_tokens lib now token fp ip)"
  by (simp add: run_register run_login run_refresh)

subsection \<open>Two refreshes of one token\<close>

text \<open>
  What follows the query of a refresh does not look at the row again: it succeeds for a row that was
  read in good order, even when another request has revoked it since.
\<close>

lemma checks_run:
  assumes ok: "tables_ok t" and lib: "working_lib lib new ttl timeout"
    and user: "rr_user_id rt \<in> ur_id ` set (tb_users t)" and width: "length (rr_device_fingerprint rt) \<le> 256"
    and fresh: "now \<le> rr_expires_at rt" "now - rr_last_activity_at rt \<le> timeout * 60000000"
  shows "\<exists>a p. run_task (refresh_checks lib now (rr_device_fingerprint rt) ip (Some rt)) t =
    (Inr p, with_audit a (rotated lib now ttl new rt t)) \<and> at_refresh_token p = new \<and> tables_ok (with_audit a (rotated lib now ttl new rt t))"
proof -
  have idle: "\<not> (of_int timeout < (of_int (now - rr_last_activity_at rt) / 60000000 :: real))"
  proof -
    have "(of_int (now - rr_last_activity_at rt) :: real) \<le> of_int (timeout * 60000000)" using fresh(2) by (simp only: of_int_le_iff)
    then show ?thesis by (simp add: not_less divide_le_eq)
  qed
  have "run_task (refresh_checks lib now (rr_device_fingerprint rt) ip (Some rt)) t =
      with_session (rotate_session lib now rt (rr_device_fingerprint rt) ip) t"
    using lib fresh(1) idle
    by (simp add: refresh_checks_def working_lib_def loaded_def task_runs io_bind_def io_lift_def)
  with rotate_session_known [OF ok lib user width, of now ip] show ?thesis by (auto simp: with_session_def)
qed

lemma rotated_tables [simp]:
  "tb_users (rotated lib now ttl new rt t) = tb_users t"
  "tb_refresh_tokens (rotated lib now ttl new rt t) = tb_refresh_tokens (revoke_row (rr_id rt) t) @
     [new_refresh_row lib now ttl (rr_user_id rt) new (rr_device_fingerprint rt) (tb_next t)]"
  by (simp_all add: rotated_def add_refresh_row_def revoke_row_def)

text \<open>Some live session has the token hash.\<close>

definition live_session :: "string \<Rightarrow> tables \<Rightarrow> bool" where
  "live_session h t = (find_refresh h t \<noteq> None)"

lemma live_session_iff: "live_session h t \<longleftrightarrow> (\<exists>r\<in>set (tb_refresh_tokens t). rr_token_hash r = h \<and> \<not> rr_revoked r)"
  by (auto simp: live_session_def find_refresh_def find_None_iff)

text \<open>
  A refresh token is used once only by requests that do not overlap: two refreshes of one live token
  by its device can be interleaved so that both get a new pair, and both new sessions are live.
\<close>

theorem concurrent_refreshes_both_succeed:
  assumes ok: "tables_ok t" and lib1: "working_lib lib1 new1 ttl timeout" and lib2: "working_lib lib2 new2 ttl timeout"
    and rt: "find_refresh (al_hash_refresh_token lib1 token) t = Some rt" and same: "al_hash_refresh_token lib2 = al_hash_refresh_token lib1"
    and now1: "now1 \<le> rr_expires_at rt" "now1 - rr_last_activity_at rt \<le> timeout * 60000000"
    and now2: "now2 \<le> rr_expires_at rt" "now2 - rr_last_activity_at rt \<le> timeout * 60000000"
  shows "\<exists>sch t' p1 p2. run_schedule sch ([refresh_task lib1 now1 token (rr_device_fingerprint rt) ip1,
        refresh_task lib2 now2 token (rr_device_fingerprint rt) ip2], t) = ([Done (Inr p1), Done (Inr p2)], t') \<and>
    at_refresh_token p1 = new1 \<and> at_refresh_token p2 = new2 \<and>
    live_session (al_hash_refresh_token lib1 new1) t' \<and> live_session (al_hash_refresh_token lib2 new2) t'"
proof -
  let ?fp = "rr_device_fingerprint rt"
  let ?A = "refresh_task lib1 now1 token ?fp ip1" and ?B = "refresh_task lib2 now2 token ?fp ip2"
  let ?cA = "refresh_checks lib1 now1 ?fp ip1 (Some rt)" and ?cB = "refresh_checks lib2 now2 ?fp ip2 (Some rt)"
  have row: "rr_user_id rt \<in> ur_id ` set (tb_users t)" "length ?fp \<le> 256" "rr_id rt < tb_next t"
    using ok find_refresh_Some [OF rt] by (auto simp: tables_ok_def list_all_iff ids_ok_def)
  obtain a1 p1 where A: "run_task ?cA t = (Inr p1, with_audit a1 (rotated lib1 now1 ttl new1 rt t))" "at_refresh_token p1 = new1"
    and ok1: "tables_ok (with_audit a1 (rotated lib1 now1 ttl new1 rt t))"
    using checks_run [OF ok lib1 row(1,2) now1, of ip1] by auto
  let ?t1 = "with_audit a1 (rotated lib1 now1 ttl new1 rt t)"
  obtain a2 p2 where B: "run_task ?cB ?t1 = (Inr p2, with_audit a2 (rotated lib2 now2 ttl new2 rt ?t1))" "at_refresh_token p2 = new2"
    using checks_run [OF ok1 lib2 _ row(2) now2, of ip2] row(1) by auto
  let ?t2 = "with_audit a2 (rotated lib2 now2 ttl new2 rt ?t1)"
  have read: "run_task (query_task (find_refresh (al_hash_refresh_token lib1 token))) t = (Inr (Some rt), t)"
    using rt by (simp add: task_runs io_simps)
  obtain n1 where 1: "run_schedule (replicate n1 0) ([?A, ?B], t) = ([?cA, ?B], t)"
    using run_prefix [of 0 "[?A, ?B]" "query_task (find_refresh (al_hash_refresh_token lib1 token))" "refresh_checks lib1 now1 ?fp ip1" t] read
    by (auto simp: refresh_task_def)
  obtain n2 where 2: "run_schedule (replicate n2 1) ([?cA, ?B], t) = ([?cA, ?cB], t)"
    using run_prefix [of 1 "[?cA, ?B]" "query_task (find_refresh (al_hash_refresh_token lib1 token))" "refresh_checks lib2 now2 ?fp ip2" t] read
    by (auto simp: refresh_task_def same)
  obtain n3 where 3: "run_schedule (replicate n3 0) ([?cA, ?cB], t) = ([Done (Inr p1), ?cB], ?t1)"
    using run_alone [of 0 "[?cA, ?cB]" t] A by auto
  obtain n4 where 4: "run_schedule (replicate n4 1) ([Done (Inr p1), ?cB], ?t1) = ([Done (Inr p1), Done (Inr p2)], ?t2)"
    using run_alone [of 1 "[Done (Inr p1), ?cB]" ?t1] B by auto
  from 1 2 3 4 have run: "run_schedule (replicate n1 0 @ replicate n2 1 @ replicate n3 0 @ replicate n4 1) ([?A, ?B], t) =
      ([Done (Inr p1), Done (Inr p2)], ?t2)"
    by (simp only: run_schedule_append)
  have "live_session (al_hash_refresh_token lib1 new1) ?t2" "live_session (al_hash_refresh_token lib2 new2) ?t2"
    using row(3) by (auto simp: live_session_iff revoke_row_def new_refresh_row_def)
  with run A(2) B(2) show ?thesis by blast
qed

subsection \<open>Any requests beside each other\<close>

text \<open>A request with what it draws and reads by itself: the clock and the random token.\<close>

datatype account_request =
    RegisterRequest datetime string string
  | LoginRequest string datetime string string string "string option"
  | RefreshRequest string datetime string string "string option"

definition request_task :: "auth_lib \<Rightarrow> account_request \<Rightarrow> (tables, user_row option) task" where
  "request_task lib r = (case r of
     RegisterRequest now email password \<Rightarrow> t_bind (register_task lib now email password) (\<lambda>u. t_return (Some u))
   | LoginRequest new now email password fp ip \<Rightarrow>
       t_bind (login_task (lib\<lparr>al_create_refresh_token := Inr new\<rparr>) now email password fp ip) (\<lambda>_. t_return None)
   | RefreshRequest new now token fp ip \<Rightarrow>
       t_bind (refresh_task (lib\<lparr>al_create_refresh_token := Inr new\<rparr>) now token fp ip) (\<lambda>_. t_return None))"

text \<open>
  Every command keeps the schema, and \<open>adds ou\<close> says what a request does to the users: it adds at most one
  user, and answers with it or with none; \<open>ou\<close> is the user it has added so far.
\<close>

definition schema_kept :: "tables \<Rightarrow> tables \<Rightarrow> bool" where
  "schema_kept t t' = (tables_ok t \<longrightarrow> tables_ok t')"

interpretation schema: interference schema_kept
  by unfold_locales (auto simp: schema_kept_def)

primrec adds :: "user_row option \<Rightarrow> (tables, user_row option) task \<Rightarrow> bool" where
  "adds ou (Done r) = (\<forall>u. r = Inr (Some u) \<longrightarrow> ou = Some u)"
| "adds ou (Act f g) = (\<forall>t. (tb_users (f t) = tb_users t \<and> adds ou (g t)) \<or>
     (ou = None \<and> (\<exists>u. tb_users (f t) = tb_users t @ [u] \<and> adds (Some u) (g t))))"

definition users_same :: "tables \<Rightarrow> tables \<Rightarrow> bool" where
  "users_same t t' = (tb_users t' = tb_users t)"

lemma adds_none: "guarantees users_same m \<Longrightarrow> adds ou (t_bind m (\<lambda>_. t_return None))"
  by (induction m) (auto simp: users_same_def t_return_def split: sum.split)

lemma adds_some: "guarantees users_same m \<Longrightarrow> adds (Some u) (t_bind m (\<lambda>_. t_return (Some u)))"
  by (induction m) (auto simp: users_same_def t_return_def split: sum.split)

lemma guarantees_option [guar]:
  "(\<And>a. x = Some a \<Longrightarrow> guarantees R (u a)) \<Longrightarrow> (x = None \<Longrightarrow> guarantees R t) \<Longrightarrow> guarantees R (case x of None \<Rightarrow> t | Some a \<Rightarrow> u a)"
  by (cases x) simp_all

lemma commit_insert_keeps: "schema_kept t (snd (commit_insert f t))"
  by (simp add: schema_kept_def commit_insert_def Let_def)

lemma commit_change_keeps: "schema_kept t (snd (commit_change f t))"
  by (simp add: schema_kept_def commit_change_def)

lemma commit_insert_same: "(\<And>i t. tb_users (f i t) = tb_users t) \<Longrightarrow> users_same t (snd (commit_insert f t))"
  by (simp add: users_same_def commit_insert_def Let_def)

lemma commit_change_same: "(\<And>t. tb_users (f t) = tb_users t) \<Longrightarrow> users_same t (snd (commit_change f t))"
  by (simp add: users_same_def commit_change_def)

lemma query_same: "users_same t (snd (io_get f t))" "schema_kept t (snd (io_get f t))"
  by (simp_all add: users_same_def schema_kept_def io_simps)

lemma request_schema: "guarantees schema_kept (request_task lib r)"
proof -
  have "guarantees schema_kept (register_task lib now email password)" for now email password
    unfolding register_task_def query_task_def audit_task_def by (intro guar query_same commit_insert_keeps)
  moreover have "guarantees schema_kept (login_task lib now email password fp ip)" for lib now email password fp ip
    unfolding login_task_def query_task_def audit_task_def by (intro guar query_same commit_insert_keeps)
  moreover have "guarantees schema_kept (refresh_task lib now token fp ip)" for lib now token fp ip
    unfolding refresh_task_def refresh_checks_def revoke_task_def rotate_session_task_def query_task_def audit_task_def
    by (intro guar query_same commit_insert_keeps commit_change_keeps)
  ultimately show ?thesis unfolding request_task_def by (cases r) (simp_all add: guar)
qed

lemma add_refresh_users [simp]: "tb_users (add_refresh_row r t) = tb_users t" "tb_users (revoke_row i t) = tb_users t"
  by (simp_all add: add_refresh_row_def revoke_row_def)

lemma audit_same: "guarantees users_same (audit_task now u a rt rid d ip)"
  unfolding audit_task_def by (intro guar commit_insert_same) simp

lemma login_same: "guarantees users_same (login_task lib now email password fp ip)"
  unfolding login_task_def query_task_def by (intro guar query_same commit_insert_same audit_same) simp_all

lemma refresh_same: "guarantees users_same (refresh_task lib now token fp ip)"
  unfolding refresh_task_def refresh_checks_def revoke_task_def rotate_session_task_def query_task_def
  by (intro guar query_same commit_insert_same commit_change_same audit_same) simp_all

lemma request_adds: "adds None (request_task lib r)"
proof (cases r)
  case (RegisterRequest now email password)
  have "adds (Some (new_user lib now email password i)) (t_bind (audit_task now (Some i) SETTINGS_CHANGED ''user'' (Some (show_int i))
      (Some [(''event'', PStr ''register'')]) None) (\<lambda>_. t_return (Some (new_user lib now email password i))))" for i
    by (rule adds_some [OF audit_same])
  then show ?thesis
    by (auto simp: RegisterRequest request_task_def register_task_def query_task_def t_bind_assoc t_bind_await io_simps
        commit_insert_def Let_def t_raise_def)
next
  case (LoginRequest new now email password fp ip)
  then show ?thesis by (simp add: request_task_def adds_none login_same)
next
  case (RefreshRequest new now token fp ip)
  then show ?thesis by (simp add: request_task_def adds_none refresh_same)
qed

text \<open>
  The invariant of a pool: \<open>ghost ! i\<close> is the user that request \<open>i\<close> has added. They are in the table,
  and no two requests have added the same.
\<close>

definition registered :: "user_row option list \<Rightarrow> (tables, user_row option) pool \<Rightarrow> bool" where
  "registered ghost p = (length ghost = length (fst p) \<and> tables_ok (snd p) \<and>
     (\<forall>i<length ghost. adds (ghost ! i) (fst p ! i)) \<and>
     (\<forall>i<length ghost. \<forall>u. ghost ! i = Some u \<longrightarrow> u \<in> set (tb_users (snd p))) \<and>
     (\<forall>i<length ghost. \<forall>j<length ghost. \<forall>u v. i \<noteq> j \<longrightarrow> ghost ! i = Some u \<longrightarrow> ghost ! j = Some v \<longrightarrow> ur_id u \<noteq> ur_id v))"

lemma registered_step:
  assumes reg: "registered ghost (ts, t)" and i: "i < length ts" "ts ! i = Act f g" and ok: "tables_ok (f t)"
  shows "\<exists>ghost'. registered ghost' (ts[i := g t], f t)"
proof -
  have "i < length ghost" "\<forall>i<length ghost. adds (ghost ! i) (ts ! i)" using reg i(1) by (simp_all add: registered_def)
  then have "adds (ghost ! i) (Act f g)" using i(2) by metis
  then consider (same) "tb_users (f t) = tb_users t" "adds (ghost ! i) (g t)"
    | (add) u where "ghost ! i = None" "tb_users (f t) = tb_users t @ [u]" "adds (Some u) (g t)"
    by auto
  then show ?thesis
  proof cases
    case same
    then have "registered ghost (ts[i := g t], f t)" using reg ok i(1) by (auto simp: registered_def nth_list_update)
    then show ?thesis ..
  next
    case add
    have new: "ur_id v \<noteq> ur_id u" if "v \<in> set (tb_users t)" for v
    proof -
      have "ur_id u \<notin> ur_id ` set (tb_users t)" using ok add(2) by (simp add: tables_ok_def ids_ok_def)
      then show ?thesis using that by (metis image_eqI)
    qed
    have known: "v \<in> set (tb_users t)" if "j < length ts" "ghost ! j = Some v" for j v
      using reg that by (auto simp: registered_def)
    have apart: "ur_id v \<noteq> ur_id u" "ur_id u \<noteq> ur_id v" if "j < length ts" "ghost ! j = Some v" for j v
      using new [OF known [OF that]] by simp_all
    have "registered (ghost[i := Some u]) (ts[i := g t], f t)"
      using reg i ok add(2,3) unfolding registered_def
      by (auto simp: nth_list_update known apart)
    then show ?thesis ..
  qed
qed

lemma registered_always:
  assumes "sched_step\<^sup>*\<^sup>* (map (request_task lib) rs, t) q" and "tables_ok t"
  shows "\<exists>ghost. registered ghost q"
  using assms(1)
proof (induction rule: rtranclp_induct)
  case base
  show ?case
    by (rule exI [of _ "replicate (length rs) None"]) (simp add: registered_def assms(2) request_adds)
next
  case (step q r)
  then obtain ghost where reg: "registered ghost q" by blast
  have "list_all (\<lambda>u. keeps_within schema_kept u t) (map (request_task lib) rs)"
    by (simp add: list_all_iff schema.guarantees_keeps_within request_schema)
  moreover have "sched_step\<^sup>*\<^sup>* (map (request_task lib) rs, t) r" using step.hyps by simp
  ultimately have "schema_kept t (snd r)" using schema.pool_keeps by fastforce
  then have ok: "tables_ok (snd r)" using assms(2) by (simp add: schema_kept_def)
  from step.hyps(2) reg ok show ?case by cases (use registered_step in auto)
qed

text \<open>
  C21. An address is registered once. However registrations, logins and refreshes are interleaved, the schema
  is kept, every registration that answers has its user in the table, and no two of them
  have the same address: the check before the insertion can be passed by several, but the unique
  column lets only one of them commit.
\<close>

theorem address_registered_once:
  assumes "tables_ok t" and "sched_step\<^sup>*\<^sup>* (map (request_task lib) rs, t) (us, t')"
  shows "tables_ok t' \<and>
    (\<forall>i<length rs. \<forall>u. us ! i = Done (Inr (Some u)) \<longrightarrow> u \<in> set (tb_users t')) \<and>
    (\<forall>i<length rs. \<forall>j<length rs. \<forall>u v. i \<noteq> j \<longrightarrow> us ! i = Done (Inr (Some u)) \<longrightarrow> us ! j = Done (Inr (Some v)) \<longrightarrow>
       ur_email u \<noteq> ur_email v)"
proof -
  obtain ghost where reg: "registered ghost (us, t')" using registered_always [OF assms(2,1)] by blast
  have len: "length us = length rs" using schema.pool_keeps [OF assms(2)] request_schema
    by (simp add: list_all_iff schema.guarantees_keeps_within)
  have glen: "length ghost = length rs" using reg len by (simp add: registered_def)
  have ghost: "ghost ! i = Some u" if "i < length rs" "us ! i = Done (Inr (Some u))" for i u
  proof -
    have "adds (ghost ! i) (us ! i)" using reg that(1) glen by (simp add: registered_def)
    then show ?thesis using that(2) by simp
  qed
  have table: "u \<in> set (tb_users t')" if "i < length rs" "us ! i = Done (Inr (Some u))" for i u
    using reg ghost [OF that] that(1) glen by (auto simp: registered_def)
  have ids: "ur_id u \<noteq> ur_id v" if "i < length rs" "us ! i = Done (Inr (Some u))" "j < length rs" "us ! j = Done (Inr (Some v))" "i \<noteq> j" for i j u v
    using reg ghost [OF that(1,2)] ghost [OF that(3,4)] that(1,3,5) glen unfolding registered_def by simp
  have "ur_email u \<noteq> ur_email v" if "u \<in> set (tb_users t')" "v \<in> set (tb_users t')" "ur_id u \<noteq> ur_id v" for u v
  proof
    assume "ur_email u = ur_email v"
    moreover have "inj_on ur_email (set (tb_users t'))" using reg by (simp add: registered_def tables_ok_def distinct_map)
    ultimately show False using that by (auto dest: inj_onD)
  qed
  with table ids have "ur_email u \<noteq> ur_email v" if "i < length rs" "us ! i = Done (Inr (Some u))" "j < length rs" "us ! j = Done (Inr (Some v))" "i \<noteq> j" for i j u v
    using that by metis
  moreover have "tables_ok t'" using reg by (simp add: registered_def)
  ultimately show ?thesis using table by blast
qed

lemma add_user_ok:
  assumes "tables_ok t" and "ur_id u = tb_next t" and "ur_email u \<notin> ur_email ` set (tb_users t)" and "length (ur_email u) \<le> 320"
  shows "tables_ok (t\<lparr>tb_users := tb_users t @ [u], tb_next := tb_next t + 1\<rparr>)"
proof -
  have "pred_option (\<lambda>x. x \<in> insert a A) o'" if "pred_option (\<lambda>x. x \<in> A) o'" for a A and o' :: "int option"
    using that by (cases o') auto
  then show ?thesis
    using assms unfolding tables_ok_def by (auto simp: ids_ok_add list_all_iff intro: ids_ok_later)
qed

lemma register_commits:
  assumes ok: "tables_ok t" and free: "find_user (lower_str email) t = None" and width: "length (lower_str email) \<le> 320"
  shows "\<exists>u t1. run_task (t_bind (await (commit_insert (\<lambda>i t. t\<lparr>tb_users := tb_users t @ [new_user lib now email password i]\<rparr>))) (\<lambda>i.
       t_bind (audit_task now (Some i) SETTINGS_CHANGED ''user'' (Some (show_int i)) (Some [(''event'', PStr ''register'')]) None) (\<lambda>_.
       t_return (new_user lib now email password i)))) t = (Inr u, t1) \<and> tables_ok t1 \<and> lower_str email \<in> ur_email ` set (tb_users t1)"
proof -
  let ?u = "new_user lib now email password (tb_next t)"
  let ?t1 = "t\<lparr>tb_users := tb_users t @ [?u], tb_next := tb_next t + 1\<rparr>"
  let ?a = "audit_entry now (Some (tb_next t)) SETTINGS_CHANGED ''user'' (Some (show_int (tb_next t))) (Some [(''event'', PStr ''register'')]) None (tb_next ?t1)"
  have "tables_ok ?t1"
    by (rule add_user_ok [OF ok]) (use free width in \<open>auto simp: new_user_def find_user_def find_None_iff\<close>)
  moreover from this have "tables_ok (with_audit ?a ?t1)"
    by (rule with_audit_ok) (auto simp: audit_entry_def new_user_def)
  ultimately have "run_task (t_bind (await (commit_insert (\<lambda>i t. t\<lparr>tb_users := tb_users t @ [new_user lib now email password i]\<rparr>))) (\<lambda>i.
       t_bind (audit_task now (Some i) SETTINGS_CHANGED ''user'' (Some (show_int i)) (Some [(''event'', PStr ''register'')]) None) (\<lambda>_.
       t_return (new_user lib now email password i)))) t = (Inr ?u, with_audit ?a ?t1) \<and> tables_ok (with_audit ?a ?t1)"
    by (simp add: task_runs audit_task_def io_bind_def io_return_def commit_insert_def Let_def with_audit_def)
  then show ?thesis by (intro exI conjI) (auto simp: new_user_def)
qed

text \<open>
  The registration that loses the race is not answered with the conflict of a registered address:
  its commit raises the database's error, which no handler of the application catches.
\<close>

theorem losing_registration_fails:
  assumes ok: "tables_ok t" and free: "find_user (lower_str email) t = None" and width: "length (lower_str email) \<le> 320"
  shows "\<exists>sch u t'. run_schedule sch ([register_task lib now1 email password1, register_task lib now2 email password2], t) =
    ([Done (Inr u), Done (Inl (OtherException ''DBAPIError''))], t')"
proof -
  let ?rest = "\<lambda>now password. t_bind (await (commit_insert (\<lambda>i t. t\<lparr>tb_users := tb_users t @ [new_user lib now email password i]\<rparr>))) (\<lambda>i.
       t_bind (audit_task now (Some i) SETTINGS_CHANGED ''user'' (Some (show_int i)) (Some [(''event'', PStr ''register'')]) None) (\<lambda>_.
       t_return (new_user lib now email password i)))"
  let ?k = "\<lambda>now password (found :: user_row option). if found \<noteq> None then t_raise (HTTPException 409 ''Email already registered'') else ?rest now password"
  let ?A = "register_task lib now1 email password1" and ?B = "register_task lib now2 email password2"
  let ?q = "query_task (find_user (lower_str email))"
  have A: "?A = t_bind ?q (?k now1 password1)" and B: "?B = t_bind ?q (?k now2 password2)" by (simp_all add: register_task_def)
  have read: "run_task ?q t = (Inr None, t)" using free by (simp add: task_runs io_simps)
  obtain n1 where 1: "run_schedule (replicate n1 0) ([?A, ?B], t) = ([?rest now1 password1, ?B], t)"
    using run_prefix [of 0 "[?A, ?B]" ?q "?k now1 password1" t] read A by auto
  obtain n2 where 2: "run_schedule (replicate n2 1) ([?rest now1 password1, ?B], t) = ([?rest now1 password1, ?rest now2 password2], t)"
    using run_prefix [of 1 "[?rest now1 password1, ?B]" ?q "?k now2 password2" t] read B by auto
  obtain u t1 where first: "run_task (?rest now1 password1) t = (Inr u, t1)" and ok1: "tables_ok t1"
    and taken: "lower_str email \<in> ur_email ` set (tb_users t1)"
    using register_commits [OF ok free width] by blast
  have second: "run_task (?rest now2 password2) t1 = (Inl (OtherException ''DBAPIError''), t1)"
  proof -
    have "\<not> tables_ok (t1\<lparr>tb_users := tb_users t1 @ [new_user lib now2 email password2 (tb_next t1)], tb_next := tb_next t1 + 1\<rparr>)"
      using taken by (simp add: tables_ok_def new_user_def)
    then show ?thesis by (simp add: task_runs io_bind_def commit_insert_def Let_def)
  qed
  obtain n3 where 3: "run_schedule (replicate n3 0) ([?rest now1 password1, ?rest now2 password2], t) = ([Done (Inr u), ?rest now2 password2], t1)"
    using run_alone [of 0 "[?rest now1 password1, ?rest now2 password2]" t] first by auto
  obtain n4 where 4: "run_schedule (replicate n4 1) ([Done (Inr u), ?rest now2 password2], t1) =
      ([Done (Inr u), Done (Inl (OtherException ''DBAPIError''))], t1)"
    using run_alone [of 1 "[Done (Inr u), ?rest now2 password2]" t1] second by auto
  from 1 2 3 4 have "run_schedule (replicate n1 0 @ replicate n2 1 @ replicate n3 0 @ replicate n4 1) ([?A, ?B], t) =
      ([Done (Inr u), Done (Inl (OtherException ''DBAPIError''))], t1)"
    by (simp only: run_schedule_append)
  then show ?thesis by blast
qed

subsection \<open>Witnesses\<close>

theorem concurrent_refreshes_both_succeed_witness:
  "\<exists>sch t' p1 p2. run_schedule sch ([refresh_task demo_lib 500 ''old'' ''device-1'' None,
      refresh_task (demo_lib\<lparr>al_create_refresh_token := Inr ''other''\<rparr>) 501 ''old'' ''device-1'' None], demo_accounts) =
      ([Done (Inr p1), Done (Inr p2)], t') \<and> at_refresh_token p1 = ''new'' \<and> at_refresh_token p2 = ''other''"
proof -
  have lib2: "working_lib (demo_lib\<lparr>al_create_refresh_token := Inr ''other''\<rparr>) ''other'' 30 30"
    by (simp add: working_lib_def demo_lib_def int_setting_def sum_bind_def)
  have "al_hash_refresh_token (demo_lib\<lparr>al_create_refresh_token := Inr ''other''\<rparr>) = al_hash_refresh_token demo_lib" by simp
  from concurrent_refreshes_both_succeed [OF demo_accounts_ok lib2 demo_find this, of 500 501 None None]
  show ?thesis by auto
qed

theorem address_registered_once_witness:
  "\<exists>us t'. sched_step\<^sup>*\<^sup>* (map (request_task demo_lib) [RegisterRequest 5 ''N@b.c'' ''pw1'', RegisterRequest 6 ''n@b.c'' ''pw2''], demo_accounts)
      (us, t') \<and> tables_ok t' \<and> (\<forall>u v. us ! 0 = Done (Inr (Some u)) \<longrightarrow> us ! 1 = Done (Inr (Some v)) \<longrightarrow> ur_email u \<noteq> ur_email v)"
proof -
  let ?p = "(map (request_task demo_lib) [RegisterRequest 5 ''N@b.c'' ''pw1'', RegisterRequest 6 ''n@b.c'' ''pw2''], demo_accounts)"
  obtain us t' where q: "run_schedule [0, 1, 0, 1, 0, 1] ?p = (us, t')" by fastforce
  have steps: "sched_step\<^sup>*\<^sup>* ?p (us, t')" using run_schedule_steps [of ?p "[0, 1, 0, 1, 0, 1]"] by (simp only: q)
  from address_registered_once [OF demo_accounts_ok(1) steps]
  have "tables_ok t'" "\<forall>u v. us ! 0 = Done (Inr (Some u)) \<longrightarrow> us ! 1 = Done (Inr (Some v)) \<longrightarrow> ur_email u \<noteq> ur_email v"
    by (simp_all only: list.size) (metis One_nat_def Suc_lessI add.right_neutral add_Suc_right lessI zero_less_Suc zero_neq_one)
  with steps show ?thesis by blast
qed

end
