(* ===== verification/Model_Registry.thy ===== *)
theory Model_Registry
  imports Prelude
begin

text \<open>
  The model registry (\<^verbatim>\<open>ml_service/src/registry/manager.py\<close>) and the endpoints of the service
  around it (\<^verbatim>\<open>ml_service/src/app.py\<close>). The registry is the dictionary of models by id; an
  operation that changes attributes of a model object changes its entry. Random identifiers and
  clock readings are arguments. In the drift report the two numpy histogram functions are
  parameters.
\<close>

subsection \<open>Models\<close>

record model =
  m_id :: string
  m_name :: pyval
  m_version :: int
  m_description :: pyval
  m_status :: string
  m_stage :: string
  m_model_type :: pyval
  m_framework :: pyval
  m_artifact_path :: pyval
  m_metrics :: pyval
  m_parameters :: pyval
  m_features :: pyval
  m_targets :: pyval
  m_training_start :: "datetime option"
  m_training_end :: "datetime option"
  m_trained_at :: "datetime option"
  m_approved_at :: "datetime option"
  m_approved_by :: pyval
  m_rejected_at :: "datetime option"
  m_rejected_reason :: pyval
  m_deployed_at :: "datetime option"
  m_deployed_by :: pyval
  m_performance_metrics :: pydict
  m_created_at :: datetime
  m_created_by :: pyval

type_synonym registry = "(string \<times> model) list"

subsection \<open>Promotion gates\<close>

text \<open>\<open>metrics.get(k, dflt)\<close>: only a dictionary has \<open>get\<close>.\<close>

definition metric :: "pyval \<Rightarrow> string \<Rightarrow> pyval \<Rightarrow> exn + pyval" where
  "metric metrics k dflt = (case metrics of PDict d \<Rightarrow> Inr (dict_get d k dflt) | _ \<Rightarrow> Inl (AttributeError ''get''))"

definition metric_float :: "pyval \<Rightarrow> string \<Rightarrow> int \<Rightarrow> exn + real" where
  "metric_float metrics k dflt = sum_bind (metric metrics k (PInt dflt)) py_float"

definition gate_minimum_sharpe :: "pyval \<Rightarrow> exn + bool" where
  "gate_minimum_sharpe ms = sum_bind (metric_float ms ''sharpe'' 0) (\<lambda>x. Inr (x > 15/10))"

definition gate_maximum_drawdown :: "pyval \<Rightarrow> exn + bool" where
  "gate_maximum_drawdown ms = sum_bind (metric_float ms ''max_drawdown'' 1) (\<lambda>x. Inr (x < 25/100))"

definition gate_minimum_win_rate :: "pyval \<Rightarrow> exn + bool" where
  "gate_minimum_win_rate ms = sum_bind (metric_float ms ''win_rate'' 0) (\<lambda>x. Inr (x > 55/100))"

definition gate_out_of_sample_consistency :: "pyval \<Rightarrow> exn + bool" where
  "gate_out_of_sample_consistency ms =
     sum_bind (metric_float ms ''in_sample_sharpe'' 0) (\<lambda>in_s.
     sum_bind (metric_float ms ''out_sample_sharpe'' 0) (\<lambda>out_s.
     Inr (if in_s > 0 then out_s > 7/10 * in_s else False)))"

definition gate_minimum_trades :: "pyval \<Rightarrow> exn + bool" where
  "gate_minimum_trades ms = sum_bind (sum_bind (metric ms ''trades'' (PInt 0)) py_int) (\<lambda>n. Inr (n \<ge> 100))"

text \<open>The list of the five results is built before \<open>all\<close> looks at it.\<close>

definition passes_gates :: "pyval \<Rightarrow> exn + bool" where
  "passes_gates ms = sum_bind (sum_list_results
     [gate_minimum_sharpe ms, gate_maximum_drawdown ms, gate_minimum_win_rate ms,
      gate_out_of_sample_consistency ms, gate_minimum_trades ms]) (\<lambda>rs. Inr (list_all (\<lambda>b. b) rs))"

subsection \<open>Operations\<close>

definition versions_of :: "pyval \<Rightarrow> registry \<Rightarrow> int list" where
  "versions_of name reg = map m_version (filter (\<lambda>m. m_name m = name) (map snd reg))"

definition next_version :: "pyval \<Rightarrow> registry \<Rightarrow> int" where
  "next_version name reg = (if versions_of name reg = [] then 1 else Max (set (versions_of name reg)) + 1)"

record register_args =
  ra_name :: pyval
  ra_model_type :: pyval
  ra_artifact_path :: pyval
  ra_metrics :: pyval
  ra_parameters :: pyval
  ra_features :: pyval
  ra_targets :: pyval
  ra_created_by :: pyval
  ra_description :: pyval
  ra_framework :: pyval

definition new_model :: "string \<Rightarrow> int \<Rightarrow> datetime \<Rightarrow> datetime \<Rightarrow> register_args \<Rightarrow> model" where
  "new_model uid version t1 t2 a =
     \<lparr>m_id = uid, m_name = ra_name a, m_version = version, m_description = ra_description a,
      m_status = ''development'', m_stage = ''development'', m_model_type = ra_model_type a,
      m_framework = ra_framework a, m_artifact_path = ra_artifact_path a, m_metrics = ra_metrics a,
      m_parameters = ra_parameters a, m_features = ra_features a, m_targets = ra_targets a,
      m_training_start = None, m_training_end = None, m_trained_at = Some t1, m_approved_at = None,
      m_approved_by = PNone, m_rejected_at = None, m_rejected_reason = PNone, m_deployed_at = None,
      m_deployed_by = PNone, m_performance_metrics = [], m_created_at = t2, m_created_by = ra_created_by a\<rparr>"

definition register :: "string \<Rightarrow> datetime \<Rightarrow> datetime \<Rightarrow> register_args \<Rightarrow> (registry, model) io" where
  "register uid t1 t2 a = io_bind (io_get (next_version (ra_name a))) (\<lambda>version.
     let model = new_model uid version t1 t2 a in
     io_bind (io_modify (AList.update (m_id model) model)) (\<lambda>_. io_return model))"

definition get_model :: "string \<Rightarrow> registry \<Rightarrow> model option" where
  "get_model i reg = map_of reg i"

definition get_models_by_name :: "pyval \<Rightarrow> registry \<Rightarrow> model list" where
  "get_models_by_name name reg = sort_key m_version (filter (\<lambda>m. m_name m = name) (map snd reg))"

definition get_production_model :: "pyval \<Rightarrow> registry \<Rightarrow> model option" where
  "get_production_model name reg =
     (let prod = filter (\<lambda>m. m_name m = name \<and> m_stage m = ''production'' \<and> m_status m = ''approved'') (map snd reg)
      in if prod = [] then None else Some (last (sort_key m_version prod)))"

definition stage_model :: "datetime \<Rightarrow> pyval \<Rightarrow> model \<Rightarrow> model" where
  "stage_model now who m = m\<lparr>m_stage := ''staging'', m_status := ''approved'', m_approved_at := Some now, m_approved_by := who\<rparr>"

definition promote_to_staging :: "datetime \<Rightarrow> string \<Rightarrow> pyval \<Rightarrow> (registry, bool) io" where
  "promote_to_staging now i who = io_bind (io_get (get_model i)) (\<lambda>r. case r of
     None \<Rightarrow> io_return False
   | Some m \<Rightarrow> io_bind (io_lift (passes_gates (m_metrics m))) (\<lambda>ok.
       if \<not> ok then io_return False
       else io_bind (io_modify (AList.update i (stage_model now who m))) (\<lambda>_. io_return True)))"

definition archive_production :: "pyval \<Rightarrow> model \<Rightarrow> model" where
  "archive_production name m = (if m_name m = name \<and> m_stage m = ''production'' then m\<lparr>m_stage := ''archived''\<rparr> else m)"

definition archive_all :: "pyval \<Rightarrow> registry \<Rightarrow> registry" where
  "archive_all name reg = map (\<lambda>(k, m). (k, archive_production name m)) reg"

definition deploy_model :: "datetime \<Rightarrow> datetime \<Rightarrow> pyval \<Rightarrow> model \<Rightarrow> model" where
  "deploy_model t1 t2 who m = m\<lparr>m_stage := ''production'', m_status := ''approved'', m_deployed_at := Some t1,
     m_deployed_by := who, m_approved_at := Some t2, m_approved_by := who\<rparr>"

definition promote_to_production :: "datetime \<Rightarrow> datetime \<Rightarrow> string \<Rightarrow> pyval \<Rightarrow> (registry, bool) io" where
  "promote_to_production t1 t2 i who = io_bind (io_get (get_model i)) (\<lambda>r. case r of
     None \<Rightarrow> io_return False
   | Some m \<Rightarrow> io_bind (io_lift (passes_gates (m_metrics m))) (\<lambda>ok.
       if \<not> ok then io_return False
       else io_bind (io_modify (archive_all (m_name m))) (\<lambda>_.
            io_bind (io_modify (AList.update i (deploy_model t1 t2 who m))) (\<lambda>_. io_return True))))"

text \<open>\<open>current\<close> and \<open>previous\<close> are the last two approved versions.\<close>

definition rollback :: "datetime \<Rightarrow> pyval \<Rightarrow> (registry, model) io" where
  "rollback now name = io_bind (io_get (\<lambda>reg. filter (\<lambda>m. m_name m = name \<and> m_status m = ''approved'') (map snd reg))) (\<lambda>versions.
     if length versions < 2 then io_raise (ValueError ''No rollback candidate'')
     else (let vs = sort_key m_version versions;
               current = vs ! (length vs - 1);
               previous = (vs ! (length vs - 2))\<lparr>m_stage := ''production'', m_deployed_at := Some now\<rparr>
           in io_bind (io_modify (AList.update (m_id current) (current\<lparr>m_stage := ''archived''\<rparr>))) (\<lambda>_.
              io_bind (io_modify (AList.update (m_id previous) previous)) (\<lambda>_. io_return previous))))"

definition reject_model :: "datetime \<Rightarrow> pyval \<Rightarrow> model \<Rightarrow> model" where
  "reject_model now why m = m\<lparr>m_status := ''rejected'', m_stage := ''rejected'', m_rejected_at := Some now, m_rejected_reason := why\<rparr>"

definition reject :: "datetime \<Rightarrow> string \<Rightarrow> string \<Rightarrow> string \<Rightarrow> (registry, unit) io" where
  "reject now i who why = io_bind (io_get (get_model i)) (\<lambda>r. case r of
     None \<Rightarrow> io_raise (ValueError ''model not found'')
   | Some m \<Rightarrow> io_modify (AList.update i (reject_model now (PStr (who @ '': '' @ why)) m)))"

subsection \<open>Drift\<close>

text \<open>
  A data frame is its columns by name; a missing value is \<open>None\<close>. \<open>edges\<close> and \<open>histogram\<close> are
  numpy's \<open>histogram_bin_edges\<close> with ten bins and the counts of \<open>histogram\<close>.
\<close>

type_synonym data_frame = "(string \<times> real option list) list"

definition dropna :: "real option list \<Rightarrow> real list" where
  "dropna xs = List.map_filter (\<lambda>x. x) xs"

definition float_list :: "pyval \<Rightarrow> exn + real list" where
  "float_list v = (case v of PList xs \<Rightarrow> sum_list_results (map py_float xs) | _ \<Rightarrow> Inl (ValueError ''could not convert to float array''))"

definition bin_shares :: "nat list \<Rightarrow> real list" where
  "bin_shares h = map (\<lambda>n. max (real n / real (max (sum_list h) 1)) (1 / 10 ^ 6)) h"

definition psi_of :: "real list \<Rightarrow> real list \<Rightarrow> real" where
  "psi_of ref cur = sum_list (map (\<lambda>(r, c). (c - r) * ln (c / r)) (zip ref cur))"

definition feature_psi :: "(real list \<Rightarrow> real list) \<Rightarrow> (real list \<Rightarrow> real list \<Rightarrow> nat list) \<Rightarrow> pyval \<Rightarrow> string \<Rightarrow> real list \<Rightarrow> exn + real" where
  "feature_psi edges histogram baseline f cur =
     sum_bind (case baseline of
         PDict d \<Rightarrow> (case map_of d f of Some v \<Rightarrow> float_list v | None \<Rightarrow> Inr (take (min 500 (length cur)) cur))
       | _ \<Rightarrow> Inl (AttributeError ''get'')) (\<lambda>ref.
     let bins = edges (ref @ cur)
     in Inr (psi_of (bin_shares (histogram ref bins)) (bin_shares (histogram cur bins))))"

text \<open>The loop over the features: the two tables of the report, a skipped feature in neither.\<close>

fun drift_features :: "(real list \<Rightarrow> real list) \<Rightarrow> (real list \<Rightarrow> real list \<Rightarrow> nat list) \<Rightarrow> pyval \<Rightarrow> data_frame \<Rightarrow> string list
    \<Rightarrow> exn + ((string \<times> real) list \<times> (string \<times> bool) list)" where
  "drift_features edges histogram baseline df [] = Inr ([], [])"
| "drift_features edges histogram baseline df (f # fs) =
     (case map_of df f of None \<Rightarrow> drift_features edges histogram baseline df fs
      | Some col \<Rightarrow>
         if dropna col = [] then drift_features edges histogram baseline df fs
         else sum_bind (feature_psi edges histogram baseline f (dropna col)) (\<lambda>psi.
              sum_bind (drift_features edges histogram baseline df fs) (\<lambda>(ps, ds).
              Inr ((f, psi) # ps, (f, psi > 2/10) # ds))))"

text \<open>The mean of the last hundred values of a column, missing ones left out; \<open>None\<close> is NaN.\<close>

definition tail_mean :: "real option list \<Rightarrow> real option" where
  "tail_mean xs = (let vs = dropna (drop (length xs - 100) xs) in if vs = [] then None else Some (sum_list vs / real (length vs)))"

definition drift_expectancy :: "data_frame \<Rightarrow> real option" where
  "drift_expectancy df = (case map_of df ''strategy_pnl'' of None \<Rightarrow> Some 0 | Some col \<Rightarrow> tail_mean col)"

record drift_report =
  dr_psi :: "(string \<times> real) list"
  dr_feature_drift :: "(string \<times> bool) list"
  dr_concept_drift :: bool

text \<open>Iterating over \<open>model.features\<close>; an element that is not a string names no column.\<close>

definition feature_names :: "pyval \<Rightarrow> exn + string list" where
  "feature_names v = (case v of
     PList xs \<Rightarrow> Inr (List.map_filter (\<lambda>x. case x of PStr s \<Rightarrow> Some s | _ \<Rightarrow> None) xs)
   | PDict d \<Rightarrow> Inr (map fst d)
   | PStr s \<Rightarrow> Inr (map (\<lambda>c. [c]) s)
   | _ \<Rightarrow> Inl (TypeError ''object is not iterable''))"

definition detect_drift :: "(real list \<Rightarrow> real list) \<Rightarrow> (real list \<Rightarrow> real list \<Rightarrow> nat list) \<Rightarrow> string \<Rightarrow> data_frame
    \<Rightarrow> registry \<Rightarrow> exn + drift_report" where
  "detect_drift edges histogram i df reg = (case get_model i reg of
     None \<Rightarrow> Inl (ValueError ''model not found'')
   | Some m \<Rightarrow>
      sum_bind (metric (m_metrics m) ''feature_baseline'' (PDict [])) (\<lambda>baseline.
      sum_bind (feature_names (m_features m)) (\<lambda>features.
      sum_bind (drift_features edges histogram baseline df features) (\<lambda>(ps, ds).
      sum_bind (metric_float (m_metrics m) ''expectancy'' 0) (\<lambda>base.
      Inr \<lparr>dr_psi = ps, dr_feature_drift = ds,
        dr_concept_drift = (case drift_expectancy df of None \<Rightarrow> False | Some r \<Rightarrow> r < base * (1/2))\<rparr>)))))"

subsection \<open>Endpoints\<close>

definition default_metrics :: pyval where
  "default_metrics = PDict [(''sharpe'', PFloat 2), (''max_drawdown'', PFloat (1/10)), (''win_rate'', PFloat (6/10)),
     (''in_sample_sharpe'', PFloat 2), (''out_sample_sharpe'', PFloat (15/10)), (''trades'', PInt 200)]"

definition train_model :: "string \<Rightarrow> datetime \<Rightarrow> datetime \<Rightarrow> pydict \<Rightarrow> (registry, pydict) io" where
  "train_model uid t1 t2 payload = io_bind (register uid t1 t2
     \<lparr>ra_name = dict_get payload ''name'' (PStr ''default-model''),
      ra_model_type = dict_get payload ''model_type'' (PStr ''classification''),
      ra_artifact_path = dict_get payload ''artifact_path'' (PStr ''s3://models/default''),
      ra_metrics = dict_get payload ''metrics'' default_metrics,
      ra_parameters = dict_get payload ''parameters'' (PDict []),
      ra_features = dict_get payload ''features'' (PList [PStr ''f1'']),
      ra_targets = dict_get payload ''targets'' (PList [PStr ''y'']),
      ra_created_by = dict_get payload ''created_by'' (PStr ''system''),
      ra_description = PNone, ra_framework = PNone\<rparr>) (\<lambda>m.
     io_return [(''model_id'', PStr (m_id m)), (''version'', PInt (m_version m))])"

definition promote_endpoint :: "datetime \<Rightarrow> datetime \<Rightarrow> string \<Rightarrow> (registry, pydict) io" where
  "promote_endpoint t1 t2 i = io_bind (promote_to_production t1 t2 i (PStr ''system'')) (\<lambda>ok.
     if \<not> ok then io_raise (HTTPException 400 ''promotion gates failed'') else io_return [(''ok'', PBool True)])"

subsection \<open>The registry driven by a sequence of calls\<close>

datatype reg_op =
    Register string datetime datetime register_args
  | Stage datetime string pyval
  | Produce datetime datetime string pyval
  | Rollback datetime pyval
  | Reject datetime string string string

fun reg_step :: "registry \<Rightarrow> reg_op \<Rightarrow> registry" where
  "reg_step reg (Register uid t1 t2 a) = snd (register uid t1 t2 a reg)"
| "reg_step reg (Stage now i who) = snd (promote_to_staging now i who reg)"
| "reg_step reg (Produce t1 t2 i who) = snd (promote_to_production t1 t2 i who reg)"
| "reg_step reg (Rollback now name) = snd (rollback now name reg)"
| "reg_step reg (Reject now i who why) = snd (reject now i who why reg)"

fun is_rollback :: "reg_op \<Rightarrow> bool" where
  "is_rollback (Rollback now name) = True"
| "is_rollback _ = False"

definition entry_ok :: "string \<Rightarrow> model \<Rightarrow> bool" where
  "entry_ok i m = (m_id m = i \<and> (m_status m = ''approved'' \<longrightarrow> passes_gates (m_metrics m) = Inr True) \<and>
     (m_stage m = ''production'' \<longrightarrow> m_status m = ''approved''))"

definition reg_ok :: "registry \<Rightarrow> bool" where
  "reg_ok reg = (distinct (map fst reg) \<and> (\<forall>i m. map_of reg i = Some m \<longrightarrow> entry_ok i m) \<and>
     (\<forall>i j m n. map_of reg i = Some m \<and> map_of reg j = Some n \<and> m_name m = m_name n \<and> m_version m = m_version n \<longrightarrow> i = j))"

definition one_production :: "registry \<Rightarrow> bool" where
  "one_production reg = (\<forall>i j m n. map_of reg i = Some m \<and> map_of reg j = Some n \<and> m_name m = m_name n \<and>
     m_stage m = ''production'' \<and> m_stage n = ''production'' \<longrightarrow> i = j)"

lemma reg_ok_entry: "reg_ok reg \<Longrightarrow> map_of reg i = Some m \<Longrightarrow> entry_ok i m"
  by (simp add: reg_ok_def)

lemma reg_ok_member: "reg_ok reg \<Longrightarrow> m \<in> snd ` set reg \<Longrightarrow> map_of reg (m_id m) = Some m"
proof -
  assume ok: "reg_ok reg" and "m \<in> snd ` set reg"
  then obtain i where i: "(i, m) \<in> set reg" by force
  with ok have "map_of reg i = Some m" by (simp add: reg_ok_def)
  with reg_ok_entry [OF ok this] show ?thesis by (simp add: entry_ok_def)
qed

lemma next_version_greater:
  assumes "map_of reg i = Some m"
  shows "m_version m < next_version (m_name m) reg"
proof -
  have "m_version m \<in> set (versions_of (m_name m) reg)"
    using map_of_SomeD [OF assms] by (force simp: versions_of_def)
  then show ?thesis
    using Max_ge [of "set (versions_of (m_name m) reg)" "m_version m"]
    by (auto simp: next_version_def)
qed

lemma reg_ok_update:
  assumes "reg_ok reg" and "map_of reg i = Some m" and "entry_ok i m'"
    and "m_name m' = m_name m" and "m_version m' = m_version m"
  shows "reg_ok (AList.update i m' reg)"
proof -
  have "distinct (map fst (AList.update i m' reg))"
    using assms(1) by (simp add: reg_ok_def distinct_update)
  then show ?thesis
    using assms unfolding reg_ok_def by (auto split: if_splits) metis+
qed

lemma map_of_archive [simp]:
  "map_of (archive_all name reg) i = map_option (archive_production name) (map_of reg i)"
  by (simp add: archive_all_def map_of_map)

lemma archive_keys [simp]: "map fst (archive_all name reg) = map fst reg"
  by (simp add: archive_all_def comp_def case_prod_beta')

lemma archive_fields [simp]:
  "m_id (archive_production name m) = m_id m" "m_name (archive_production name m) = m_name m"
  "m_version (archive_production name m) = m_version m" "m_status (archive_production name m) = m_status m"
  "m_metrics (archive_production name m) = m_metrics m"
  by (simp_all add: archive_production_def)

lemma archive_stage:
  "m_stage (archive_production name m) = ''production'' \<longleftrightarrow> m_stage m = ''production'' \<and> m_name m \<noteq> name"
  by (auto simp: archive_production_def)

lemma reg_ok_archive: "reg_ok reg \<Longrightarrow> reg_ok (archive_all name reg)"
  unfolding reg_ok_def entry_ok_def archive_keys map_of_archive by (auto simp: archive_stage) blast

lemma change_fields [simp]:
  "m_name (stage_model now who m) = m_name m" "m_version (stage_model now who m) = m_version m"
  "m_name (deploy_model t1 t2 who m) = m_name m" "m_version (deploy_model t1 t2 who m) = m_version m"
  "m_name (reject_model now why m) = m_name m" "m_version (reject_model now why m) = m_version m"
  "m_stage (stage_model now who m) = ''staging''" "m_stage (deploy_model t1 t2 who m) = ''production''"
  "m_stage (reject_model now why m) = ''rejected''" "m_status (deploy_model t1 t2 who m) = ''approved''"
  by (simp_all add: stage_model_def deploy_model_def reject_model_def)

subsection \<open>Operations on the table\<close>

lemma register_table:
  "register uid t1 t2 a reg = (Inr (new_model uid (next_version (ra_name a) reg) t1 t2 a),
     AList.update uid (new_model uid (next_version (ra_name a) reg) t1 t2 a) reg)"
  by (simp add: register_def io_simps Let_def new_model_def)

lemma promote_to_production_true:
  "promote_to_production t1 t2 i who reg = (Inr True, reg') \<longleftrightarrow>
     (\<exists>m. map_of reg i = Some m \<and> passes_gates (m_metrics m) = Inr True \<and>
       reg' = AList.update i (deploy_model t1 t2 who m) (archive_all (m_name m) reg))"
  by (auto simp: promote_to_production_def get_model_def io_simps split: option.splits sum.splits)

lemma promote_to_production_cases:
  "snd (promote_to_production t1 t2 i who reg) = reg \<or> (\<exists>reg'. promote_to_production t1 t2 i who reg = (Inr True, reg'))"
  by (auto simp: promote_to_production_def get_model_def io_simps split: option.splits sum.splits)

lemma promote_to_staging_cases:
  "snd (promote_to_staging now i who reg) = reg \<or>
   (\<exists>m. map_of reg i = Some m \<and> passes_gates (m_metrics m) = Inr True \<and>
      snd (promote_to_staging now i who reg) = AList.update i (stage_model now who m) reg)"
  by (auto simp: promote_to_staging_def get_model_def io_simps split: option.splits sum.splits)

lemma reject_cases:
  "snd (reject now i who why reg) = reg \<or>
   (\<exists>m why'. map_of reg i = Some m \<and> snd (reject now i who why reg) = AList.update i (reject_model now why' m) reg)"
  by (auto simp: reject_def get_model_def io_simps split: option.splits)

lemma rollback_cases:
  assumes "reg_ok reg"
  shows "snd (rollback now name reg) = reg \<or>
    (\<exists>c p. map_of reg (m_id c) = Some c \<and> map_of reg (m_id p) = Some p \<and> m_name c = name \<and> m_name p = name \<and>
       m_status c = ''approved'' \<and> m_status p = ''approved'' \<and>
       snd (rollback now name reg) = AList.update (m_id p) (p\<lparr>m_stage := ''production'', m_deployed_at := Some now\<rparr>)
         (AList.update (m_id c) (c\<lparr>m_stage := ''archived''\<rparr>) reg))"
proof -
  define vs where "vs = sort_key m_version (filter (\<lambda>m. m_name m = name \<and> m_status m = ''approved'') (map snd reg))"
  have set_vs: "set vs = {m \<in> snd ` set reg. m_name m = name \<and> m_status m = ''approved''}"
    by (auto simp: vs_def)
  show ?thesis
  proof (cases "length vs < 2")
    case True
    then show ?thesis by (simp add: rollback_def vs_def io_simps)
  next
    case False
    let ?c = "vs ! (length vs - 1)" and ?p = "vs ! (length vs - 2)"
    have mem: "?c \<in> set vs" "?p \<in> set vs" using False by (auto intro!: nth_mem)
    have "snd (rollback now name reg) = AList.update (m_id ?p) (?p\<lparr>m_stage := ''production'', m_deployed_at := Some now\<rparr>)
         (AList.update (m_id ?c) (?c\<lparr>m_stage := ''archived''\<rparr>) reg)"
      using False by (simp add: rollback_def vs_def io_simps Let_def)
    moreover have "map_of reg (m_id ?c) = Some ?c" "map_of reg (m_id ?p) = Some ?p"
      using mem reg_ok_member [OF assms] unfolding set_vs by auto
    ultimately show ?thesis using mem unfolding set_vs by blast
  qed
qed

lemma entry_ok_changes [simp]:
  "entry_ok i m \<Longrightarrow> passes_gates (m_metrics m) = Inr True \<Longrightarrow> entry_ok i (stage_model now who m)"
  "entry_ok i m \<Longrightarrow> passes_gates (m_metrics m) = Inr True \<Longrightarrow> entry_ok i (deploy_model t1 t2 who m)"
  "entry_ok i m \<Longrightarrow> entry_ok i (reject_model now why m)"
  "entry_ok i m \<Longrightarrow> entry_ok i (m\<lparr>m_stage := ''archived''\<rparr>)"
  "entry_ok i m \<Longrightarrow> m_status m = ''approved'' \<Longrightarrow> entry_ok i (m\<lparr>m_stage := ''production'', m_deployed_at := t\<rparr>)"
  by (simp_all add: entry_ok_def stage_model_def deploy_model_def reject_model_def)

lemma reg_ok_register:
  assumes "reg_ok reg"
  shows "reg_ok (AList.update uid (new_model uid (next_version (ra_name a) reg) t1 t2 a) reg)"
proof -
  have new: "m_version m \<noteq> next_version (ra_name a) reg" if "map_of reg i = Some m" "m_name m = ra_name a" for i m
    using next_version_greater [OF that(1)] that(2) by simp
  have "entry_ok uid (new_model uid (next_version (ra_name a) reg) t1 t2 a)"
    by (simp add: entry_ok_def new_model_def)
  then show ?thesis
    using assms new unfolding reg_ok_def
    by (auto simp: distinct_update new_model_def split: if_splits) metis+
qed

lemma reg_step_ok:
  assumes "reg_ok reg"
  shows "reg_ok (reg_step reg x)"
proof (cases x)
  case (Register uid t1 t2 a)
  then show ?thesis using reg_ok_register [OF assms] by (simp add: register_table)
next
  case (Stage now i who)
  then show ?thesis
    using promote_to_staging_cases [of now i who reg] assms reg_ok_update [OF assms, of i]
      reg_ok_entry [OF assms, of i] by auto
next
  case (Produce t1 t2 i who)
  consider "snd (promote_to_production t1 t2 i who reg) = reg" | reg' where "promote_to_production t1 t2 i who reg = (Inr True, reg')"
    using promote_to_production_cases by blast
  then show ?thesis
  proof cases
    case 2
    then obtain m where m: "map_of reg i = Some m" "passes_gates (m_metrics m) = Inr True"
      and reg': "reg' = AList.update i (deploy_model t1 t2 who m) (archive_all (m_name m) reg)"
      by (auto simp: promote_to_production_true)
    have "reg_ok reg'"
      unfolding reg'
      by (rule reg_ok_update [OF reg_ok_archive [OF assms], where m = "archive_production (m_name m) m"])
         (use m reg_ok_entry [OF assms m(1)] in simp_all)
    then show ?thesis using 2 Produce by simp
  qed (use assms Produce in simp)
next
  case (Rollback now name)
  from rollback_cases [OF assms, of now name] show ?thesis
  proof (elim disjE exE conjE)
    fix c p
    assume *: "map_of reg (m_id c) = Some c" "map_of reg (m_id p) = Some p" "m_status p = ''approved''"
      "snd (rollback now name reg) = AList.update (m_id p) (p\<lparr>m_stage := ''production'', m_deployed_at := Some now\<rparr>)
         (AList.update (m_id c) (c\<lparr>m_stage := ''archived''\<rparr>) reg)"
    have "reg_ok (AList.update (m_id c) (c\<lparr>m_stage := ''archived''\<rparr>) reg)"
      using reg_ok_update [OF assms *(1)] reg_ok_entry [OF assms *(1)] by simp
    moreover obtain q where "map_of (AList.update (m_id c) (c\<lparr>m_stage := ''archived''\<rparr>) reg) (m_id p) = Some q"
      "m_name p = m_name q" "m_version p = m_version q"
      using *(1,2) by (cases "m_id p = m_id c") auto
    ultimately have "reg_ok (AList.update (m_id p) (p\<lparr>m_stage := ''production'', m_deployed_at := Some now\<rparr>)
         (AList.update (m_id c) (c\<lparr>m_stage := ''archived''\<rparr>) reg))"
      using reg_ok_entry [OF assms *(2)] *(3)
      by (intro reg_ok_update [where i = "m_id p" and m' = "p\<lparr>m_stage := ''production'', m_deployed_at := Some now\<rparr>"
            and m = q and reg = "AList.update (m_id c) (c\<lparr>m_stage := ''archived''\<rparr>) reg"]) simp_all
    then show ?thesis using *(4) Rollback by simp
  qed (use assms Rollback in simp)
next
  case (Reject now i who why)
  then show ?thesis
    using reject_cases [of now i who why reg] assms reg_ok_update [OF assms, of i]
      reg_ok_entry [OF assms, of i] by auto
qed

interpretation registry_machine: invariant_machine reg_step "\<lambda>_. True" reg_ok
  by unfold_locales (rule reg_step_ok)

subsection \<open>Properties\<close>

lemma reg_ok_empty: "reg_ok []"
  by (simp add: reg_ok_def)

text \<open>
  C30. Whatever calls are made on a new registry, every model in production is approved and its
  metrics pass all gates, and two models with the same name have different versions.
\<close>

theorem production_models_pass_gates:
  assumes "reg = foldl reg_step [] xs"
  shows "(map_of reg i = Some m \<longrightarrow> m_id m = i \<and>
      (m_stage m = ''production'' \<longrightarrow> m_status m = ''approved'' \<and> passes_gates (m_metrics m) = Inr True)) \<and>
    (map_of reg i = Some m \<and> map_of reg j = Some n \<and> i \<noteq> j \<and> m_name m = m_name n \<longrightarrow> m_version m \<noteq> m_version n)"
proof -
  have "reg_ok reg"
    unfolding assms by (rule registry_machine.run_inv [OF reg_ok_empty]) (simp add: list_all_iff)
  then show ?thesis unfolding reg_ok_def entry_ok_def by blast
qed

lemma one_production_update:
  assumes "one_production reg"
    and "\<And>j n. m_stage m' = ''production'' \<Longrightarrow> j \<noteq> i \<Longrightarrow> map_of reg j = Some n \<Longrightarrow> m_stage n = ''production'' \<Longrightarrow> m_name n \<noteq> m_name m'"
  shows "one_production (AList.update i m' reg)"
  unfolding one_production_def
proof (intro allI impI, elim conjE)
  fix i' j m n
  assume *: "map_of (AList.update i m' reg) i' = Some m" "map_of (AList.update i m' reg) j = Some n"
    "m_name m = m_name n" "m_stage m = ''production''" "m_stage n = ''production''"
  show "i' = j"
  proof (cases "i' = i \<or> j = i")
    case True
    show ?thesis
    proof (rule ccontr)
      assume "i' \<noteq> j"
      with True show False using * assms(2) [of j n] assms(2) [of i' m] by auto
    qed
  next
    case False
    then have "map_of reg i' = Some m" "map_of reg j = Some n" using *(1,2) by simp_all
    with *(3-5) assms(1) show ?thesis unfolding one_production_def by blast
  qed
qed

lemma one_production_archive: "one_production reg \<Longrightarrow> one_production (archive_all name reg)"
  unfolding one_production_def
proof (intro allI impI, elim conjE)
  fix i j m n
  assume one: "\<forall>i j m n. map_of reg i = Some m \<and> map_of reg j = Some n \<and> m_name m = m_name n \<and>
     m_stage m = ''production'' \<and> m_stage n = ''production'' \<longrightarrow> i = j"
    and *: "map_of (archive_all name reg) i = Some m" "map_of (archive_all name reg) j = Some n"
    "m_name m = m_name n" "m_stage m = ''production''" "m_stage n = ''production''"
  from *(1,2) obtain x y where "map_of reg i = Some x" "m = archive_production name x"
    "map_of reg j = Some y" "n = archive_production name y" by auto
  with *(3-5) have "m_name x = m_name y" "m_stage x = ''production''" "m_stage y = ''production''"
    by (simp_all add: archive_stage)
  with \<open>map_of reg i = Some x\<close> \<open>map_of reg j = Some y\<close> show "i = j" using one by blast
qed

lemma one_production_deploy:
  assumes "one_production reg"
  shows "one_production (AList.update i (deploy_model t1 t2 who m) (archive_all (m_name m) reg))"
  by (rule one_production_update [OF one_production_archive [OF assms]]) (auto simp: archive_stage)

lemma one_production_step:
  assumes "reg_ok reg \<and> one_production reg" and "\<not> is_rollback x"
  shows "reg_ok (reg_step reg x) \<and> one_production (reg_step reg x)"
proof -
  have one: "one_production reg" using assms(1) by simp
  have "one_production (reg_step reg x)"
  proof (cases x)
    case (Register uid t1 t2 a)
    have "m_stage (new_model uid v t1 t2 a) \<noteq> ''production''" for v by (simp add: new_model_def)
    then show ?thesis
      unfolding Register reg_step.simps register_table snd_conv by (intro one_production_update [OF one]) simp
  next
    case (Stage now i who)
    from promote_to_staging_cases [of now i who reg] show ?thesis
      using Stage one by (auto intro!: one_production_update)
  next
    case (Produce t1 t2 i who)
    consider "snd (promote_to_production t1 t2 i who reg) = reg"
      | reg' where "promote_to_production t1 t2 i who reg = (Inr True, reg')"
      using promote_to_production_cases by blast
    then show ?thesis
    proof cases
      case 2
      then obtain m where "reg' = AList.update i (deploy_model t1 t2 who m) (archive_all (m_name m) reg)"
        by (auto simp: promote_to_production_true)
      then show ?thesis using one_production_deploy [OF one] 2 Produce by simp
    qed (use one Produce in simp)
  next
    case (Reject now i who why)
    from reject_cases [of now i who why reg] show ?thesis
      using Reject one by (auto intro!: one_production_update)
  qed (use assms(2) in simp)
  with reg_step_ok assms(1) show ?thesis by blast
qed

interpretation single_production: invariant_machine reg_step "\<lambda>x. \<not> is_rollback x" "\<lambda>reg. reg_ok reg \<and> one_production reg"
  by unfold_locales (rule one_production_step)

text \<open>
  As long as nothing is rolled back, a name has at most one model in production; and a
  promotion to production that answers \<open>True\<close> makes the promoted model the one that
  \<open>get_production_model\<close> gives for its name.
\<close>

theorem promoted_model_served:
  assumes "reg = foldl reg_step [] xs" and "list_all (\<lambda>x. \<not> is_rollback x) xs"
  shows "one_production reg \<and>
    (promote_to_production t1 t2 i who reg = (Inr True, reg') \<longrightarrow>
      (\<exists>m. map_of reg i = Some m \<and> get_production_model (m_name m) reg' = Some (deploy_model t1 t2 who m)))"
proof (intro conjI impI)
  have ok: "reg_ok reg \<and> one_production reg"
    unfolding assms(1)
    by (rule single_production.run_inv) (use assms(2) reg_ok_empty in \<open>auto simp: one_production_def\<close>)
  then show "one_production reg" by simp
  assume prom: "promote_to_production t1 t2 i who reg = (Inr True, reg')"
  then obtain m where m: "map_of reg i = Some m"
    and reg': "reg' = AList.update i (deploy_model t1 t2 who m) (archive_all (m_name m) reg)"
    by (auto simp: promote_to_production_true)
  let ?d = "deploy_model t1 t2 who m"
  have ok': "reg_ok reg'" using reg_step_ok [of reg "Produce t1 t2 i who"] ok prom by simp
  define ps where "ps = filter (\<lambda>x. m_name x = m_name m \<and> m_stage x = ''production'' \<and> m_status x = ''approved'') (map snd reg')"
  have lk: "map_of reg' i = Some ?d" by (simp add: reg')
  have all: "x = ?d" if "x \<in> set ps" for x
  proof -
    have x: "map_of reg' (m_id x) = Some x" "m_name x = m_name m" "m_stage x = ''production''"
      using that reg_ok_member [OF ok'] by (auto simp: ps_def)
    then show ?thesis by (auto simp: reg' archive_stage split: if_splits)
  qed
  have mem: "?d \<in> set ps"
    using map_of_SomeD [OF lk] by (force simp: ps_def)
  then have ne: "ps \<noteq> []" by (cases ps) simp_all
  have "last (sort_key m_version ps) \<in> set (sort_key m_version ps)"
    by (rule last_in_set) (metis ne length_0_conv length_sort)
  then have "last (sort_key m_version ps) = ?d" by (intro all) simp
  with ne show "\<exists>m. map_of reg i = Some m \<and> get_production_model (m_name m) reg' = Some (deploy_model t1 t2 who m)"
    using m by (intro exI [of _ m]) (simp add: get_production_model_def ps_def Let_def)
qed

definition good_args :: register_args where
  "good_args = \<lparr>ra_name = PStr ''fx'', ra_model_type = PStr ''classification'', ra_artifact_path = PStr ''s3://models/fx'',
     ra_metrics = default_metrics, ra_parameters = PDict [], ra_features = PList [], ra_targets = PList [],
     ra_created_by = PStr ''ops'', ra_description = PNone, ra_framework = PNone\<rparr>"

lemma default_metrics_pass: "passes_gates default_metrics = Inr True"
  by (simp add: passes_gates_def gate_minimum_sharpe_def gate_maximum_drawdown_def gate_minimum_win_rate_def
      gate_out_of_sample_consistency_def gate_minimum_trades_def metric_float_def metric_def default_metrics_def sum_bind_def)

text \<open>
  A rollback can leave two models of one name in production: with three versions, the
  second and third approved for staging and the first in production, a rollback archives the
  third and puts the second in production beside the first.
\<close>

theorem rollback_leaves_two_in_production:
  "\<not> one_production (foldl reg_step [] [Register ''a'' 1 1 good_args, Register ''b'' 2 2 good_args, Register ''c'' 3 3 good_args,
     Stage 4 ''b'' (PStr ''ops''), Stage 5 ''c'' (PStr ''ops''), Produce 6 6 ''a'' (PStr ''ops''), Rollback 7 (PStr ''fx'')])"
proof -
  have name: "ra_name good_args = PStr ''fx''" "ra_metrics good_args = default_metrics" by (simp_all add: good_args_def)
  let ?m = "\<lambda>i v. new_model i v v v good_args"
  have m: "m_name (?m i v) = PStr ''fx''" "m_version (?m i v) = v" "m_metrics (?m i v) = default_metrics"
    "m_stage (?m i v) = ''development''" "m_status (?m i v) = ''development''" "m_id (?m i v) = i" for i v
    by (simp_all add: new_model_def name)
  let ?b = "stage_model 4 (PStr ''ops'') (?m ''b'' 2)" and ?c = "stage_model 5 (PStr ''ops'') (?m ''c'' 3)"
  let ?a = "deploy_model 6 6 (PStr ''ops'') (?m ''a'' 1)"
  have r3: "foldl reg_step [] [Register ''a'' 1 1 good_args, Register ''b'' 2 2 good_args, Register ''c'' 3 3 good_args] =
      [(''a'', ?m ''a'' 1), (''b'', ?m ''b'' 2), (''c'', ?m ''c'' 3)]"
    by (simp add: register_table next_version_def versions_of_def name m)
  have r5: "reg_step (reg_step [(''a'', ?m ''a'' 1), (''b'', ?m ''b'' 2), (''c'', ?m ''c'' 3)] (Stage 4 ''b'' (PStr ''ops'')))
      (Stage 5 ''c'' (PStr ''ops'')) = [(''a'', ?m ''a'' 1), (''b'', ?b), (''c'', ?c)]"
    by (simp add: promote_to_staging_def get_model_def io_simps m default_metrics_pass)
  have r6: "reg_step [(''a'', ?m ''a'' 1), (''b'', ?b), (''c'', ?c)] (Produce 6 6 ''a'' (PStr ''ops'')) =
      [(''a'', ?a), (''b'', ?b), (''c'', ?c)]"
    by (simp add: promote_to_production_def get_model_def io_simps m default_metrics_pass archive_all_def archive_production_def)
  have kept: "m_status ?b = ''approved''" "m_status ?c = ''approved''" "m_id ?b = ''b''" "m_id ?c = ''c''"
    by (simp_all add: stage_model_def m)
  have r7: "reg_step [(''a'', ?a), (''b'', ?b), (''c'', ?c)] (Rollback 7 (PStr ''fx'')) =
      [(''a'', ?a), (''b'', ?b\<lparr>m_stage := ''production'', m_deployed_at := Some 7\<rparr>), (''c'', ?c\<lparr>m_stage := ''archived''\<rparr>)]"
    by (simp add: rollback_def io_simps m kept Let_def)
  have run: "foldl reg_step [] [Register ''a'' 1 1 good_args, Register ''b'' 2 2 good_args, Register ''c'' 3 3 good_args,
     Stage 4 ''b'' (PStr ''ops''), Stage 5 ''c'' (PStr ''ops''), Produce 6 6 ''a'' (PStr ''ops''), Rollback 7 (PStr ''fx'')] =
      [(''a'', ?a), (''b'', ?b\<lparr>m_stage := ''production'', m_deployed_at := Some 7\<rparr>), (''c'', ?c\<lparr>m_stage := ''archived''\<rparr>)]"
    (is "?run = ?end")
  proof -
    have "?run = foldl reg_step (foldl reg_step [] [Register ''a'' 1 1 good_args, Register ''b'' 2 2 good_args, Register ''c'' 3 3 good_args])
       [Stage 4 ''b'' (PStr ''ops''), Stage 5 ''c'' (PStr ''ops''), Produce 6 6 ''a'' (PStr ''ops''), Rollback 7 (PStr ''fx'')]"
      by (simp only: foldl.simps)
    also have "\<dots> = ?end"
      unfolding r3 by (simp only: foldl.simps r5 r6 r7)
    finally show ?thesis .
  qed
  have "\<not> one_production [(''a'', ?a), (''b'', ?b\<lparr>m_stage := ''production'', m_deployed_at := Some 7\<rparr>), (''c'', ?c\<lparr>m_stage := ''archived''\<rparr>)]"
  proof
    assume "one_production [(''a'', ?a), (''b'', ?b\<lparr>m_stage := ''production'', m_deployed_at := Some 7\<rparr>), (''c'', ?c\<lparr>m_stage := ''archived''\<rparr>)]"
    from this [unfolded one_production_def, rule_format, of "''a''" ?a "''b''" "?b\<lparr>m_stage := ''production'', m_deployed_at := Some 7\<rparr>"]
    show False by (simp add: m)
  qed
  then show ?thesis unfolding run .
qed

subsection \<open>Drift reports\<close>

lemma psi_term_nonneg: "0 < r \<Longrightarrow> 0 < c \<Longrightarrow> 0 \<le> (c - r) * ln (c / r)" for r c :: real
  by (cases "r \<le> c") (auto simp: zero_le_mult_iff divide_le_eq_1 ln_div)

lemma psi_of_nonneg:
  assumes "\<forall>r\<in>set ref. 0 < r" and "\<forall>c\<in>set cur. 0 < c"
  shows "0 \<le> psi_of ref cur"
proof -
  have "0 < r \<and> 0 < c" if "(r, c) \<in> set (zip ref cur)" for r c
    using set_zip_leftD [OF that] set_zip_rightD [OF that] assms by blast
  then show ?thesis unfolding psi_of_def by (intro sum_list_nonneg) (auto intro: psi_term_nonneg)
qed

lemma psi_of_same: "psi_of xs xs = 0"
  by (induction xs) (simp_all add: psi_of_def)

lemma bin_shares_pos: "x \<in> set (bin_shares h) \<Longrightarrow> 0 < x"
  by (auto simp: bin_shares_def less_max_iff_disj)

lemma feature_psi_nonneg: "feature_psi edges histogram b f cur = Inr p \<Longrightarrow> 0 \<le> p"
  by (auto simp: feature_psi_def sum_bind_def Let_def intro!: psi_of_nonneg bin_shares_pos
      split: pyval.splits option.splits sum.splits)

lemma feature_psi_no_baseline:
  "map_of b f = None \<Longrightarrow> length cur \<le> 500 \<Longrightarrow> feature_psi edges histogram (PDict b) f cur = Inr p \<Longrightarrow> p = 0"
  by (simp add: feature_psi_def sum_bind_def Let_def psi_of_same)

lemma drift_features_report:
  assumes "drift_features edges histogram b df fs = Inr (ps, ds)"
  shows "ds = map (\<lambda>(f, p). (f, p > 2/10)) ps \<and>
    (\<forall>f p. (f, p) \<in> set ps \<longrightarrow> (\<exists>col. map_of df f = Some col \<and> feature_psi edges histogram b f (dropna col) = Inr p))"
  using assms
proof (induction fs arbitrary: ps ds)
  case Nil
  then show ?case by simp
next
  case (Cons f fs)
  show ?case
  proof (cases "\<exists>col. map_of df f = Some col \<and> dropna col \<noteq> []")
    case True
    then obtain col p ps' ds' where "map_of df f = Some col" "feature_psi edges histogram b f (dropna col) = Inr p"
      "drift_features edges histogram b df fs = Inr (ps', ds')" "ps = (f, p) # ps'" "ds = (f, p > 2/10) # ds'"
      using Cons.prems by (auto simp: sum_bind_def split: sum.splits)
    then show ?thesis using Cons.IH by auto
  next
    case False
    then have "drift_features edges histogram b df fs = Inr (ps, ds)"
      using Cons.prems by (auto split: option.splits)
    then show ?thesis using Cons.IH by simp
  qed
qed

text \<open>
  In every drift report the stability index of a feature is non-negative and the drift flag
  says whether it exceeds 0.2, whatever histograms numpy gives. A feature without a baseline and
  with at most 500 recent values is compared with itself: its index is zero and no drift of it
  is ever reported.
\<close>

theorem drift_report_sound:
  assumes "detect_drift edges histogram i df reg = Inr rep"
  shows "dr_feature_drift rep = map (\<lambda>(f, p). (f, p > 2/10)) (dr_psi rep) \<and>
    (\<forall>(f, p)\<in>set (dr_psi rep). 0 \<le> p \<and>
      (\<forall>m b col. map_of reg i = Some m \<and> metric (m_metrics m) ''feature_baseline'' (PDict []) = Inr (PDict b) \<and>
         map_of b f = None \<and> map_of df f = Some col \<and> length (dropna col) \<le> 500 \<longrightarrow> p = 0))"
proof -
  obtain m b fs where m: "map_of reg i = Some m" and b: "metric (m_metrics m) ''feature_baseline'' (PDict []) = Inr b"
    and fs: "drift_features edges histogram b df fs = Inr (dr_psi rep, dr_feature_drift rep)"
    using assms by (auto simp: detect_drift_def get_model_def sum_bind_def split: option.splits sum.splits)
  from drift_features_report [OF fs] have flags: "dr_feature_drift rep = map (\<lambda>(f, p). (f, p > 2/10)) (dr_psi rep)"
    and psi: "\<And>f p. (f, p) \<in> set (dr_psi rep) \<Longrightarrow>
      \<exists>col. map_of df f = Some col \<and> feature_psi edges histogram b f (dropna col) = Inr p"
    by blast+
  have "p = 0" if "(f, p) \<in> set (dr_psi rep)" "b = PDict d" "map_of d f = None" "map_of df f = Some col"
    "length (dropna col) \<le> 500" for f p d col
    using psi [OF that(1)] that(2-) feature_psi_no_baseline [of d f "dropna col"] by auto
  moreover have "0 \<le> p" if "(f, p) \<in> set (dr_psi rep)" for f p
    using psi [OF that] feature_psi_nonneg by blast
  ultimately show ?thesis using flags m b by auto
qed

subsection \<open>Witnesses\<close>

abbreviation demo_registry :: registry where
  "demo_registry \<equiv> foldl reg_step [] [Register ''a'' 1 1 good_args]"

lemma demo_registry_table: "demo_registry = [(''a'', new_model ''a'' 1 1 1 good_args)]"
  by (simp add: register_table next_version_def versions_of_def)

theorem production_models_pass_gates_witness:
  "\<exists>m. map_of (foldl reg_step [] [Register ''a'' 1 1 good_args, Produce 2 2 ''a'' (PStr ''ops'')]) ''a'' = Some m \<and>
     m_stage m = ''production'' \<and> passes_gates (m_metrics m) = Inr True"
proof -
  have "promote_to_production 2 2 ''a'' (PStr ''ops'') demo_registry =
      (Inr True, [(''a'', deploy_model 2 2 (PStr ''ops'') (new_model ''a'' 1 1 1 good_args))])"
    unfolding demo_registry_table promote_to_production_true
    by (simp add: new_model_def good_args_def default_metrics_pass archive_all_def archive_production_def)
  then have "map_of (foldl reg_step [] [Register ''a'' 1 1 good_args, Produce 2 2 ''a'' (PStr ''ops'')]) ''a'' =
      Some (deploy_model 2 2 (PStr ''ops'') (new_model ''a'' 1 1 1 good_args))"
    by simp
  then show ?thesis
    using production_models_pass_gates [OF refl, of "[Register ''a'' 1 1 good_args, Produce 2 2 ''a'' (PStr ''ops'')]" "''a''"]
    by (metis change_fields(8))
qed

theorem promoted_model_served_witness:
  "one_production demo_registry \<and>
   (\<exists>m reg'. promote_to_production 2 2 ''a'' (PStr ''ops'') demo_registry = (Inr True, reg') \<and>
      get_production_model (m_name m) reg' = Some (deploy_model 2 2 (PStr ''ops'') m))"
proof -
  obtain reg' where "promote_to_production 2 2 ''a'' (PStr ''ops'') demo_registry = (Inr True, reg')"
    unfolding demo_registry_table promote_to_production_true
    by (simp add: new_model_def good_args_def default_metrics_pass)
  then show ?thesis
    using promoted_model_served [OF refl, of "[Register ''a'' 1 1 good_args]" 2 2 "''a''" "PStr ''ops''" reg'] by auto
qed

text \<open>Counts of the values below and above the middle edge.\<close>

definition two_bins :: "real list \<Rightarrow> real list \<Rightarrow> nat list" where
  "two_bins xs bins = [length (filter (\<lambda>x. x < hd bins) xs), length (filter (\<lambda>x. hd bins \<le> x) xs)]"

theorem drift_report_sound_witness:
  "\<exists>rep p. detect_drift (\<lambda>xs. [1]) two_bins ''a'' [(''f1'', [Some 0, Some 2])]
      [(''a'', new_model ''a'' 1 1 1 (good_args\<lparr>ra_features := PList [PStr ''f1'']\<rparr>))] = Inr rep \<and>
     dr_psi rep = [(''f1'', p)] \<and> p = 0 \<and> dr_feature_drift rep = [(''f1'', False)]"
proof -
  let ?reg = "[(''a'', new_model ''a'' 1 1 1 (good_args\<lparr>ra_features := PList [PStr ''f1'']\<rparr>))]"
  let ?df = "[(''f1'', [Some 0, Some 2])] :: data_frame"
  obtain rep p where rep: "detect_drift (\<lambda>xs. [1]) two_bins ''a'' ?df ?reg = Inr rep" "dr_psi rep = [(''f1'', p)]"
    by (simp add: detect_drift_def get_model_def new_model_def good_args_def default_metrics_def metric_def sum_bind_def
        feature_names_def List.map_filter_simps dropna_def feature_psi_def metric_float_def Let_def)
  have "metric (m_metrics (snd (hd ?reg))) ''feature_baseline'' (PDict []) = Inr (PDict [])"
    by (simp add: new_model_def good_args_def default_metrics_def metric_def)
  with drift_report_sound [OF rep(1)] rep(2) have "p = 0" "dr_feature_drift rep = [(''f1'', p > 2/10)]"
    by (auto simp: dropna_def List.map_filter_simps)
  with rep show ?thesis by simp
qed

end
