(* ===== verification/Gateway.thy ===== *)
theory Gateway
  imports Token_Security
begin

text \<open>
  The WebSocket gateway: the rate limiter (\<^verbatim>\<open>api_gateway/src/middleware/rate_limit.py\<close>), the
  connection manager (\<^verbatim>\<open>ws/manager.py\<close>), authentication (\<^verbatim>\<open>ws/auth.py\<close>) and the endpoint
  (\<^verbatim>\<open>routes/ws.py\<close>). Redis, the token library and the sockets are parameters over one state
  \<open>'w\<close>; an endless task is modelled by one of its rounds, and the messages a client sends are a
  list, at the end of which it disconnects.
\<close>

subsection \<open>Rate limits\<close>

record rate_limiter =
  rl_connections_per_ip :: int
  rl_messages_per_minute :: int
  rl_max_subscriptions :: int
  rl_window_seconds :: int

definition default_limiter :: rate_limiter where
  "default_limiter = \<lparr>rl_connections_per_ip = 20, rl_messages_per_minute = 600, rl_max_subscriptions = 100, rl_window_seconds = 60\<rparr>"

text \<open>
  The pipeline of both window checks: drop what has left the window, add this event, count.
\<close>

definition window_check :: "'w redis_api \<Rightarrow> rate_limiter \<Rightarrow> int \<Rightarrow> rkey \<Rightarrow> real \<Rightarrow> ('w, bool) io" where
  "window_check rd rl limit k now =
     io_bind (rd_zremrangebyscore rd k 0 (now - of_int (rl_window_seconds rl))) (\<lambda>_.
     io_bind (rd_zadd rd k (py_str (PFloat now)) now) (\<lambda>_.
     io_bind (rd_zcard rd k) (\<lambda>count.
     io_bind (rd_expire rd k (rl_window_seconds rl)) (\<lambda>_.
     io_return (int count \<le> limit)))))"

definition check_connection_limit :: "'w redis_api \<Rightarrow> rate_limiter \<Rightarrow> string \<Rightarrow> real \<Rightarrow> ('w, bool) io" where
  "check_connection_limit rd rl client_ip now =
     window_check rd rl (rl_connections_per_ip rl) (''ws:conn:ip:'', PStr client_ip) now"

definition check_message_rate :: "'w redis_api \<Rightarrow> rate_limiter \<Rightarrow> string \<Rightarrow> real \<Rightarrow> ('w, bool) io" where
  "check_message_rate rd rl connection_id now =
     window_check rd rl (rl_messages_per_minute rl) (''ws:msg:'', PStr connection_id) now"

definition subs_key :: "pyval \<Rightarrow> rkey" where
  "subs_key user_id = (''ws:subs:user:'', user_id)"

definition check_subscription_limit :: "'w redis_api \<Rightarrow> rate_limiter \<Rightarrow> pyval \<Rightarrow> ('w, bool) io" where
  "check_subscription_limit rd rl user_id =
     io_bind (rd_scard rd (subs_key user_id)) (\<lambda>cnt. io_return (int cnt \<le> rl_max_subscriptions rl))"

subsection \<open>The connection manager\<close>

text \<open>
  The sockets, numbered, and the subscription to the broadcast channels. \<open>ws_create_task\<close> is
  \<^verbatim>\<open>asyncio.create_task\<close> for the two tasks of a session: the revalidation of its token and the monitor
  of its heartbeats. What a task does once it runs is \<open>periodic_revalidate\<close> and \<open>heartbeat_monitor\<close>
  (theory Background_Tasks), for which the session is one of the others.
\<close>

datatype session_task = RevalidateTask nat string "string option" | MonitorTask nat string

record 'w socket_api =
  ws_accept :: "nat \<Rightarrow> ('w, unit) io"
  ws_send_json :: "nat \<Rightarrow> pydict \<Rightarrow> ('w, unit) io"
  ws_close :: "nat \<Rightarrow> int \<Rightarrow> ('w, unit) io"
  ws_psubscribe :: "string \<Rightarrow> ('w, unit) io"
  ws_pubsub_close :: "('w, unit) io"
  ws_create_task :: "session_task \<Rightarrow> ('w, unit) io"

record manager =
  mg_instance_id :: string
  mg_pubsub :: bool
  mg_local_connections :: "(pyval \<times> nat) list"
  mg_listening :: bool

definition manager_init :: "string \<Rightarrow> manager" where
  "manager_init instance_id = \<lparr>mg_instance_id = instance_id, mg_pubsub = False, mg_local_connections = [], mg_listening = False\<rparr>"

type_synonym 'w mg_state = "manager \<times> 'w"

definition outside :: "('w, 'a) io \<Rightarrow> ('w mg_state, 'a) io" where
  "outside m = io_zoom snd (\<lambda>w (g, _). (g, w)) m"

definition on_manager :: "(manager \<Rightarrow> manager) \<Rightarrow> ('w mg_state, unit) io" where
  "on_manager f = io_modify (\<lambda>(g, w). (f g, w))"

definition conn_key :: "pyval \<Rightarrow> rkey" where
  "conn_key connection_id = (''ws:connections:'', connection_id)"

definition user_conns_key :: "pyval \<Rightarrow> rkey" where
  "user_conns_key user_id = (''ws:user:{}:connections'', user_id)"

definition mg_start :: "'w socket_api \<Rightarrow> ('w mg_state, unit) io" where
  "mg_start ws = io_bind (on_manager (\<lambda>g. g\<lparr>mg_pubsub := True\<rparr>)) (\<lambda>_.
     io_bind (outside (ws_psubscribe ws ''ws:broadcast:*'')) (\<lambda>_.
     on_manager (\<lambda>g. g\<lparr>mg_listening := True\<rparr>)))"

definition mg_stop :: "'w socket_api \<Rightarrow> ('w mg_state, unit) io" where
  "mg_stop ws = io_bind (on_manager (\<lambda>g. g\<lparr>mg_listening := False\<rparr>)) (\<lambda>_.
     io_bind (io_get fst) (\<lambda>g. io_when (mg_pubsub g) (outside (ws_pubsub_close ws))))"

definition mg_connect :: "'w redis_api \<Rightarrow> 'w socket_api \<Rightarrow> datetime \<Rightarrow> nat \<Rightarrow> pyval \<Rightarrow> pyval \<Rightarrow> pyval \<Rightarrow> ('w mg_state, unit) io" where
  "mg_connect rd ws now websocket user_id connection_id session_id =
     io_bind (outside (ws_accept ws websocket)) (\<lambda>_.
     io_bind (on_manager (\<lambda>g. g\<lparr>mg_local_connections := AList.update connection_id websocket (mg_local_connections g)\<rparr>)) (\<lambda>_.
     io_bind (io_get fst) (\<lambda>g.
     io_bind (outside (rd_hset rd (conn_key connection_id)
        [(''user_id'', user_id), (''session_id'', session_id), (''connection_id'', connection_id),
         (''connected_at'', PIso now), (''last_heartbeat'', PIso now), (''instance_id'', PStr (mg_instance_id g))])) (\<lambda>_.
     io_bind (outside (rd_expire rd (conn_key connection_id) (60 * 60 * 24))) (\<lambda>_.
     outside (rd_sadd rd (user_conns_key user_id) [connection_id]))))))"

definition mg_disconnect :: "'w redis_api \<Rightarrow> pyval \<Rightarrow> ('w mg_state, unit) io" where
  "mg_disconnect rd connection_id =
     io_bind (outside (rd_hget rd (conn_key connection_id) ''user_id'')) (\<lambda>user_id.
     io_bind (case user_id of
         Some u \<Rightarrow> if truthy u then outside (rd_srem rd (user_conns_key u) [connection_id]) else io_return ()
       | None \<Rightarrow> io_return ()) (\<lambda>_.
     io_bind (outside (rd_delete rd (conn_key connection_id))) (\<lambda>_.
     on_manager (\<lambda>g. g\<lparr>mg_local_connections := AList.delete connection_id (mg_local_connections g)\<rparr>))))"

definition mg_publish :: "'w redis_api \<Rightarrow> pyval \<Rightarrow> pydict \<Rightarrow> ('w mg_state, unit) io" where
  "mg_publish rd channel message =
     io_bind (io_lift (json_dumps (PDict message))) (\<lambda>txt. outside (rd_publish rd (''ws:broadcast:'', channel) txt))"

definition subscribe_user :: "'w redis_api \<Rightarrow> pyval \<Rightarrow> pyval list \<Rightarrow> ('w, unit) io" where
  "subscribe_user rd user_id topics =
     io_bind (io_when (topics \<noteq> []) (rd_sadd rd (subs_key user_id) topics)) (\<lambda>_.
     rd_expire rd (subs_key user_id) (60 * 60 * 24))"

definition unsubscribe_user :: "'w redis_api \<Rightarrow> pyval \<Rightarrow> pyval list \<Rightarrow> ('w, unit) io" where
  "unsubscribe_user rd user_id topics = io_when (topics \<noteq> []) (rd_srem rd (subs_key user_id) topics)"

definition broadcast_to_user :: "'w redis_api \<Rightarrow> 'w socket_api \<Rightarrow> pyval \<Rightarrow> pyval \<Rightarrow> pyval \<Rightarrow> ('w mg_state, unit) io" where
  "broadcast_to_user rd ws user_id topic data =
     io_bind (outside (rd_smembers rd (user_conns_key user_id))) (\<lambda>conn_ids.
     io_each (\<lambda>cid. io_bind (io_get (\<lambda>(g, w). map_of (mg_local_connections g) cid)) (\<lambda>sock. case sock of
         None \<Rightarrow> io_return ()
       | Some n \<Rightarrow> outside (ws_send_json ws n [(''topic'', topic), (''data'', data)]))) conn_ids)"

definition get_presence :: "'w redis_api \<Rightarrow> pyval \<Rightarrow> ('w, pydict list) io" where
  "get_presence rd user_id = io_bind (rd_smembers rd (user_conns_key user_id)) (\<lambda>conn_ids.
     io_bind (io_map (\<lambda>cid. rd_hgetall rd (conn_key cid)) conn_ids) (\<lambda>rows.
     io_return (filter (\<lambda>d. d \<noteq> []) rows)))"

definition touch_heartbeat :: "'w redis_api \<Rightarrow> datetime \<Rightarrow> pyval \<Rightarrow> ('w, unit) io" where
  "touch_heartbeat rd now connection_id = rd_hset rd (conn_key connection_id) [(''last_heartbeat'', PIso now)]"

text \<open>One round of the listener, for a message on a channel of the broadcast pattern.\<close>

definition listen_round :: "'w redis_api \<Rightarrow> 'w socket_api \<Rightarrow> (pyval \<times> pydict) option \<Rightarrow> ('w mg_state, unit) io" where
  "listen_round rd ws msg = (case msg of
     None \<Rightarrow> io_return ()
   | Some (channel, payload) \<Rightarrow>
       (let user_id = pyget payload ''user_id'' in
        io_when (truthy user_id) (broadcast_to_user rd ws user_id channel (PDict payload))))"

subsection \<open>Authentication\<close>

definition authenticate_websocket :: "'w token_crypto \<Rightarrow> 'w redis_api \<Rightarrow> string option \<Rightarrow> string option \<Rightarrow> ('w, pydict) io" where
  "authenticate_websocket jc rd token fingerprint = (case token of
     None \<Rightarrow> io_raise (ValueError ''missing token'')
   | Some t \<Rightarrow> if t = [] then io_raise (ValueError ''missing token'') else verify_token jc rd t fingerprint)"

text \<open>A round of the revalidation task after its sleep; the answer says whether it goes on.\<close>

definition revalidate_round :: "'w token_crypto \<Rightarrow> 'w redis_api \<Rightarrow> 'w socket_api \<Rightarrow> nat \<Rightarrow> string \<Rightarrow> string option \<Rightarrow> ('w, bool) io" where
  "revalidate_round jc rd ws websocket token fingerprint =
     io_bind (io_try (verify_token jc rd token fingerprint)) (\<lambda>r. case r of
       Inr _ \<Rightarrow> io_return True
     | Inl _ \<Rightarrow> io_bind (ws_close ws websocket 4003) (\<lambda>_. io_return False))"

definition heartbeat_monitor_round :: "'w redis_api \<Rightarrow> 'w socket_api \<Rightarrow> datetime \<Rightarrow> nat \<Rightarrow> pyval \<Rightarrow> ('w, bool) io" where
  "heartbeat_monitor_round rd ws now websocket conn_id =
     io_bind (rd_hgetall rd (conn_key conn_id)) (\<lambda>presence.
     if presence = [] then io_bind (ws_close ws websocket 1001) (\<lambda>_. io_return False)
     else (let last_hb = pyget presence ''last_heartbeat'' in
       if truthy last_hb then
         io_bind (io_lift (fromisoformat last_hb)) (\<lambda>t.
         if of_int (now - t) / 1000000 > (90::real)
         then io_bind (ws_close ws websocket 1001) (\<lambda>_. io_return False)
         else io_return True)
       else io_return True))"

subsection \<open>The endpoint\<close>

definition topic_prefixes :: "string list" where
  "topic_prefixes = [''user:'', ''account_updates:'', ''position_updates:'', ''order_updates:'', ''market_data:'',
     ''calendar_updates:'', ''strategy_signals:'']"

definition startswith :: "string \<Rightarrow> string \<Rightarrow> bool" where
  "startswith s p = (take (length p) s = p)"

text \<open>A subject is a string. A topic that is not a string is never one that begins with a prefix.\<close>

definition topic_allowed :: "pyval \<Rightarrow> pydict \<Rightarrow> exn + bool" where
  "topic_allowed topic claims = sum_bind (key claims ''sub'') (\<lambda>sub. Inr (case (topic, py_str sub) of
     (PStr t, PStr s) \<Rightarrow> list_ex (\<lambda>p. startswith t (p @ s)) topic_prefixes | _ \<Rightarrow> False))"

datatype session_result = Continue | Closed

text \<open>The body of the receive loop; \<open>t\<close> and \<open>now\<close> are the clock readings of the limiter and of the answer.\<close>

definition handle_message :: "'w redis_api \<Rightarrow> 'w socket_api \<Rightarrow> rate_limiter \<Rightarrow> pydict \<Rightarrow> nat \<Rightarrow> string \<Rightarrow> pyval \<Rightarrow> real \<Rightarrow> datetime \<Rightarrow> pydict
    \<Rightarrow> ('w, session_result) io" where
  "handle_message rd ws rl claims sock conn_id user_id t now msg =
     io_bind (check_message_rate rd rl conn_id t) (\<lambda>ok.
     if \<not> ok then io_bind (ws_close ws sock 4002) (\<lambda>_. io_return Closed)
     else if pyget msg ''event'' = PStr ''heartbeat'' then
       io_bind (touch_heartbeat rd now (PStr conn_id)) (\<lambda>_.
       io_bind (ws_send_json ws sock [(''event'', PStr ''heartbeat_ack''), (''ts'', PIso now)]) (\<lambda>_. io_return Continue))
     else if pyget msg ''event'' = PStr ''subscribe'' then
       (let topic = py_str (dict_get msg ''topic'' (PStr [])) in
        io_bind (if truthy topic then io_lift (topic_allowed topic claims) else io_return False) (\<lambda>allowed.
        if \<not> allowed then io_bind (ws_close ws sock 4001) (\<lambda>_. io_return Closed)
        else io_bind (subscribe_user rd user_id [topic]) (\<lambda>_.
          io_bind (check_subscription_limit rd rl user_id) (\<lambda>room.
          if \<not> room then io_bind (ws_close ws sock 4002) (\<lambda>_. io_return Closed)
          else io_bind (ws_send_json ws sock [(''event'', PStr ''subscribed''), (''topic'', topic)]) (\<lambda>_. io_return Continue)))))
     else if pyget msg ''event'' = PStr ''unsubscribe'' then
       (let topic = py_str (dict_get msg ''topic'' (PStr [])) in
        io_bind (unsubscribe_user rd user_id [topic]) (\<lambda>_.
        io_bind (ws_send_json ws sock [(''event'', PStr ''unsubscribed''), (''topic'', topic)]) (\<lambda>_. io_return Continue)))
     else io_bind (ws_send_json ws sock [(''event'', PStr ''error''), (''detail'', PStr ''unsupported event'')]) (\<lambda>_.
       io_return Continue))"

text \<open>The messages in order, each with its clock readings; at the end the client has gone.\<close>

fun receive_loop :: "(real \<Rightarrow> datetime \<Rightarrow> pydict \<Rightarrow> ('w, session_result) io) \<Rightarrow> (real \<times> datetime \<times> pydict) list \<Rightarrow> ('w, unit) io" where
  "receive_loop handle [] = io_raise (OtherException ''WebSocketDisconnect'')"
| "receive_loop handle ((t, now, msg) # msgs) = io_bind (handle t now msg) (\<lambda>r. case r of
     Closed \<Rightarrow> io_return () | Continue \<Rightarrow> receive_loop handle msgs)"

definition session_body :: "'w token_crypto \<Rightarrow> 'w redis_api \<Rightarrow> 'w socket_api \<Rightarrow> rate_limiter \<Rightarrow> nat \<Rightarrow> string \<Rightarrow> string option \<Rightarrow> string option
    \<Rightarrow> string \<Rightarrow> real \<Rightarrow> datetime \<Rightarrow> (real \<times> datetime \<times> pydict) list \<Rightarrow> ('w mg_state, unit) io" where
  "session_body jc rd ws rl sock client_ip token fp conn_id t now msgs =
     io_bind (outside (check_connection_limit rd rl client_ip t)) (\<lambda>ok.
     if \<not> ok then outside (ws_close ws sock 4002)
     else io_bind (outside (authenticate_websocket jc rd token fp)) (\<lambda>claims.
       io_bind (io_lift (key claims ''sub'')) (\<lambda>sub.
       io_bind (mg_start ws) (\<lambda>_.
       io_bind (mg_connect rd ws now sock (py_str sub) (PStr conn_id) (py_str (pyget claims ''jti''))) (\<lambda>_.
       io_bind (outside (ws_create_task ws (RevalidateTask sock (case token of None \<Rightarrow> [] | Some s \<Rightarrow> s) fp))) (\<lambda>_.
       io_bind (outside (ws_create_task ws (MonitorTask sock conn_id))) (\<lambda>_.
       outside (receive_loop (handle_message rd ws rl claims sock conn_id (py_str sub)) msgs))))))))"

text \<open>
  The exception handlers and the cleanup; an exception of the cleanup is dropped. The two tasks that the session
  created are not cancelled.
\<close>

definition websocket_endpoint :: "'w token_crypto \<Rightarrow> 'w redis_api \<Rightarrow> 'w socket_api \<Rightarrow> rate_limiter \<Rightarrow> nat \<Rightarrow> string \<Rightarrow> string option
    \<Rightarrow> string option \<Rightarrow> string \<Rightarrow> real \<Rightarrow> datetime \<Rightarrow> (real \<times> datetime \<times> pydict) list \<Rightarrow> ('w mg_state, unit) io" where
  "websocket_endpoint jc rd ws rl sock client_ip token fp conn_id t now msgs =
     io_bind (io_try (io_bind (io_try (session_body jc rd ws rl sock client_ip token fp conn_id t now msgs)) (\<lambda>r. case r of
         Inr _ \<Rightarrow> io_return ()
       | Inl (OtherException m) \<Rightarrow> if m = ''WebSocketDisconnect'' then io_return ()
           else io_bind (io_try (outside (ws_close ws sock 1011))) (\<lambda>_. io_return ())
       | Inl (ValueError m) \<Rightarrow> outside (ws_close ws sock 4001)
       | Inl e \<Rightarrow> io_bind (io_try (outside (ws_close ws sock 1011))) (\<lambda>_. io_return ())))) (\<lambda>outcome.
     io_bind (io_try (io_bind (mg_disconnect rd (PStr conn_id)) (\<lambda>_. mg_stop ws))) (\<lambda>_.
     io_lift outcome))"

subsection \<open>The window is exact\<close>

text \<open>
  What a sliding window promises: the event at time \<open>t\<close> is admitted when at most \<open>limit\<close> events,
  itself and refused ones included, lie within the last \<open>width\<close> seconds. \<open>past\<close> is the earlier
  events.
\<close>

fun window_answers :: "real \<Rightarrow> int \<Rightarrow> real list \<Rightarrow> real list \<Rightarrow> bool list" where
  "window_answers width limit past [] = []"
| "window_answers width limit past (t # ts) =
     (int (length (filter (\<lambda>u. t - width < u) (past @ [t]))) \<le> limit) # window_answers width limit (past @ [t]) ts"

definition window_entry :: "real \<Rightarrow> pyval \<times> real" where
  "window_entry t = (py_str (PFloat t), t)"

lemma window_check_step:
  assumes rd: "redis_zsets rd view" and window: "1 \<le> rl_window_seconds rl"
    and entries: "view w k = map window_entry (filter (\<lambda>u. c < u) past)"
    and c: "c \<le> t - of_int (rl_window_seconds rl)" and past: "\<forall>u\<in>set past. 0 \<le> u \<and> u < t"
  shows "\<exists>w'. window_check rd rl limit k t w =
      (Inr (int (length (filter (\<lambda>u. t - of_int (rl_window_seconds rl) < u) (past @ [t]))) \<le> limit), w') \<and>
    view w' k = map window_entry (filter (\<lambda>u. t - of_int (rl_window_seconds rl) < u) (past @ [t]))"
proof -
  let ?lo = "t - of_int (rl_window_seconds rl)"
  let ?kept = "filter (\<lambda>u. ?lo < u) past"
  obtain w1 where w1: "rd_zremrangebyscore rd k 0 ?lo w = (Inr (), w1)"
    and v1: "view w1 = (view w)(k := filter (\<lambda>(m, x). \<not> (0 \<le> x \<and> x \<le> ?lo)) (view w k))"
    using zrem_law [OF rd] by blast
  have "filter (\<lambda>(m, x). \<not> (0 \<le> x \<and> x \<le> ?lo)) (view w k) = map window_entry ?kept"
    unfolding entries using past c by (induction past) (auto simp: window_entry_def)
  with v1 have e1: "view w1 k = map window_entry ?kept" by simp
  obtain w2 where w2: "rd_zadd rd k (py_str (PFloat t)) t w1 = (Inr (), w2)"
    and v2: "view w2 = (view w1)(k := AList.update (py_str (PFloat t)) t (view w1 k))"
    using zadd_law [OF rd] by blast
  have "py_str (PFloat t) \<notin> fst ` set (map window_entry ?kept)"
    using past by (auto simp: window_entry_def)
  then have e2: "view w2 k = map window_entry (filter (\<lambda>u. ?lo < u) (past @ [t]))"
    using v2 e1 window by (simp add: update_fresh window_entry_def)
  obtain w3 where w3: "rd_expire rd k (rl_window_seconds rl) w2 = (Inr (), w3)" and v3: "view w3 = view w2"
    using zexpire_law [OF rd window] by blast
  have "window_check rd rl limit k t w = (Inr (int (length (view w2 k)) \<le> limit), w3)"
    unfolding window_check_def using w1 w2 w3 zcard_law [OF rd, of k w2]
    by (simp add: io_bind_Inr io_return_def del: py_str.simps)
  then show ?thesis using e2 v3 by (simp only: length_map) auto
qed

lemma window_checks:
  assumes rd: "redis_zsets rd view" and window: "1 \<le> rl_window_seconds rl"
    and "view w k = map window_entry (filter (\<lambda>u. c < u) past)"
    and "\<forall>t\<in>set ts. c \<le> t - of_int (rl_window_seconds rl)" and "sorted_wrt (<) (past @ ts)" and "\<forall>t\<in>set (past @ ts). 0 \<le> t"
  shows "\<exists>w'. io_map (window_check rd rl limit k) ts w =
    (Inr (window_answers (of_int (rl_window_seconds rl)) limit past ts), w')"
  using assms(3-)
proof (induction ts arbitrary: w past c)
  case Nil
  then show ?case by (simp add: io_simps)
next
  case (Cons t ts)
  let ?lo = "t - of_int (rl_window_seconds rl)"
  have "\<forall>u\<in>set past. 0 \<le> u \<and> u < t"
    using Cons.prems(3,4) by (auto simp: sorted_wrt_append)
  then obtain w1 where step: "window_check rd rl limit k t w =
      (Inr (int (length (filter (\<lambda>u. ?lo < u) (past @ [t]))) \<le> limit), w1)"
    and v1: "view w1 k = map window_entry (filter (\<lambda>u. ?lo < u) (past @ [t]))"
    using window_check_step [OF rd window Cons.prems(1), of t limit] Cons.prems(2) by auto
  have "\<forall>u\<in>set ts. ?lo \<le> u - of_int (rl_window_seconds rl)"
    using Cons.prems(3) by (auto simp: sorted_wrt_append less_imp_le)
  then obtain w2 where "io_map (window_check rd rl limit k) ts w1 =
      (Inr (window_answers (of_int (rl_window_seconds rl)) limit (past @ [t]) ts), w2)"
    using Cons.IH [OF v1] Cons.prems(3,4) by auto
  with step show ?case by (auto simp: io_simps)
qed

text \<open>
  C22. The message limiter is an exact sliding window: for a connection without earlier messages,
  checks at increasing times answer as the window specification says, whatever else the server
  stores. Messages that were refused count as well.
\<close>

theorem message_rate_exact:
  assumes "redis_zsets rd view" and "1 \<le> rl_window_seconds rl" and "view w (''ws:msg:'', PStr cid) = []"
    and "sorted_wrt (<) ts" and "\<forall>t\<in>set ts. 0 \<le> t"
  shows "\<exists>w'. io_map (check_message_rate rd rl cid) ts w =
    (Inr (window_answers (of_int (rl_window_seconds rl)) (rl_messages_per_minute rl) [] ts), w')"
proof -
  have "check_message_rate rd rl cid = window_check rd rl (rl_messages_per_minute rl) (''ws:msg:'', PStr cid)"
    by (rule ext) (simp add: check_message_rate_def)
  moreover have "\<forall>t\<in>set ts. - of_int (rl_window_seconds rl) \<le> t - of_int (rl_window_seconds rl)"
    using assms(5) by auto
  ultimately show ?thesis
    using window_checks [OF assms(1,2), of w "(''ws:msg:'', PStr cid)" "- of_int (rl_window_seconds rl)" "[]" ts] assms(3-5) by simp
qed

subsection \<open>Subscriptions\<close>

text \<open>The sockets do not write to the server.\<close>

definition sockets_quiet :: "'w socket_api \<Rightarrow> ('w \<Rightarrow> rkey \<Rightarrow> pyval set) \<Rightarrow> bool" where
  "sockets_quiet ws view = ((\<forall>n d w. view (snd (ws_send_json ws n d w)) = view w) \<and> (\<forall>n c w. view (snd (ws_close ws n c w)) = view w))"

text \<open>The sets stay as in \<open>v\<close>, except that the user's subscriptions may gain allowed topics and lose others.\<close>

definition subs_within :: "(rkey \<Rightarrow> pyval set) \<Rightarrow> pydict \<Rightarrow> pyval \<Rightarrow> (rkey \<Rightarrow> pyval set) \<Rightarrow> bool" where
  "subs_within v claims user_id v' = ((\<forall>k. k \<noteq> subs_key user_id \<longrightarrow> v' k = v k) \<and>
     v' (subs_key user_id) \<subseteq> v (subs_key user_id) \<union> {topic. topic_allowed topic claims = Inr True})"

lemma quiet_preserves: "(\<And>w. view (snd (m w)) = view w) \<Longrightarrow> io_preserves (\<lambda>w. P (view w)) m"
  by (simp add: io_preserves_def)

lemma window_check_quiet:
  assumes "redis_sets rd view"
  shows "io_preserves (\<lambda>w. P (view w)) (window_check rd rl limit k t)"
  unfolding window_check_def
  by (intro preserves quiet_preserves) (simp_all add: quiet_laws [OF assms])

lemma subscribe_within:
  assumes "redis_sets rd view" and "topic_allowed topic claims = Inr True"
  shows "io_preserves (\<lambda>w. subs_within v claims user_id (view w)) (subscribe_user rd user_id [topic])"
proof -
  have add: "io_preserves (\<lambda>w. subs_within v claims user_id (view w)) (rd_sadd rd (subs_key user_id) [topic])"
    unfolding io_preserves_def
  proof (intro allI impI)
    fix w
    assume "subs_within v claims user_id (view w)"
    then show "subs_within v claims user_id (view (snd (rd_sadd rd (subs_key user_id) [topic] w)))"
      using sadd_law [OF assms(1), of "subs_key user_id" "[topic]" w] assms(2)
      by (elim insertE) (auto simp: subs_within_def)
  qed
  show ?thesis
    unfolding subscribe_user_def
    by (intro preserves add quiet_preserves) (simp add: quiet_laws [OF assms(1)])
qed

lemma unsubscribe_within:
  assumes "redis_sets rd view"
  shows "io_preserves (\<lambda>w. subs_within v claims user_id (view w)) (unsubscribe_user rd user_id topics)"
proof -
  have "io_preserves (\<lambda>w. subs_within v claims user_id (view w)) (rd_srem rd (subs_key user_id) topics)"
    unfolding io_preserves_def
  proof (intro allI impI)
    fix w
    assume "subs_within v claims user_id (view w)"
    then show "subs_within v claims user_id (view (snd (rd_srem rd (subs_key user_id) topics w)))"
      using srem_law [OF assms, of "subs_key user_id" topics w]
      by (elim insertE) (auto simp: subs_within_def)
  qed
  then show ?thesis unfolding unsubscribe_user_def by (intro preserves)
qed

lemma handle_message_within:
  assumes rd: "redis_sets rd view" and ws: "sockets_quiet ws view"
  shows "io_preserves (\<lambda>w. subs_within v claims user_id (view w)) (handle_message rd ws rl claims sock conn_id user_id t now msg)"
proof -
  have send: "io_preserves (\<lambda>w. subs_within v claims user_id (view w)) (ws_send_json ws n d)"
    and close: "io_preserves (\<lambda>w. subs_within v claims user_id (view w)) (ws_close ws n c)" for n d c
    using ws by (auto intro!: quiet_preserves simp: sockets_quiet_def)
  have rate: "io_preserves (\<lambda>w. subs_within v claims user_id (view w)) (check_message_rate rd rl conn_id t)"
    unfolding check_message_rate_def by (rule window_check_quiet [OF rd])
  have hb: "io_preserves (\<lambda>w. subs_within v claims user_id (view w)) (touch_heartbeat rd now c)" for c
    unfolding touch_heartbeat_def by (rule quiet_preserves) (simp add: quiet_laws [OF rd])
  have room: "io_preserves (\<lambda>w. subs_within v claims user_id (view w)) (check_subscription_limit rd rl user_id)"
    unfolding check_subscription_limit_def by (intro preserves quiet_preserves) (simp add: quiet_laws [OF rd])
  let ?topic = "py_str (dict_get msg ''topic'' (PStr []))"
  have sub: "io_preserves (\<lambda>w. subs_within v claims user_id (view w))
     (io_bind (if truthy ?topic then io_lift (topic_allowed ?topic claims) else io_return False) (\<lambda>allowed.
        if \<not> allowed then io_bind (ws_close ws sock 4001) (\<lambda>_. io_return Closed)
        else io_bind (subscribe_user rd user_id [?topic]) (\<lambda>_.
          io_bind (check_subscription_limit rd rl user_id) (\<lambda>room.
          if \<not> room then io_bind (ws_close ws sock 4002) (\<lambda>_. io_return Closed)
          else io_bind (ws_send_json ws sock [(''event'', PStr ''subscribed''), (''topic'', ?topic)]) (\<lambda>_. io_return Continue)))))"
    (is "io_preserves _ (io_bind ?test ?rest)")
  proof (cases "truthy ?topic \<and> topic_allowed ?topic claims = Inr True")
    case True
    then have "?test = io_return True" by (simp add: io_lift_simps)
    then show ?thesis
      using True by (simp only: io_bind_return) (auto intro!: preserves close send room subscribe_within [OF rd])
  next
    case False
    then consider "?test = io_return False" | e where "?test = io_raise e"
      by (cases "truthy ?topic"; cases "topic_allowed ?topic claims") (auto simp: io_lift_simps)
    then show ?thesis
    proof cases
      case 1
      show ?thesis unfolding 1 io_bind_return by (simp, intro preserves close)
    next
      case 2
      show ?thesis unfolding 2 io_bind_raise by (rule preserves)
    qed
  qed
  show ?thesis
    unfolding handle_message_def Let_def
    by (intro preserves rate hb send close sub unsubscribe_within [OF rd])
qed

text \<open>
  C23. Whatever messages a client sends, its session adds to the stored subscriptions of its own user
  only, and only topics that begin with one of the allowed prefixes followed by the subject of the
  token; no other set on the server changes.
\<close>

theorem subscriptions_allowed:
  assumes "redis_sets rd view" and "sockets_quiet ws view"
  shows "subs_within (view w) claims user_id
    (view (snd (receive_loop (handle_message rd ws rl claims sock conn_id user_id) msgs w)))"
proof -
  have "io_preserves (\<lambda>w'. subs_within (view w) claims user_id (view w'))
      (receive_loop (handle_message rd ws rl claims sock conn_id user_id) msgs)"
  proof (induction msgs)
    case Nil
    then show ?case by (auto intro: preserves)
  next
    case (Cons m msgs)
    obtain t now msg where m: "m = (t, now, msg)" by (rule prod_cases3)
    show ?case
      unfolding m receive_loop.simps
      by (rule io_preserves_bind [OF handle_message_within [OF assms]])
         (auto split: session_result.split intro: preserves Cons.IH)
  qed
  then show ?thesis
    by (rule io_preservesD) (simp add: subs_within_def)
qed

text \<open>
  The topic check compares prefixes without their end: the client of user \<open>s\<close> may subscribe to
  every topic of a user whose identifier begins with \<open>s\<close>.
\<close>

theorem topic_of_longer_id_allowed:
  assumes "map_of claims ''sub'' = Some (PStr s)" and "prefix \<in> set topic_prefixes"
  shows "topic_allowed (PStr (prefix @ s @ rest)) claims = Inr True"
proof -
  have "startswith (prefix @ s @ rest) (prefix @ s)" by (simp add: startswith_def)
  with assms show ?thesis by (auto simp: topic_allowed_def key_def sum_bind_def list_ex_iff)
qed

subsection \<open>Witnesses\<close>

text \<open>A server with sorted sets only, and one with plain sets only.\<close>

definition zset_redis :: "(rkey \<Rightarrow> (pyval \<times> real) list) redis_api" where
  "zset_redis = \<lparr>rd_exists = \<lambda>_. io_return False, rd_get = \<lambda>_. io_return None, rd_set = \<lambda>_ _ _. io_return (),
     rd_lpush = \<lambda>_ _. io_return (),
     rd_zremrangebyscore = \<lambda>k lo hi w. (Inr (), w(k := filter (\<lambda>(m, x). \<not> (lo \<le> x \<and> x \<le> hi)) (w k))),
     rd_zadd = \<lambda>k m x w. (Inr (), w(k := AList.update m x (w k))), rd_zcard = \<lambda>k w. (Inr (length (w k)), w),
     rd_scard = \<lambda>_. io_return 0, rd_expire = \<lambda>_ _. io_return (), rd_sadd = \<lambda>_ _. io_return (),
     rd_srem = \<lambda>_ _. io_return (), rd_smembers = \<lambda>_. io_return [], rd_hset = \<lambda>_ _. io_return (),
     rd_hget = \<lambda>_ _. io_return None, rd_hgetall = \<lambda>_. io_return [], rd_delete = \<lambda>_. io_return (),
     rd_publish = \<lambda>_ _. io_return ()\<rparr>"

definition set_redis :: "(rkey \<Rightarrow> pyval set) redis_api" where
  "set_redis = \<lparr>rd_exists = \<lambda>_. io_return False, rd_get = \<lambda>_. io_return None, rd_set = \<lambda>_ _ _. io_return (),
     rd_lpush = \<lambda>_ _. io_return (), rd_zremrangebyscore = \<lambda>_ _ _. io_return (), rd_zadd = \<lambda>_ _ _. io_return (),
     rd_zcard = \<lambda>_. io_return 0, rd_scard = \<lambda>k w. (Inr (card (w k)), w), rd_expire = \<lambda>_ _. io_return (),
     rd_sadd = \<lambda>k ms w. (Inr (), w(k := w k \<union> set ms)), rd_srem = \<lambda>k ms w. (Inr (), w(k := w k - set ms)),
     rd_smembers = \<lambda>_. io_return [], rd_hset = \<lambda>_ _. io_return (), rd_hget = \<lambda>_ _. io_return None,
     rd_hgetall = \<lambda>_. io_return [], rd_delete = \<lambda>_. io_return (), rd_publish = \<lambda>_ _. io_return ()\<rparr>"

definition quiet_sockets :: "'w socket_api" where
  "quiet_sockets = \<lparr>ws_accept = \<lambda>_. io_return (), ws_send_json = \<lambda>_ _. io_return (), ws_close = \<lambda>_ _. io_return (),
     ws_psubscribe = \<lambda>_. io_return (), ws_pubsub_close = io_return (), ws_create_task = \<lambda>_. io_return ()\<rparr>"

lemma zset_redis_zsets: "redis_zsets zset_redis (\<lambda>w. w)"
  by (simp add: redis_zsets_def zset_redis_def io_return_def)

lemma set_redis_sets: "redis_sets set_redis (\<lambda>w. w)"
  by (simp add: redis_sets_def set_redis_def io_return_def)

theorem message_rate_exact_witness:
  "\<exists>w'. io_map (check_message_rate zset_redis (default_limiter\<lparr>rl_messages_per_minute := 2\<rparr>) ''c'') [0, 10, 20, 65] (\<lambda>_. []) =
     (Inr [True, True, False, False], w')"
  using message_rate_exact [OF zset_redis_zsets, of "default_limiter\<lparr>rl_messages_per_minute := 2\<rparr>" "\<lambda>_. []" "''c''" "[0, 10, 20, 65]"]
  by (simp add: default_limiter_def)

theorem subscriptions_allowed_witness:
  "subs_within (\<lambda>_. {}) [(''sub'', PStr ''7'')] (PStr ''7'')
     (snd (receive_loop (handle_message set_redis quiet_sockets default_limiter [(''sub'', PStr ''7'')] 0 ''c'' (PStr ''7''))
        [(1, 0, [(''event'', PStr ''subscribe''), (''topic'', PStr ''user:7'')])] (\<lambda>_. {})))"
proof -
  have quiet: "sockets_quiet quiet_sockets (\<lambda>w. w)" by (simp add: sockets_quiet_def quiet_sockets_def io_return_def)
  show ?thesis by (rule subscriptions_allowed [OF set_redis_sets quiet, of "\<lambda>_. {}"])
qed

theorem topic_of_longer_id_allowed_witness:
  "topic_allowed (PStr ''user:12'') [(''sub'', PStr ''1'')] = Inr True"
  using topic_of_longer_id_allowed [of "[(''sub'', PStr ''1'')]" "''1''" "''user:''" "''2''"] by (simp add: topic_prefixes_def)

end
