(* ===== verification/Economic_Calendar.thy ===== *)
theory Economic_Calendar
  imports Prelude
begin

text \<open>
  The economic calendar (\<^verbatim>\<open>news_service/src/calendar/engine.py\<close>): merging the batches of the
  providers, the bias prediction, the impact class and a round of the live updates. A provider is
  a function from the state to a batch or an exception; finding the
  rows and cells of a web page is the parser's affair, a parameter.
\<close>

subsection \<open>Events\<close>

record economic_event =
  ev_id :: string
  ev_provider :: string
  ev_time :: datetime
  ev_country :: string
  ev_region :: string
  ev_event_name :: string
  ev_category :: string
  ev_impact :: string
  ev_forecast :: "string option"
  ev_actual :: "string option"
  ev_previous :: "string option"
  ev_revised :: "string option"
  ev_unit :: "string option"
  ev_sentiment_score :: real
  ev_bias_prediction :: "string option"
  ev_confidence :: real
  ev_importance :: int

text \<open>\<open>event.__dict__\<close>: the class is declared with slots, so an instance has no dictionary.\<close>

definition event_dict :: "economic_event \<Rightarrow> exn + pydict" where
  "event_dict e = Inl (AttributeError ''__dict__'')"

subsection \<open>Merging\<close>

definition priority :: "string \<Rightarrow> int" where
  "priority provider = dict_get [(''bloomberg'', 3), (''reuters'', 2), (''forexfactory'', 1)] provider 0"

text \<open>A filter that is \<open>None\<close> or empty lets everything pass.\<close>

definition passes_filter :: "string list option \<Rightarrow> string \<Rightarrow> bool" where
  "passes_filter flt x = (case flt of None \<Rightarrow> True | Some xs \<Rightarrow> xs = [] \<or> x \<in> set xs)"

definition merge_event :: "string list option \<Rightarrow> string list option \<Rightarrow> economic_event \<Rightarrow> (string \<times> economic_event) list
    \<Rightarrow> (string \<times> economic_event) list" where
  "merge_event countries impact e merged =
     (if \<not> passes_filter countries (ev_country e) then merged
      else if \<not> passes_filter impact (ev_impact e) then merged
      else (case map_of merged (ev_id e) of
          None \<Rightarrow> AList.update (ev_id e) e merged
        | Some current \<Rightarrow> if priority (ev_provider e) > priority (ev_provider current)
            then AList.update (ev_id e) e merged else merged))"

definition merge_batch :: "string list option \<Rightarrow> string list option \<Rightarrow> exn + economic_event list \<Rightarrow> (string \<times> economic_event) list
    \<Rightarrow> (string \<times> economic_event) list" where
  "merge_batch countries impact batch merged = (case batch of
     Inl _ \<Rightarrow> merged | Inr es \<Rightarrow> fold (merge_event countries impact) es merged)"

definition merge_batches :: "string list option \<Rightarrow> string list option \<Rightarrow> (exn + economic_event list) list \<Rightarrow> economic_event list" where
  "merge_batches countries impact batches =
     sort_key ev_time (map snd (fold (merge_batch countries impact) batches []))"

text \<open>
  The providers are awaited together; their batches are taken in the order of the providers,
  exceptions as values.
\<close>

definition fetch_events :: "(datetime \<Rightarrow> datetime option \<Rightarrow> ('s, economic_event list) io) list \<Rightarrow> datetime \<Rightarrow> datetime option
    \<Rightarrow> string list option \<Rightarrow> string list option \<Rightarrow> ('s, economic_event list) io" where
  "fetch_events providers start_date end_date countries impact =
     io_bind (io_map (\<lambda>p. io_try (p start_date end_date)) providers) (\<lambda>batches.
     io_return (merge_batches countries impact batches))"

definition register_provider :: "'p \<Rightarrow> 'p list \<Rightarrow> 'p list" where
  "register_provider p providers = providers @ [p]"

definition bloomberg_fetch :: "datetime \<Rightarrow> datetime option \<Rightarrow> ('s, economic_event list) io" where
  "bloomberg_fetch start_date end_date = io_return []"

definition reuters_fetch :: "datetime \<Rightarrow> datetime option \<Rightarrow> ('s, economic_event list) io" where
  "reuters_fetch start_date end_date = io_return []"

fun contains :: "string \<Rightarrow> string \<Rightarrow> bool" where
  "contains [] p = (p = [])"
| "contains (c # s) p = (take (length p) (c # s) = p \<or> contains s p)"

subsection \<open>ForexFactory\<close>

text \<open>
  A row of the calendar page as the parser finds it: the stripped texts of its cells, the classes of
  the impact span and the event id, each \<open>None\<close> when missing. The expression
  \<open>(cell or {}).get_text(...)\<close> raises for a missing cell.
\<close>

record calendar_row =
  cw_time_text :: "string option"
  cw_country :: "string option"
  cw_event_name :: "string option"
  cw_impact_class :: "string list option"
  cw_event_id :: "string option"

definition cell_text :: "string option \<Rightarrow> exn + string" where
  "cell_text cell = (case cell of None \<Rightarrow> Inl (AttributeError ''get_text'') | Some t \<Rightarrow> Inr t)"

definition row_impact :: "calendar_row \<Rightarrow> string" where
  "row_impact r = (let cls = (case cw_impact_class r of None \<Rightarrow> [] | Some cs \<Rightarrow> join '' '' cs) in
     if contains cls ''--high'' then ''high'' else if contains cls ''--medium'' then ''medium'' else ''low'')"

definition row_event_id :: "calendar_row \<Rightarrow> string \<Rightarrow> string \<Rightarrow> string \<Rightarrow> string" where
  "row_event_id r time_text country event_name = py_strip (case cw_event_id r of
     Some i \<Rightarrow> if i \<noteq> [] then i else ''ff-'' @ country @ ''-'' @ event_name @ ''-'' @ time_text
   | None \<Rightarrow> ''ff-'' @ country @ ''-'' @ event_name @ ''-'' @ time_text)"

definition ff_event :: "datetime \<Rightarrow> calendar_row \<Rightarrow> exn + economic_event" where
  "ff_event now r = sum_bind (cell_text (cw_time_text r)) (\<lambda>time_text. sum_bind (cell_text (cw_country r)) (\<lambda>country.
     sum_bind (cell_text (cw_event_name r)) (\<lambda>event_name. let impact = row_impact r in
     Inr \<lparr>ev_id = row_event_id r time_text country event_name, ev_provider = ''forexfactory'', ev_time = now,
       ev_country = country, ev_region = country, ev_event_name = event_name, ev_category = ''macro'', ev_impact = impact,
       ev_forecast = None, ev_actual = None, ev_previous = None, ev_revised = None, ev_unit = None, ev_sentiment_score = 0,
       ev_bias_prediction = None, ev_confidence = 0,
       ev_importance = (if impact = ''high'' then 5 else if impact = ''medium'' then 3 else 1)\<rparr>)))"

text \<open>\<open>clk n\<close> is the clock at row \<open>n\<close>; a row that raises is skipped.\<close>

fun ff_events :: "(nat \<Rightarrow> datetime) \<Rightarrow> nat \<Rightarrow> calendar_row list \<Rightarrow> economic_event list" where
  "ff_events clk n [] = []"
| "ff_events clk n (r # rs) = (case ff_event (clk n) r of
     Inl _ \<Rightarrow> ff_events clk (Suc n) rs | Inr e \<Rightarrow> e # ff_events clk (Suc n) rs)"

text \<open>\<open>page\<close> requests and parses the page; the dates asked for are not used.\<close>

definition forexfactory_fetch :: "('s, calendar_row list) io \<Rightarrow> (nat \<Rightarrow> datetime) \<Rightarrow> datetime \<Rightarrow> datetime option \<Rightarrow> ('s, economic_event list) io" where
  "forexfactory_fetch page clk start_date end_date = io_bind page (\<lambda>rows. io_return (ff_events clk 0 rows))"

subsection \<open>Live updates\<close>

record 's calendar_deps =
  cd_get_event_actual :: "(string \<Rightarrow> ('s, string option) io) option"
  cd_upsert_event :: "pydict \<Rightarrow> ('s, unit) io"
  cd_broadcast :: "(string \<Rightarrow> pydict \<Rightarrow> ('s, unit) io) option"

text \<open>\<open>cd_get_event_actual\<close> is \<open>None\<close> when there is no repository, whose upsert is then not used.\<close>

definition update_event :: "'s calendar_deps \<Rightarrow> economic_event \<Rightarrow> ('s, unit) io" where
  "update_event dp e =
     io_bind (case cd_get_event_actual dp of None \<Rightarrow> io_return None | Some f \<Rightarrow> f (ev_id e)) (\<lambda>old_actual.
     if old_actual \<noteq> ev_actual e then
       io_bind (if cd_get_event_actual dp \<noteq> None
           then io_bind (io_lift (event_dict e)) (cd_upsert_event dp) else io_return ()) (\<lambda>_.
       (case cd_broadcast dp of None \<Rightarrow> io_return ()
        | Some f \<Rightarrow> io_bind (io_lift (event_dict e)) (\<lambda>d. f ''calendar_updates'' [(''event'', PDict d)])))
     else io_return ())"

text \<open>The body of the loop up to the sleep; an exception ends the loop.\<close>

definition live_round :: "'s calendar_deps \<Rightarrow> (datetime \<Rightarrow> datetime option \<Rightarrow> ('s, economic_event list) io) list \<Rightarrow> datetime \<Rightarrow> ('s, unit) io" where
  "live_round dp providers now =
     io_bind (fetch_events providers now (Some (now + 6 * 3600 * 1000000)) None (Some [''high''])) (\<lambda>events.
     io_each (update_event dp) events)"

subsection \<open>Bias\<close>

text \<open>
  \<open>v.replace("%", "").replace(",", "").strip()\<close> and \<open>float\<close>, \<open>None\<close> on a value error; for the texts that
  \<open>parse_float\<close> leaves out of the model (infinities, not-a-numbers) it is \<open>None\<close> where the code has a number,
  and the confidence is computed without rounding.
\<close>

definition to_num :: "string option \<Rightarrow> real option" where
  "to_num v = (case v of None \<Rightarrow> None
     | Some s \<Rightarrow> parse_float (py_strip (filter (\<lambda>c. c \<noteq> CHR '','') (filter (\<lambda>c. c \<noteq> CHR ''%'') s))))"

definition bias_of :: "real \<Rightarrow> real \<Rightarrow> string" where
  "bias_of actual forecast = (if actual > forecast then ''bullish'' else if actual < forecast then ''bearish'' else ''neutral'')"

record bias_report =
  br_bias :: string
  br_confidence :: real
  br_reasoning :: string

definition predict_bias :: "economic_event \<Rightarrow> bias_report" where
  "predict_bias e = (case (to_num (ev_actual e), to_num (ev_forecast e)) of
     (Some actual, Some forecast) \<Rightarrow>
       (let n = lower_str (ev_event_name e) in
        \<lparr>br_bias = bias_of actual forecast,
         br_confidence = min (95/100) (1/2 + \<bar>actual - forecast\<bar> / (\<bar>forecast\<bar> + 1 / 10 ^ 9)),
         br_reasoning = (if contains n ''interest rate'' then ''Higher rates generally support currency''
           else if contains n ''cpi'' then ''Inflation surprise and policy expectations''
           else if contains n ''non-farm'' \<or> contains n ''nfp'' then ''Labor market surprise signal''
           else ''Actual compared with forecast'')\<rparr>)
   | _ \<Rightarrow> \<lparr>br_bias = ''neutral'', br_confidence = 2/10, br_reasoning = ''Insufficient numeric data''\<rparr>)"

definition calculate_impact :: "economic_event \<Rightarrow> string" where
  "calculate_impact e = (if ev_importance e \<ge> 5 \<or> lower_str (ev_impact e) = ''high'' then ''high''
     else if ev_importance e \<ge> 3 then ''medium'' else ''low'')"

subsection \<open>The news service\<close>

text \<open>
  The service (\<^verbatim>\<open>news_service/src/app.py\<close>) imports a class by a name that its module does not
  define; the import of the service raises. Its endpoints are modelled over any object with the methods
  they call.
\<close>

definition calendar_names :: "string list" where
  "calendar_names = [''annotations'', ''asyncio'', ''logging'', ''dataclass'', ''datetime'', ''timedelta'', ''Dict'', ''List'', ''Optional'',
     ''httpx'', ''BeautifulSoup'', ''logger'', ''EconomicEvent'', ''EconomicCalendar'', ''ForexFactoryProvider'',
     ''BloombergProvider'', ''ReutersProvider'']"

definition import_name :: "string list \<Rightarrow> string \<Rightarrow> exn + unit" where
  "import_name names n = (if n \<in> set names then Inr () else Inl (OtherException ''ImportError''))"

definition news_service_import :: "exn + unit" where
  "news_service_import = import_name calendar_names ''EconomicCalendarEngine''"

record 's news_engine =
  ne_fetch_events :: "datetime \<Rightarrow> datetime \<Rightarrow> ('s, economic_event list) io"
  ne_get_event_by_id :: "pyval \<Rightarrow> ('s, economic_event option) io"
  ne_predict_bias :: "economic_event \<Rightarrow> ('s, bias_report) io"

definition events_endpoint :: "'s news_engine \<Rightarrow> datetime \<Rightarrow> int \<Rightarrow> ('s, pydict list) io" where
  "events_endpoint ne now days =
     io_bind (ne_fetch_events ne now (now + days * 86400 * 1000000)) (\<lambda>events.
     io_lift (sum_list_results (map event_dict events)))"

definition bias_dict :: "bias_report \<Rightarrow> pydict" where
  "bias_dict r = [(''bias'', PStr (br_bias r)), (''confidence'', PFloat (br_confidence r)), (''reasoning'', PStr (br_reasoning r))]"

definition bias_endpoint :: "'s news_engine \<Rightarrow> pydict \<Rightarrow> ('s, pydict) io" where
  "bias_endpoint ne payload =
     io_bind (ne_get_event_by_id ne (dict_get payload ''event_id'' (PStr []))) (\<lambda>r. case r of
       None \<Rightarrow> io_return [(''bias'', PStr ''neutral''), (''confidence'', PFloat 0)]
     | Some e \<Rightarrow> io_bind (ne_predict_bias ne e) (\<lambda>b. io_return (bias_dict b)))"

lemma news_service_cannot_start: "news_service_import = Inl (OtherException ''ImportError'')"
  by (simp add: news_service_import_def import_name_def calendar_names_def)

text \<open>With any engine at all the events endpoint answers only when there are no events.\<close>

lemma events_endpoint_fails:
  "ne_fetch_events ne now (now + days * 86400 * 1000000) s = (Inr (e # es), s') \<Longrightarrow>
    events_endpoint ne now days s = (Inl (AttributeError ''__dict__''), s')"
  by (simp add: events_endpoint_def event_dict_def io_simps)

subsection \<open>What merging keeps\<close>

definition admitted :: "string list option \<Rightarrow> string list option \<Rightarrow> economic_event \<Rightarrow> bool" where
  "admitted countries impact e = (passes_filter countries (ev_country e) \<and> passes_filter impact (ev_impact e))"

text \<open>The event kept of a list: the first one of the highest priority.\<close>

fun best :: "economic_event list \<Rightarrow> economic_event option" where
  "best [] = None"
| "best (e # es) = (case best es of
     None \<Rightarrow> Some e
   | Some b \<Rightarrow> if priority (ev_provider b) > priority (ev_provider e) then Some b else Some e)"

definition candidates :: "string list option \<Rightarrow> string list option \<Rightarrow> string \<Rightarrow> economic_event list \<Rightarrow> economic_event list" where
  "candidates countries impact i es = filter (\<lambda>e. admitted countries impact e \<and> ev_id e = i) es"

definition all_events :: "(exn + economic_event list) list \<Rightarrow> economic_event list" where
  "all_events batches = concat (map (\<lambda>b. case b of Inl _ \<Rightarrow> [] | Inr es \<Rightarrow> es) batches)"

lemma merge_event_lookup:
  "map_of (merge_event countries impact e merged) i =
     (if admitted countries impact e \<and> ev_id e = i then
        (case map_of merged i of None \<Rightarrow> Some e
         | Some c \<Rightarrow> if priority (ev_provider e) > priority (ev_provider c) then Some e else Some c)
      else map_of merged i)"
  by (auto simp: merge_event_def admitted_def split: option.splits)

lemma best_append:
  "best (es @ [e]) = (case best es of None \<Rightarrow> Some e
     | Some c \<Rightarrow> if priority (ev_provider e) > priority (ev_provider c) then Some e else Some c)"
  by (induction es) (auto split: option.splits)

lemma merge_events_lookup:
  "map_of (fold (merge_event countries impact) es []) i = best (candidates countries impact i es)"
  by (induction es rule: rev_induct)
     (auto simp: merge_event_lookup candidates_def best_append split: option.splits)

lemma merge_batches_fold:
  "fold (merge_batch countries impact) batches merged = fold (merge_event countries impact) (all_events batches) merged"
  by (induction batches arbitrary: merged) (auto simp: merge_batch_def all_events_def split: sum.splits)

lemma merge_event_keys:
  assumes "distinct (map fst merged)" and "list_all (\<lambda>(k, e). ev_id e = k) merged"
  shows "distinct (map fst (merge_event countries impact e merged)) \<and>
    list_all (\<lambda>(k, e). ev_id e = k) (merge_event countries impact e merged)"
  using assms by (auto simp: merge_event_def distinct_update split: option.splits intro!: list_all_update)

lemma merge_events_keys:
  "distinct (map fst (fold (merge_event countries impact) es [])) \<and>
   list_all (\<lambda>(k, e). ev_id e = k) (fold (merge_event countries impact) es [])"
  by (induction es rule: rev_induct) (use merge_event_keys in auto)

lemma distinct_map_sort: "distinct (map f xs) \<Longrightarrow> distinct (map f (sort_key g xs))"
  by (simp add: distinct_map)

text \<open>
  C35. The events fetched are sorted by time, no two with one identifier, and they are exactly the
  best candidates: of all admitted events of all providers that did not fail, each identifier is
  represented by the first event of the provider with the highest priority.
\<close>

theorem merged_events_best:
  "sorted (map ev_time (merge_batches countries impact batches)) \<and>
   distinct (map ev_id (merge_batches countries impact batches)) \<and>
   (e \<in> set (merge_batches countries impact batches) \<longleftrightarrow>
      best (candidates countries impact (ev_id e) (all_events batches)) = Some e)"
proof -
  define merged where "merged = fold (merge_event countries impact) (all_events batches) []"
  have keys: "distinct (map fst merged)" "list_all (\<lambda>(k, e). ev_id e = k) merged"
    using merge_events_keys unfolding merged_def by blast+
  have out: "merge_batches countries impact batches = sort_key ev_time (map snd merged)"
    by (simp add: merge_batches_def merge_batches_fold merged_def)
  have "map (ev_id \<circ> snd) merged = map fst merged"
    using keys(2) by (auto simp: list_all_iff)
  then have "distinct (map ev_id (map snd merged))" using keys(1) by (metis map_map)
  then have "distinct (map ev_id (sort_key ev_time (map snd merged)))" by (rule distinct_map_sort)
  moreover have "e \<in> snd ` set merged \<longleftrightarrow> map_of merged (ev_id e) = Some e"
    using keys by (force simp: list_all_iff)
  ultimately show ?thesis
    unfolding out by (simp add: merged_def merge_events_lookup)
qed

text \<open>
  A failing provider changes nothing for the others: the result is that of the remaining
  batches.
\<close>

lemma failed_batches_ignored:
  "merge_batches countries impact batches = merge_batches countries impact (filter (\<lambda>b. \<exists>es. b = Inr es) batches)"
proof -
  have "all_events (filter (\<lambda>b. \<exists>es. b = Inr es) batches) = all_events batches"
    by (induction batches) (auto simp: all_events_def split: sum.splits)
  then show ?thesis by (simp add: merge_batches_def merge_batches_fold)
qed

text \<open>
  A live round with a repository or a broadcaster fails on the first event whose stored value
  differs: an event has no \<open>__dict__\<close>, so the round raises \<open>AttributeError\<close> before anything is
  stored or broadcast, and the loop of live updates ends.
\<close>

theorem changed_event_ends_updates:
  assumes "cd_get_event_actual dp = Some get" and "get (ev_id e) s = (Inr old, s')" and "old \<noteq> ev_actual e"
  shows "io_each (update_event dp) (e # es) s = (Inl (AttributeError ''__dict__''), s')"
  using assms by (simp add: update_event_def event_dict_def io_simps)

subsection \<open>What ForexFactory delivers\<close>

lemma ff_event_fields:
  assumes "ff_event now r = Inr e"
  shows "ev_time e = now \<and> ev_provider e = ''forexfactory'' \<and> calculate_impact e = ev_impact e \<and> ev_actual e = None"
  using assms
  by (auto simp: ff_event_def sum_bind_def cell_text_def row_impact_def Let_def calculate_impact_def lower_str_def lower_char_def
      split: option.splits if_splits)

lemma ff_events_member: "e \<in> set (ff_events clk n rs) \<Longrightarrow> \<exists>r \<in> set rs. \<exists>k. ff_event (clk k) r = Inr e"
  by (induction rs arbitrary: n) (auto split: sum.splits)

text \<open>
  Whatever dates are asked for, ForexFactory delivers one event for each row with its three cells; its
  class agrees with \<open>calculate_impact\<close>, but its time is that of the request, not that of the calendar, and it never has an
  actual value, so no bias but the neutral one is predicted for it.
\<close>

theorem forexfactory_events:
  assumes "forexfactory_fetch page clk start_date end_date s = (Inr es, s')"
  shows "\<exists>rows. page s = (Inr rows, s') \<and>
    length es = length (filter (\<lambda>r. cw_time_text r \<noteq> None \<and> cw_country r \<noteq> None \<and> cw_event_name r \<noteq> None) rows) \<and>
    (\<forall>e \<in> set es. ev_time e \<in> range clk \<and> calculate_impact e = ev_impact e \<and> br_bias (predict_bias e) = ''neutral'')"
proof -
  obtain rows where page: "page s = (Inr rows, s')" and es: "es = ff_events clk 0 rows"
    using assms unfolding forexfactory_fetch_def by (auto simp: io_bind_result io_return_def)
  have "length (ff_events clk n rs) = length (filter (\<lambda>r. cw_time_text r \<noteq> None \<and> cw_country r \<noteq> None \<and> cw_event_name r \<noteq> None) rs)" for n rs
    by (induction rs arbitrary: n) (auto simp: ff_event_def sum_bind_def cell_text_def Let_def split: option.splits sum.splits)
  moreover have "ev_time e \<in> range clk \<and> calculate_impact e = ev_impact e \<and> br_bias (predict_bias e) = ''neutral''" if "e \<in> set es" for e
    using that ff_events_member [of e clk 0 rows] ff_event_fields es by (fastforce simp: predict_bias_def to_num_def)
  ultimately show ?thesis using page es by blast
qed

subsection \<open>Witnesses\<close>

definition demo_event :: economic_event where
  "demo_event = \<lparr>ev_id = ''e1'', ev_provider = ''reuters'', ev_time = 5, ev_country = ''US'', ev_region = ''US'',
     ev_event_name = ''CPI'', ev_category = ''macro'', ev_impact = ''high'', ev_forecast = Some ''2.0%'',
     ev_actual = Some ''2.4%'', ev_previous = None, ev_revised = None, ev_unit = None, ev_sentiment_score = 0,
     ev_bias_prediction = None, ev_confidence = 0, ev_importance = 5\<rparr>"

theorem changed_event_ends_updates_witness:
  "io_each (update_event \<lparr>cd_get_event_actual = Some (\<lambda>i. io_return None), cd_upsert_event = \<lambda>_. io_return (), cd_broadcast = None\<rparr>)
     [demo_event] (0::nat) = (Inl (AttributeError ''__dict__''), 0)"
  by (rule changed_event_ends_updates [where get = "\<lambda>i. io_return None" and old = None])
     (simp_all add: io_return_def demo_event_def)

end
