(* ===== verification/Backtester.thy ===== *)
theory Backtester
  imports Prelude
begin

text \<open>
  The backtester (\<^verbatim>\<open>backtest_service/src/engine/backtester.py\<close>): cost models, the loop over the
  bars, the statistics of the result, walk-forward segments, Monte Carlo risk figures and stress
  scenarios. A data frame is the list of its bars; the strategy is a function of the bars so far.
  Statistics that are NaN in the code are \<open>None\<close>. Date offsets, random choices and quantiles come
  from pandas and numpy and are parameters. The monthly resampling of the returns is left out.
  Bars with the same time keep their order. Quotients are the real ones: with a positive initial
  capital the running peak of the equity is positive, and only a return from an equity of exactly
  zero, infinite in the code, differs.
\<close>

subsection \<open>Costs\<close>

record commission_model =
  cm_commission_per_lot :: real
  cm_min_commission :: real

record slippage_model =
  sm_base_slippage :: real
  sm_volatility_multiplier :: bool

type_synonym margin_model = "(string \<times> real) list"

definition default_commission :: commission_model where
  "default_commission = \<lparr>cm_commission_per_lot = 7, cm_min_commission = 0\<rparr>"

definition default_slippage :: slippage_model where
  "default_slippage = \<lparr>sm_base_slippage = 1/10000, sm_volatility_multiplier = True\<rparr>"

definition default_margin :: margin_model where
  "default_margin = [(''forex'', 2/100), (''indices'', 5/100), (''commodities'', 1/10), (''stocks'', 2/10)]"

text \<open>A margin model has a rate for \<open>forex\<close>, the default for unknown classes.\<close>

definition commission_fee :: "commission_model \<Rightarrow> real \<Rightarrow> real \<Rightarrow> real" where
  "commission_fee cm volume price = max (cm_min_commission cm) (\<bar>volume\<bar> * cm_commission_per_lot cm)"

definition slippage_amount :: "slippage_model \<Rightarrow> real \<Rightarrow> real \<Rightarrow> real option \<Rightarrow> real" where
  "slippage_amount sm price volume volatility =
     (let mult = 1 + (case volatility of None \<Rightarrow> 0 | Some v \<Rightarrow> if sm_volatility_multiplier sm then \<bar>v\<bar> else 0)
      in price * sm_base_slippage sm * mult * ln (1 + \<bar>volume\<bar>))"

definition required_margin :: "margin_model \<Rightarrow> real \<Rightarrow> real \<Rightarrow> string \<Rightarrow> real" where
  "required_margin mm volume price asset_class =
     \<bar>volume * price\<bar> * dict_get mm asset_class (dict_get mm ''forex'' 0)"

subsection \<open>The loop over the bars\<close>

record bar =
  b_time :: int
  b_close :: real
  b_volatility :: "real option"

record bt_position =
  ps_side :: string
  ps_qty :: real
  ps_entry :: real
  ps_time :: int

record bt_trade =
  tr_entry_time :: int
  tr_exit_time :: int
  tr_side :: string
  tr_entry :: real
  tr_exit :: real
  tr_qty :: real
  tr_pnl :: real
  tr_commission :: real

record bt_state =
  bs_equity :: real
  bs_curve :: "real list"
  bs_trades :: "bt_trade list"
  bs_position :: "bt_position option"

record bt_config =
  bc_commission_model :: commission_model
  bc_slippage_model :: slippage_model
  bc_margin_model :: margin_model
  bc_commission :: bool
  bc_slippage :: bool
  bc_margin :: bool
  bc_size :: real

definition default_bt_config :: bt_config where
  "default_bt_config = \<lparr>bc_commission_model = default_commission, bc_slippage_model = default_slippage,
     bc_margin_model = default_margin, bc_commission = True, bc_slippage = True, bc_margin = True, bc_size = 1\<rparr>"

definition direction :: "string \<Rightarrow> real" where
  "direction side = (if side = ''buy'' then 1 else -1)"

definition open_position :: "bt_config \<Rightarrow> string \<Rightarrow> bar \<Rightarrow> bt_position" where
  "open_position cfg signal b =
     \<lparr>ps_side = signal, ps_qty = bc_size cfg,
      ps_entry = (if bc_slippage cfg
        then b_close b + slippage_amount (bc_slippage_model cfg) (b_close b) (bc_size cfg) (b_volatility b) * direction signal
        else b_close b),
      ps_time = b_time b\<rparr>"

definition close_trade :: "bt_config \<Rightarrow> bt_position \<Rightarrow> bar \<Rightarrow> bt_trade" where
  "close_trade cfg p b =
     (let exit_price = (if bc_slippage cfg
          then b_close b - slippage_amount (bc_slippage_model cfg) (b_close b) (ps_qty p) (b_volatility b) * direction (ps_side p)
          else b_close b);
          fee = (if bc_commission cfg then commission_fee (bc_commission_model cfg) (ps_qty p) exit_price else 0)
      in \<lparr>tr_entry_time = ps_time p, tr_exit_time = b_time b, tr_side = ps_side p, tr_entry = ps_entry p,
          tr_exit = exit_price, tr_qty = ps_qty p,
          tr_pnl = (exit_price - ps_entry p) * ps_qty p * direction (ps_side p) - fee, tr_commission = fee\<rparr>)"

text \<open>One iteration; with too little margin the equity is recorded and the signal dropped.\<close>

definition act_on_signal :: "bt_config \<Rightarrow> string option \<Rightarrow> bar \<Rightarrow> bt_state \<Rightarrow> bt_state" where
  "act_on_signal cfg signal b st = (case (bs_position st, signal) of
     (None, Some sg) \<Rightarrow>
       if sg = ''buy'' \<or> sg = ''sell'' then
         (if bc_margin cfg \<and> required_margin (bc_margin_model cfg) (bc_size cfg) (b_close b) ''forex'' > bs_equity st then st
          else st\<lparr>bs_position := Some (open_position cfg sg b)\<rparr>)
       else st
   | (Some p, Some sg) \<Rightarrow>
       if sg = ''close'' then
         (let t = close_trade cfg p b
          in st\<lparr>bs_equity := bs_equity st + tr_pnl t, bs_trades := bs_trades st @ [t], bs_position := None\<rparr>)
       else st
   | _ \<Rightarrow> st)"

definition record_equity :: "bt_state \<Rightarrow> bt_state" where
  "record_equity st = st\<lparr>bs_curve := bs_curve st @ [bs_equity st]\<rparr>"

definition bar_step :: "bt_config \<Rightarrow> string option \<Rightarrow> bar \<Rightarrow> bt_state \<Rightarrow> bt_state" where
  "bar_step cfg signal b st = record_equity (act_on_signal cfg signal b st)"

fun run_bars :: "bt_config \<Rightarrow> (bar list \<Rightarrow> string option) \<Rightarrow> bar list \<Rightarrow> bar list \<Rightarrow> bt_state \<Rightarrow> bt_state" where
  "run_bars cfg strategy seen [] st = st"
| "run_bars cfg strategy seen (b # bs) st =
     run_bars cfg strategy (seen @ [b]) bs (bar_step cfg (strategy (seen @ [b])) b st)"

definition run_loop :: "bt_config \<Rightarrow> (bar list \<Rightarrow> string option) \<Rightarrow> real \<Rightarrow> bar list \<Rightarrow> bt_state" where
  "run_loop cfg strategy initial_capital data = run_bars cfg strategy [] (sort_key b_time data)
     \<lparr>bs_equity = initial_capital, bs_curve = [], bs_trades = [], bs_position = None\<rparr>"

subsection \<open>Statistics\<close>

definition mean_of :: "real list \<Rightarrow> real option" where
  "mean_of xs = (if xs = [] then None else Some (sum_list xs / real (length xs)))"

text \<open>The sample standard deviation, NaN below two values.\<close>

definition std_of :: "real list \<Rightarrow> real option" where
  "std_of xs = (if length xs < 2 then None
     else (let mu = sum_list xs / real (length xs)
           in Some (sqrt (sum_list (map (\<lambda>x. (x - mu)\<^sup>2) xs) / real (length xs - 1)))))"

fun pct_changes :: "real \<Rightarrow> real list \<Rightarrow> real list" where
  "pct_changes prev [] = []"
| "pct_changes prev (x # xs) = (x / prev - 1) # pct_changes x xs"

text \<open>\<open>pct_change().fillna(0)\<close>\<close>

definition returns_of :: "real list \<Rightarrow> real list" where
  "returns_of eq = (case eq of [] \<Rightarrow> [] | x # xs \<Rightarrow> 0 # pct_changes x xs)"

fun drawdowns :: "real \<Rightarrow> real list \<Rightarrow> real list" where
  "drawdowns peak [] = []"
| "drawdowns peak (x # xs) = (x / max peak x - 1) # drawdowns (max peak x) xs"

definition drawdown_curve :: "real list \<Rightarrow> real list" where
  "drawdown_curve eq = (case eq of [] \<Rightarrow> [] | x # xs \<Rightarrow> drawdowns x eq)"

definition max_dd :: "real list \<Rightarrow> real" where
  "max_dd eq = (if drawdown_curve eq = [] then 0 else Min (set (drawdown_curve eq)))"

definition ratio_of :: "real list \<Rightarrow> real option \<Rightarrow> real option" where
  "ratio_of ret dev = (case (mean_of ret, dev) of
     (Some mu, Some sd) \<Rightarrow> Some (mu / (sd + 1 / 10 ^ 9) * sqrt 252) | _ \<Rightarrow> None)"

text \<open>
  \<open>sum(wins) / abs(sum(losses))\<close>, infinite (\<open>None\<close>) without losses. With a zero sum the division
  raises for Python floats; after slippage the numbers are numpy's and the result is not finite.
\<close>

definition profit_factor_of :: "bool \<Rightarrow> real list \<Rightarrow> real list \<Rightarrow> exn + real option" where
  "profit_factor_of slippage wins losses =
     (if losses = [] then Inr None
      else if sum_list losses = 0 then
        (if slippage then Inr None else Inl (OtherException ''ZeroDivisionError''))
      else Inr (Some (sum_list wins / \<bar>sum_list losses\<bar>)))"

record bt_result =
  rs_initial_capital :: real
  rs_final_capital :: real
  rs_total_return :: real
  rs_annualized_return :: real
  rs_sharpe_ratio :: "real option"
  rs_sortino_ratio :: "real option"
  rs_calmar_ratio :: real
  rs_max_drawdown :: real
  rs_max_drawdown_percent :: real
  rs_max_drawdown_duration :: nat
  rs_win_rate :: real
  rs_profit_factor :: "real option"
  rs_expectancy :: real
  rs_total_trades :: nat
  rs_winning_trades :: nat
  rs_losing_trades :: nat
  rs_avg_win :: real
  rs_avg_loss :: real
  rs_largest_win :: real
  rs_largest_loss :: real
  rs_equity_curve :: "real list"
  rs_drawdown_curve :: "real list"
  rs_trades :: "bt_trade list"

definition or_zero :: "real option \<Rightarrow> real" where
  "or_zero x = (case x of None \<Rightarrow> 0 | Some r \<Rightarrow> r)"

definition summarize :: "bt_config \<Rightarrow> real \<Rightarrow> bt_state \<Rightarrow> exn + bt_result" where
  "summarize cfg initial_capital st =
     (let eq = bs_curve st;
          ret = returns_of eq;
          mdd = max_dd eq;
          ann = (case mean_of ret of None \<Rightarrow> 0 | Some mu \<Rightarrow> (1 + mu) ^ 252 - 1);
          pnls = map tr_pnl (bs_trades st);
          wins = filter (\<lambda>x. x > 0) pnls;
          losses = filter (\<lambda>x. x \<le> 0) pnls
      in sum_bind (profit_factor_of (bc_slippage cfg) wins losses) (\<lambda>pf.
         Inr \<lparr>rs_initial_capital = initial_capital,
           rs_final_capital = (if eq = [] then initial_capital else last eq),
           rs_total_return = (if eq = [] then 0 else last eq / initial_capital - 1),
           rs_annualized_return = ann,
           rs_sharpe_ratio = ratio_of ret (std_of ret),
           rs_sortino_ratio = ratio_of ret (std_of (filter (\<lambda>x. x < 0) ret)),
           rs_calmar_ratio = ann / (\<bar>mdd\<bar> + 1 / 10 ^ 9),
           rs_max_drawdown = \<bar>mdd\<bar>,
           rs_max_drawdown_percent = \<bar>mdd\<bar> * 100,
           rs_max_drawdown_duration = length (filter (\<lambda>x. x < 0) (drawdown_curve eq)),
           rs_win_rate = (if pnls = [] then 0 else real (length wins) / real (length pnls)),
           rs_profit_factor = pf,
           rs_expectancy = or_zero (mean_of pnls),
           rs_total_trades = length pnls,
           rs_winning_trades = length wins,
           rs_losing_trades = length losses,
           rs_avg_win = or_zero (mean_of wins),
           rs_avg_loss = or_zero (mean_of losses),
           rs_largest_win = (if wins = [] then 0 else Max (set wins)),
           rs_largest_loss = (if losses = [] then 0 else Min (set losses)),
           rs_equity_curve = eq,
           rs_drawdown_curve = drawdown_curve eq,
           rs_trades = bs_trades st\<rparr>))"

definition run_backtest :: "bt_config \<Rightarrow> (bar list \<Rightarrow> string option) \<Rightarrow> real \<Rightarrow> bar list \<Rightarrow> exn + bt_result" where
  "run_backtest cfg strategy initial_capital data =
     summarize cfg initial_capital (run_loop cfg strategy initial_capital data)"

subsection \<open>Walk-forward segments\<close>

text \<open>
  \<open>years\<close> and \<open>months\<close> add the two date offsets to a time; \<open>optimize\<close> is the choice of the best
  parameters on the in-sample bars and the run on the out-of-sample bars with them. The loop is a
  partial function, \<open>None\<close> when it does not end.
\<close>

definition in_window :: "int \<Rightarrow> int \<Rightarrow> bar list \<Rightarrow> bar list" where
  "in_window lo hi df = filter (\<lambda>b. lo \<le> b_time b \<and> b_time b < hi) df"

partial_function (option) walk_loop :: "(int \<Rightarrow> int) \<Rightarrow> (int \<Rightarrow> int) \<Rightarrow> (bar list \<Rightarrow> bar list \<Rightarrow> 'r) \<Rightarrow> bar list \<Rightarrow> int \<Rightarrow> int
    \<Rightarrow> (int \<times> 'r) list option" where
  "walk_loop years months optimize df cursor stop =
     (if cursor < stop then
        (let in_end = years cursor; out_end = months in_end;
             in_sample = in_window cursor in_end df; out_sample = in_window in_end out_end df
         in if length in_sample < 50 \<or> length out_sample < 20 then Some []
            else Option.bind (walk_loop years months optimize df (months cursor) stop)
                   (\<lambda>rs. Some ((cursor, optimize in_sample out_sample) # rs)))
      else Some [])"

definition run_walk_forward :: "(int \<Rightarrow> int) \<Rightarrow> (int \<Rightarrow> int) \<Rightarrow> (bar list \<Rightarrow> bar list \<Rightarrow> 'r) \<Rightarrow> bar list \<Rightarrow> (int \<times> 'r) list option" where
  "run_walk_forward years months optimize data =
     (let df = sort_key b_time data
      in if df = [] then Some [] else walk_loop years months optimize df (b_time (hd df)) (b_time (last df)))"

text \<open>
  The search over the parameters: \<open>choices\<close> are the parameter sets drawn, in order. A Sharpe ratio
  that is NaN is never better.
\<close>

fun best_choice :: "('q \<Rightarrow> real option) \<Rightarrow> 'q list \<Rightarrow> real \<Rightarrow> 'q \<Rightarrow> 'q" where
  "best_choice sharpe [] best best_params = best_params"
| "best_choice sharpe (q # qs) best best_params = (case sharpe q of
     None \<Rightarrow> best_choice sharpe qs best best_params
   | Some x \<Rightarrow> if x > best then best_choice sharpe qs x q else best_choice sharpe qs best best_params)"

definition optimize_segment :: "('q \<Rightarrow> bar list \<Rightarrow> bt_result) \<Rightarrow> 'q list \<Rightarrow> 'q \<Rightarrow> bar list \<Rightarrow> bar list \<Rightarrow> bt_result" where
  "optimize_segment run choices no_params in_sample out_sample =
     run (best_choice (\<lambda>q. rs_sharpe_ratio (run q in_sample)) choices (- 1000000000) no_params) out_sample"

subsection \<open>Monte Carlo\<close>

text \<open>\<open>samples\<close> are the resampled trade results of the iterations, \<open>quantile\<close> is numpy's.\<close>

definition value_at_risk :: "(real list \<Rightarrow> real \<Rightarrow> real) \<Rightarrow> real list \<Rightarrow> real \<Rightarrow> real" where
  "value_at_risk quantile totals c = quantile totals (1 - c)"

definition conditional_var :: "(real list \<Rightarrow> real \<Rightarrow> real) \<Rightarrow> real list \<Rightarrow> real \<Rightarrow> real option" where
  "conditional_var quantile totals c = mean_of (filter (\<lambda>x. x \<le> quantile totals (1 - c)) totals)"

text \<open>numpy's \<open>std\<close>, of the population.\<close>

definition population_std :: "real list \<Rightarrow> real option" where
  "population_std xs = (if xs = [] then None
     else (let mu = sum_list xs / real (length xs)
           in Some (sqrt (sum_list (map (\<lambda>x. (x - mu)\<^sup>2) xs) / real (length xs)))))"

record risk_figures =
  rf_distribution :: "real list"
  rf_mean :: "real option"
  rf_std :: "real option"
  rf_VaR :: "(real \<times> real) list"
  rf_CVaR :: "(real \<times> real option) list"

definition monte_carlo :: "(real list \<Rightarrow> real \<Rightarrow> real) \<Rightarrow> real list list \<Rightarrow> real list \<Rightarrow> real list \<Rightarrow> risk_figures" where
  "monte_carlo quantile samples pnl confidence_levels =
     (if pnl = [] then \<lparr>rf_distribution = [], rf_mean = None, rf_std = None, rf_VaR = [], rf_CVaR = []\<rparr>
      else (let totals = map sum_list samples
            in \<lparr>rf_distribution = totals, rf_mean = mean_of totals, rf_std = population_std totals,
                rf_VaR = map (\<lambda>c. (c, value_at_risk quantile totals c)) confidence_levels,
                rf_CVaR = map (\<lambda>c. (c, conditional_var quantile totals c)) confidence_levels\<rparr>))"

subsection \<open>Endpoints\<close>

text \<open>
  The data of the walk-forward endpoint (\<^verbatim>\<open>backtest_service/src/app.py\<close>): 360 daily bars up to now.
  Times count microseconds.
\<close>

definition day :: int where
  "day = 24 * 3600 * 1000000"

definition endpoint_bars :: "int \<Rightarrow> bar list" where
  "endpoint_bars now = map (\<lambda>i. \<lparr>b_time = now - (359 - int i) * day, b_close = 1, b_volatility = None\<rparr>) [0..<360]"

text \<open>
  The strategy of the service: 1 where the close has risen over that of the bar before, -1
  elsewhere, the first bar included.
\<close>

definition rises :: "real \<Rightarrow> real \<Rightarrow> bool" where
  "rises prev c = (if prev = 0 then 0 < c else 0 < c / prev - 1)"

definition strategy_signals :: "bar list \<Rightarrow> int list" where
  "strategy_signals bars = map (\<lambda>r. (if r then 1 else 0) * 2 - 1)
     (case bars of [] \<Rightarrow> [] | b # bs \<Rightarrow> False # map2 (\<lambda>p c. rises (b_close p) (b_close c)) bars bs)"

definition walk_forward_endpoint :: "(int \<Rightarrow> int) \<Rightarrow> (int \<Rightarrow> int) \<Rightarrow> (bar list \<Rightarrow> bar list \<Rightarrow> 'r) \<Rightarrow> int \<Rightarrow> nat option" where
  "walk_forward_endpoint years months optimize now =
     map_option length (run_walk_forward years months optimize (endpoint_bars now))"

definition monte_carlo_endpoint :: "(real list \<Rightarrow> real \<Rightarrow> real) \<Rightarrow> real list list \<Rightarrow> real option \<times> real option" where
  "monte_carlo_endpoint quantile samples =
     (let r = monte_carlo quantile samples [1, - 1/2, 8/10] [95/100, 99/100] in (rf_mean r, rf_std r))"

subsection \<open>Stress scenarios\<close>

datatype scenario = PriceShock real | VolatilitySpike real | OtherScenario

text \<open>A missing volatility column is 0.01 before the spike.\<close>

definition shock_bar :: "scenario \<Rightarrow> bar \<Rightarrow> bar" where
  "shock_bar s b = (case s of
     PriceShock shock \<Rightarrow> b\<lparr>b_close := b_close b * (1 + shock)\<rparr>
   | VolatilitySpike m \<Rightarrow> b\<lparr>b_volatility := Some ((case b_volatility b of None \<Rightarrow> 1/100 | Some v \<Rightarrow> v) * m)\<rparr>
   | OtherScenario \<Rightarrow> b)"

definition stress_test :: "(bar list \<Rightarrow> exn + bt_result) \<Rightarrow> bar list \<Rightarrow> (string \<times> scenario) list
    \<Rightarrow> exn + (string \<times> real \<times> real \<times> real option) list" where
  "stress_test run base_data scenarios = sum_bind (sum_list_results
     (map (\<lambda>(n, s). sum_bind (run (map (shock_bar s) base_data)) (\<lambda>r.
        Inr (n, rs_total_return r, rs_max_drawdown r, rs_sharpe_ratio r))) scenarios)) (\<lambda>rows.
     Inr (fold (\<lambda>(n, x). AList.update n x) rows []))"

subsection \<open>The books balance\<close>

definition books :: "real \<Rightarrow> nat \<Rightarrow> bt_state \<Rightarrow> bool" where
  "books c n st = (length (bs_curve st) = n \<and> bs_equity st = c + sum_list (map tr_pnl (bs_trades st)) \<and>
     (0 < n \<longrightarrow> last (bs_curve st) = bs_equity st))"

definition chronological :: "int \<Rightarrow> bt_state \<Rightarrow> bool" where
  "chronological t st =
     ((\<forall>tr\<in>set (bs_trades st). tr_entry_time tr \<le> tr_exit_time tr \<and> tr_exit_time tr \<le> t) \<and>
      sorted_wrt (\<lambda>a b. tr_exit_time a \<le> tr_entry_time b) (bs_trades st) \<and>
      (\<forall>p. bs_position st = Some p \<longrightarrow> ps_time p \<le> t \<and> (\<forall>tr\<in>set (bs_trades st). tr_exit_time tr \<le> ps_time p)))"

text \<open>A bar closes the open position, opens one, or leaves the state.\<close>

lemma act_on_signal_outcome:
  "(\<exists>p. bs_position st = Some p \<and> act_on_signal cfg sg b st = st\<lparr>bs_equity := bs_equity st + tr_pnl (close_trade cfg p b),
         bs_trades := bs_trades st @ [close_trade cfg p b], bs_position := None\<rparr>) \<or>
   (\<exists>x. bs_position st = None \<and> act_on_signal cfg sg b st = st\<lparr>bs_position := Some (open_position cfg x b)\<rparr>) \<or>
   act_on_signal cfg sg b st = st"
  by (cases "bs_position st"; cases sg) (simp_all add: act_on_signal_def Let_def, blast)

lemma act_on_signal_cases:
  obtains p where "bs_position st = Some p"
      "act_on_signal cfg sg b st = st\<lparr>bs_equity := bs_equity st + tr_pnl (close_trade cfg p b),
         bs_trades := bs_trades st @ [close_trade cfg p b], bs_position := None\<rparr>"
    | x where "bs_position st = None" "act_on_signal cfg sg b st = st\<lparr>bs_position := Some (open_position cfg x b)\<rparr>"
    | "act_on_signal cfg sg b st = st"
  using act_on_signal_outcome [of st cfg sg b] by blast

lemma bar_step_books: "books c n st \<Longrightarrow> books c (Suc n) (bar_step cfg sg b st)"
  unfolding bar_step_def
  by (cases rule: act_on_signal_cases [of st cfg sg b]) (auto simp: books_def record_equity_def)

lemma chronological_close:
  assumes "chronological t st" and "t \<le> b_time b" and "bs_position st = Some p"
  shows "chronological (b_time b) (st\<lparr>bs_equity := e, bs_trades := bs_trades st @ [close_trade cfg p b], bs_position := None\<rparr>)"
proof -
  have "tr_entry_time (close_trade cfg p b) = ps_time p" "tr_exit_time (close_trade cfg p b) = b_time b"
    by (simp_all add: close_trade_def Let_def)
  then show ?thesis using assms by (fastforce simp: chronological_def sorted_wrt_append)
qed

lemma chronological_open:
  assumes "chronological t st" and "t \<le> b_time b"
  shows "chronological (b_time b) (st\<lparr>bs_position := Some (open_position cfg x b)\<rparr>)"
proof -
  have "ps_time (open_position cfg x b) = b_time b" by (simp add: open_position_def)
  then show ?thesis using assms by (fastforce simp: chronological_def)
qed

lemma chronological_later: "chronological t st \<Longrightarrow> t \<le> t' \<Longrightarrow> chronological t' st"
  by (fastforce simp: chronological_def)

lemma chronological_record [simp]: "chronological t (record_equity st) = chronological t st"
  by (simp add: chronological_def record_equity_def)

lemma bar_step_chronological:
  assumes "chronological t st" and "t \<le> b_time b"
  shows "chronological (b_time b) (bar_step cfg sg b st)"
proof -
  have "chronological (b_time b) (act_on_signal cfg sg b st)"
  proof (cases rule: act_on_signal_cases [of st cfg sg b])
    case (1 p)
    show ?thesis unfolding 1(2) by (rule chronological_close [OF assms 1(1)])
  next
    case (2 x)
    show ?thesis unfolding 2(2) by (rule chronological_open [OF assms])
  next
    case 3
    show ?thesis unfolding 3 by (rule chronological_later [OF assms])
  qed
  then show ?thesis by (simp add: bar_step_def)
qed

lemma run_bars_books: "books c n st \<Longrightarrow> books c (n + length bs) (run_bars cfg strategy seen bs st)"
proof (induction bs arbitrary: n seen st)
  case Nil
  then show ?case by simp
next
  case (Cons b bs)
  from Cons.IH [OF bar_step_books [OF Cons.prems]] show ?case by simp
qed

lemma run_bars_chronological:
  "chronological t st \<Longrightarrow> sorted (t # map b_time bs) \<Longrightarrow> \<exists>t'. chronological t' (run_bars cfg strategy seen bs st)"
proof (induction bs arbitrary: t seen st)
  case Nil
  then show ?case by auto
next
  case (Cons b bs)
  have "chronological (b_time b) (bar_step cfg (strategy (seen @ [b])) b st)"
    using Cons.prems by (intro bar_step_chronological) auto
  from Cons.IH [OF this] show ?case using Cons.prems(2) by auto
qed

lemma run_loop_books: "books c (length data) (run_loop cfg strategy c data)"
proof -
  have "books c 0 \<lparr>bs_equity = c, bs_curve = [], bs_trades = [], bs_position = None\<rparr>"
    by (simp add: books_def)
  from run_bars_books [OF this, where cfg = cfg and strategy = strategy and seen = "[]" and bs = "sort_key b_time data"] show ?thesis
    by (simp add: run_loop_def)
qed

lemma run_loop_chronological: "\<exists>t. chronological t (run_loop cfg strategy c data)"
proof (cases "sort_key b_time data")
  case Nil
  then show ?thesis by (auto simp: run_loop_def chronological_def)
next
  case (Cons b bs)
  have "sorted (b_time b # map b_time (sort_key b_time data))"
    using sorted_sort_key [of b_time data] Cons by auto
  then show ?thesis
    unfolding run_loop_def by (intro run_bars_chronological) (simp_all add: chronological_def)
qed

text \<open>
  C18. The books of a backtest balance: the equity curve has one value per bar, the final capital is
  the initial capital plus the profits of all trades, wins and losses make up the trades, and the
  trades follow each other in time without overlapping.
\<close>

theorem backtest_balances:
  assumes "run_backtest cfg strategy c data = Inr r"
  shows "length (rs_equity_curve r) = length data \<and>
    rs_final_capital r = c + sum_list (map tr_pnl (rs_trades r)) \<and>
    rs_winning_trades r + rs_losing_trades r = rs_total_trades r \<and> rs_total_trades r = length (rs_trades r) \<and>
    (\<forall>t\<in>set (rs_trades r). tr_entry_time t \<le> tr_exit_time t) \<and>
    sorted_wrt (\<lambda>a b. tr_exit_time a \<le> tr_entry_time b) (rs_trades r)"
proof -
  define st where "st = run_loop cfg strategy c data"
  have r: "rs_equity_curve r = bs_curve st" "rs_trades r = bs_trades st"
    "rs_final_capital r = (if bs_curve st = [] then c else last (bs_curve st))"
    "rs_total_trades r = length (bs_trades st)"
    "rs_winning_trades r = length (filter (\<lambda>x. x > 0) (map tr_pnl (bs_trades st)))"
    "rs_losing_trades r = length (filter (\<lambda>x. x \<le> 0) (map tr_pnl (bs_trades st)))"
    using assms by (auto simp: run_backtest_def summarize_def st_def Let_def sum_bind_def split: sum.splits)
  have "rs_winning_trades r + rs_losing_trades r = length (bs_trades st)"
    unfolding r using sum_length_filter_compl [of "\<lambda>x. x > 0" "map tr_pnl (bs_trades st)"]
    by (simp add: not_less)
  moreover have "books c (length data) st" unfolding st_def by (rule run_loop_books)
  moreover obtain t where "chronological t st" using run_loop_chronological unfolding st_def by blast
  moreover have "st = \<lparr>bs_equity = c, bs_curve = [], bs_trades = [], bs_position = None\<rparr>" if "data = []"
    using that by (simp add: st_def run_loop_def)
  ultimately show ?thesis
    unfolding r(1-4) by (cases "data = []") (auto simp: books_def chronological_def)
qed

text \<open>A long trade from 1 to 3 on two bars, without slippage: a commission of 1 for the lot.\<close>

definition sample_config :: bt_config where
  "sample_config = default_bt_config\<lparr>bc_slippage := False, bc_commission_model := \<lparr>cm_commission_per_lot = 1, cm_min_commission = 0\<rparr>\<rparr>"

definition sample_strategy :: "bar list \<Rightarrow> string option" where
  "sample_strategy seen = (if length seen = 1 then Some ''buy'' else Some ''close'')"

definition sample_bars :: "bar list" where
  "sample_bars = [\<lparr>b_time = 1, b_close = 1, b_volatility = None\<rparr>, \<lparr>b_time = 2, b_close = 3, b_volatility = None\<rparr>]"

lemma sample_loop:
  "run_loop sample_config sample_strategy 100 sample_bars =
   \<lparr>bs_equity = 101, bs_curve = [100, 101],
    bs_trades = [\<lparr>tr_entry_time = 1, tr_exit_time = 2, tr_side = ''buy'', tr_entry = 1, tr_exit = 3, tr_qty = 1, tr_pnl = 1, tr_commission = 1\<rparr>],
    bs_position = None\<rparr>"
  by (simp add: run_loop_def sample_bars_def sample_strategy_def sample_config_def default_bt_config_def bar_step_def
      record_equity_def act_on_signal_def required_margin_def default_margin_def dict_get_def open_position_def
      close_trade_def commission_fee_def direction_def Let_def)

lemma sample_run:
  obtains r where "run_backtest sample_config sample_strategy 100 sample_bars = Inr r"
    "rs_equity_curve r = [100, 101]" "length (rs_trades r) = 1"
  by (simp add: run_backtest_def summarize_def sample_loop profit_factor_of_def sum_bind_def Let_def)

theorem backtest_balances_witness:
  "\<exists>r. run_backtest sample_config sample_strategy 100 sample_bars = Inr r \<and>
     rs_final_capital r = 100 + sum_list (map tr_pnl (rs_trades r)) \<and> length (rs_trades r) = 1"
proof -
  obtain r where r: "run_backtest sample_config sample_strategy 100 sample_bars = Inr r" "length (rs_trades r) = 1"
    by (rule sample_run)
  from backtest_balances [OF r(1)] r show ?thesis by blast
qed

subsection \<open>Drawdowns\<close>

lemma drawdowns_length [simp]: "length (drawdowns peak xs) = length xs"
  by (induction xs arbitrary: peak) simp_all

lemma drawdowns_nth:
  "i < length xs \<Longrightarrow> drawdowns peak xs ! i = xs ! i / Max (insert peak (set (take (Suc i) xs))) - 1"
proof (induction xs arbitrary: peak i)
  case Nil
  then show ?case by simp
next
  case (Cons x xs)
  show ?case
  proof (cases i)
    case 0
    then show ?thesis by simp
  next
    case (Suc j)
    have "Max (insert (max peak x) (set (take (Suc j) xs))) = Max (insert peak (insert x (set (take (Suc j) xs))))"
      by (cases "set (take (Suc j) xs) = {}") (simp_all add: max.assoc)
    then show ?thesis using Suc Cons by simp
  qed
qed

lemma drawdown_curve_nth:
  assumes "i < length eq"
  shows "drawdown_curve eq ! i = eq ! i / Max (set (take (Suc i) eq)) - 1"
proof -
  obtain x xs where eq: "eq = x # xs" using assms by (cases eq) auto
  then show ?thesis using drawdowns_nth [OF assms, of x] by (simp add: drawdown_curve_def insert_absorb)
qed

lemma drawdown_curve_length [simp]: "length (drawdown_curve eq) = length eq"
  by (simp add: drawdown_curve_def split: list.split)

text \<open>
  C37. The drawdown at a bar is the fall from the highest equity so far. While the equity stays
  positive every drawdown lies in (-1, 0], and the maximum drawdown reported is in [0, 1) and is
  the largest of those falls.
\<close>

theorem drawdown_correct:
  assumes "run_backtest cfg strategy c data = Inr r" and "\<forall>x\<in>set (rs_equity_curve r). 0 < x"
  shows "(\<forall>i<length data. rs_drawdown_curve r ! i =
      rs_equity_curve r ! i / Max (set (take (Suc i) (rs_equity_curve r))) - 1 \<and>
      -1 < rs_drawdown_curve r ! i \<and> rs_drawdown_curve r ! i \<le> 0 \<and> - rs_drawdown_curve r ! i \<le> rs_max_drawdown r) \<and>
    0 \<le> rs_max_drawdown r \<and> rs_max_drawdown r < 1 \<and>
    (data \<noteq> [] \<longrightarrow> (\<exists>i<length data. rs_max_drawdown r = - rs_drawdown_curve r ! i))"
proof -
  let ?eq = "rs_equity_curve r" and ?dd = "rs_drawdown_curve r"
  have len: "length ?eq = length data"
    using assms(1) run_loop_books [of c data cfg strategy]
    by (auto simp: run_backtest_def summarize_def Let_def sum_bind_def books_def split: sum.splits)
  have r: "?dd = drawdown_curve ?eq" "rs_max_drawdown r = \<bar>max_dd ?eq\<bar>"
    using assms(1) by (auto simp: run_backtest_def summarize_def Let_def sum_bind_def split: sum.splits)
  have nth: "?dd ! i = ?eq ! i / Max (set (take (Suc i) ?eq)) - 1 \<and> -1 < ?dd ! i \<and> ?dd ! i \<le> 0"
    if "i < length data" for i
  proof -
    have i: "?eq ! i \<in> set (take (Suc i) ?eq)" using that len by (simp add: take_Suc_conv_app_nth)
    then have "?eq ! i \<le> Max (set (take (Suc i) ?eq))" by simp
    moreover have "0 < ?eq ! i" using assms(2) that len by simp
    ultimately have "0 < ?eq ! i / Max (set (take (Suc i) ?eq)) \<and> ?eq ! i / Max (set (take (Suc i) ?eq)) \<le> 1"
      by simp
    then show ?thesis using drawdown_curve_nth [of i ?eq] that len r(1) by simp
  qed
  show ?thesis
  proof (cases "data = []")
    case True
    then show ?thesis using len r by (simp add: max_dd_def drawdown_curve_def)
  next
    case False
    have ne: "?dd \<noteq> []" using False len r(1) by (metis drawdown_curve_length length_0_conv)
    then have "Min (set ?dd) \<in> set ?dd" by simp
    then obtain j where j: "j < length data" "Min (set ?dd) = ?dd ! j"
      using len r(1) by (metis drawdown_curve_length in_set_conv_nth)
    have mdd: "rs_max_drawdown r = - ?dd ! j"
      using r j nth [OF j(1)] ne by (simp add: max_dd_def)
    have "- ?dd ! i \<le> rs_max_drawdown r" if "i < length data" for i
    proof -
      have "?dd ! i \<in> set ?dd" using that len r(1) by simp
      then have "Min (set ?dd) \<le> ?dd ! i" by simp
      then show ?thesis using j(2) mdd by simp
    qed
    moreover have "0 \<le> rs_max_drawdown r" "rs_max_drawdown r < 1"
      using mdd nth [OF j(1)] by linarith+
    ultimately show ?thesis using nth mdd j(1) by blast
  qed
qed

theorem drawdown_correct_witness:
  "\<exists>r. run_backtest sample_config sample_strategy 100 sample_bars = Inr r \<and> 0 \<le> rs_max_drawdown r \<and> rs_max_drawdown r < 1"
proof -
  obtain r where r: "run_backtest sample_config sample_strategy 100 sample_bars = Inr r" "rs_equity_curve r = [100, 101]"
    by (rule sample_run)
  then have "\<forall>x\<in>set (rs_equity_curve r). 0 < x" by simp
  from drawdown_correct [OF r(1) this] r(1) show ?thesis by blast
qed

subsection \<open>Walk-forward ends\<close>

lemma walk_loop_ends:
  assumes "\<And>t. t < months t"
  shows "\<exists>rs. walk_loop years months optimize df cursor stop = Some rs \<and>
    sorted_wrt (<) (map fst rs) \<and> (\<forall>x\<in>set rs. cursor \<le> fst x \<and> fst x < stop \<and>
      50 \<le> length (in_window (fst x) (years (fst x)) df))"
proof (induction "nat (stop - cursor)" arbitrary: cursor rule: less_induct)
  case less
  show ?case
  proof (cases "cursor < stop \<and> \<not> (length (in_window cursor (years cursor) df) < 50 \<or>
      length (in_window (years cursor) (months (years cursor)) df) < 20)")
    case False
    then show ?thesis
      by (subst walk_loop.simps) (auto simp: Let_def)
  next
    case True
    have step: "cursor < months cursor" by (rule assms)
    with True have "nat (stop - months cursor) < nat (stop - cursor)" by simp
    from less [OF this] obtain rs where "walk_loop years months optimize df (months cursor) stop = Some rs"
      "sorted_wrt (<) (map fst rs)" "\<forall>x\<in>set rs. months cursor \<le> fst x \<and> fst x < stop \<and>
      50 \<le> length (in_window (fst x) (years (fst x)) df)" by blast
    with True step show ?thesis
      by (subst walk_loop.simps) (auto simp: Let_def not_less)
  qed
qed

text \<open>
  A walk-forward run ends for every offset of months that moves a time forward: its segments
  start at increasing times within the data, and each was optimized on at least fifty bars.
\<close>

theorem walk_forward_ends:
  assumes "\<And>t. t < months t"
  shows "\<exists>rs. run_walk_forward years months optimize data = Some rs \<and> sorted_wrt (<) (map fst rs) \<and>
    (\<forall>x\<in>set rs. 50 \<le> length (in_window (fst x) (years (fst x)) data))"
proof -
  have len: "length (in_window lo hi (sort_key b_time data)) = length (in_window lo hi data)" for lo hi
    unfolding in_window_def by (simp add: filter_sort)
  let ?df = "sort_key b_time data"
  show ?thesis
  proof (cases "?df = []")
    case True
    then show ?thesis by (simp add: run_walk_forward_def)
  next
    case False
    obtain rs where "walk_loop years months optimize ?df (b_time (hd ?df)) (b_time (last ?df)) = Some rs"
      "sorted_wrt (<) (map fst rs)" "\<forall>x\<in>set rs. 50 \<le> length (in_window (fst x) (years (fst x)) ?df)"
      using walk_loop_ends [OF assms] by blast
    then show ?thesis using False by (simp add: run_walk_forward_def Let_def len)
  qed
qed

theorem walk_forward_ends_witness:
  "\<exists>rs. run_walk_forward (\<lambda>t. t + 1095) (\<lambda>t. t + 180) (\<lambda>xs ys. length xs) sample_bars = Some rs \<and> sorted_wrt (<) (map fst rs)"
proof -
  have "\<And>t::int. t < t + 180" by simp
  from walk_forward_ends [where months = "\<lambda>t. t + 180", OF this, of "\<lambda>t. t + 1095" "\<lambda>xs ys. length xs" sample_bars]
  show ?thesis by blast
qed

text \<open>
  The walk-forward endpoint evaluates nothing: its 360 days of data end before the out-of-sample
  window that follows three years of in-sample data, so every request reports zero segments.
\<close>

theorem walk_forward_endpoint_empty:
  assumes "\<And>t. t + 3 * 365 * day \<le> years t"
  shows "walk_forward_endpoint years months optimize now = Some 0"
proof -
  let ?df = "sort_key b_time (endpoint_bars now)"
  have mem: "b_time b \<le> now \<and> now - 359 * day \<le> b_time b" if "b \<in> set ?df" for b
    using that by (auto simp: endpoint_bars_def day_def)
  have "?df \<noteq> []"
  proof -
    have "length ?df = 360" by (simp add: endpoint_bars_def)
    then show ?thesis by force
  qed
  then have hd: "now - 359 * day \<le> b_time (hd ?df)" using mem [OF hd_in_set] by blast
  have "in_window (years (b_time (hd ?df))) u ?df = []" for u
  proof -
    have "now < years (b_time (hd ?df))" using hd assms [of "b_time (hd ?df)"] by (simp add: day_def)
    then show ?thesis using mem by (force simp: in_window_def filter_empty_conv)
  qed
  then have "walk_loop years months optimize ?df (b_time (hd ?df)) (b_time (last ?df)) = Some []"
    by (subst walk_loop.simps) (simp add: Let_def)
  then show ?thesis
    using \<open>?df \<noteq> []\<close> unfolding walk_forward_endpoint_def run_walk_forward_def Let_def by simp
qed

theorem walk_forward_endpoint_empty_witness:
  "walk_forward_endpoint (\<lambda>t. t + 1096 * day) (\<lambda>t. t + 180 * day) (\<lambda>xs ys. length xs) 0 = Some 0"
  by (rule walk_forward_endpoint_empty) (simp add: day_def)

subsection \<open>Risk figures\<close>

lemma mean_le:
  assumes "mean_of xs = Some m" and "\<forall>x\<in>set xs. x \<le> b"
  shows "m \<le> b"
proof -
  have ne: "xs \<noteq> []" and m: "m = sum_list xs / real (length xs)" using assms(1) by (auto simp: mean_of_def split: if_splits)
  have "sum_list xs \<le> real (length xs) * b"
    using assms(2) by (induction xs) (auto simp: algebra_simps)
  then show ?thesis using ne m by (simp add: divide_le_eq mult.commute)
qed

text \<open>The conditional value at risk of a level never exceeds the value at risk of that level.\<close>

lemma conditional_var_le: "conditional_var quantile totals c = Some m \<Longrightarrow> m \<le> value_at_risk quantile totals c"
  unfolding conditional_var_def value_at_risk_def by (rule mean_le) auto

end
