(* ===== verification/Vault.thy ===== *)
theory Vault
  imports Account_Store
begin

text \<open>
  Envelope encryption (\<^verbatim>\<open>app/core/crypto.py\<close>) and the vault of provider keys
  (\<^verbatim>\<open>app/services/vault_service.py\<close>). AES-GCM is a parameter; the bytes of \<open>os.urandom\<close> are
  arguments. What a theorem needs of the cipher is the law \<open>aead_law\<close>.
\<close>

subsection \<open>Encryption\<close>

text \<open>Key, nonce and text; an exception for a wrong key length or an invalid tag.\<close>

record aead =
  ae_encrypt :: "byte list \<Rightarrow> byte list \<Rightarrow> byte list \<Rightarrow> exn + byte list"
  ae_decrypt :: "byte list \<Rightarrow> byte list \<Rightarrow> byte list \<Rightarrow> exn + byte list"

definition aead_law :: "aead \<Rightarrow> bool" where
  "aead_law ae = (\<forall>k n p c. ae_encrypt ae k n p = Inr c \<longrightarrow> ae_decrypt ae k n c = Inr p)"

definition ljust :: "byte list \<Rightarrow> nat \<Rightarrow> byte \<Rightarrow> byte list" where
  "ljust raw n b = raw @ replicate (n - length raw) b"

definition master_key :: "string \<Rightarrow> byte list" where
  "master_key key_text = (let raw = encode_str key_text in
     if length raw = 32 then raw else take 32 (ljust raw 32 48))"

record random_bytes =
  rb_dek :: "byte list"
  rb_data_nonce :: "byte list"
  rb_dek_nonce :: "byte list"

record encrypted =
  ec_encrypted_dek :: "byte list"
  ec_dek_nonce :: "byte list"
  ec_ciphertext :: "byte list"
  ec_data_nonce :: "byte list"

definition encrypt_secret :: "aead \<Rightarrow> string \<Rightarrow> random_bytes \<Rightarrow> string \<Rightarrow> exn + encrypted" where
  "encrypt_secret ae key_text rb plaintext =
     sum_bind (ae_encrypt ae (rb_dek rb) (rb_data_nonce rb) (encode_str plaintext)) (\<lambda>ciphertext.
     sum_bind (ae_encrypt ae (master_key key_text) (rb_dek_nonce rb) (rb_dek rb)) (\<lambda>encrypted_dek.
     Inr \<lparr>ec_encrypted_dek = encrypted_dek, ec_dek_nonce = rb_dek_nonce rb, ec_ciphertext = ciphertext,
       ec_data_nonce = rb_data_nonce rb\<rparr>))"

definition decrypt_secret :: "aead \<Rightarrow> string \<Rightarrow> encrypted \<Rightarrow> exn + string" where
  "decrypt_secret ae key_text ec =
     sum_bind (ae_decrypt ae (master_key key_text) (ec_dek_nonce ec) (ec_encrypted_dek ec)) (\<lambda>dek.
     sum_bind (ae_decrypt ae dek (ec_data_nonce ec) (ec_ciphertext ec)) decode_str)"

subsection \<open>The vault service\<close>

definition key_owner :: "int \<Rightarrow> string \<Rightarrow> vault_row \<Rightarrow> bool" where
  "key_owner user_id provider r = (vr_user_id r = user_id \<and> vr_provider r = provider)"

definition find_key :: "int \<Rightarrow> string \<Rightarrow> tables \<Rightarrow> vault_row option" where
  "find_key user_id provider t = List.find (key_owner user_id provider) (tb_vault t)"

definition last4 :: "string \<Rightarrow> string" where
  "last4 s = drop (length s - 4) s"

definition set_secret :: "string \<Rightarrow> encrypted \<Rightarrow> vault_row \<Rightarrow> vault_row" where
  "set_secret api_key ec r = r\<lparr>vr_key_last4 := last4 api_key, vr_encrypted_dek := ec_encrypted_dek ec,
     vr_dek_nonce := ec_dek_nonce ec, vr_ciphertext := ec_ciphertext ec, vr_data_nonce := ec_data_nonce ec\<rparr>"

definition new_key_row :: "datetime \<Rightarrow> int \<Rightarrow> string \<Rightarrow> string \<Rightarrow> encrypted \<Rightarrow> int \<Rightarrow> vault_row" where
  "new_key_row now user_id provider api_key ec i =
     \<lparr>vr_id = i, vr_user_id = user_id, vr_provider = provider, vr_key_last4 = last4 api_key,
      vr_encrypted_dek = ec_encrypted_dek ec, vr_dek_nonce = ec_dek_nonce ec, vr_ciphertext = ec_ciphertext ec,
      vr_data_nonce = ec_data_nonce ec, vr_meta = [], vr_created_at = now, vr_updated_at = now\<rparr>"

definition update_key_row :: "int \<Rightarrow> (vault_row \<Rightarrow> vault_row) \<Rightarrow> tables \<Rightarrow> tables" where
  "update_key_row i f t = t\<lparr>tb_vault := map (\<lambda>r. if vr_id r = i then f r else r) (tb_vault t)\<rparr>"

definition store_key :: "datetime \<Rightarrow> int \<Rightarrow> string \<Rightarrow> string \<Rightarrow> encrypted \<Rightarrow> vault_row option \<Rightarrow> (session, int) io" where
  "store_key now user_id provider api_key ec row = (case row of
     None \<Rightarrow> db_insert (\<lambda>i t. t\<lparr>tb_vault := tb_vault t @ [new_key_row now user_id provider api_key ec i]\<rparr>)
   | Some r \<Rightarrow> io_bind (db_change (update_key_row (vr_id r) (\<lambda>x. (set_secret api_key ec x)\<lparr>vr_updated_at := now\<rparr>))) (\<lambda>_.
       io_return (vr_id r)))"

definition upsert_key :: "aead \<Rightarrow> string \<Rightarrow> random_bytes \<Rightarrow> datetime \<Rightarrow> int \<Rightarrow> string \<Rightarrow> string \<Rightarrow> (session, vault_row) io" where
  "upsert_key ae key_text rb now user_id provider api_key =
     io_bind (io_lift (encrypt_secret ae key_text rb api_key)) (\<lambda>ec.
     io_bind (db_query (find_key user_id provider)) (\<lambda>row.
     io_bind (store_key now user_id provider api_key ec row) (\<lambda>kid.
     io_bind db_commit (\<lambda>_.
     io_bind (db_query (\<lambda>t. List.find (\<lambda>r. vr_id r = kid) (tb_vault t))) (\<lambda>found.
     (case found of None \<Rightarrow> io_raise (OtherException ''InvalidRequestError'')
      | Some r \<Rightarrow>
          io_bind (record_audit now (Some user_id) SETTINGS_CHANGED ''vault'' (Some (show_int (vr_id r)))
             (Some [(''provider'', PStr provider)]) None) (\<lambda>_.
          io_return r)))))))"

text \<open>\<open>collation\<close> ranks the providers as the database orders them.\<close>

definition list_keys :: "(string \<Rightarrow> nat) \<Rightarrow> int \<Rightarrow> (session, vault_row list) io" where
  "list_keys collation user_id =
     db_query (\<lambda>t. sort_key (\<lambda>r. collation (vr_provider r)) (filter (\<lambda>r. vr_user_id r = user_id) (tb_vault t)))"

definition delete_key :: "datetime \<Rightarrow> int \<Rightarrow> int \<Rightarrow> (session, unit) io" where
  "delete_key now user_id key_id =
     io_bind (db_query (\<lambda>t. List.find (\<lambda>r. vr_id r = key_id \<and> vr_user_id r = user_id) (tb_vault t))) (\<lambda>row.
     (case row of None \<Rightarrow> io_raise (HTTPException 404 ''Key not found'')
      | Some r \<Rightarrow>
          io_bind (db_change (\<lambda>t. t\<lparr>tb_vault := filter (\<lambda>x. vr_id x \<noteq> vr_id r) (tb_vault t)\<rparr>)) (\<lambda>_.
          io_bind db_commit (\<lambda>_.
          record_audit now (Some user_id) SETTINGS_CHANGED ''vault'' (Some (show_int key_id))
            (Some [(''event'', PStr ''delete'')]) None))))"

definition row_secret :: "vault_row \<Rightarrow> encrypted" where
  "row_secret r = \<lparr>ec_encrypted_dek = vr_encrypted_dek r, ec_dek_nonce = vr_dek_nonce r,
     ec_ciphertext = vr_ciphertext r, ec_data_nonce = vr_data_nonce r\<rparr>"

definition get_key_for_runtime :: "aead \<Rightarrow> string \<Rightarrow> datetime \<Rightarrow> int \<Rightarrow> string \<Rightarrow> (session, string) io" where
  "get_key_for_runtime ae key_text now user_id provider =
     io_bind (db_query (find_key user_id provider)) (\<lambda>row.
     (case row of None \<Rightarrow> io_raise (HTTPException 404 ''Provider key not found'')
      | Some r \<Rightarrow>
          io_bind (record_audit now (Some user_id) KEY_ACCESS ''vault'' (Some (show_int (vr_id r)))
             (Some [(''provider'', PStr provider)]) None) (\<lambda>_.
          io_lift (decrypt_secret ae key_text (row_secret r)))))"

text \<open>The calls on the vault, each on a session of its own.\<close>

datatype vault_op =
    UpsertKey random_bytes datetime int string string
  | ListKeys int
  | DeleteKey datetime int int
  | GetKey datetime int string

definition vault_step :: "aead \<Rightarrow> string \<Rightarrow> (string \<Rightarrow> nat) \<Rightarrow> tables \<Rightarrow> vault_op \<Rightarrow> tables" where
  "vault_step ae key_text collation t x = (case x of
     UpsertKey rb now u p k \<Rightarrow> snd (with_session (upsert_key ae key_text rb now u p k) t)
   | ListKeys u \<Rightarrow> snd (with_session (list_keys collation u) t)
   | DeleteKey now u i \<Rightarrow> snd (with_session (delete_key now u i) t)
   | GetKey now u p \<Rightarrow> snd (with_session (get_key_for_runtime ae key_text now u p) t))"

subsection \<open>The master key\<close>

lemma encode_str_ascii: "list_all (\<lambda>c. code_of c < 128) s \<Longrightarrow> encode_str s = map (\<lambda>c. byte_of (code_of c)) s"
  by (induction s) (simp_all add: encode_str_def utf8_char_def Let_def)

lemma encode_str_length: "length s \<le> length (encode_str s)"
  by (induction s) (simp_all add: encode_str_def utf8_char_def Let_def)

lemma master_key_length: "length (master_key k) = 32"
  by (simp add: master_key_def ljust_def Let_def min_def)

text \<open>A text longer than 32 characters, as every valid setting is, is cut: no byte of it is decoded.\<close>

lemma master_key_cut: "32 < length k \<Longrightarrow> list_all (\<lambda>c. code_of c < 128) k \<Longrightarrow>
    master_key k = map (\<lambda>c. byte_of (code_of c)) (take 32 k)"
  by (simp add: master_key_def ljust_def encode_str_ascii take_map Let_def)

lemma b64encode_quads: "b64encode (take (3 * n) bs @ cs) = b64encode (take (3 * n) bs) @ b64encode cs"
  if "3 * n \<le> length bs"
  using that
proof (induction n arbitrary: bs)
  case 0
  then show ?case by simp
next
  case (Suc n)
  then obtain a b c ds where "bs = a # b # c # ds"
    by (cases bs; cases "tl bs"; cases "tl (tl bs)") auto
  moreover have "take (3 * Suc n) (a # b # c # ds) = a # b # c # take (3 * n) ds" by (simp add: numeral_3_eq_3)
  ultimately show ?case using Suc.IH [of ds] Suc.prems by simp
qed

lemma b64encode_quads_length: "length bs = 3 * n \<Longrightarrow> length (b64encode bs) = 4 * n"
proof (induction n arbitrary: bs)
  case 0
  then show ?case by simp
next
  case (Suc n)
  then obtain a b c ds where "bs = a # b # c # ds"
    by (cases bs; cases "tl bs"; cases "tl (tl bs)") auto
  with Suc.IH [of ds] Suc.prems show ?case by simp
qed

lemma master_key_prefix:
  assumes "length raw = 32"
  shows "master_key (b64encode raw) = map (\<lambda>c. byte_of (code_of c)) (b64encode (take 24 raw))"
proof -
  have split: "b64encode raw = b64encode (take 24 raw) @ b64encode (drop 24 raw)"
    using b64encode_quads [of 8 raw "drop 24 raw"] assms by simp
  have len: "length (b64encode (take 24 raw)) = 32"
    using b64encode_quads_length [of "take 24 raw" 8] assms by simp
  obtain a as where "drop 24 raw = a # as" using assms by (cases "drop 24 raw") auto
  then have "0 < length (b64encode (drop 24 raw))"
    by (cases as; cases "tl as") simp_all
  then have "32 < length (b64encode raw)" using split len by simp
  from master_key_cut [OF this b64encode_ascii] show ?thesis using split len by simp
qed

text \<open>
  The master key is not the decoded key but the first 32 characters of its base64 text: of the
  32 bytes that the settings demand, only the first 24 matter, and two configured keys that differ
  in the last eight bytes are both accepted and encrypt alike.
\<close>

theorem master_key_ignores_last_bytes:
  assumes "length raw1 = 32" and "length raw2 = 32" and "take 24 raw1 = take 24 raw2"
  shows "validate_master_key (b64encode raw1) = Inr (b64encode raw1) \<and>
    validate_master_key (b64encode raw2) = Inr (b64encode raw2) \<and>
    master_key (b64encode raw1) = master_key (b64encode raw2) \<and>
    master_key (b64encode raw1) = map (\<lambda>c. byte_of (code_of c)) (b64encode (take 24 raw1))"
  using assms by (simp add: validate_master_key_def b64decode_def b64encode_ascii b64_scan_encode master_key_prefix)

theorem master_key_ignores_last_bytes_witness:
  "master_key (b64encode (replicate 32 0)) = master_key (b64encode (replicate 24 0 @ replicate 8 255))"
  using master_key_ignores_last_bytes [of "replicate 32 0" "replicate 24 0 @ replicate 8 255"] by simp

subsection \<open>Invariant\<close>

lemma vault_preserves [preserves]:
  "io_preserves session_ok (store_key now u p k ec row)"
  "io_preserves session_ok (upsert_key ae mk rb now u p k)"
  "io_preserves session_ok (list_keys collation u)"
  "io_preserves session_ok (delete_key now u i)"
  "io_preserves session_ok (get_key_for_runtime ae mk now u p)"
proof -
  show store: "io_preserves session_ok (store_key now u p k ec row)" for now u p k ec row
    unfolding store_key_def by (cases row) (auto intro: preserves)
  show "io_preserves session_ok (upsert_key ae mk rb now u p k)"
    unfolding upsert_key_def by (intro preserves store) (auto intro!: preserves split: option.split)
  show "io_preserves session_ok (list_keys collation u)"
    unfolding list_keys_def by (intro preserves)
  show "io_preserves session_ok (delete_key now u i)"
    unfolding delete_key_def by (intro preserves) (auto intro!: preserves split: option.split)
  show "io_preserves session_ok (get_key_for_runtime ae mk now u p)"
    unfolding get_key_for_runtime_def by (intro preserves) (auto intro!: preserves split: option.split)
qed

interpretation vault_machine: invariant_machine "vault_step ae key_text collation" "\<lambda>_. True" tables_ok
proof unfold_locales
  fix t x assume ok: "tables_ok t"
  show "tables_ok (vault_step ae key_text collation t x)"
    by (cases x) (simp_all add: vault_step_def io_preservesD [OF with_session_ok ok] vault_preserves)
qed

subsection \<open>What a stored key is\<close>

lemma find_filter: "List.find P xs = (case filter P xs of [] \<Rightarrow> None | x # _ \<Rightarrow> Some x)"
  by (induction xs) auto

lemma find_unique:
  assumes "distinct (map f xs)" and "x \<in> set xs"
  shows "List.find (\<lambda>r. f r = f x) xs = Some x"
  using assms by (induction xs) auto

definition owner_rows :: "int \<Rightarrow> string \<Rightarrow> tables \<Rightarrow> vault_row list" where
  "owner_rows u p t = filter (key_owner u p) (tb_vault t)"

lemma find_key_rows: "find_key u p t = (case owner_rows u p t of [] \<Rightarrow> None | r # _ \<Rightarrow> Some r)"
  by (simp add: find_key_def owner_rows_def find_filter)

lemma find_key_Some: "find_key u p t = Some r \<Longrightarrow> r \<in> set (tb_vault t) \<and> key_owner u p r"
  by (auto simp: find_key_def find_Some_iff)

lemma find_key_eq:
  assumes "tables_ok t" and "r \<in> set (tb_vault t)" and "key_owner u p r"
  shows "find_key u p t = Some r"
proof -
  have "distinct (map (\<lambda>r. (vr_user_id r, vr_provider r)) (tb_vault t))" using assms(1) by (simp add: tables_ok_def)
  from find_unique [OF this assms(2)] show ?thesis
    using assms(3) by (simp add: find_key_def key_owner_def [abs_def])
qed

lemma vault_ids: "tables_ok t \<Longrightarrow> distinct (map vr_id (tb_vault t)) \<and> (\<forall>r\<in>set (tb_vault t). vr_id r < tb_next t)"
  by (simp add: tables_ok_def ids_ok_def list_all_iff)

lemma same_vault_id: "tables_ok t \<Longrightarrow> r \<in> set (tb_vault t) \<Longrightarrow> r' \<in> set (tb_vault t) \<Longrightarrow> vr_id r = vr_id r' \<Longrightarrow> r = r'"
  using vault_ids [of t] by (auto simp: distinct_map inj_on_def)

lemma vault_user: "tables_ok t \<Longrightarrow> r \<in> set (tb_vault t) \<Longrightarrow> vr_user_id r \<in> ur_id ` set (tb_users t)"
  by (auto simp: tables_ok_def list_all_iff)

subsection \<open>Runs of the operations\<close>

text \<open>The tables after storing a key, before the commit, and the id of its row.\<close>

definition put_row :: "datetime \<Rightarrow> int \<Rightarrow> string \<Rightarrow> string \<Rightarrow> encrypted \<Rightarrow> tables \<Rightarrow> tables" where
  "put_row now u p k ec t = (case find_key u p t of
     None \<Rightarrow> t\<lparr>tb_vault := tb_vault t @ [new_key_row now u p k ec (tb_next t)], tb_next := tb_next t + 1\<rparr>
   | Some r \<Rightarrow> update_key_row (vr_id r) (\<lambda>x. (set_secret k ec x)\<lparr>vr_updated_at := now\<rparr>) t)"

definition put_id :: "int \<Rightarrow> string \<Rightarrow> tables \<Rightarrow> int" where
  "put_id u p t = (case find_key u p t of None \<Rightarrow> tb_next t | Some r \<Rightarrow> vr_id r)"

lemma store_key_run:
  "store_key now u p k ec (find_key u p t) (open_session t) =
     (Inr (put_id u p t), (open_session t)\<lparr>sn_pending := put_row now u p k ec t\<rparr>)"
  by (cases "find_key u p t") (simp_all add: store_key_def put_row_def put_id_def db_simps io_simps)

lemma put_row_found:
  assumes "tables_ok t" and "tables_ok (put_row now u p k ec t)"
  obtains r where "r \<in> set (tb_vault (put_row now u p k ec t))" "vr_id r = put_id u p t" "key_owner u p r" "row_secret r = ec"
proof (cases "find_key u p t")
  case None
  then show ?thesis
    by (intro that [of "new_key_row now u p k ec (tb_next t)"])
       (simp_all add: put_row_def put_id_def new_key_row_def key_owner_def row_secret_def)
next
  case (Some r)
  then show ?thesis using find_key_Some [OF Some]
    by (intro that [of "(set_secret k ec r)\<lparr>vr_updated_at := now\<rparr>"])
       (auto simp: put_row_def put_id_def update_key_row_def set_secret_def key_owner_def row_secret_def)
qed

lemma put_row_others:
  assumes ok: "tables_ok t" and other: "(u', p') \<noteq> (u, p)"
  shows "owner_rows u p (put_row now u' p' k ec t) = owner_rows u p t"
proof (cases "find_key u' p' t")
  case None
  then show ?thesis using other by (auto simp: put_row_def owner_rows_def new_key_row_def key_owner_def)
next
  case (Some r')
  have "filter (key_owner u p) (map (\<lambda>r. if vr_id r = vr_id r' then f r else r) xs) = filter (key_owner u p) xs"
    if "set xs \<subseteq> set (tb_vault t)" "\<And>r. key_owner u p (f r) = key_owner u p r" for f xs
    using that
  proof (induction xs)
    case Nil
    then show ?case by simp
  next
    case (Cons x xs)
    have "\<not> key_owner u p x" if "vr_id x = vr_id r'"
      using same_vault_id [OF ok _ _ that] Cons.prems(1) find_key_Some [OF Some] other by (auto simp: key_owner_def)
    with Cons show ?case by auto
  qed
  from this [of "tb_vault t"] show ?thesis
    by (simp add: put_row_def Some update_key_row_def owner_rows_def set_secret_def key_owner_def)
qed

text \<open>A successful run of \<open>upsert_key\<close>, and a failed one.\<close>

lemma upsert_key_run:
  assumes ok: "tables_ok t" and ec: "encrypt_secret ae mk rb k = Inr ec"
  shows "if tables_ok (put_row now u p k ec t)
    then \<exists>r a. find_key u p (put_row now u p k ec t) = Some r \<and> row_secret r = ec \<and>
      upsert_key ae mk rb now u p k (open_session t) = (Inr r, open_session (with_audit a (put_row now u p k ec t)))
    else upsert_key ae mk rb now u p k (open_session t) = (Inl (OtherException ''DBAPIError''), open_session t)"
proof (cases "tables_ok (put_row now u p k ec t)")
  case False
  then show ?thesis by (simp add: upsert_key_def ec io_lift_simps io_bind_def db_query_run store_key_run db_commit_run io_return_def)
next
  case True
  let ?t = "put_row now u p k ec t"
  obtain r where r: "r \<in> set (tb_vault ?t)" "vr_id r = put_id u p t" "key_owner u p r" "row_secret r = ec"
    using put_row_found [OF ok True] .
  have find: "List.find (\<lambda>x. vr_id x = put_id u p t) (tb_vault ?t) = Some r"
    using find_unique [of vr_id "tb_vault ?t" r] vault_ids [OF True] r by simp
  have user: "u \<in> ur_id ` set (tb_users ?t)" using vault_user [OF True r(1)] r(3) by (simp add: key_owner_def)
  have "upsert_key ae mk rb now u p k (open_session t) =
    (Inr r, open_session (with_audit (audit_entry now (Some u) SETTINGS_CHANGED ''vault'' (Some (show_int (vr_id r)))
      (Some [(''provider'', PStr p)]) None (tb_next ?t)) ?t))"
    using True user
    by (simp add: upsert_key_def ec io_lift_simps io_bind_def db_query_run store_key_run db_commit_run find
        record_audit_run io_return_def)
  then show ?thesis using True find_key_eq [OF True r(1,3)] r(4) by auto
qed

lemma upsert_key_fails:
  "encrypt_secret ae mk rb k = Inl e \<Longrightarrow> upsert_key ae mk rb now u p k s = (Inl e, s)"
  by (simp add: upsert_key_def io_lift_simps io_simps)

lemma delete_key_run:
  assumes ok: "tables_ok t"
  shows "(\<forall>r\<in>set (tb_vault t). vr_id r = i \<longrightarrow> vr_user_id r \<noteq> u) \<and>
       delete_key now u i (open_session t) = (Inl (HTTPException 404 ''Key not found''), open_session t) \<or>
    (\<exists>r s. r \<in> set (tb_vault t) \<and> vr_user_id r = u \<and> vr_id r = i \<and> delete_key now u i (open_session t) = s \<and>
       tb_vault (sn_committed (snd s)) = filter (\<lambda>x. vr_id x \<noteq> vr_id r) (tb_vault t))"
proof (cases "List.find (\<lambda>r. vr_id r = i \<and> vr_user_id r = u) (tb_vault t)")
  case None
  then have "\<forall>r\<in>set (tb_vault t). vr_id r = i \<longrightarrow> vr_user_id r \<noteq> u" by (auto simp: find_None_iff)
  moreover have "delete_key now u i (open_session t) = (Inl (HTTPException 404 ''Key not found''), open_session t)"
    using None by (simp add: delete_key_def db_query_run io_simps)
  ultimately show ?thesis by blast
next
  case (Some r)
  let ?t = "t\<lparr>tb_vault := filter (\<lambda>x. vr_id x \<noteq> vr_id r) (tb_vault t)\<rparr>"
  have r: "r \<in> set (tb_vault t)" "vr_user_id r = u" "vr_id r = i" using Some by (auto simp: find_Some_iff)
  have "tables_ok ?t" using ok unfolding tables_ok_def ids_ok_def
    by (auto simp: list_all_iff distinct_map_filter)
  moreover have "u \<in> ur_id ` set (tb_users ?t)" using vault_user [OF ok r(1)] r(2) by simp
  ultimately have "delete_key now u i (open_session t) =
      (Inr (), open_session (with_audit (audit_entry now (Some u) SETTINGS_CHANGED ''vault'' (Some (show_int i))
        (Some [(''event'', PStr ''delete'')]) None (tb_next ?t)) ?t))"
    by (simp add: delete_key_def db_query_run Some io_bind_def db_change_run db_commit_run record_audit_run)
  then show ?thesis using r by auto
qed

lemma get_key_run:
  assumes ok: "tables_ok t"
  shows "get_key_for_runtime ae mk now u p (open_session t) = (case find_key u p t of
     None \<Rightarrow> (Inl (HTTPException 404 ''Provider key not found''), open_session t)
   | Some r \<Rightarrow> (decrypt_secret ae mk (row_secret r), open_session (with_audit
       (audit_entry now (Some u) KEY_ACCESS ''vault'' (Some (show_int (vr_id r))) (Some [(''provider'', PStr p)]) None (tb_next t)) t)))"
proof (cases "find_key u p t")
  case None
  then show ?thesis by (simp add: get_key_for_runtime_def db_query_run io_simps)
next
  case (Some r)
  have "u \<in> ur_id ` set (tb_users t)"
    using vault_user [OF ok] find_key_Some [OF Some] by (auto simp: key_owner_def)
  then show ?thesis using ok
    by (simp add: get_key_for_runtime_def db_query_run Some io_bind_def record_audit_run io_lift_def)
qed

subsection \<open>Keys are kept\<close>

text \<open>
  The calls other than an upsert for the same user and provider and the owner's deletion of this very key, whose row id is
  \<open>j\<close>: the owner's deletions of other keys are among them.
\<close>

fun leaves_key :: "int \<Rightarrow> string \<Rightarrow> int \<Rightarrow> vault_op \<Rightarrow> bool" where
  "leaves_key u p j (UpsertKey rb now u' p' k) = ((u', p') \<noteq> (u, p))"
| "leaves_key u p j (DeleteKey now u' i) = ((u', i) \<noteq> (u, j))"
| "leaves_key u p j x = True"

lemma encrypt_decrypt:
  assumes "aead_law ae" and "encrypt_secret ae mk rb k = Inr ec"
  shows "decrypt_secret ae mk ec = Inr k"
  using assms by (auto simp: encrypt_secret_def decrypt_secret_def aead_law_def sum_bind_def decode_encode_str split: sum.splits)

subsection \<open>The vault as a map of keys\<close>

text \<open>
  What the vault promises, without rows, ids of other users or encryption: a map from user and
  provider to a key id and the secret. A call may fail and change nothing.
\<close>

type_synonym key_map = "int \<times> string \<Rightarrow> (int \<times> (exn + string)) option"

inductive key_map_step :: "key_map \<Rightarrow> vault_op \<Rightarrow> key_map \<Rightarrow> bool" where
  failed: "key_map_step m x m"
| added: "m (u, p) = None \<Longrightarrow> \<forall>v\<in>ran m. fst v \<noteq> i \<Longrightarrow> key_map_step m (UpsertKey rb now u p k) (m((u, p) \<mapsto> (i, Inr k)))"
| replaced: "m (u, p) = Some (i, v) \<Longrightarrow> key_map_step m (UpsertKey rb now u p k) (m((u, p) \<mapsto> (i, Inr k)))"
| deleted: "m (u, p) = Some (i, v) \<Longrightarrow> key_map_step m (DeleteKey now u i) (m((u, p) := None))"

definition vault_map :: "aead \<Rightarrow> string \<Rightarrow> tables \<Rightarrow> key_map" where
  "vault_map ae mk t = (\<lambda>(u, p). map_option (\<lambda>r. (vr_id r, decrypt_secret ae mk (row_secret r))) (find_key u p t))"

lemma find_key_rows_eq: "owner_rows u p t' = owner_rows u p t \<Longrightarrow> find_key u p t' = find_key u p t"
  by (simp add: find_key_rows)

lemma vault_map_cong: "(\<And>u p. owner_rows u p t' = owner_rows u p t) \<Longrightarrow> vault_map ae mk t' = vault_map ae mk t"
  by (auto simp: vault_map_def fun_eq_iff find_key_rows)

lemma owner_rows_audit [simp]: "owner_rows u p (with_audit a t) = owner_rows u p t"
  by (simp add: owner_rows_def)

lemma vault_map_put:
  assumes ok: "tables_ok t" "tables_ok (put_row now u p k ec t)"
  shows "vault_map ae mk (put_row now u p k ec t) = (vault_map ae mk t)((u, p) \<mapsto> (put_id u p t, decrypt_secret ae mk ec))"
proof -
  obtain r where r: "r \<in> set (tb_vault (put_row now u p k ec t))" "vr_id r = put_id u p t" "key_owner u p r" "row_secret r = ec"
    by (rule put_row_found [OF ok])
  have "find_key u p (put_row now u p k ec t) = Some r" by (rule find_key_eq [OF ok(2) r(1,3)])
  moreover have "find_key u' p' (put_row now u p k ec t) = find_key u' p' t" if "(u', p') \<noteq> (u, p)" for u' p'
    using put_row_others [OF ok(1), of u p u' p' now k ec] that by (intro find_key_rows_eq) auto
  ultimately show ?thesis using r by (auto simp: vault_map_def fun_eq_iff)
qed

lemma owner_rows_delete:
  assumes ok: "tables_ok t" and r: "r \<in> set (tb_vault t)" and t': "tb_vault t' = filter (\<lambda>x. vr_id x \<noteq> vr_id r) (tb_vault t)"
  shows "owner_rows u p t' = (if key_owner u p r then [] else owner_rows u p t)"
proof (cases "key_owner u p r")
  case True
  have "x = r" if "x \<in> set (tb_vault t)" "key_owner u p x" for x
    using find_key_eq [OF ok that] find_key_eq [OF ok r True] by simp
  then show ?thesis using True by (auto simp: owner_rows_def t' filter_empty_conv)
next
  case False
  have "vr_id x \<noteq> vr_id r" if "x \<in> set (tb_vault t)" "key_owner u p x" for x
    using same_vault_id [OF ok that(1) r] that(2) False by auto
  then show ?thesis using False unfolding owner_rows_def t' filter_filter by (auto intro!: filter_cong)
qed

lemma vault_map_delete:
  assumes "tables_ok t" and "r \<in> set (tb_vault t)" and "tb_vault t' = filter (\<lambda>x. vr_id x \<noteq> vr_id r) (tb_vault t)"
  shows "vault_map ae mk t' = (vault_map ae mk t)((vr_user_id r, vr_provider r) := None)"
  using owner_rows_delete [OF assms] by (auto simp: vault_map_def fun_eq_iff find_key_rows key_owner_def)

lemma put_id_fresh:
  assumes "tables_ok t" and "find_key u p t = None"
  shows "\<forall>v\<in>ran (vault_map ae mk t). fst v \<noteq> put_id u p t"
  using assms vault_ids [OF assms(1)] by (fastforce simp: vault_map_def ran_def put_id_def dest!: find_key_Some split: prod.splits)

lemma vault_step_map:
  assumes law: "aead_law ae" and ok: "tables_ok t"
  shows "key_map_step (vault_map ae mk t) x (vault_map ae mk (vault_step ae mk collation t x))"
proof (cases x)
  case (UpsertKey rb now u p k)
  show ?thesis
  proof (cases "encrypt_secret ae mk rb k")
    case (Inl e)
    then show ?thesis by (simp add: UpsertKey vault_step_def with_session_def upsert_key_fails failed)
  next
    case (Inr ec)
    show ?thesis
    proof (cases "tables_ok (put_row now u p k ec t)")
      case False
      then show ?thesis using upsert_key_run [OF ok Inr, of now u p]
        by (simp add: UpsertKey vault_step_def with_session_def failed)
    next
      case True
      then obtain a where "vault_step ae mk collation t x = with_audit a (put_row now u p k ec t)"
        using upsert_key_run [OF ok Inr, of now u p] by (auto simp: UpsertKey vault_step_def with_session_def)
      then have m: "vault_map ae mk (vault_step ae mk collation t x) = (vault_map ae mk t)((u, p) \<mapsto> (put_id u p t, Inr k))"
        using vault_map_put [OF ok True] encrypt_decrypt [OF law Inr] vault_map_cong [of "with_audit a (put_row now u p k ec t)"] by simp
      show ?thesis
      proof (cases "find_key u p t")
        case None
        then show ?thesis unfolding m unfolding UpsertKey using put_id_fresh [OF ok None]
          by (intro added) (simp_all add: vault_map_def)
      next
        case (Some r)
        then show ?thesis unfolding m unfolding UpsertKey
          by (intro replaced [where v = "decrypt_secret ae mk (row_secret r)"]) (simp add: vault_map_def put_id_def)
      qed
    qed
  qed
next
  case (ListKeys u)
  then show ?thesis by (simp add: vault_step_def with_session_def list_keys_def db_query_run failed)
next
  case (DeleteKey now u i)
  from delete_key_run [OF ok, of i u now] show ?thesis
  proof (elim disjE exE conjE)
    assume "delete_key now u i (open_session t) = (Inl (HTTPException 404 ''Key not found''), open_session t)"
    then show ?thesis by (simp add: DeleteKey vault_step_def with_session_def failed)
  next
    fix r s
    assume r: "r \<in> set (tb_vault t)" "vr_user_id r = u" "vr_id r = i" and s: "delete_key now u i (open_session t) = s"
      "tb_vault (sn_committed (snd s)) = filter (\<lambda>x. vr_id x \<noteq> vr_id r) (tb_vault t)"
    have "vault_map ae mk (vault_step ae mk collation t x) = (vault_map ae mk t)((u, vr_provider r) := None)"
      using vault_map_delete [OF ok r(1), of "sn_committed (snd s)"] s r(2)
      by (simp add: DeleteKey vault_step_def with_session_def case_prod_beta)
    moreover have "vault_map ae mk t (u, vr_provider r) = Some (i, decrypt_secret ae mk (row_secret r))"
      using find_key_eq [OF ok r(1), of u "vr_provider r"] r by (simp add: vault_map_def key_owner_def)
    ultimately show ?thesis unfolding DeleteKey by (simp add: deleted)
  qed
next
  case (GetKey now u p)
  then show ?thesis using get_key_run [OF ok, of ae mk now u p] vault_map_cong [of "with_audit _ t" t ae mk]
    by (auto simp: vault_step_def with_session_def failed split: option.splits)
qed

interpretation vault_refines: simulation "vault_step ae mk collation" "\<lambda>_. True" "\<lambda>t. aead_law ae \<and> tables_ok t" "vault_map ae mk" key_map_step
  for ae mk collation
  by unfold_locales (auto intro: vault_machine.step_inv vault_step_map)

lemma upsert_outcome:
  assumes law: "aead_law ae" and ok: "tables_ok t"
  shows "case with_session (upsert_key ae mk rb now u p k) t of
      (Inl e, t') \<Rightarrow> vault_map ae mk t' = vault_map ae mk t
    | (Inr row, t') \<Rightarrow> vault_map ae mk t' = (vault_map ae mk t)((u, p) \<mapsto> (vr_id row, Inr k))"
proof (cases "encrypt_secret ae mk rb k")
  case (Inl e)
  then show ?thesis by (simp add: with_session_def upsert_key_fails)
next
  case (Inr ec)
  show ?thesis
  proof (cases "tables_ok (put_row now u p k ec t)")
    case False
    then show ?thesis using upsert_key_run [OF ok Inr, of now u p] by (simp add: with_session_def)
  next
    case True
    then obtain r a where r: "find_key u p (put_row now u p k ec t) = Some r"
      "upsert_key ae mk rb now u p k (open_session t) = (Inr r, open_session (with_audit a (put_row now u p k ec t)))"
      using upsert_key_run [OF ok Inr, of now u p] by auto
    obtain r' where r': "r' \<in> set (tb_vault (put_row now u p k ec t))" "vr_id r' = put_id u p t" "key_owner u p r'"
      by (rule put_row_found [OF ok True])
    have "vr_id r = put_id u p t" using r(1) r'(2) find_key_eq [OF True r'(1,3)] by simp
    then show ?thesis
      using r(2) vault_map_put [OF ok True, of ae mk] encrypt_decrypt [OF law Inr] vault_map_cong [of "with_audit a (put_row now u p k ec t)"]
      by (simp add: with_session_def)
  qed
qed

text \<open>
  C29. The vault is a map from user and provider to a key: with a cipher that decrypts what it encrypted,
  every sequence of calls, failed ones included, is a run of that map, where an upsert adds a key under a fresh id or
  replaces the secret under the old one, a deletion removes a key of the caller by its id, and nothing else changes. In
  every state reached, a runtime read answers what the map holds, and an upsert that answers has stored its secret.
\<close>

theorem vault_refines_key_map:
  assumes law: "aead_law ae" and ok: "tables_ok t" and t': "t' = foldl (vault_step ae mk collation) t xs"
  shows "spec_run key_map_step (vault_map ae mk t) xs (vault_map ae mk t') \<and>
    fst (with_session (get_key_for_runtime ae mk now u p) t') =
      (case vault_map ae mk t' (u, p) of None \<Rightarrow> Inl (HTTPException 404 ''Provider key not found'') | Some (i, r) \<Rightarrow> r) \<and>
    (case with_session (upsert_key ae mk rb now u p k) t' of
      (Inl e, t'') \<Rightarrow> vault_map ae mk t'' = vault_map ae mk t'
    | (Inr row, t'') \<Rightarrow> vault_map ae mk t'' = (vault_map ae mk t')((u, p) \<mapsto> (vr_id row, Inr k)))"
proof -
  have all: "list_all (\<lambda>_. True) xs" by (simp add: list_all_iff)
  have ok': "tables_ok t'" using vault_machine.run_inv [OF ok all] by (simp add: t')
  have "fst (with_session (get_key_for_runtime ae mk now u p) t') =
      (case vault_map ae mk t' (u, p) of None \<Rightarrow> Inl (HTTPException 404 ''Provider key not found'') | Some (i, r) \<Rightarrow> r)"
    using get_key_run [OF ok', of ae mk now u p] by (simp add: with_session_def vault_map_def split: option.split)
  then show ?thesis using vault_refines.run_spec [of ae t xs mk collation] law ok all upsert_outcome [OF law ok'] by (simp add: t')
qed

text \<open>A key of the map stays under the calls that are not about it.\<close>

lemma key_map_keeps:
  "key_map_step m x m' \<Longrightarrow> leaves_key u p j x \<Longrightarrow> m (u, p) = Some (j, v) \<Longrightarrow> m' (u, p) = Some (j, v)"
  by (induction rule: key_map_step.induct) auto

lemma key_map_run_keeps:
  "spec_run key_map_step m xs m' \<Longrightarrow> list_all (leaves_key u p j) xs \<Longrightarrow> m (u, p) = Some (j, v) \<Longrightarrow> m' (u, p) = Some (j, v)"
  by (induction rule: spec_run.induct) (auto intro: key_map_keeps)

text \<open>
  C17. A key that was stored is the key that is read: after a successful \<open>upsert_key\<close>, whatever other calls are made on the
  vault, by other users, by the owner for other providers, deletions of the owner's other keys and reads included,
  \<open>get_key_for_runtime\<close> returns exactly the stored text to its owner. Only an upsert for
  the same user and provider and the owner's deletion of the id of this key are excepted.
\<close>

theorem stored_key_is_read:
  assumes "aead_law ae" and "tables_ok t"
    and "with_session (upsert_key ae mk rb now u p k) t = (Inr row, t1)"
    and "list_all (leaves_key u p (vr_id row)) xs"
  shows "fst (with_session (get_key_for_runtime ae mk now' u p) (foldl (vault_step ae mk collation) t1 xs)) = Inr k"
proof -
  let ?t = "foldl (vault_step ae mk collation) t1 xs"
  have all: "list_all (\<lambda>_. True) xs" by (simp add: list_all_iff)
  have ok1: "tables_ok t1"
    using io_preservesD [OF with_session_ok [OF vault_preserves(2)] assms(2), of ae mk rb now u p k] assms(3) by simp
  have "vault_map ae mk t1 (u, p) = Some (vr_id row, Inr k)"
    using upsert_outcome [where mk = mk and rb = rb and now = now and u = u and p = p and k = k, OF assms(1,2)] assms(3) by simp
  then have "vault_map ae mk ?t (u, p) = Some (vr_id row, Inr k)"
    using key_map_run_keeps [OF vault_refines.run_spec [of ae t1 xs mk collation] assms(4)] assms(1) ok1 all by blast
  moreover have "tables_ok ?t" by (rule vault_machine.run_inv [OF ok1 all])
  ultimately show ?thesis
    using get_key_run [of ?t ae mk now' u p] by (auto simp: with_session_def vault_map_def split: option.splits)
qed

text \<open>
  No key leaves the vault unrecorded: when \<open>get_key_for_runtime\<close> returns a secret, the committed
  audit trail ends with a record of this access by this user, and the secret is the decryption of a
  row of this user and provider.
\<close>

theorem key_access_recorded:
  assumes "tables_ok t" and "with_session (get_key_for_runtime ae mk now u p) t = (Inr k, t')"
  shows "\<exists>r\<in>set (tb_vault t). vr_user_id r = u \<and> vr_provider r = p \<and> decrypt_secret ae mk (row_secret r) = Inr k \<and>
    tb_audit t' = tb_audit t @ [\<lparr>ar_id = tb_next t, ar_user_id = Some u, ar_action = KEY_ACCESS, ar_resource_type = ''vault'',
      ar_resource_id = Some (show_int (vr_id r)), ar_details = [(''provider'', PStr p)], ar_ip_address = None,
      ar_created_at = now\<rparr>]"
  using get_key_run [OF assms(1), of ae mk now u p] assms(2)
  by (auto simp: with_session_def audit_entry_def key_owner_def split: option.splits dest!: find_key_Some)

subsection \<open>Witnesses\<close>

definition plain_aead :: aead where
  "plain_aead = \<lparr>ae_encrypt = \<lambda>k n p. Inr p, ae_decrypt = \<lambda>k n c. Inr c\<rparr>"

definition demo_random :: random_bytes where
  "demo_random = \<lparr>rb_dek = [1], rb_data_nonce = [2], rb_dek_nonce = [3]\<rparr>"

definition demo_tables :: tables where
  "demo_tables = empty_tables\<lparr>tb_users := [\<lparr>ur_id = 1, ur_email = ''a@b.c'', ur_password_hash = ''h'', ur_role = USER,
     ur_is_active = True, ur_created_at = 0\<rparr>], tb_next := 2\<rparr>"

lemma demo_ok: "aead_law plain_aead" "tables_ok demo_tables"
  by (simp_all add: aead_law_def plain_aead_def demo_tables_def empty_tables_def tables_ok_def ids_ok_def)

lemma demo_upsert:
  obtains row t t' where "with_session (upsert_key plain_aead ''m'' demo_random 0 1 ''mt5'' ''secret-key'') demo_tables = (Inr row, t)"
    "tables_ok t" "with_session (get_key_for_runtime plain_aead ''m'' 9 1 ''mt5'') t = (Inr ''secret-key'', t')"
proof -
  define ec where "ec = \<lparr>ec_encrypted_dek = [1 :: byte], ec_dek_nonce = [3], ec_ciphertext = encode_str ''secret-key'', ec_data_nonce = [2]\<rparr>"
  have ec: "encrypt_secret plain_aead ''m'' demo_random ''secret-key'' = Inr ec"
    by (simp add: encrypt_secret_def plain_aead_def demo_random_def sum_bind_def ec_def)
  have "tables_ok (put_row 0 1 ''mt5'' ''secret-key'' ec demo_tables)"
    by (simp add: put_row_def find_key_def demo_tables_def empty_tables_def new_key_row_def tables_ok_def ids_ok_def)
  with upsert_key_run [OF demo_ok(2) ec, of 0 1 "''mt5''"] obtain r a where
    run: "find_key 1 ''mt5'' (put_row 0 1 ''mt5'' ''secret-key'' ec demo_tables) = Some r" "row_secret r = ec"
      "upsert_key plain_aead ''m'' demo_random 0 1 ''mt5'' ''secret-key'' (open_session demo_tables) =
        (Inr r, open_session (with_audit a (put_row 0 1 ''mt5'' ''secret-key'' ec demo_tables)))"
    by auto
  define t where "t = with_audit a (put_row 0 1 ''mt5'' ''secret-key'' ec demo_tables)"
  have r: "find_key 1 ''mt5'' t = Some r" "row_secret r = ec"
      "with_session (upsert_key plain_aead ''m'' demo_random 0 1 ''mt5'' ''secret-key'') demo_tables = (Inr r, t)"
    using run by (simp_all add: t_def with_session_def find_key_rows owner_rows_def)
  have ok: "tables_ok t"
    using io_preservesD [OF with_session_ok [OF vault_preserves(2)] demo_ok(2), of plain_aead "''m''" demo_random 0 1 "''mt5''" "''secret-key''"] r(3)
    by simp
  show ?thesis
    using that [OF r(3) ok] get_key_run [OF ok, of plain_aead "''m''" 9 1 "''mt5''"] encrypt_decrypt [OF demo_ok(1) ec] r(1,2)
    by (simp add: with_session_def)
qed

theorem vault_refines_key_map_witness:
  "spec_run key_map_step (vault_map plain_aead ''m'' demo_tables)
     [UpsertKey demo_random 0 1 ''mt5'' ''secret-key'', GetKey 5 1 ''mt5'', DeleteKey 6 2 1]
     (vault_map plain_aead ''m'' (foldl (vault_step plain_aead ''m'' length) demo_tables
        [UpsertKey demo_random 0 1 ''mt5'' ''secret-key'', GetKey 5 1 ''mt5'', DeleteKey 6 2 1]))"
  using vault_refines_key_map [OF demo_ok refl] by blast

theorem stored_key_is_read_witness:
  "\<exists>row t. with_session (upsert_key plain_aead ''m'' demo_random 0 1 ''mt5'' ''secret-key'') demo_tables = (Inr row, t) \<and>
     fst (with_session (get_key_for_runtime plain_aead ''m'' 9 1 ''mt5'')
       (foldl (vault_step plain_aead ''m'' length) t
         [UpsertKey demo_random 5 1 ''oanda'' ''other-key'', DeleteKey 6 1 (vr_id row + 1), DeleteKey 7 2 (vr_id row)])) =
     Inr ''secret-key''"
proof -
  obtain row t where up: "with_session (upsert_key plain_aead ''m'' demo_random 0 1 ''mt5'' ''secret-key'') demo_tables = (Inr row, t)"
    using demo_upsert by metis
  have "list_all (leaves_key 1 ''mt5'' (vr_id row))
      [UpsertKey demo_random 5 1 ''oanda'' ''other-key'', DeleteKey 6 1 (vr_id row + 1), DeleteKey 7 2 (vr_id row)]" by simp
  from stored_key_is_read [OF demo_ok up this] up show ?thesis by blast
qed

theorem key_access_recorded_witness:
  "\<exists>t t'. with_session (get_key_for_runtime plain_aead ''m'' 9 1 ''mt5'') t = (Inr ''secret-key'', t') \<and>
     length (tb_audit t') = Suc (length (tb_audit t))"
proof -
  obtain row t t' where get: "tables_ok t" "with_session (get_key_for_runtime plain_aead ''m'' 9 1 ''mt5'') t = (Inr ''secret-key'', t')"
    by (rule demo_upsert)
  from key_access_recorded [OF this] have "length (tb_audit t') = Suc (length (tb_audit t))" by auto
  with get(2) show ?thesis by blast
qed

end
