(* ===== verification/Api_Routes.thy ===== *)
theory Api_Routes
  imports Accounts Vault
begin

text \<open>
  The HTTP routes of the API application: \<^verbatim>\<open>app/api/routes/auth.py\<close>, \<^verbatim>\<open>app/api/routes/vault.py\<close>, the
  request schemas they validate (\<^verbatim>\<open>app/schemas.py\<close>) and the start of the application
  (\<^verbatim>\<open>app/main.py\<close>). A request runs on a session of its own; the dependencies of a route are
  resolved before its body is validated. Whether a text is an e-mail address is a parameter.
\<close>

subsection \<open>Schemas\<close>

definition register_request_ok :: "(string \<Rightarrow> bool) \<Rightarrow> string \<Rightarrow> string \<Rightarrow> bool" where
  "register_request_ok is_email email password = (is_email email \<and> 10 \<le> length password)"

definition login_request_ok :: "(string \<Rightarrow> bool) \<Rightarrow> string \<Rightarrow> string \<Rightarrow> bool" where
  "login_request_ok is_email email fingerprint = (is_email email \<and> 8 \<le> length fingerprint \<and> length fingerprint \<le> 256)"

definition upsert_request_ok :: "string \<Rightarrow> bool" where
  "upsert_request_ok api_key = (8 \<le> length api_key)"

definition validated :: "bool \<Rightarrow> ('s, 'a) io \<Rightarrow> ('s, 'a) io" where
  "validated ok m = (if ok then m else io_raise (HTTPException 422 ''Unprocessable Entity''))"

record user_out =
  uo_id :: int
  uo_email :: string
  uo_role :: role

record vault_key_view =
  vk_id :: int
  vk_provider :: string
  vk_key_last4 :: string
  vk_updated_at :: datetime

record vault_test_response =
  vt_provider :: string
  vt_ok :: bool
  vt_detail :: string

definition key_view :: "vault_row \<Rightarrow> vault_key_view" where
  "key_view r = \<lparr>vk_id = vr_id r, vk_provider = vr_provider r, vk_key_last4 = vr_key_last4 r, vk_updated_at = vr_updated_at r\<rparr>"

subsection \<open>Authentication routes\<close>

definition register_route :: "(string \<Rightarrow> bool) \<Rightarrow> auth_lib \<Rightarrow> datetime \<Rightarrow> string \<Rightarrow> string \<Rightarrow> (tables, user_out) io" where
  "register_route is_email lib now email password = with_session
     (validated (register_request_ok is_email email password)
       (io_bind (register_user lib now email password) (\<lambda>u.
        io_return \<lparr>uo_id = ur_id u, uo_email = ur_email u, uo_role = ur_role u\<rparr>)))"

definition login_route :: "(string \<Rightarrow> bool) \<Rightarrow> auth_lib \<Rightarrow> datetime \<Rightarrow> string \<Rightarrow> string \<Rightarrow> string \<Rightarrow> string option \<Rightarrow> (tables, auth_tokens) io" where
  "login_route is_email lib now email password fingerprint client = with_session
     (validated (login_request_ok is_email email fingerprint) (login lib now email password fingerprint client))"

definition refresh_route :: "auth_lib \<Rightarrow> datetime \<Rightarrow> string \<Rightarrow> string \<Rightarrow> string option \<Rightarrow> (tables, auth_tokens) io" where
  "refresh_route lib now token fingerprint client = with_session (refresh_tokens lib now token fingerprint client)"

subsection \<open>Vault routes\<close>

text \<open>What the routes share: the settings, the token library, the cipher and the collation.\<close>

record vault_env =
  ve_attr :: "string \<Rightarrow> exn + pyval"
  ve_decode :: "string \<Rightarrow> pyval \<Rightarrow> pyval \<Rightarrow> exn + pydict"
  ve_aead :: aead
  ve_key_text :: string
  ve_collation :: "string \<Rightarrow> nat"

definition as_user :: "vault_env \<Rightarrow> string \<Rightarrow> (user_row \<Rightarrow> (session, 'a) io) \<Rightarrow> (tables, 'a) io" where
  "as_user env token handler = with_session (io_bind (get_current_user (ve_attr env) (ve_decode env) token) handler)"

definition get_keys_route :: "vault_env \<Rightarrow> string \<Rightarrow> (tables, vault_key_view list) io" where
  "get_keys_route env token = as_user env token (\<lambda>user.
     io_bind (list_keys (ve_collation env) (ur_id user)) (\<lambda>rows. io_return (map key_view rows)))"

definition put_key_route :: "vault_env \<Rightarrow> random_bytes \<Rightarrow> datetime \<Rightarrow> string \<Rightarrow> string \<Rightarrow> string \<Rightarrow> (tables, vault_key_view) io" where
  "put_key_route env rb now token provider api_key = as_user env token (\<lambda>user.
     validated (upsert_request_ok api_key)
       (io_bind (upsert_key (ve_aead env) (ve_key_text env) rb now (ur_id user) provider api_key) (\<lambda>row.
        io_return (key_view row))))"

definition remove_key_route :: "vault_env \<Rightarrow> datetime \<Rightarrow> string \<Rightarrow> int \<Rightarrow> (tables, unit) io" where
  "remove_key_route env now token key_id = as_user env token (\<lambda>user. delete_key now (ur_id user) key_id)"

definition test_key_route :: "vault_env \<Rightarrow> datetime \<Rightarrow> string \<Rightarrow> string \<Rightarrow> (tables, vault_test_response) io" where
  "test_key_route env now token provider = as_user env token (\<lambda>user.
     io_bind (get_key_for_runtime (ve_aead env) (ve_key_text env) now (ur_id user) provider) (\<lambda>secret.
     io_return \<lparr>vt_provider = provider, vt_ok = (8 \<le> length secret),
       vt_detail = ''Provider key loaded and decrypted for runtime use''\<rparr>))"

subsection \<open>Start of the application\<close>

definition required_env_vars :: "string list" where
  "required_env_vars = [''DATABASE_URL'', ''REDIS_URL'', ''JWT_PRIVATE_KEY'', ''JWT_PUBLIC_KEY'', ''ENCRYPTION_MASTER_KEY'']"

definition require_var :: "(string \<Rightarrow> string option) \<Rightarrow> string \<Rightarrow> ('w, unit) io" where
  "require_var env k = (if env k = None \<or> env k = Some []
     then io_raise (RuntimeError (''FATAL: required environment variable missing: '' @ k)) else io_return ())"

definition lifespan :: "(string \<Rightarrow> string option) \<Rightarrow> ('w, bool) io \<Rightarrow> ('w, unit) io \<Rightarrow> ('w, unit) io \<Rightarrow> ('w, unit) io" where
  "lifespan env ping close create_all =
     io_bind (io_each (require_var env) required_env_vars) (\<lambda>_.
     io_bind (io_try ping) (\<lambda>r.
     io_bind close (\<lambda>_.
     (case r of Inl e \<Rightarrow> io_raise e
      | Inr pong \<Rightarrow> if pong then create_all else io_raise (RuntimeError ''FATAL: redis ping failed'')))))"

subsection \<open>The vault cannot be reached\<close>

lemma no_jwt_secret: "get_current_user (settings_attr s) decode token ss = (Inl (AttributeError ''jwt_secret''), ss)"
  by (simp add: get_current_user_def decoded_user_id_def settings_attr_def sum_bind_def is_auth_error_def io_raise_def)

lemma as_user_fails:
  "ve_attr env = settings_attr s \<Longrightarrow> as_user env token handler t = (Inl (AttributeError ''jwt_secret''), t)"
  by (simp add: as_user_def with_session_def io_bind_def no_jwt_secret)

text \<open>
  With the settings of the repository no route of the vault works: the settings have no
  \<open>jwt_secret\<close>, so finding the user of a request raises AttributeError whatever the token, and every
  route fails with it before it touches a table.
\<close>

theorem vault_routes_unavailable:
  assumes "ve_attr env = settings_attr s"
  shows "get_keys_route env token t = (Inl (AttributeError ''jwt_secret''), t) \<and>
    put_key_route env rb now token provider api_key t = (Inl (AttributeError ''jwt_secret''), t) \<and>
    remove_key_route env now token key_id t = (Inl (AttributeError ''jwt_secret''), t) \<and>
    test_key_route env now token provider t = (Inl (AttributeError ''jwt_secret''), t)"
  by (simp add: get_keys_route_def put_key_route_def remove_key_route_def test_key_route_def as_user_fails [OF assms])

definition demo_settings :: settings_env where
  "demo_settings = \<lparr>se_environment = production, se_database_url = ''postgresql://db'', se_redis_url = ''redis://r'',
     se_ssl_mode = SSL_require, se_jwt_issuer = ''i'', se_jwt_audience = ''a'', se_jwt_access_ttl_minutes = 15,
     se_jwt_refresh_ttl_days = 30, se_jwt_private_key = Some ''QQ=='', se_jwt_private_key_path = None,
     se_jwt_public_key = Some ''QQ=='', se_jwt_public_key_path = None, se_encryption_master_key = b64encode (replicate 32 7),
     se_ws_rate_limit_per_minute = 60, se_ws_max_connections_per_ip = 5, se_app_port = 8000\<rparr>"

theorem vault_routes_unavailable_witness:
  "get_keys_route \<lparr>ve_attr = settings_attr demo_settings, ve_decode = (\<lambda>t s a. Inr [(''sub'', PStr ''1'')]), ve_aead = plain_aead,
     ve_key_text = ''k'', ve_collation = length\<rparr> ''token'' demo_tables = (Inl (AttributeError ''jwt_secret''), demo_tables)"
  using vault_routes_unavailable [of "\<lparr>ve_attr = settings_attr demo_settings, ve_decode = (\<lambda>t s a. Inr [(''sub'', PStr ''1'')]),
      ve_aead = plain_aead, ve_key_text = ''k'', ve_collation = length\<rparr>" demo_settings "''token''" demo_tables] by simp

subsection \<open>Whose keys are shown\<close>

text \<open>With a settings object that has the attributes, a listing shows the keys of the token's user only.\<close>

lemma listed_keys_are_own:
  assumes "get_keys_route env token t = (Inr views, t')"
  shows "t' = t \<and> (\<exists>i. decoded_user_id (ve_attr env) (ve_decode env) token = Inr i \<and>
    set views = key_view ` {r \<in> set (tb_vault t). vr_user_id r = i})"
proof (cases "decoded_user_id (ve_attr env) (ve_decode env) token")
  case (Inl e)
  then show ?thesis using assms
    by (simp add: get_keys_route_def as_user_def with_session_def get_current_user_def io_bind_def io_raise_def)
next
  case (Inr i)
  show ?thesis
  proof (cases "get_user i t")
    case None
    then show ?thesis using assms Inr
      by (simp add: get_keys_route_def as_user_def with_session_def get_current_user_def io_bind_def io_raise_def db_query_run)
  next
    case (Some u)
    then have "ur_id u = i" by (auto simp: get_user_def find_Some_iff)
    then show ?thesis using assms Inr Some
      by (auto simp: get_keys_route_def as_user_def with_session_def get_current_user_def io_bind_def io_return_def
          db_query_run list_keys_def)
  qed
qed

text \<open>
  The application creates the tables only when every required variable is set and Redis
  answered the ping; otherwise its start fails.
\<close>

theorem startup_needs_redis:
  assumes "lifespan env ping close create_all w = (Inr (), w')"
  shows "(\<forall>k\<in>set required_env_vars. \<exists>v. env k = Some v \<and> v \<noteq> []) \<and>
    (\<exists>w1 w2. ping w = (Inr True, w1) \<and> close w1 = (Inr (), w2) \<and> create_all w2 = (Inr (), w'))"
proof -
  have vars: "env k \<noteq> None \<and> env k \<noteq> Some []" if "require_var env k v = (Inr (), v')" for k v v'
    using that by (auto simp: require_var_def io_simps split: if_splits)
  have each: "(\<forall>k\<in>set ks. env k \<noteq> None \<and> env k \<noteq> Some []) \<and> v' = v" if "io_each (require_var env) ks v = (Inr (), v')" for ks v v'
    using that by (induction ks arbitrary: v) (auto simp: io_bind_def io_return_def require_var_def io_raise_def split: if_splits)
  from assms obtain w0 r w1 w2 where run: "io_each (require_var env) required_env_vars w = (Inr (), w0)"
    "io_try ping w0 = (Inr r, w1)" "close w1 = (Inr (), w2)"
    "(case r of Inl e \<Rightarrow> io_raise e | Inr pong \<Rightarrow> if pong then create_all else io_raise (RuntimeError ''FATAL: redis ping failed'')) w2 = (Inr (), w')"
    unfolding lifespan_def by (auto elim!: io_bindE)
  from each [OF run(1)] have e: "\<forall>k\<in>set required_env_vars. env k \<noteq> None \<and> env k \<noteq> Some []" "w0 = w" by blast+
  have "ping w = (r, w1)" using run(2) e(2) by (simp add: io_try_def split: prod.splits)
  then show ?thesis using run(3,4) e(1)
    by (cases r) (auto simp: io_raise_def split: if_splits)
qed

theorem startup_needs_redis_witness:
  "lifespan (\<lambda>k. Some ''x'') (io_return True) (io_return ()) (io_modify Suc) (0::nat) = (Inr (), 1) \<and>
   (\<forall>k\<in>set required_env_vars. (\<lambda>k. Some ''x'') k \<noteq> None)"
proof -
  have run: "lifespan (\<lambda>k. Some ''x'') (io_return True) (io_return ()) (io_modify Suc) (0::nat) = (Inr (), 1)"
    by (simp add: lifespan_def required_env_vars_def require_var_def io_simps)
  from startup_needs_redis [OF run] run show ?thesis by auto
qed

subsection \<open>The schema holds\<close>

datatype api_request =
    RegisterRequest auth_lib datetime string string
  | LoginRequest auth_lib datetime string string string "string option"
  | RefreshRequest auth_lib datetime string string "string option"
  | GetKeys vault_env string
  | PutKey vault_env random_bytes datetime string string string
  | RemoveKey vault_env datetime string int
  | TestKey vault_env datetime string string

definition api_step :: "(string \<Rightarrow> bool) \<Rightarrow> tables \<Rightarrow> api_request \<Rightarrow> tables" where
  "api_step is_email t x = (case x of
     RegisterRequest lib now email password \<Rightarrow> snd (register_route is_email lib now email password t)
   | LoginRequest lib now email password fingerprint client \<Rightarrow> snd (login_route is_email lib now email password fingerprint client t)
   | RefreshRequest lib now token fingerprint client \<Rightarrow> snd (refresh_route lib now token fingerprint client t)
   | GetKeys env token \<Rightarrow> snd (get_keys_route env token t)
   | PutKey env rb now token provider api_key \<Rightarrow> snd (put_key_route env rb now token provider api_key t)
   | RemoveKey env now token key_id \<Rightarrow> snd (remove_key_route env now token key_id t)
   | TestKey env now token provider \<Rightarrow> snd (test_key_route env now token provider t))"

lemma account_preserves [preserves]:
  "io_preserves session_ok (register_user lib now email password)"
  "io_preserves session_ok (login lib now email password fingerprint ip)"
  "io_preserves session_ok (revoke_and_fail i msg)"
  "io_preserves session_ok (rotate_session lib now rt fingerprint ip)"
  unfolding register_user_def login_def revoke_and_fail_def rotate_session_def
  by (intro preserves; auto intro!: preserves split: option.split)+

lemma refresh_preserves [preserves]: "io_preserves session_ok (refresh_tokens lib now token fingerprint ip)"
  unfolding refresh_tokens_def by (intro preserves) (auto intro!: preserves split: option.split)

lemma current_user_preserves [preserves]: "io_preserves session_ok (get_current_user attr decode token)"
  unfolding get_current_user_def by (auto intro!: preserves split: sum.split option.split)

lemma validated_preserves [preserves]: "io_preserves P m \<Longrightarrow> io_preserves P (validated ok m)"
  by (simp add: validated_def io_preserves_basic)

lemma as_user_preserves [preserves]:
  "(\<And>u. io_preserves session_ok (handler u)) \<Longrightarrow> io_preserves tables_ok (as_user env token handler)"
  unfolding as_user_def by (intro with_session_ok preserves)

lemma routes_preserve:
  "io_preserves tables_ok (register_route is_email lib now email password)"
  "io_preserves tables_ok (login_route is_email lib now email password fingerprint client)"
  "io_preserves tables_ok (refresh_route lib now token fingerprint client)"
  "io_preserves tables_ok (get_keys_route env token)"
  "io_preserves tables_ok (put_key_route env rb now token provider api_key)"
  "io_preserves tables_ok (remove_key_route env now token key_id)"
  "io_preserves tables_ok (test_key_route env now token provider)"
  unfolding register_route_def login_route_def refresh_route_def get_keys_route_def put_key_route_def remove_key_route_def
    test_key_route_def
  by (intro with_session_ok preserves)+

interpretation api_machine: invariant_machine "api_step is_email" "\<lambda>_. True" tables_ok
proof unfold_locales
  fix t x assume ok: "tables_ok t"
  show "tables_ok (api_step is_email t x)"
    by (cases x) (simp_all add: api_step_def routes_preserve [THEN io_preservesD, OF ok])
qed

subsection \<open>Requests do not run into the constraints\<close>

text \<open>
  A commit that the constraints refuse raises \<^verbatim>\<open>DBAPIError\<close>, which no service catches. What follows is that the
  services check themselves what the constraints demand.
\<close>

abbreviation db_error :: exn where
  "db_error \<equiv> OtherException ''DBAPIError''"

definition raised :: "exn + 'a \<Rightarrow> exn option" where
  "raised r = (case r of Inl e \<Rightarrow> Some e | Inr _ \<Rightarrow> None)"

lemma raised_simps [simp]: "raised (Inl e) = Some e" "raised (Inr a) = None"
  by (simp_all add: raised_def)

text \<open>What a request fails with, when it fails.\<close>

definition api_failure :: "(string \<Rightarrow> bool) \<Rightarrow> tables \<Rightarrow> api_request \<Rightarrow> exn option" where
  "api_failure is_email t x = (case x of
     RegisterRequest lib now email password \<Rightarrow> raised (fst (register_route is_email lib now email password t))
   | LoginRequest lib now email password fingerprint client \<Rightarrow> raised (fst (login_route is_email lib now email password fingerprint client t))
   | RefreshRequest lib now token fingerprint client \<Rightarrow> raised (fst (refresh_route lib now token fingerprint client t))
   | GetKeys env token \<Rightarrow> raised (fst (get_keys_route env token t))
   | PutKey env rb now token provider api_key \<Rightarrow> raised (fst (put_key_route env rb now token provider api_key t))
   | RemoveKey env now token key_id \<Rightarrow> raised (fst (remove_key_route env now token key_id t))
   | TestKey env now token provider \<Rightarrow> raised (fst (test_key_route env now token provider t)))"

text \<open>The collaborators do not raise the database's exception themselves.\<close>

definition lib_apart :: "auth_lib \<Rightarrow> bool" where
  "lib_apart lib = (al_create_refresh_token lib \<noteq> Inl db_error \<and> (\<forall>n. al_settings lib n \<noteq> Inl db_error) \<and>
     (\<forall>a b. al_create_access_token lib a b \<noteq> Inl db_error))"

definition env_apart :: "vault_env \<Rightarrow> bool" where
  "env_apart env = ((\<forall>n. ve_attr env n \<noteq> Inl db_error) \<and> (\<forall>t s a. ve_decode env t s a \<noteq> Inl db_error) \<and>
     (\<forall>k n p. ae_encrypt (ve_aead env) k n p \<noteq> Inl db_error) \<and> (\<forall>k n c. ae_decrypt (ve_aead env) k n c \<noteq> Inl db_error))"

fun apart :: "api_request \<Rightarrow> bool" where
  "apart (RegisterRequest lib now email password) = True"
| "apart (LoginRequest lib now email password fingerprint client) = lib_apart lib"
| "apart (RefreshRequest lib now token fingerprint client) = lib_apart lib"
| "apart (GetKeys env token) = env_apart env"
| "apart (PutKey env rb now token provider api_key) = env_apart env"
| "apart (RemoveKey env now token key_id) = env_apart env"
| "apart (TestKey env now token provider) = env_apart env"

text \<open>The two texts whose width no schema limits fit their columns.\<close>

fun fits :: "api_request \<Rightarrow> bool" where
  "fits (RegisterRequest lib now email password) = (length email \<le> 320)"
| "fits (PutKey env rb now token provider api_key) = (length provider \<le> 100)"
| "fits x = True"

lemma sum_bind_apart: "sum_bind r f = Inl e \<longleftrightarrow> r = Inl e \<or> (\<exists>a. r = Inr a \<and> f a = Inl e)"
  by (cases r) (simp_all add: sum_bind_def)

lemma pure_apart [simp]:
  "py_int v \<noteq> Inl db_error" "py_less x y \<noteq> Inl db_error" "py_minus x y \<noteq> Inl db_error" "decode_str bs \<noteq> Inl db_error"
proof -
  show "py_int v \<noteq> Inl db_error" by (cases v) (simp_all split: option.split)
  show "py_less x y \<noteq> Inl db_error" "py_minus x y \<noteq> Inl db_error" by (cases x; cases y; simp)+
  show "decode_str bs \<noteq> Inl db_error"
    by (induction bs rule: decode_str.induct) (auto simp: sum_bind_apart split: list.split)
qed

lemma int_setting_apart: "lib_apart lib \<Longrightarrow> int_setting lib n \<noteq> Inl db_error"
  by (auto simp: int_setting_def sum_bind_apart lib_apart_def)

lemma token_pair_apart: "lib_apart lib \<Longrightarrow> token_pair_for lib u r \<noteq> Inl db_error"
  by (auto simp: token_pair_for_def sum_bind_apart lib_apart_def)

lemma encrypt_apart: "env_apart env \<Longrightarrow> encrypt_secret (ve_aead env) k rb p \<noteq> Inl db_error"
  by (auto simp: encrypt_secret_def sum_bind_apart env_apart_def)

lemma decrypt_apart: "env_apart env \<Longrightarrow> decrypt_secret (ve_aead env) k ec \<noteq> Inl db_error"
  by (auto simp: decrypt_secret_def sum_bind_apart env_apart_def)

lemma decoded_apart: "env_apart env \<Longrightarrow> decoded_user_id (ve_attr env) (ve_decode env) token \<noteq> Inl db_error"
  by (auto simp: decoded_user_id_def sum_bind_apart env_apart_def)

text \<open>The account services, on a session that has just been opened.\<close>

lemma find_user_fresh: "find_user e t = None \<Longrightarrow> e \<notin> ur_email ` set (tb_users t)"
  by (auto simp: find_user_def find_None_iff)

lemma new_user_ok:
  assumes "tables_ok t" and "find_user (lower_str email) t = None" and "length email \<le> 320"
  shows "tables_ok (t\<lparr>tb_users := tb_users t @ [new_user lib now email password (tb_next t)], tb_next := tb_next t + 1\<rparr>)"
  using assms find_user_fresh [OF assms(2)] unfolding tables_ok_def
  by (auto simp: new_user_def ids_ok_add lower_str_def list_all_iff option.pred_set intro: ids_ok_later)

lemma register_apart:
  assumes "tables_ok t" and "length email \<le> 320"
  shows "fst (register_user lib now email password (open_session t)) \<noteq> Inl db_error"
proof (cases "find_user (lower_str email) t")
  case (Some u)
  then show ?thesis by (simp add: register_user_def io_bind_def db_query_run io_raise_def)
next
  case None
  from new_user_ok [OF assms(1) None assms(2)] show ?thesis
    by (simp add: register_user_def io_bind_def db_query_run None db_insert_run db_commit_run record_audit_run new_user_def io_return_def)
qed

lemma session_row_ok:
  assumes "tables_ok t" and "u \<in> ur_id ` set (tb_users t)" and "length fp \<le> 256"
  shows "tables_ok ((add_refresh_row (new_refresh_row lib now ttl u token fp (tb_next t)) t)\<lparr>tb_next := tb_next t + 1\<rparr>)"
  by (rule add_refresh_ok [OF assms(1)]) (use assms in \<open>simp_all add: new_refresh_row_def\<close>)

lemma login_apart:
  assumes ok: "tables_ok t" and lib: "lib_apart lib" and fp: "length fp \<le> 256"
  shows "fst (login lib now email password fp ip (open_session t)) \<noteq> Inl db_error"
proof (cases "find_user (lower_str email) t")
  case None
  then show ?thesis by (simp add: login_def io_bind_def db_query_run io_raise_def)
next
  case (Some u)
  then have u: "ur_id u \<in> ur_id ` set (tb_users t)" by (auto simp: find_user_def find_Some_iff)
  show ?thesis
    using Some lib u session_row_ok [OF ok u fp] int_setting_apart [OF lib] token_pair_apart [OF lib]
    by (auto simp: login_def io_bind_def db_query_run db_insert_run db_commit_run record_audit_run add_refresh_row_def
        io_raise_def io_lift_def lib_apart_def split: sum.split)
qed

lemma rotate_apart:
  assumes ok: "tables_ok t" and lib: "lib_apart lib" and rt: "rt \<in> set (tb_refresh_tokens t)" "rr_device_fingerprint rt = fp"
  shows "fst (rotate_session lib now rt fp ip (open_session t)) \<noteq> Inl db_error"
proof -
  have known: "rr_user_id rt \<in> ur_id ` set (tb_users t)" and width: "length fp \<le> 256"
    using ok rt by (auto simp: tables_ok_def list_all_iff)
  obtain u where u: "get_user (rr_user_id rt) t = Some u" "ur_id u = rr_user_id rt" using get_user_known [OF ok known] .
  have rev: "tb_next (revoke_row i t) = tb_next t" "tb_users (revoke_row i t) = tb_users t" for i by (simp_all add: revoke_row_def)
  have row: "tables_ok ((add_refresh_row (new_refresh_row lib now ttl (rr_user_id rt) token fp (tb_next t)) (revoke_row (rr_id rt) t))\<lparr>tb_next := tb_next t + 1\<rparr>)"
    for ttl token using session_row_ok [OF revoke_row_ok [OF ok] _ width] known by (simp add: rev)
  have users: "tb_users (add_refresh_row r t') = tb_users t'" for r t' by (simp add: add_refresh_row_def)
  show ?thesis
    using u known lib int_setting_apart [OF lib] token_pair_apart [OF lib]
    by (auto simp: rotate_session_def io_bind_def db_query_run db_change_run db_insert_run db_commit_run record_audit_run
        row rev users io_lift_def lib_apart_def split: sum.split)
qed

lemma refresh_apart:
  assumes ok: "tables_ok t" and lib: "lib_apart lib"
  shows "fst (refresh_tokens lib now token fp ip (open_session t)) \<noteq> Inl db_error"
proof (cases "find_refresh (al_hash_refresh_token lib token) t")
  case None
  then show ?thesis by (simp add: refresh_unknown)
next
  case (Some rt)
  then show ?thesis
    using rotate_apart [OF ok lib conjunct1 [OF find_refresh_Some [OF Some]]] int_setting_apart [OF lib]
    by (auto simp: refresh_tokens_def io_bind_def db_query_run io_lift_def io_raise_def revoke_and_fail_run [OF ok] split: sum.split)
qed

text \<open>The vault, for a user that exists.\<close>

lemma update_key_row_ok:
  assumes ok: "tables_ok t"
    and same: "\<And>r. vr_id (g r) = vr_id r" "\<And>r. vr_user_id (g r) = vr_user_id r" "\<And>r. vr_provider (g r) = vr_provider r"
  shows "tables_ok (update_key_row i g t)"
proof -
  let ?g = "\<lambda>r. if vr_id r = i then g r else r"
  have "map vr_id (map ?g rs) = map vr_id rs" "map (\<lambda>r. (vr_user_id r, vr_provider r)) (map ?g rs) = map (\<lambda>r. (vr_user_id r, vr_provider r)) rs"
    "list_all (\<lambda>r. vr_user_id r \<in> U) (map ?g rs) = list_all (\<lambda>r. vr_user_id r \<in> U) rs"
    "list_all (\<lambda>r. length (vr_provider r) \<le> 100) (map ?g rs) = list_all (\<lambda>r. length (vr_provider r) \<le> 100) rs" for U rs
    by (simp_all add: same, (induction rs, simp_all add: same)+)
  with ok show ?thesis by (simp add: tables_ok_def update_key_row_def del: map_map list.pred_map)
qed

lemma put_row_ok:
  assumes ok: "tables_ok t" and u: "u \<in> ur_id ` set (tb_users t)" and p: "length p \<le> 100"
  shows "tables_ok (put_row now u p k ec t)"
proof (cases "find_key u p t")
  case None
  then have "(u, p) \<notin> (\<lambda>r. (vr_user_id r, vr_provider r)) ` set (tb_vault t)" by (auto simp: find_key_def find_None_iff key_owner_def)
  with ok u p None show ?thesis unfolding tables_ok_def put_row_def
    by (auto simp: new_key_row_def ids_ok_add intro: ids_ok_later)
next
  case (Some r)
  then show ?thesis
    by (simp add: put_row_def update_key_row_ok [OF ok] set_secret_def)
qed

lemma with_session_raised: "raised (fst (with_session m t)) = raised (fst (m (open_session t)))"
  by (simp add: with_session_def case_prod_beta)

lemma as_user_apart:
  assumes ok: "tables_ok t" and env: "env_apart env"
    and handler: "\<And>u. ur_id u \<in> ur_id ` set (tb_users t) \<Longrightarrow> fst (handler u (open_session t)) \<noteq> Inl db_error"
  shows "raised (fst (as_user env token handler t)) \<noteq> Some db_error"
proof (cases "decoded_user_id (ve_attr env) (ve_decode env) token")
  case (Inl e)
  then show ?thesis using decoded_apart [OF env, of token]
    by (simp add: as_user_def with_session_raised get_current_user_def io_bind_def io_raise_def)
next
  case (Inr i)
  show ?thesis
  proof (cases "get_user i t")
    case None
    then show ?thesis using Inr
      by (simp add: as_user_def with_session_raised get_current_user_def io_bind_def io_raise_def db_query_run)
  next
    case (Some u)
    then have "ur_id u \<in> ur_id ` set (tb_users t)" by (auto simp: get_user_def find_Some_iff)
    from handler [OF this] show ?thesis using Inr Some
      by (cases "fst (handler u (open_session t))")
        (simp_all add: as_user_def with_session_raised get_current_user_def io_bind_def io_return_def db_query_run)
  qed
qed

lemma bind_failure: "fst (io_bind m (\<lambda>a. io_return (f a)) s) = Inl e \<longleftrightarrow> fst (m s) = Inl e"
  by (auto simp: io_bind_def io_return_def split: prod.splits sum.splits)

lemma upsert_apart:
  assumes ok: "tables_ok t" and env: "env_apart env" and u: "u \<in> ur_id ` set (tb_users t)" and p: "length p \<le> 100"
  shows "fst (upsert_key (ve_aead env) mk rb now u p k (open_session t)) \<noteq> Inl db_error"
proof (cases "encrypt_secret (ve_aead env) mk rb k")
  case (Inl e)
  with encrypt_apart [OF env, of mk rb k] show ?thesis by (simp add: upsert_key_fails)
next
  case (Inr ec)
  from upsert_key_run [OF ok Inr, of now u p] put_row_ok [OF ok u p] show ?thesis by auto
qed

lemma listing_apart: "fst (list_keys c u s) \<noteq> Inl e"
  by (simp add: list_keys_def db_query_run)

lemma delete_apart:
  assumes ok: "tables_ok t"
  shows "fst (delete_key now u i (open_session t)) \<noteq> Inl db_error"
proof (cases "List.find (\<lambda>r. vr_id r = i \<and> vr_user_id r = u) (tb_vault t)")
  case None
  then show ?thesis by (simp add: delete_key_def db_query_run io_simps)
next
  case (Some r)
  then have "u \<in> ur_id ` set (tb_users t)" using vault_user [OF ok] by (auto simp: find_Some_iff)
  moreover have "tables_ok (t\<lparr>tb_vault := filter (\<lambda>x. vr_id x \<noteq> vr_id r) (tb_vault t)\<rparr>)"
    using ok unfolding tables_ok_def ids_ok_def by (auto simp: list_all_iff distinct_map_filter)
  ultimately show ?thesis
    by (simp add: delete_key_def db_query_run Some io_bind_def db_change_run db_commit_run record_audit_run)
qed

lemma runtime_apart:
  assumes "tables_ok t" and "env_apart env"
  shows "fst (get_key_for_runtime (ve_aead env) mk now u p (open_session t)) \<noteq> Inl db_error"
  using assms decrypt_apart [OF assms(2)] by (simp add: get_key_run split: option.split)

lemma raised_iff: "raised r = Some e \<longleftrightarrow> r = Inl e"
  by (cases r) simp_all

lemma request_apart:
  assumes ok: "tables_ok t" and "apart x" and "fits x"
  shows "api_failure is_email t x \<noteq> Some db_error"
proof (cases x)
  case (RegisterRequest lib now email password)
  with assms show ?thesis
    by (auto simp: api_failure_def register_route_def with_session_raised validated_def io_raise_def bind_failure raised_iff
        dest: register_apart [OF ok])
next
  case (LoginRequest lib now email password fingerprint client)
  with assms show ?thesis
    by (auto simp: api_failure_def login_route_def with_session_raised validated_def login_request_ok_def io_raise_def raised_iff
        dest: login_apart [OF ok])
next
  case (RefreshRequest lib now token fingerprint client)
  with assms show ?thesis
    by (auto simp: api_failure_def refresh_route_def with_session_raised raised_iff dest: refresh_apart [OF ok])
next
  case (GetKeys env token)
  then have "env_apart env" using assms(2) by simp
  then have "raised (fst (get_keys_route env token t)) \<noteq> Some db_error"
    unfolding get_keys_route_def by (rule as_user_apart [OF ok]) (simp add: bind_failure listing_apart)
  with GetKeys show ?thesis by (simp add: api_failure_def)
next
  case (PutKey env rb now token provider api_key)
  then have env: "env_apart env" and width: "length provider \<le> 100" using assms(2,3) by simp_all
  have "raised (fst (put_key_route env rb now token provider api_key t)) \<noteq> Some db_error"
    unfolding put_key_route_def
    by (rule as_user_apart [OF ok env]) (use upsert_apart [OF ok env _ width] in \<open>simp add: validated_def io_raise_def bind_failure\<close>)
  with PutKey show ?thesis by (simp add: api_failure_def)
next
  case (RemoveKey env now token key_id)
  then have env: "env_apart env" using assms(2) by simp
  have "raised (fst (remove_key_route env now token key_id t)) \<noteq> Some db_error"
    unfolding remove_key_route_def by (rule as_user_apart [OF ok env]) (rule delete_apart [OF ok])
  with RemoveKey show ?thesis by (simp add: api_failure_def)
next
  case (TestKey env now token provider)
  then have env: "env_apart env" using assms(2) by simp
  have "raised (fst (test_key_route env now token provider t)) \<noteq> Some db_error"
    unfolding test_key_route_def by (rule as_user_apart [OF ok env]) (simp add: bind_failure runtime_apart [OF ok env])
  with TestKey show ?thesis by (simp add: api_failure_def)
qed

text \<open>
  C38. From empty tables on and after whatever requests, with whatever settings, clocks and collaborators, no request runs
  into a constraint of the schema when it is answered on its own: the services themselves see to it that ids,
  addresses and the keys of a user are unique, that what they write belongs to a user that exists, and
  that a fingerprint fits its column. What they do not see to is the width of an address (320) and of a
  provider's name (100).
\<close>

theorem requests_meet_constraints:
  assumes "apart x" and "fits x"
  shows "tables_ok (foldl (api_step is_email) empty_tables xs) \<and>
    api_failure is_email (foldl (api_step is_email) empty_tables xs) x \<noteq> Some (OtherException ''DBAPIError'')"
proof -
  have "tables_ok empty_tables" by (simp add: empty_tables_def tables_ok_def ids_ok_def)
  then have ok: "tables_ok (foldl (api_step is_email) empty_tables xs)"
    by (rule api_machine.run_inv) (simp add: list_all_iff)
  with request_apart [OF ok assms] show ?thesis by blast
qed

text \<open>Two registrations of one address: the second is refused by the service.\<close>

theorem requests_meet_constraints_witness:
  "api_failure (\<lambda>_. True) (foldl (api_step (\<lambda>_. True)) empty_tables [RegisterRequest demo_lib 0 ''a@b.c'' ''password12''])
     (RegisterRequest demo_lib 1 ''A@b.c'' ''password34'') \<noteq> Some (OtherException ''DBAPIError'')"
  using requests_meet_constraints [where x = "RegisterRequest demo_lib 1 ''A@b.c'' ''password34''" and is_email = "\<lambda>_. True"
      and xs = "[RegisterRequest demo_lib 0 ''a@b.c'' ''password12'']"] by simp

end
