(* ===== verification/Market_Data.thy ===== *)
theory Market_Data
  imports Prelude
begin

text \<open>
  Market data (\<^verbatim>\<open>market_data_service/src/providers/base.py\<close> and \<^verbatim>\<open>market_data_service/src/app.py\<close>):
  the MetaTrader provider with its stream tasks, the endpoints and a WebSocket session. The
  terminal module is the parameter \<open>data_api\<close>, absent when it cannot be imported. A stream task is
  an entry of the task table, running or finished; \<open>stream_round\<close> is one iteration of its loop. A
  row of the terminal is a dictionary of its fields.
\<close>

subsection \<open>Data\<close>

datatype timeframe = M1 | M5 | M15 | M30 | H1 | H4 | D1 | W1 | MN1

definition timeframe_values :: "(string \<times> timeframe) list" where
  "timeframe_values = [(''M1'', M1), (''M5'', M5), (''M15'', M15), (''M30'', M30), (''H1'', H1), (''H4'', H4),
     (''D1'', D1), (''W1'', W1), (''MN1'', MN1)]"

definition timeframe_of :: "string \<Rightarrow> exn + timeframe" where
  "timeframe_of s = (case map_of timeframe_values s of None \<Rightarrow> Inl (ValueError ''is not a valid Timeframe'') | Some t \<Rightarrow> Inr t)"

record tick =
  tk_symbol :: string
  tk_bid :: real
  tk_ask :: real
  tk_time :: datetime
  tk_volume :: int
  tk_provider :: string

record ohlcv =
  oh_symbol :: string
  oh_timeframe :: timeframe
  oh_time :: datetime
  oh_open :: real
  oh_high :: real
  oh_low :: real
  oh_close :: real
  oh_volume :: real
  oh_tick_volume :: int
  oh_spread :: int
  oh_provider :: string

text \<open>Both classes are declared with slots: an instance has no \<open>__dict__\<close>.\<close>

definition tick_dict :: "tick \<Rightarrow> exn + pydict" where
  "tick_dict t = Inl (AttributeError ''__dict__'')"

definition ohlcv_dict :: "ohlcv \<Rightarrow> exn + pydict" where
  "ohlcv_dict b = Inl (AttributeError ''__dict__'')"

subsection \<open>The terminal and the provider\<close>

record 'w data_api =
  da_initialize :: "string option \<Rightarrow> ('w, bool) io"
  da_login :: "int \<Rightarrow> string \<Rightarrow> string \<Rightarrow> ('w, bool) io"
  da_shutdown :: "('w, unit) io"
  da_ticks_range :: "string \<Rightarrow> datetime \<Rightarrow> datetime \<Rightarrow> ('w, pydict list option) io"
  da_ticks_from :: "string \<Rightarrow> datetime \<Rightarrow> int \<Rightarrow> ('w, pydict list option) io"
  da_rates_range :: "string \<Rightarrow> timeframe \<Rightarrow> datetime \<Rightarrow> datetime \<Rightarrow> ('w, pydict list option) io"
  da_rates_from :: "string \<Rightarrow> timeframe \<Rightarrow> datetime \<Rightarrow> int \<Rightarrow> ('w, pydict list option) io"
  da_symbol_select :: "string \<Rightarrow> bool \<Rightarrow> ('w, bool) io"
  da_symbol_info :: "string \<Rightarrow> ('w, pydict option) io"

record credentials =
  cr_account :: int
  cr_password :: string
  cr_server :: string
  cr_path :: "string option"

text \<open>A task: the callback it was created with, and whether its loop still runs.\<close>

record 'c stream_task =
  st_callback :: 'c
  st_running :: bool

record ('w, 'c) provider =
  pr_credentials :: credentials
  pr_connected :: bool
  pr_tasks :: "(string \<times> 'c stream_task) list"
  pr_world :: 'w

definition new_provider :: "credentials \<Rightarrow> 'w \<Rightarrow> ('w, 'c) provider" where
  "new_provider cr w = \<lparr>pr_credentials = cr, pr_connected = False, pr_tasks = [], pr_world = w\<rparr>"

text \<open>A call of the terminal module; on a missing module the attribute does not exist.\<close>

definition on_world :: "('w, 'a) io \<Rightarrow> (('w, 'c) provider, 'a) io" where
  "on_world m = io_zoom pr_world (\<lambda>w s. s\<lparr>pr_world := w\<rparr>) m"

definition call :: "'w data_api option \<Rightarrow> ('w data_api \<Rightarrow> ('w, 'a) io) \<Rightarrow> (('w, 'c) provider, 'a) io" where
  "call mt5 f = (case mt5 of None \<Rightarrow> io_raise (AttributeError ''NoneType'') | Some m \<Rightarrow> on_world (f m))"

definition provider_connect :: "'w data_api option \<Rightarrow> (('w, 'c) provider, bool) io" where
  "provider_connect mt5 = (case mt5 of None \<Rightarrow> io_return False
   | Some m \<Rightarrow>
       io_bind (io_get pr_credentials) (\<lambda>cr.
       io_bind (on_world (da_initialize m (if cr_path cr = Some [] then None else cr_path cr))) (\<lambda>ok.
       if \<not> ok then io_return False
       else
         io_bind (on_world (da_login m (cr_account cr) (cr_password cr) (cr_server cr))) (\<lambda>logged_in.
         io_bind (io_modify (\<lambda>s. s\<lparr>pr_connected := logged_in\<rparr>)) (\<lambda>_.
         io_return logged_in)))))"

definition provider_disconnect :: "'w data_api option \<Rightarrow> (('w, 'c) provider, unit) io" where
  "provider_disconnect mt5 =
     io_bind (io_modify (\<lambda>s. s\<lparr>pr_tasks := []\<rparr>)) (\<lambda>_.
     io_bind (case mt5 of None \<Rightarrow> io_return () | Some m \<Rightarrow> on_world (da_shutdown m)) (\<lambda>_.
     io_modify (\<lambda>s. s\<lparr>pr_connected := False\<rparr>)))"

text \<open>\<open>r["name"]\<close> on a row, and \<open>datetime.utcfromtimestamp(int(r["time"]))\<close>.\<close>

definition field_of :: "pydict \<Rightarrow> string \<Rightarrow> exn + pyval" where
  "field_of row name = (case map_of row name of None \<Rightarrow> Inl (ValueError ''no field of name'') | Some v \<Rightarrow> Inr v)"

definition float_field :: "pydict \<Rightarrow> string \<Rightarrow> exn + real" where
  "float_field row name = sum_bind (field_of row name) py_float"

definition int_field :: "pydict \<Rightarrow> string \<Rightarrow> exn + int" where
  "int_field row name = sum_bind (field_of row name) py_int"

definition time_field :: "pydict \<Rightarrow> exn + datetime" where
  "time_field row = sum_bind (int_field row ''time'') (\<lambda>t. Inr (t * 1000000))"

definition tick_of_row :: "string \<Rightarrow> pydict \<Rightarrow> exn + tick" where
  "tick_of_row symbol r =
     sum_bind (float_field r ''bid'') (\<lambda>bid. sum_bind (float_field r ''ask'') (\<lambda>ask.
     sum_bind (time_field r) (\<lambda>t. sum_bind (int_field r ''volume'') (\<lambda>v.
     Inr \<lparr>tk_symbol = symbol, tk_bid = bid, tk_ask = ask, tk_time = t, tk_volume = v, tk_provider = ''mt5''\<rparr>))))"

definition ohlcv_of_row :: "string \<Rightarrow> timeframe \<Rightarrow> pydict \<Rightarrow> exn + ohlcv" where
  "ohlcv_of_row symbol tf r =
     sum_bind (time_field r) (\<lambda>t. sum_bind (float_field r ''open'') (\<lambda>op. sum_bind (float_field r ''high'') (\<lambda>hi.
     sum_bind (float_field r ''low'') (\<lambda>lo. sum_bind (float_field r ''close'') (\<lambda>cl.
     sum_bind (float_field r ''real_volume'') (\<lambda>vol. sum_bind (int_field r ''tick_volume'') (\<lambda>tv.
     sum_bind (int_field r ''spread'') (\<lambda>sp.
     Inr \<lparr>oh_symbol = symbol, oh_timeframe = tf, oh_time = t, oh_open = op, oh_high = hi, oh_low = lo, oh_close = cl,
       oh_volume = vol, oh_tick_volume = tv, oh_spread = sp, oh_provider = ''mt5''\<rparr>))))))))"

definition provider_ticks :: "'w data_api option \<Rightarrow> string \<Rightarrow> datetime \<Rightarrow> datetime option \<Rightarrow> int \<Rightarrow> (('w, 'c) provider, tick list) io" where
  "provider_ticks mt5 symbol start stop limit =
     io_bind (call mt5 (\<lambda>m. case stop of Some t \<Rightarrow> da_ticks_range m symbol start t | None \<Rightarrow> da_ticks_from m symbol start limit)) (\<lambda>data.
     (case data of None \<Rightarrow> io_return [] | Some rows \<Rightarrow> io_lift (sum_list_results (map (tick_of_row symbol) rows))))"

definition get_ohlcv :: "'w data_api option \<Rightarrow> string \<Rightarrow> timeframe \<Rightarrow> datetime \<Rightarrow> datetime option \<Rightarrow> int
    \<Rightarrow> (('w, 'c) provider, ohlcv list) io" where
  "get_ohlcv mt5 symbol tf start stop limit =
     io_bind (call mt5 (\<lambda>m. case stop of Some t \<Rightarrow> da_rates_range m symbol tf start t | None \<Rightarrow> da_rates_from m symbol tf start limit)) (\<lambda>data.
     (case data of None \<Rightarrow> io_return [] | Some rows \<Rightarrow> io_lift (sum_list_results (map (ohlcv_of_row symbol tf) rows))))"

subsection \<open>Streams\<close>

definition start_task :: "string \<Rightarrow> 'c \<Rightarrow> ('w, 'c) provider \<Rightarrow> ('w, 'c) provider" where
  "start_task symb cb s = (if map_of (pr_tasks s) symb = None
     then s\<lparr>pr_tasks := AList.update symb \<lparr>st_callback = cb, st_running = True\<rparr> (pr_tasks s)\<rparr> else s)"

fun subscribe_ticks :: "'w data_api option \<Rightarrow> string list \<Rightarrow> 'c \<Rightarrow> (string \<times> bool) list \<Rightarrow> (('w, 'c) provider, (string \<times> bool) list) io" where
  "subscribe_ticks mt5 [] cb result = io_return result"
| "subscribe_ticks mt5 (symb # rest) cb result =
     io_bind (call mt5 (\<lambda>m. da_symbol_select m symb True)) (\<lambda>ok.
     io_bind (if ok then io_modify (start_task symb cb) else io_return ()) (\<lambda>_.
     subscribe_ticks mt5 rest cb (AList.update symb ok result)))"

definition unsubscribe_ticks :: "'w data_api option \<Rightarrow> string list \<Rightarrow> (('w, 'c) provider, unit) io" where
  "unsubscribe_ticks mt5 = io_each (\<lambda>symb.
     io_bind (io_modify (\<lambda>s. s\<lparr>pr_tasks := AList.delete symb (pr_tasks s)\<rparr>)) (\<lambda>_.
     io_bind (call mt5 (\<lambda>m. da_symbol_select m symb False)) (\<lambda>_. io_return ())))"

definition get_instrument_info :: "'w data_api option \<Rightarrow> string \<Rightarrow> (('w, 'c) provider, pydict) io" where
  "get_instrument_info mt5 symbol =
     io_bind (call mt5 (\<lambda>m. da_symbol_info m symbol)) (\<lambda>info.
     io_return (case info of None \<Rightarrow> [] | Some d \<Rightarrow> d))"

text \<open>The properties \<open>name\<close> and \<open>is_connected\<close>.\<close>

definition provider_name :: string where
  "provider_name = ''mt5''"

definition provider_is_connected :: "(('w, 'c) provider, bool) io" where
  "provider_is_connected = io_get pr_connected"

text \<open>
  The abstract class: its methods, each of which raises \<open>NotImplementedError\<close> until a subclass overrides
  it, and the subclass for the terminal.
\<close>

record ('s, 'c) market_data_provider =
  mp_connect :: "('s, bool) io"
  mp_disconnect :: "('s, unit) io"
  mp_get_ticks :: "string \<Rightarrow> datetime \<Rightarrow> datetime option \<Rightarrow> int \<Rightarrow> ('s, tick list) io"
  mp_get_ohlcv :: "string \<Rightarrow> timeframe \<Rightarrow> datetime \<Rightarrow> datetime option \<Rightarrow> int \<Rightarrow> ('s, ohlcv list) io"
  mp_subscribe_ticks :: "string list \<Rightarrow> 'c \<Rightarrow> ('s, (string \<times> bool) list) io"
  mp_unsubscribe_ticks :: "string list \<Rightarrow> ('s, unit) io"
  mp_get_instrument_info :: "string \<Rightarrow> ('s, pydict) io"
  mp_name :: "exn + string"
  mp_is_connected :: "('s, bool) io"

definition not_implemented :: exn where
  "not_implemented = OtherException ''NotImplementedError''"

definition abstract_provider :: "('s, 'c) market_data_provider" where
  "abstract_provider = \<lparr>mp_connect = io_raise not_implemented, mp_disconnect = io_raise not_implemented,
     mp_get_ticks = \<lambda>_ _ _ _. io_raise not_implemented, mp_get_ohlcv = \<lambda>_ _ _ _ _. io_raise not_implemented,
     mp_subscribe_ticks = \<lambda>_ _. io_raise not_implemented, mp_unsubscribe_ticks = \<lambda>_. io_raise not_implemented,
     mp_get_instrument_info = \<lambda>_. io_raise not_implemented, mp_name = Inl not_implemented,
     mp_is_connected = io_raise not_implemented\<rparr>"

definition mt5_provider :: "'w data_api option \<Rightarrow> (('w, 'c) provider, 'c) market_data_provider" where
  "mt5_provider mt5 = abstract_provider\<lparr>mp_connect := provider_connect mt5, mp_disconnect := provider_disconnect mt5,
     mp_get_ticks := provider_ticks mt5, mp_get_ohlcv := get_ohlcv mt5,
     mp_subscribe_ticks := (\<lambda>symbols cb. subscribe_ticks mt5 symbols cb []), mp_unsubscribe_ticks := unsubscribe_ticks mt5,
     mp_get_instrument_info := get_instrument_info mt5, mp_name := Inr provider_name, mp_is_connected := provider_is_connected\<rparr>"

text \<open>The body of the loop: the last tick of the terminal is given to the callback.\<close>

definition stream_body :: "'w data_api option \<Rightarrow> ('c \<Rightarrow> tick \<Rightarrow> ('w, unit) io) \<Rightarrow> datetime \<Rightarrow> string \<Rightarrow> 'c \<Rightarrow> (('w, 'c) provider, unit) io" where
  "stream_body mt5 run now symbol cb =
     io_bind (call mt5 (\<lambda>m. da_ticks_from m symbol now 1)) (\<lambda>ticks.
     (case ticks of None \<Rightarrow> io_return ()
      | Some rows \<Rightarrow> if rows = [] then io_return ()
          else io_bind (io_lift (tick_of_row symbol (last rows))) (\<lambda>t. on_world (run cb t))))"

definition finish_task :: "string \<Rightarrow> ('w, 'c) provider \<Rightarrow> ('w, 'c) provider" where
  "finish_task symbol s = s\<lparr>pr_tasks := map (\<lambda>(k, t). if k = symbol then (k, t\<lparr>st_running := False\<rparr>) else (k, t)) (pr_tasks s)\<rparr>"

text \<open>
  One iteration of the task of a symbol: a provider that is not connected, or an exception, ends
  the loop, and the finished task stays in the table.
\<close>

definition stream_round :: "'w data_api option \<Rightarrow> ('c \<Rightarrow> tick \<Rightarrow> ('w, unit) io) \<Rightarrow> datetime \<Rightarrow> string \<Rightarrow> ('w, 'c) provider \<Rightarrow> ('w, 'c) provider" where
  "stream_round mt5 run now symbol s = (case map_of (pr_tasks s) symbol of
     None \<Rightarrow> s
   | Some t \<Rightarrow> if \<not> st_running t then s
       else if \<not> pr_connected s then finish_task symbol s
       else (case stream_body mt5 run now symbol (st_callback t) s of
           (Inr _, s') \<Rightarrow> s' | (Inl _, s') \<Rightarrow> finish_task symbol s'))"

subsection \<open>The service\<close>

definition startup_provider :: "'w \<Rightarrow> ('w, 'c) provider" where
  "startup_provider w = new_provider \<lparr>cr_account = 0, cr_password = [], cr_server = [], cr_path = None\<rparr> w"

definition optional_time :: "pyval \<Rightarrow> exn + datetime option" where
  "optional_time v = (if truthy v then sum_bind (fromisoformat v) (\<lambda>t. Inr (Some t)) else Inr None)"

definition ticks_endpoint :: "'w data_api option \<Rightarrow> string \<Rightarrow> pyval \<Rightarrow> pyval \<Rightarrow> int \<Rightarrow> (('w, 'c) provider, pydict list) io" where
  "ticks_endpoint mt5 symbol start stop limit =
     io_bind (io_lift (fromisoformat start)) (\<lambda>st.
     io_bind (io_lift (optional_time stop)) (\<lambda>ed.
     io_bind (provider_ticks mt5 symbol st ed limit) (\<lambda>data.
     io_lift (sum_list_results (map tick_dict data)))))"

definition ohlcv_endpoint :: "'w data_api option \<Rightarrow> string \<Rightarrow> string \<Rightarrow> pyval \<Rightarrow> pyval \<Rightarrow> int \<Rightarrow> (('w, 'c) provider, pydict list) io" where
  "ohlcv_endpoint mt5 symbol timeframe start stop limit =
     io_bind (io_lift (fromisoformat start)) (\<lambda>st.
     io_bind (io_lift (optional_time stop)) (\<lambda>ed.
     io_bind (io_lift (timeframe_of timeframe)) (\<lambda>tf.
     io_bind (get_ohlcv mt5 symbol tf st ed limit) (\<lambda>data.
     io_lift (sum_list_results (map (\<lambda>d. sum_bind (ohlcv_dict d) (\<lambda>x. Inr (AList.update ''timeframe'' (PStr timeframe) x))) data))))))"

text \<open>The callbacks of the service: the one of the subscription endpoint, and that of a socket.\<close>

datatype callback = Ignore | SendTo nat

definition subscriptions_endpoint :: "'w data_api option \<Rightarrow> string list \<Rightarrow> (('w, callback) provider, (string \<times> bool) list) io" where
  "subscriptions_endpoint mt5 symbols = subscribe_ticks mt5 symbols Ignore []"

definition run_callback :: "(nat \<Rightarrow> pydict \<Rightarrow> ('w, unit) io) \<Rightarrow> callback \<Rightarrow> tick \<Rightarrow> ('w, unit) io" where
  "run_callback send cb t = (case cb of Ignore \<Rightarrow> io_return () | SendTo c \<Rightarrow> io_bind (io_lift (tick_dict t)) (send c))"

record ws_message =
  wm_action :: pyval
  wm_symbols :: "string list"

text \<open>
  A session of client \<open>c\<close>: the messages it receives before it disconnects, and the symbols it
  holds. An exception of the provider ends the session without the cleanup.
\<close>

fun ws_loop :: "'w data_api option \<Rightarrow> nat \<Rightarrow> ws_message list \<Rightarrow> string list \<Rightarrow> (('w, callback) provider, string list) io" where
  "ws_loop mt5 c [] active = io_return active"
| "ws_loop mt5 c (msg # msgs) active =
     (if wm_action msg = PStr ''subscribe'' then
        io_bind (subscribe_ticks mt5 (wm_symbols msg) (SendTo c) []) (\<lambda>_. ws_loop mt5 c msgs (active @ wm_symbols msg))
      else if wm_action msg = PStr ''unsubscribe'' then
        io_bind (unsubscribe_ticks mt5 (wm_symbols msg)) (\<lambda>_.
        ws_loop mt5 c msgs (filter (\<lambda>x. x \<notin> set (wm_symbols msg)) active))
      else ws_loop mt5 c msgs active)"

definition ws_ticks :: "'w data_api option \<Rightarrow> nat \<Rightarrow> ws_message list \<Rightarrow> (('w, callback) provider, unit) io" where
  "ws_ticks mt5 c msgs = io_bind (ws_loop mt5 c msgs []) (\<lambda>active.
     if active \<noteq> [] then unsubscribe_ticks mt5 active else io_return ())"

subsection \<open>What the operations leave alone\<close>

lemma io_keeps_zoom: "(\<And>w s. f (p w s) = f s) \<Longrightarrow> io_keeps f (io_zoom g p m)"
  by (simp add: io_keeps_def io_zoom_def split: prod.split)

lemma call_keeps [keeps]:
  "io_keeps pr_connected (on_world m)" "io_keeps pr_connected (call mt5 f)"
  "io_keeps pr_tasks (on_world m)" "io_keeps pr_tasks (call mt5 f)"
  by (auto simp: call_def on_world_def split: option.split intro!: io_keeps_zoom keeps)

lemma start_task_simps [simp]: "pr_connected (start_task symb cb s) = pr_connected s"
  by (simp add: start_task_def)

lemma subscribe_keeps [keeps]: "io_keeps pr_connected (subscribe_ticks mt5 xs cb result)"
  by (induction xs arbitrary: result) (auto intro!: keeps io_keeps_modify)

lemma unsubscribe_keeps [keeps]: "io_keeps pr_connected (unsubscribe_ticks mt5 xs)"
  unfolding unsubscribe_ticks_def by (intro keeps) (simp add: io_keeps_modify)

lemma reads_keep [keeps]:
  "io_keeps pr_connected (provider_ticks mt5 symbol st ed limit)" "io_keeps pr_connected (get_ohlcv mt5 symbol tf st ed limit)"
  unfolding provider_ticks_def get_ohlcv_def by (auto intro!: keeps split: option.split)

lemma endpoints_keep [keeps]:
  "io_keeps pr_connected (ticks_endpoint mt5 symbol st ed limit)" "io_keeps pr_connected (ohlcv_endpoint mt5 symbol tf st ed limit)"
  "io_keeps pr_connected (subscriptions_endpoint mt5 xs)"
  unfolding ticks_endpoint_def ohlcv_endpoint_def subscriptions_endpoint_def by (auto intro!: keeps)

lemma session_keeps [keeps]: "io_keeps pr_connected (ws_loop mt5 c msgs active)"
  by (induction msgs arbitrary: active) (auto intro!: keeps)

lemma ws_ticks_keeps [keeps]: "io_keeps pr_connected (ws_ticks mt5 c msgs)"
  unfolding ws_ticks_def by (auto intro!: keeps)

lemma finish_task_simps [simp]:
  "pr_connected (finish_task symbol s) = pr_connected s" "pr_world (finish_task symbol s) = pr_world s"
  by (simp_all add: finish_task_def)

subsection \<open>The service as it is started\<close>

text \<open>What happens to the provider of the running service; nothing of it calls \<open>connect\<close>.\<close>

datatype service_op =
    TicksRequest string pyval pyval int
  | OhlcvRequest string string pyval pyval int
  | SubscriptionRequest "string list"
  | WsSession nat "ws_message list"
  | StreamRound datetime string

definition service_step :: "'w data_api option \<Rightarrow> (nat \<Rightarrow> pydict \<Rightarrow> ('w, unit) io) \<Rightarrow> ('w, callback) provider \<Rightarrow> service_op
    \<Rightarrow> ('w, callback) provider" where
  "service_step mt5 send s x = (case x of
     TicksRequest symbol st ed limit \<Rightarrow> snd (ticks_endpoint mt5 symbol st ed limit s)
   | OhlcvRequest symbol tf st ed limit \<Rightarrow> snd (ohlcv_endpoint mt5 symbol tf st ed limit s)
   | SubscriptionRequest symbols \<Rightarrow> snd (subscriptions_endpoint mt5 symbols s)
   | WsSession c msgs \<Rightarrow> snd (ws_ticks mt5 c msgs s)
   | StreamRound now symbol \<Rightarrow> stream_round mt5 (run_callback send) now symbol s)"

lemma stream_unconnected:
  "\<not> pr_connected s \<Longrightarrow> \<not> pr_connected (stream_round mt5 run now symbol s) \<and> pr_world (stream_round mt5 run now symbol s) = pr_world s"
  by (simp add: stream_round_def split: option.split)

interpretation market_service: invariant_machine "service_step mt5 send" "\<lambda>_. True" "\<lambda>s. \<not> pr_connected s"
proof unfold_locales
  fix s :: "('a, callback) provider" and x assume s: "\<not> pr_connected s"
  show "\<not> pr_connected (service_step mt5 send s x)"
  proof (cases x)
    case (StreamRound now symbol)
    then show ?thesis using s by (simp add: service_step_def stream_unconnected)
  qed (use s in \<open>simp_all add: service_step_def io_keepsD [OF endpoints_keep(1)] io_keepsD [OF endpoints_keep(2)]
      io_keepsD [OF endpoints_keep(3)] io_keepsD [OF ws_ticks_keeps]\<close>)
qed

text \<open>
  The running service never streams a tick: it creates its provider but never connects it, so
  after any requests, sessions and rounds of the stream tasks, every further round of a stream
  leaves the outside world as it was, no tick is read and no client is sent anything.
\<close>

theorem service_streams_nothing:
  "\<not> pr_connected (foldl (service_step mt5 send) (startup_provider w) xs) \<and>
   pr_world (service_step mt5 send (foldl (service_step mt5 send) (startup_provider w) xs) (StreamRound now symbol)) =
     pr_world (foldl (service_step mt5 send) (startup_provider w) xs)"
proof -
  have "\<not> pr_connected (startup_provider w)" by (simp add: startup_provider_def new_provider_def)
  then have "\<not> pr_connected (foldl (service_step mt5 send) (startup_provider w) xs)"
    by (rule market_service.run_inv) (simp add: list_all_iff)
  then show ?thesis by (simp add: service_step_def stream_unconnected)
qed

subsection \<open>Endpoints\<close>

lemma sum_list_results_fail: "xs \<noteq> [] \<Longrightarrow> sum_list_results (map (\<lambda>x. Inl e) xs) = Inl e"
  by (cases xs) simp_all

text \<open>
  The data endpoints fail exactly when there is data: whenever the provider returns at least one
  tick or bar, the endpoint raises AttributeError on its missing \<open>__dict__\<close>; only an empty answer is
  ever served.
\<close>

theorem data_is_never_served:
  "(provider_ticks mt5 symbol st None limit s = (Inr (t # ts), s') \<longrightarrow>
      ticks_endpoint mt5 symbol (PIso st) PNone limit s = (Inl (AttributeError ''__dict__''), s')) \<and>
   (ticks_endpoint mt5 symbol start stop limit s1 = (Inr ds, s2) \<longrightarrow> ds = []) \<and>
   (ohlcv_endpoint mt5 symbol tf start stop limit s1 = (Inr ds, s2) \<longrightarrow> ds = [])"
proof (intro conjI impI)
  assume "provider_ticks mt5 symbol st None limit s = (Inr (t # ts), s')"
  then show "ticks_endpoint mt5 symbol (PIso st) PNone limit s = (Inl (AttributeError ''__dict__''), s')"
    by (simp add: ticks_endpoint_def optional_time_def io_lift_simps io_bind_def io_raise_def tick_dict_def)
next
  assume "ticks_endpoint mt5 symbol start stop limit s1 = (Inr ds, s2)"
  then obtain data where "sum_list_results (map tick_dict data) = Inr ds"
    unfolding ticks_endpoint_def by (auto elim!: io_bindE)
  then show "ds = []" by (cases data) (simp_all add: tick_dict_def)
next
  assume "ohlcv_endpoint mt5 symbol tf start stop limit s1 = (Inr ds, s2)"
  then obtain data where "sum_list_results (map (\<lambda>d. sum_bind (ohlcv_dict d) (\<lambda>x. Inr (AList.update ''timeframe'' (PStr tf) x))) data) = Inr ds"
    unfolding ohlcv_endpoint_def by (auto elim!: io_bindE)
  then show "ds = []" by (cases data) (simp_all add: ohlcv_dict_def sum_bind_def)
qed

subsection \<open>Sharing of streams\<close>

lemma call_select:
  assumes "\<And>x b w. \<exists>ok w'. da_symbol_select m x b w = (Inr ok, w')"
  shows "\<exists>ok w. call (Some m) (\<lambda>m. da_symbol_select m x b) s = (Inr ok, s\<lparr>pr_world := w\<rparr>)"
proof -
  obtain ok w' where "da_symbol_select m x b (pr_world s) = (Inr ok, w')" using assms by blast
  then show ?thesis by (intro exI [of _ ok] exI [of _ w']) (simp add: call_def on_world_def io_zoom_def)
qed

lemma subscribe_total:
  assumes "\<And>x b w. \<exists>ok w'. da_symbol_select m x b w = (Inr ok, w')"
  shows "\<exists>r s'. subscribe_ticks (Some m) xs cb result s = (Inr r, s')"
proof (induction xs arbitrary: result s)
  case Nil
  then show ?case by (simp add: io_return_def)
next
  case (Cons x xs)
  obtain ok w where sel: "call (Some m) (\<lambda>m. da_symbol_select m x True) s = (Inr ok, s\<lparr>pr_world := w\<rparr>)"
    using call_select [OF assms] by blast
  from Cons.IH show ?case by (simp add: io_bind_def sel io_modify_def io_return_def)
qed

lemma unsubscribe_removes:
  assumes "\<And>x b w. \<exists>ok w'. da_symbol_select m x b w = (Inr ok, w')"
  shows "\<exists>s'. unsubscribe_ticks (Some m) xs s = (Inr (), s') \<and>
    (\<forall>x. map_of (pr_tasks s') x = (if x \<in> set xs then None else map_of (pr_tasks s) x))"
proof (induction xs arbitrary: s)
  case Nil
  then show ?case by (simp add: unsubscribe_ticks_def io_return_def)
next
  case (Cons x xs)
  let ?s = "s\<lparr>pr_tasks := AList.delete x (pr_tasks s)\<rparr>"
  obtain ok w where sel: "call (Some m) (\<lambda>m. da_symbol_select m x False) ?s = (Inr ok, ?s\<lparr>pr_world := w\<rparr>)"
    using call_select [OF assms] by blast
  from Cons.IH [of "?s\<lparr>pr_world := w\<rparr>"] show ?case
    by (auto simp: unsubscribe_ticks_def io_bind_def sel io_modify_def io_return_def)
qed

text \<open>
  A client that leaves takes the streams of others with it: after a session that subscribes to
  symbols and disconnects, no stream of these symbols is left, whoever had started it.
\<close>

theorem leaving_client_stops_streams:
  assumes "\<And>x b w. \<exists>ok w'. da_symbol_select m x b w = (Inr ok, w')" and "symb \<in> set xs"
  shows "\<exists>s'. ws_ticks (Some m) c [\<lparr>wm_action = PStr ''subscribe'', wm_symbols = xs\<rparr>] s = (Inr (), s') \<and>
    map_of (pr_tasks s') symb = None"
proof -
  obtain r s1 where sub: "subscribe_ticks (Some m) xs (SendTo c) [] s = (Inr r, s1)" using subscribe_total [of m, OF assms(1), of xs "SendTo c" "[]" s] by blast
  obtain s' where "unsubscribe_ticks (Some m) xs s1 = (Inr (), s')" "map_of (pr_tasks s') symb = None"
    using unsubscribe_removes [OF assms(1), of xs s1] assms(2) by auto
  moreover have "xs \<noteq> []" using assms(2) by auto
  ultimately show ?thesis by (simp add: ws_ticks_def io_bind_def sub io_return_def)
qed

text \<open>A finished stream stays in the table, and no later subscription restarts it.\<close>

lemma finished_stream_stays:
  "map_of (pr_tasks s) x = Some t \<Longrightarrow> map_of (pr_tasks (snd (subscribe_ticks mt5 ys cb result s))) x = Some t"
proof (induction ys arbitrary: result s)
  case Nil
  then show ?case by (simp add: io_return_def)
next
  case (Cons y ys)
  obtain r s1 where c: "call mt5 (\<lambda>m. da_symbol_select m y True) s = (r, s1)" by (metis surj_pair)
  then have "map_of (pr_tasks s1) x = Some t" using io_keepsD [OF call_keeps(4), of mt5 "\<lambda>m. da_symbol_select m y True" s] Cons.prems by simp
  moreover then have "map_of (pr_tasks (start_task y cb s1)) x = Some t" by (auto simp: start_task_def)
  ultimately show ?case using Cons.IH
    by (cases r) (auto simp: io_bind_def c io_modify_def io_return_def)
qed

subsection \<open>Witnesses\<close>

definition demo_feed :: "nat data_api" where
  "demo_feed = \<lparr>da_initialize = (\<lambda>p. io_return True), da_login = (\<lambda>a p s. io_return True), da_shutdown = io_return (),
     da_ticks_range = (\<lambda>x s e. io_return None), da_ticks_from = (\<lambda>x s n. io_return (Some [])),
     da_rates_range = (\<lambda>x t s e. io_return None), da_rates_from = (\<lambda>x t s n. io_return None),
     da_symbol_select = (\<lambda>x b. io_return True), da_symbol_info = (\<lambda>x. io_return None)\<rparr>"

theorem leaving_client_stops_streams_witness:
  "\<exists>s'. ws_ticks (Some demo_feed) 2 [\<lparr>wm_action = PStr ''subscribe'', wm_symbols = [''EURUSD'']\<rparr>]
     (start_task ''EURUSD'' (SendTo 1) (startup_provider 0)) = (Inr (), s') \<and> map_of (pr_tasks s') ''EURUSD'' = None"
proof (rule leaving_client_stops_streams)
  show "\<exists>ok w'. da_symbol_select demo_feed x b w = (Inr ok, w')" for x b w
    by (intro exI [of _ True] exI [of _ w]) (simp add: demo_feed_def io_return_def)
qed simp

definition row_api :: "nat data_api" where
  "row_api = demo_feed\<lparr>da_ticks_from := (\<lambda>x s n. io_return (Some [[(''bid'', PFloat 1), (''ask'', PFloat 2), (''time'', PInt 3), (''volume'', PInt 4)]]))\<rparr>"

theorem data_is_never_served_witness:
  "ticks_endpoint (Some row_api) ''EURUSD'' (PIso 0) PNone 10 (startup_provider 0) =
     (Inl (AttributeError ''__dict__''), startup_provider 0)"
proof -
  have "provider_ticks (Some row_api) ''EURUSD'' 0 None 10 (startup_provider 0) =
      (Inr [\<lparr>tk_symbol = ''EURUSD'', tk_bid = 1, tk_ask = 2, tk_time = 3000000, tk_volume = 4, tk_provider = ''mt5''\<rparr>], startup_provider 0)"
    by (simp add: provider_ticks_def call_def on_world_def io_zoom_def row_api_def demo_feed_def io_simps tick_of_row_def
        float_field_def int_field_def time_field_def field_of_def sum_bind_def startup_provider_def new_provider_def)
  then show ?thesis using data_is_never_served by blast
qed

end
