(* ===== verification/Scheduler.thy ===== *)
theory Scheduler
  imports Prelude
begin

text \<open>
  The scheduler service (\<^verbatim>\<open>scheduler_service/src/app.py\<close>): start and stop, creating, listing and
  deleting schedules, and the run of a job with its retries. APScheduler is the parameter \<open>sched_api\<close>: it accepts or
  refuses a trigger, and adds and removes jobs; whether an attempt of a job finishes within its
  timeout is a function of the attempt. Identifiers and clock readings are arguments.
\<close>

subsection \<open>Schedules\<close>

record schedule_in =
  si_name :: string
  si_type :: string
  si_cron :: "string option"
  si_seconds :: "int option"
  si_timeout_seconds :: int
  si_retries :: int

definition default_schedule :: "string \<Rightarrow> string \<Rightarrow> schedule_in" where
  "default_schedule n t = \<lparr>si_name = n, si_type = t, si_cron = None, si_seconds = None, si_timeout_seconds = 60, si_retries = 3\<rparr>"

record job =
  jb_payload :: schedule_in
  jb_id :: string
  jb_created_at :: datetime
  jb_dead_letter :: bool
  jb_last_run :: "datetime option"

text \<open>Minute, hour, day, month and day of the week; or seconds.\<close>

datatype trigger = CronTrigger string string string string string | IntervalTrigger int

record 'w sched_api =
  sa_check :: "trigger \<Rightarrow> exn + unit"
  sa_add_job :: "string \<Rightarrow> trigger \<Rightarrow> ('w, unit) io"
  sa_remove_job :: "string \<Rightarrow> ('w, unit) io"
  sa_start :: "('w, unit) io"
  sa_shutdown :: "bool \<Rightarrow> ('w, unit) io"

record 'w scheduler =
  sd_jobs :: "(string \<times> job) list"
  sd_world :: 'w

definition scheduler_init :: "'w \<Rightarrow> 'w scheduler" where
  "scheduler_init w = \<lparr>sd_jobs = [], sd_world = w\<rparr>"

text \<open>\<open>str.split()\<close>\<close>

function py_split :: "string \<Rightarrow> string list" where
  "py_split s = (case dropWhile is_space s of [] \<Rightarrow> []
     | c # r \<Rightarrow> (c # takeWhile (\<lambda>x. \<not> is_space x) r) # py_split (dropWhile (\<lambda>x. \<not> is_space x) r))"
  by pat_completeness auto
termination
proof (relation "measure length")
  fix s c r assume "dropWhile is_space s = c # r"
  then have "length (c # r) \<le> length s" by (metis length_dropWhile_le)
  then have "length r < length s" by simp
  moreover have "length (dropWhile (\<lambda>x. \<not> is_space x) r) \<le> length r" by (rule length_dropWhile_le)
  ultimately show "(dropWhile (\<lambda>x. \<not> is_space x) r, s) \<in> measure length" by simp
qed simp

declare py_split.simps [simp del]

definition trigger_of :: "schedule_in \<Rightarrow> exn + trigger" where
  "trigger_of p =
     (if si_type p = ''cron'' then
        (if si_cron p = None \<or> si_cron p = Some [] then Inl (HTTPException 400 ''cron expression required'')
         else (case py_split (the (si_cron p)) of
             [minute, hour, mday, month, wday] \<Rightarrow> Inr (CronTrigger minute hour mday month wday)
           | _ \<Rightarrow> Inl (ValueError ''values to unpack'')))
      else if si_type p = ''interval'' then
        (if si_seconds p = None \<or> si_seconds p = Some 0 then Inl (HTTPException 400 ''seconds required'')
         else Inr (IntervalTrigger (the (si_seconds p))))
      else Inl (HTTPException 400 ''unsupported schedule type''))"

definition new_job :: "schedule_in \<Rightarrow> string \<Rightarrow> datetime \<Rightarrow> job" where
  "new_job p sid now = \<lparr>jb_payload = p, jb_id = sid, jb_created_at = now, jb_dead_letter = False, jb_last_run = None\<rparr>"

definition sched_world :: "('w, 'a) io \<Rightarrow> ('w scheduler, 'a) io" where
  "sched_world m = io_zoom sd_world (\<lambda>w s. s\<lparr>sd_world := w\<rparr>) m"

definition scheduler_startup :: "'w sched_api \<Rightarrow> ('w scheduler, unit) io" where
  "scheduler_startup api = sched_world (sa_start api)"

definition scheduler_shutdown :: "'w sched_api \<Rightarrow> ('w scheduler, unit) io" where
  "scheduler_shutdown api = sched_world (sa_shutdown api False)"

definition create_schedule :: "'w sched_api \<Rightarrow> schedule_in \<Rightarrow> string \<Rightarrow> datetime \<Rightarrow> ('w scheduler, job) io" where
  "create_schedule api p sid now =
     io_bind (io_lift (trigger_of p)) (\<lambda>tr.
     io_bind (io_lift (sa_check api tr)) (\<lambda>_.
     io_bind (io_modify (\<lambda>s. s\<lparr>sd_jobs := AList.update sid (new_job p sid now) (sd_jobs s)\<rparr>)) (\<lambda>_.
     io_bind (sched_world (sa_add_job api sid tr)) (\<lambda>_.
     io_return (new_job p sid now)))))"

definition delete_schedule :: "'w sched_api \<Rightarrow> string \<Rightarrow> ('w scheduler, unit) io" where
  "delete_schedule api sid =
     io_bind (io_get (\<lambda>s. map_of (sd_jobs s) sid)) (\<lambda>found.
     if found = None then io_raise (HTTPException 404 ''not found'')
     else io_bind (sched_world (sa_remove_job api sid)) (\<lambda>_.
       io_modify (\<lambda>s. s\<lparr>sd_jobs := AList.delete sid (sd_jobs s)\<rparr>)))"

definition list_schedules :: "('w scheduler, job list) io" where
  "list_schedules = io_get (\<lambda>s. map snd (sd_jobs s))"

subsection \<open>Running a job\<close>

text \<open>
  The loop over \<open>range(retries)\<close> from an attempt on: \<open>left\<close> attempts remain. The job and the moment of
  the run; a failing last attempt marks the job dead.
\<close>

fun attempt_loop :: "(nat \<Rightarrow> bool) \<Rightarrow> datetime \<Rightarrow> nat \<Rightarrow> nat \<Rightarrow> job \<Rightarrow> job" where
  "attempt_loop finishes now i 0 j = j"
| "attempt_loop finishes now i (Suc left) j =
     (if finishes i then j\<lparr>jb_last_run := Some now\<rparr>
      else attempt_loop finishes now (Suc i) left (if left = 0 then j\<lparr>jb_dead_letter := True\<rparr> else j))"

definition execute_job :: "(nat \<Rightarrow> bool) \<Rightarrow> datetime \<Rightarrow> string \<Rightarrow> ('w scheduler, unit) io" where
  "execute_job finishes now sid =
     io_bind (io_get (\<lambda>s. map_of (sd_jobs s) sid)) (\<lambda>found.
     (case found of None \<Rightarrow> io_raise (KeyError sid)
      | Some j \<Rightarrow> io_modify (\<lambda>s. s\<lparr>sd_jobs := AList.update sid
          (attempt_loop finishes now 0 (nat (si_retries (jb_payload j))) j) (sd_jobs s)\<rparr>)))"

subsection \<open>What a run leaves\<close>

interpretation job_attempts: bounded_attempts "\<lambda>(i, j). (finishes i, (i, j))" Not "\<lambda>(i, j). (Suc i, j)"
    "\<lambda>ok (i, j). if ok then j\<lparr>jb_last_run := Some now\<rparr> else j\<lparr>jb_dead_letter := True\<rparr>"
    "\<lambda>n (i, j). attempt_loop finishes now i n j"
  for finishes now
  by unfold_locales (auto split: prod.splits)

lemma job_attempt_state: "attempt_state (\<lambda>(i, j). (finishes i, (i, j))) (\<lambda>(i, j). (Suc i, j)) k (i, j) = (i + k, j)"
  by (induction k arbitrary: i) simp_all

lemma attempt_loop_outcome:
  "attempt_loop finishes now i left j =
     (if \<exists>k<left. finishes (i + k) then j\<lparr>jb_last_run := Some now\<rparr>
      else if left = 0 then j else j\<lparr>jb_dead_letter := True\<rparr>)"
proof (cases left)
  case (Suc n)
  obtain k where k: "k \<le> n" "attempt_loop finishes now i (Suc n) j =
      (if finishes (i + k) then j\<lparr>jb_last_run := Some now\<rparr> else j\<lparr>jb_dead_letter := True\<rparr>)"
    "\<forall>l<k. \<not> finishes (i + l)" "\<not> finishes (i + k) \<longrightarrow> k = n"
    using job_attempts.outcome [of n finishes now "(i, j)"] by (auto simp: job_attempt_state)
  have "finishes (i + k) \<longleftrightarrow> (\<exists>l<left. finishes (i + l))"
    using k(1,3,4) Suc by (metis less_Suc_eq_le less_SucE)
  with k(2) Suc show ?thesis by (auto simp del: attempt_loop.simps)
qed simp

text \<open>
  C34. A run of a job records its time when one of the allowed attempts finishes in time, and only
  then; it marks the job dead when there was an attempt and all failed; and with no attempts allowed
  it does neither, so a schedule with zero retries never runs and is never reported.
\<close>

theorem job_outcome:
  assumes "map_of (sd_jobs s) sid = Some j"
  shows "\<exists>j' s'. execute_job finishes now sid s = (Inr (), s') \<and> map_of (sd_jobs s') sid = Some j' \<and>
    (jb_last_run j' = (if \<exists>k. int k < si_retries (jb_payload j) \<and> finishes k then Some now else jb_last_run j)) \<and>
    (jb_dead_letter j' \<longleftrightarrow> jb_dead_letter j \<or> 0 < si_retries (jb_payload j) \<and> (\<forall>k. int k < si_retries (jb_payload j) \<longrightarrow> \<not> finishes k)) \<and>
    (si_retries (jb_payload j) \<le> 0 \<longrightarrow> j' = j) \<and>
    (\<forall>x. x \<noteq> sid \<longrightarrow> map_of (sd_jobs s') x = map_of (sd_jobs s) x)"
proof -
  let ?n = "si_retries (jb_payload j)"
  have n: "int k < ?n \<longleftrightarrow> k < nat ?n" for k by linarith
  have "attempt_loop finishes now 0 (nat ?n) j =
      (if \<exists>k. int k < ?n \<and> finishes k then j\<lparr>jb_last_run := Some now\<rparr>
       else if ?n \<le> 0 then j else j\<lparr>jb_dead_letter := True\<rparr>)"
    using attempt_loop_outcome [of finishes now 0 "nat ?n" j] n by auto
  then show ?thesis using assms
    by (auto simp: execute_job_def io_simps n)
qed

text \<open>Deleting a schedule just created gives the table of jobs back.\<close>

lemma delete_fresh: "k \<notin> fst ` set d \<Longrightarrow> AList.delete k (AList.update k v d) = d"
  by (induction d) auto

text \<open>
  Creating a schedule and deleting it gives the table of jobs back, for a fresh identifier and a
  scheduler that removes the job it added.
\<close>

theorem create_delete_round_trip:
  assumes "create_schedule api p sid now s = (Inr j, s1)" and "map_of (sd_jobs s) sid = None"
    and "\<exists>w. sa_remove_job api sid (sd_world s1) = (Inr (), w)"
  shows "map_of (sd_jobs s1) sid = Some (new_job p sid now) \<and>
    (\<exists>s2. delete_schedule api sid s1 = (Inr (), s2) \<and> sd_jobs s2 = sd_jobs s)"
proof -
  have "sd_jobs s1 = AList.update sid (new_job p sid now) (sd_jobs s)"
    using assms(1) by (auto simp: create_schedule_def sched_world_def io_zoom_def io_modify_def elim!: io_bindE split: prod.splits)
  moreover have "sid \<notin> fst ` set (sd_jobs s)" using assms(2) by (simp add: map_of_eq_None_iff)
  ultimately show ?thesis
    using assms(3) by (auto simp: delete_schedule_def sched_world_def io_zoom_def io_simps delete_fresh)
qed

definition demo_sched :: "nat sched_api" where
  "demo_sched = \<lparr>sa_check = (\<lambda>t. Inr ()), sa_add_job = (\<lambda>i t. io_modify Suc), sa_remove_job = (\<lambda>i. io_return ()),
     sa_start = io_return (), sa_shutdown = (\<lambda>_. io_return ())\<rparr>"

definition demo_schedule :: schedule_in where
  "demo_schedule = (default_schedule ''daily'' ''interval'')\<lparr>si_seconds := Some 30\<rparr>"

lemma demo_created:
  "create_schedule demo_sched demo_schedule ''j1'' 5 \<lparr>sd_jobs = [], sd_world = 0\<rparr> =
     (Inr (new_job demo_schedule ''j1'' 5), \<lparr>sd_jobs = [(''j1'', new_job demo_schedule ''j1'' 5)], sd_world = 1\<rparr>)"
  by (simp add: create_schedule_def trigger_of_def demo_sched_def demo_schedule_def default_schedule_def sched_world_def
      io_zoom_def io_simps)

theorem create_delete_round_trip_witness:
  "\<exists>s2. delete_schedule demo_sched ''j1'' \<lparr>sd_jobs = [(''j1'', new_job demo_schedule ''j1'' 5)], sd_world = 1\<rparr> = (Inr (), s2) \<and>
     sd_jobs s2 = []"
  using create_delete_round_trip [OF demo_created] by (simp add: demo_sched_def io_return_def)

theorem job_outcome_witness:
  "\<exists>j' s'. execute_job (\<lambda>k. k = 2) 9 ''j1'' \<lparr>sd_jobs = [(''j1'', new_job demo_schedule ''j1'' 5)], sd_world = (0::nat)\<rparr> = (Inr (), s') \<and>
     map_of (sd_jobs s') ''j1'' = Some j' \<and> jb_last_run j' = Some 9"
proof -
  let ?s = "\<lparr>sd_jobs = [(''j1'', new_job demo_schedule ''j1'' 5)], sd_world = (0::nat)\<rparr>"
  have "map_of (sd_jobs ?s) ''j1'' = Some (new_job demo_schedule ''j1'' 5)" by simp
  from job_outcome [OF this, of "\<lambda>k. k = 2" 9] show ?thesis
    by (auto simp: new_job_def demo_schedule_def default_schedule_def)
qed

end
