(* ===== verification/Notifier.thy ===== *)
theory Notifier
  imports Prelude
begin

text \<open>
  The notifier service (\<^verbatim>\<open>notifier_service/src/app.py\<close>): the counter per recipient, the channels and
  the retries. The template engine, the mail server and the HTTP client are the parameter
  \<open>notify_api\<close>; a post answers with the status of its response. The delays slept between attempts
  are recorded.
\<close>

record notify_in =
  ni_channel :: string
  ni_recipient :: string
  ni_template :: string
  ni_context :: pydict

record 'w notify_api =
  na_render :: "string \<Rightarrow> pydict \<Rightarrow> exn + string"
  na_send_mail :: "string \<Rightarrow> string \<Rightarrow> ('w, unit) io"
  na_post :: "string \<Rightarrow> string \<Rightarrow> ('w, nat) io"

record 'w notifier =
  nf_rate :: "(string \<times> nat) list"
  nf_slept :: "real list"
  nf_world :: 'w

definition notifier_world :: "('w, 'a) io \<Rightarrow> ('w notifier, 'a) io" where
  "notifier_world m = io_zoom nf_world (\<lambda>w s. s\<lparr>nf_world := w\<rparr>) m"

definition limited :: "string \<Rightarrow> ('w notifier, bool) io" where
  "limited recipient =
     io_bind (io_modify (\<lambda>s. s\<lparr>nf_rate := AList.update recipient (dict_get (nf_rate s) recipient 0 + 1) (nf_rate s)\<rparr>)) (\<lambda>_.
     io_get (\<lambda>s. 60 < dict_get (nf_rate s) recipient 0))"

text \<open>\<open>0.5 * (2**attempt)\<close>\<close>

definition retry_delay :: "nat \<Rightarrow> real" where
  "retry_delay attempt = 1/2 * 2 ^ attempt"

text \<open>The body of the try block.\<close>

definition send_once :: "'w notify_api \<Rightarrow> notify_in \<Rightarrow> string \<Rightarrow> ('w notifier, unit) io" where
  "send_once api p body =
     (if ni_channel p = ''email'' then notifier_world (na_send_mail api (ni_recipient p) body)
      else if ni_channel p = ''sms'' then io_bind (notifier_world (na_post api (ni_recipient p) body)) (\<lambda>_. io_return ())
      else if ni_channel p = ''webhook'' then io_bind (notifier_world (na_post api (ni_recipient p) body)) (\<lambda>_. io_return ())
      else io_raise (HTTPException 400 ''unsupported channel''))"

text \<open>The attempts from number \<open>i\<close> on, \<open>left\<close> of them after this one.\<close>

fun send_attempts :: "'w notify_api \<Rightarrow> notify_in \<Rightarrow> string \<Rightarrow> nat \<Rightarrow> nat \<Rightarrow> ('w notifier, unit) io" where
  "send_attempts api p body i left = io_bind (io_try (send_once api p body)) (\<lambda>r.
     (case r of Inr _ \<Rightarrow> io_return ()
      | Inl e \<Rightarrow> (case left of 0 \<Rightarrow> io_raise e
          | Suc l \<Rightarrow> io_bind (io_modify (\<lambda>s. s\<lparr>nf_slept := nf_slept s @ [retry_delay i]\<rparr>)) (\<lambda>_.
              send_attempts api p body (Suc i) l))))"

declare send_attempts.simps [simp del]

definition notify :: "'w notify_api \<Rightarrow> notify_in \<Rightarrow> ('w notifier, unit) io" where
  "notify api p =
     io_bind (limited (ni_recipient p)) (\<lambda>over.
     if over then io_raise (HTTPException 429 ''rate limit'')
     else io_bind (io_lift (na_render api (ni_template p) (ni_context p))) (\<lambda>body. send_attempts api p body 0 2))"

subsection \<open>The counter\<close>

lemma send_keeps_rate: "io_keeps nf_rate (send_attempts api p body i left)"
proof (induction left arbitrary: i)
  case 0
  show ?case
    by (subst send_attempts.simps) (auto simp: send_once_def notifier_world_def io_keeps_def io_zoom_def io_simps split: prod.splits sum.splits)
next
  case (Suc left)
  have send: "io_keeps nf_rate (send_once api p body)"
    by (auto simp: send_once_def notifier_world_def io_keeps_def io_zoom_def io_simps split: prod.splits sum.splits)
  show ?case
    by (subst send_attempts.simps) (auto intro!: keeps send Suc io_keeps_modify split: sum.split)
qed

lemma notify_rate:
  "nf_rate (snd (notify api p s)) = AList.update (ni_recipient p) (dict_get (nf_rate s) (ni_recipient p) 0 + 1) (nf_rate s)"
proof -
  let ?s = "s\<lparr>nf_rate := AList.update (ni_recipient p) (dict_get (nf_rate s) (ni_recipient p) 0 + 1) (nf_rate s)\<rparr>"
  have "nf_rate (snd (send_attempts api p body 0 2 ?s)) = nf_rate ?s" for body
    using send_keeps_rate by (rule io_keepsD)
  then show ?thesis
    by (simp add: notify_def limited_def io_bind_def io_modify_def io_get_def io_raise_def io_lift_def split: sum.split)
qed

definition notify_all :: "'w notify_api \<Rightarrow> notify_in list \<Rightarrow> 'w notifier \<Rightarrow> 'w notifier" where
  "notify_all api ps s = foldl (\<lambda>s p. snd (notify api p s)) s ps"

lemma notify_all_rate:
  "dict_get (nf_rate (notify_all api ps s)) r 0 = dict_get (nf_rate s) r 0 + length (filter (\<lambda>p. ni_recipient p = r) ps)"
  by (induction ps arbitrary: s) (simp_all add: notify_all_def notify_rate)

text \<open>
  The limit is no rate but a quota for ever: a notification is refused exactly when its
  recipient has been addressed sixty times before, whenever that was and whatever became of those
  requests; a refused one reaches neither the template engine nor a channel.
\<close>

theorem quota_never_recovers:
  assumes "nf_rate s = []"
  shows "(60 \<le> length (filter (\<lambda>q. ni_recipient q = ni_recipient p) ps) \<longrightarrow>
      fst (notify api p (notify_all api ps s)) = Inl (HTTPException 429 ''rate limit'') \<and>
      nf_world (snd (notify api p (notify_all api ps s))) = nf_world (notify_all api ps s)) \<and>
    (length (filter (\<lambda>q. ni_recipient q = ni_recipient p) ps) < 60 \<longrightarrow>
      (\<exists>s'. notify api p (notify_all api ps s) =
        io_bind (io_lift (na_render api (ni_template p) (ni_context p))) (\<lambda>body. send_attempts api p body 0 2) s' \<and>
        nf_world s' = nf_world (notify_all api ps s)))"
proof -
  let ?t = "notify_all api ps s"
  let ?s = "?t\<lparr>nf_rate := AList.update (ni_recipient p) (dict_get (nf_rate ?t) (ni_recipient p) 0 + 1) (nf_rate ?t)\<rparr>"
  have count: "dict_get (nf_rate ?t) (ni_recipient p) 0 = length (filter (\<lambda>q. ni_recipient q = ni_recipient p) ps)"
    using assms by (simp add: notify_all_rate)
  have run: "notify api p ?t = (if 60 < dict_get (nf_rate ?t) (ni_recipient p) 0 + 1 then (Inl (HTTPException 429 ''rate limit''), ?s)
      else io_bind (io_lift (na_render api (ni_template p) (ni_context p))) (\<lambda>body. send_attempts api p body 0 2) ?s)"
    by (simp add: notify_def limited_def io_bind_def io_modify_def io_get_def io_raise_def)
  show ?thesis
  proof (intro conjI impI)
    assume "60 \<le> length (filter (\<lambda>q. ni_recipient q = ni_recipient p) ps)"
    then show "fst (notify api p ?t) = Inl (HTTPException 429 ''rate limit'')" and "nf_world (snd (notify api p ?t)) = nf_world ?t"
      using run count by simp_all
  next
    assume "length (filter (\<lambda>q. ni_recipient q = ni_recipient p) ps) < 60"
    then show "\<exists>s'. notify api p ?t =
        io_bind (io_lift (na_render api (ni_template p) (ni_context p))) (\<lambda>body. send_attempts api p body 0 2) s' \<and>
        nf_world s' = nf_world ?t"
      using run count by (intro exI [of _ ?s]) simp
  qed
qed

subsection \<open>Retries\<close>

text \<open>
  An unsupported channel is retried like a failure of the network: the request fails with 400 only
  after all attempts, having slept between them.
\<close>

lemma unsupported_channel_retried:
  assumes "ni_channel p \<notin> {''email'', ''sms'', ''webhook''}"
  shows "send_attempts api p body 0 2 s = (Inl (HTTPException 400 ''unsupported channel''), s\<lparr>nf_slept := nf_slept s @ [1/2, 1]\<rparr>)"
proof -
  have "send_once api p body = io_raise (HTTPException 400 ''unsupported channel'')"
    using assms by (simp add: send_once_def)
  then show ?thesis by (simp add: send_attempts.simps io_simps numeral_2_eq_2 retry_delay_def)
qed

text \<open>A post is reported as delivered whatever the status of its response.\<close>

lemma failed_post_reported:
  assumes "ni_channel p = ''webhook''" and "na_post api (ni_recipient p) body (nf_world s) = (Inr status, w)"
  shows "send_attempts api p body 0 2 s = (Inr (), s\<lparr>nf_world := w\<rparr>)"
  using assms by (simp add: send_attempts.simps send_once_def notifier_world_def io_zoom_def io_simps)

lemma send_attempts_run:
  "send_attempts api p body i left s = (case send_once api p body s of (r, s') \<Rightarrow>
     if isl r \<and> 0 < left then send_attempts api p body (Suc i) (left - 1) (s'\<lparr>nf_slept := nf_slept s' @ [retry_delay i]\<rparr>) else (r, s'))"
  by (subst send_attempts.simps) (cases left; auto simp: io_simps split: prod.splits sum.splits)

interpretation sendings: bounded_attempts "\<lambda>(i, s). (fst (send_once api p body s), (i, snd (send_once api p body s)))" isl
    "\<lambda>(i, s). (Suc i, s\<lparr>nf_slept := nf_slept s @ [retry_delay i]\<rparr>)" "\<lambda>r (i, s). (r, s)"
    "\<lambda>n (i, s). send_attempts api p body i (n - 1) s"
  for api p body
proof
  fix n x
  show "(case x of (i, s) \<Rightarrow> send_attempts api p body i (Suc n - 1) s) =
     (case (case x of (i, s) \<Rightarrow> (fst (send_once api p body s), (i, snd (send_once api p body s)))) of (r, s') \<Rightarrow>
        if isl r \<and> 0 < n then (case (case s' of (i, s) \<Rightarrow> (Suc i, s\<lparr>nf_slept := nf_slept s @ [retry_delay i]\<rparr>)) of
            (i, s) \<Rightarrow> send_attempts api p body i (n - 1) s)
        else (case s' of (i, s) \<Rightarrow> (r, s)))"
    by (cases x) (simp add: send_attempts_run [of api p body _ n] split: prod.splits)
qed

text \<open>
  What the attempts sleep: the first delays of one half, one second, before each further attempt; and
  only the last attempt allowed can fail for good.
\<close>

lemma sending_state:
  "attempt_state (\<lambda>(i, s). (fst (send_once api p body s), (i, snd (send_once api p body s))))
     (\<lambda>(i, s). (Suc i, s\<lparr>nf_slept := nf_slept s @ [retry_delay i]\<rparr>)) k (i, s) = (i', s') \<Longrightarrow>
   nf_slept s' = nf_slept s @ map (\<lambda>j. retry_delay (i + j)) [0..<k]"
proof (induction k arbitrary: i s)
  case (Suc k)
  have slept: "nf_slept (snd (send_once api p body s)) = nf_slept s"
    by (auto simp: send_once_def notifier_world_def io_zoom_def io_simps split: if_splits prod.splits sum.splits)
  have "map (\<lambda>j. retry_delay (i + j)) [0..<Suc k] = retry_delay i # map (\<lambda>j. retry_delay (Suc i + j)) [0..<k]"
    by (simp add: upt_conv_Cons map_Suc_upt [symmetric] comp_def del: upt_Suc)
  then show ?case using Suc.IH [of "Suc i"] Suc.prems slept by simp
qed simp

lemma send_attempts_bounded:
  "\<exists>n\<le>left. nf_slept (snd (send_attempts api p body i left s)) = nf_slept s @ map (\<lambda>k. retry_delay (i + k)) [0..<n] \<and>
     (isl (fst (send_attempts api p body i left s)) \<longrightarrow> n = left)"
proof -
  let ?state = "\<lambda>k. attempt_state (\<lambda>(i, s). (fst (send_once api p body s), (i, snd (send_once api p body s))))
     (\<lambda>(i, s). (Suc i, s\<lparr>nf_slept := nf_slept s @ [retry_delay i]\<rparr>)) k (i, s)"
  obtain k where k: "k \<le> left" "send_attempts api p body i left s =
      (case ?state k of (_, t) \<Rightarrow> (fst (send_once api p body t), snd (send_once api p body t)))"
    "isl (fst (send_once api p body (snd (?state k)))) \<longrightarrow> k = left"
    using sendings.outcome [of left api p body "(i, s)"] by (auto split: prod.splits)
  obtain i' t where t: "?state k = (i', t)" by fastforce
  have "nf_slept (snd (send_once api p body t)) = nf_slept t"
    by (auto simp: send_once_def notifier_world_def io_zoom_def io_simps split: if_splits prod.splits sum.splits)
  then show ?thesis using k sending_state [OF t] by (intro exI [of _ k]) (simp add: t)
qed

definition demo_notify :: "nat notify_api" where
  "demo_notify = \<lparr>na_render = (\<lambda>t c. Inr t), na_send_mail = (\<lambda>r b. io_modify Suc), na_post = (\<lambda>r b. io_return 500)\<rparr>"

definition demo_note :: notify_in where
  "demo_note = \<lparr>ni_channel = ''email'', ni_recipient = ''a@b.c'', ni_template = ''hello'', ni_context = []\<rparr>"

theorem quota_never_recovers_witness:
  "fst (notify demo_notify demo_note (notify_all demo_notify (replicate 60 demo_note) \<lparr>nf_rate = [], nf_slept = [], nf_world = 0\<rparr>)) =
     Inl (HTTPException 429 ''rate limit'')"
  using quota_never_recovers [of "\<lparr>nf_rate = [], nf_slept = [], nf_world = 0\<rparr>" demo_note "replicate 60 demo_note" demo_notify]
  by simp

end
