(* ===== verification/Migrations.thy ===== *)
theory Migrations
  imports Order_Repository
begin

text \<open>
  The schema migrations (\<^verbatim>\<open>migrations/versions\<close>) as operations on a schema, and the columns that the
  statements of the order repository name. A table has its columns with their types, the
  constraints and indexes the migrations name, and its compression setting; constraints written
  inside a CREATE TABLE are not tracked. Statements that only concern the time-series extension
  (hypertables, compression, policies) and CREATE EXTENSION go to the parameter \<open>ext\<close>, which
  accepts or refuses a statement and changes no column.
\<close>

subsection \<open>Schemas and statements\<close>

record sql_table =
  sq_columns :: "(string \<times> string) list"
  sq_constraints :: "(string \<times> string list) list"
  sq_indexes :: "(string \<times> string list) list"

type_synonym schema = "(string \<times> sql_table) list"

type_synonym extension = "string \<Rightarrow> exn + unit"

definition columns_of :: "schema \<Rightarrow> string \<Rightarrow> string list" where
  "columns_of s t = (case map_of s t of None \<Rightarrow> [] | Some tb \<Rightarrow> map fst (sq_columns tb))"

definition execute_ext :: "extension \<Rightarrow> string \<Rightarrow> (schema, unit) io" where
  "execute_ext ext stmt = io_lift (ext stmt)"

text \<open>CREATE TABLE IF NOT EXISTS, DROP TABLE IF EXISTS, and \<open>create_table\<close> and \<open>drop_table\<close> after a test.\<close>

definition blank_table :: "(string \<times> string) list \<Rightarrow> sql_table" where
  "blank_table cs = \<lparr>sq_columns = cs, sq_constraints = [], sq_indexes = []\<rparr>"

definition create_missing :: "string \<times> (string \<times> string) list \<Rightarrow> (schema, unit) io" where
  "create_missing tc = io_modify (\<lambda>s. if map_of s (fst tc) = None
     then AList.update (fst tc) (blank_table (snd tc)) s else s)"

definition drop_existing :: "string \<Rightarrow> (schema, unit) io" where
  "drop_existing t = io_modify (AList.delete t)"

text \<open>The inspector raises on a missing table.\<close>

definition inspect :: "string \<Rightarrow> (sql_table \<Rightarrow> 'a) \<Rightarrow> (schema, 'a) io" where
  "inspect t f = io_bind (io_get (\<lambda>s. map_of s t)) (\<lambda>tb. case tb of
     None \<Rightarrow> io_raise (OtherException ''NoSuchTableError'') | Some x \<Rightarrow> io_return (f x))"

definition change_table :: "string \<Rightarrow> (sql_table \<Rightarrow> sql_table) \<Rightarrow> (schema, unit) io" where
  "change_table t f = io_modify (\<lambda>s. case map_of s t of None \<Rightarrow> s | Some x \<Rightarrow> AList.update t (f x) s)"

definition table_exists :: "string \<Rightarrow> (schema, bool) io" where
  "table_exists t = io_get (\<lambda>s. map_of s t \<noteq> None)"

definition column_exists :: "string \<Rightarrow> string \<Rightarrow> (schema, bool) io" where
  "column_exists t c = inspect t (\<lambda>x. c \<in> set (map fst (sq_columns x)))"

definition constraint_exists :: "string \<Rightarrow> string \<Rightarrow> (schema, bool) io" where
  "constraint_exists t c = inspect t (\<lambda>x. c \<in> set (map fst (sq_constraints x)))"

definition index_exists :: "string \<Rightarrow> string \<Rightarrow> (schema, bool) io" where
  "index_exists t i = inspect t (\<lambda>x. i \<in> set (map fst (sq_indexes x)))"

text \<open>\<open>unless\<close> and \<open>provided\<close> are the guards of the statements.\<close>

definition unless :: "(schema, bool) io \<Rightarrow> (schema, unit) io \<Rightarrow> (schema, unit) io" where
  "unless test m = io_bind test (\<lambda>b. io_when (\<not> b) m)"

definition provided :: "(schema, bool) io \<Rightarrow> (schema, unit) io \<Rightarrow> (schema, unit) io" where
  "provided test m = io_bind test (\<lambda>b. io_when b m)"

definition add_column :: "string \<Rightarrow> string \<Rightarrow> string \<Rightarrow> (schema, unit) io" where
  "add_column t c ty = change_table t (\<lambda>x. x\<lparr>sq_columns := sq_columns x @ [(c, ty)]\<rparr>)"

text \<open>Dropping a column drops the indexes and constraints that mention it.\<close>

definition drop_column :: "string \<Rightarrow> string \<Rightarrow> (schema, unit) io" where
  "drop_column t c = change_table t (\<lambda>x. x\<lparr>sq_columns := filter (\<lambda>(k, ty). k \<noteq> c) (sq_columns x),
     sq_constraints := filter (\<lambda>(k, cs). c \<notin> set cs) (sq_constraints x),
     sq_indexes := filter (\<lambda>(k, cs). c \<notin> set cs) (sq_indexes x)\<rparr>)"

definition create_constraint :: "string \<Rightarrow> string \<Rightarrow> string list \<Rightarrow> (schema, unit) io" where
  "create_constraint t n cs = change_table t (\<lambda>x. x\<lparr>sq_constraints := sq_constraints x @ [(n, cs)]\<rparr>)"

definition drop_constraint :: "string \<Rightarrow> string \<Rightarrow> (schema, unit) io" where
  "drop_constraint t n = change_table t (\<lambda>x. x\<lparr>sq_constraints := AList.delete n (sq_constraints x)\<rparr>)"

definition create_index :: "string \<Rightarrow> string \<Rightarrow> string list \<Rightarrow> (schema, unit) io" where
  "create_index t n cs = change_table t (\<lambda>x. x\<lparr>sq_indexes := sq_indexes x @ [(n, cs)]\<rparr>)"

definition drop_index :: "string \<Rightarrow> string \<Rightarrow> (schema, unit) io" where
  "drop_index t n = change_table t (\<lambda>x. x\<lparr>sq_indexes := AList.delete n (sq_indexes x)\<rparr>)"

fun io_seq :: "('s, unit) io list \<Rightarrow> ('s, unit) io" where
  "io_seq [] = io_return ()"
| "io_seq (m # ms) = io_bind m (\<lambda>_. io_seq ms)"

subsection \<open>Revision 002\<close>

definition broker_accounts_table :: "string \<times> (string \<times> string) list" where
  "broker_accounts_table = (''broker_accounts'',
     [(''id'', ''UUID''), (''user_id'', ''INTEGER''), (''broker_name'', ''TEXT''), (''account_login'', ''TEXT''), (''server'', ''TEXT''),
      (''environment'', ''TEXT''), (''encrypted_credentials'', ''BYTEA''), (''credentials_nonce'', ''BYTEA''), (''status'', ''TEXT''),
      (''created_at'', ''TIMESTAMPTZ''), (''updated_at'', ''TIMESTAMPTZ'')])"

definition core_tables :: "(string \<times> (string \<times> string) list) list" where
  "core_tables =
     [(''ticks'', [(''time'', ''TIMESTAMPTZ''), (''symbol'', ''TEXT''), (''bid'', ''DOUBLE PRECISION''), (''ask'', ''DOUBLE PRECISION''),
        (''volume'', ''BIGINT''), (''provider'', ''TEXT'')]),
      (''ohlcv'', [(''time'', ''TIMESTAMPTZ''), (''symbol'', ''TEXT''), (''timeframe'', ''TEXT''), (''open'', ''DOUBLE PRECISION''),
        (''high'', ''DOUBLE PRECISION''), (''low'', ''DOUBLE PRECISION''), (''close'', ''DOUBLE PRECISION''), (''volume'', ''BIGINT''),
        (''provider'', ''TEXT'')]),
      (''trades'', [(''time'', ''TIMESTAMPTZ''), (''id'', ''UUID''), (''account_id'', ''UUID''), (''symbol'', ''TEXT''), (''side'', ''TEXT''),
        (''volume'', ''DOUBLE PRECISION''), (''price'', ''DOUBLE PRECISION''), (''profit'', ''DOUBLE PRECISION'')]),
      (''economic_events'', [(''time'', ''TIMESTAMPTZ''), (''event_id'', ''TEXT''), (''provider'', ''TEXT''), (''country'', ''TEXT''),
        (''impact'', ''TEXT''), (''payload'', ''JSONB'')]),
      (''news_articles'', [(''time'', ''TIMESTAMPTZ''), (''article_id'', ''TEXT''), (''provider'', ''TEXT''), (''headline'', ''TEXT''),
        (''sentiment'', ''DOUBLE PRECISION''), (''payload'', ''JSONB'')]),
      (''models'', [(''id'', ''UUID''), (''name'', ''TEXT''), (''version'', ''INTEGER''), (''stage'', ''TEXT''), (''metrics'', ''JSONB''),
        (''created_at'', ''TIMESTAMPTZ'')]),
      (''backtest_results'', [(''created_at'', ''TIMESTAMPTZ''), (''id'', ''UUID''), (''strategy_id'', ''UUID''), (''metrics'', ''JSONB''),
        (''equity_curve'', ''JSONB'')]),
      (''strategies'', [(''id'', ''UUID''), (''user_id'', ''INTEGER''), (''name'', ''TEXT''), (''version'', ''INTEGER''), (''dsl'', ''JSONB''),
        (''status'', ''TEXT''), (''created_at'', ''TIMESTAMPTZ'')]),
      (''orders'', [(''opened_at'', ''TIMESTAMPTZ''), (''id'', ''UUID''), (''client_order_id'', ''TEXT''), (''account_id'', ''UUID''),
        (''strategy_id'', ''UUID''), (''model_id'', ''UUID''), (''symbol'', ''TEXT''), (''side'', ''TEXT''), (''order_type'', ''TEXT''),
        (''quantity'', ''DOUBLE PRECISION''), (''filled_quantity'', ''DOUBLE PRECISION''), (''status'', ''TEXT''), (''version'', ''INTEGER''),
        (''created_at'', ''TIMESTAMPTZ''), (''updated_at'', ''TIMESTAMPTZ'')]),
      (''positions'', [(''opened_at'', ''TIMESTAMPTZ''), (''id'', ''UUID''), (''account_id'', ''UUID''), (''symbol'', ''TEXT''), (''side'', ''TEXT''),
        (''quantity'', ''DOUBLE PRECISION''), (''entry_price'', ''DOUBLE PRECISION''), (''price_current'', ''DOUBLE PRECISION''),
        (''profit'', ''DOUBLE PRECISION''), (''closed_at'', ''TIMESTAMPTZ''), (''updated_at'', ''TIMESTAMPTZ'')]),
      (''risk_incidents'', [(''id'', ''UUID''), (''rule_type'', ''TEXT''), (''parameters'', ''JSONB''), (''actual_values'', ''JSONB''),
        (''order_id'', ''TEXT''), (''account_id'', ''TEXT''), (''action_taken'', ''TEXT''), (''created_at'', ''TIMESTAMPTZ'')])]"

definition hypertables :: "(string \<times> string \<times> string) list" where
  "hypertables = [(''ticks'', ''time'', ''7 days''), (''ohlcv'', ''time'', ''30 days''), (''trades'', ''time'', ''30 days''),
     (''economic_events'', ''time'', ''30 days''), (''news_articles'', ''time'', ''7 days''),
     (''backtest_results'', ''created_at'', ''30 days''), (''orders'', ''opened_at'', ''30 days''), (''positions'', ''opened_at'', ''30 days'')]"

definition hypertable_statement :: "string \<times> string \<times> string \<Rightarrow> string" where
  "hypertable_statement h = (case h of (n, col, chunk) \<Rightarrow>
     ''SELECT create_hypertable('' @ [CHR 0x27] @ n @ [CHR 0x27] @ '','' @ [CHR 0x27] @ col @ [CHR 0x27] @
     '',if_not_exists=>TRUE,chunk_time_interval=>INTERVAL '' @ [CHR 0x27] @ chunk @ [CHR 0x27] @ '');'')"

definition compression_statements :: "string list" where
  "compression_statements =
     [''ALTER TABLE ticks SET (timescaledb.compress, timescaledb.compress_segmentby='symbol,provider');'',
      ''ALTER TABLE ohlcv SET (timescaledb.compress, timescaledb.compress_segmentby='symbol,timeframe');'',
      ''ALTER TABLE trades SET (timescaledb.compress, timescaledb.compress_segmentby='account_id,symbol');'',
      ''SELECT add_compression_policy('ticks', INTERVAL '1 day', if_not_exists=>TRUE);'',
      ''SELECT add_compression_policy('ohlcv', INTERVAL '7 days', if_not_exists=>TRUE);'',
      ''SELECT add_compression_policy('trades', INTERVAL '30 days', if_not_exists=>TRUE);'',
      ''SELECT add_drop_chunks_policy('ticks', INTERVAL '7 days', if_not_exists=>TRUE);'',
      ''SELECT add_drop_chunks_policy('ohlcv', INTERVAL '2 years', if_not_exists=>TRUE);'',
      ''SELECT add_drop_chunks_policy('news_articles', INTERVAL '90 days', if_not_exists=>TRUE);'']"

definition core_indexes :: "(string \<times> string \<times> string list) list" where
  "core_indexes =
     [(''broker_accounts'', ''ix_broker_accounts_user_id'', [''user_id'']), (''ticks'', ''ix_ticks_symbol_time'', [''symbol'', ''time'']),
      (''ohlcv'', ''ix_ohlcv_symbol_tf_time'', [''symbol'', ''timeframe'', ''time'']),
      (''trades'', ''ix_trades_account_time'', [''account_id'', ''time'']), (''trades'', ''ix_trades_symbol_time'', [''symbol'', ''time'']),
      (''economic_events'', ''ix_events_country_impact_time'', [''country'', ''impact'', ''time'']),
      (''news_articles'', ''ix_news_provider_time'', [''provider'', ''time'']),
      (''orders'', ''ix_orders_account_status_opened'', [''account_id'', ''status'', ''opened_at'']),
      (''positions'', ''ix_positions_account_symbol_opened'', [''account_id'', ''symbol'', ''opened_at'']),
      (''backtest_results'', ''ix_backtest_created'', [''created_at''])]"

definition upgrade_002 :: "extension \<Rightarrow> (schema, unit) io" where
  "upgrade_002 ext = io_seq (map (execute_ext ext) [''CREATE EXTENSION IF NOT EXISTS \"pgcrypto\";'', ''CREATE EXTENSION IF NOT EXISTS \"timescaledb\";''] @
     [create_missing broker_accounts_table] @ map create_missing core_tables @
     map (\<lambda>h. execute_ext ext (hypertable_statement h)) hypertables @ map (execute_ext ext) compression_statements @
     map (\<lambda>(t, n, cs). unless (index_exists t n) (create_index t n cs)) core_indexes)"

definition downgrade_002 :: "(schema, unit) io" where
  "downgrade_002 = io_seq (map drop_existing [''risk_incidents'', ''positions'', ''orders'', ''backtest_results'', ''news_articles'',
     ''economic_events'', ''trades'', ''ohlcv'', ''ticks'', ''models'', ''strategies'', ''broker_accounts''])"

subsection \<open>Revision 003\<close>

definition segment_statement :: "string \<Rightarrow> string \<Rightarrow> string" where
  "segment_statement t cols = ''ALTER TABLE '' @ t @ '' SET (timescaledb.compress_segmentby='' @ [CHR 0x27] @ cols @ [CHR 0x27] @ '');''"

definition upgrade_003 :: "extension \<Rightarrow> (schema, unit) io" where
  "upgrade_003 ext = io_seq
     [unless (column_exists ''orders'' ''client_order_id'') (add_column ''orders'' ''client_order_id'' ''TEXT''),
      unless (column_exists ''orders'' ''version'') (add_column ''orders'' ''version'' ''INTEGER''),
      unless (column_exists ''orders'' ''idempotency_key'') (add_column ''orders'' ''idempotency_key'' ''TEXT''),
      unless (column_exists ''orders'' ''parent_order_id'') (add_column ''orders'' ''parent_order_id'' ''UUID''),
      unless (constraint_exists ''orders'' ''fk_orders_parent_order'') (create_constraint ''orders'' ''fk_orders_parent_order'' [''parent_order_id'']),
      unless (column_exists ''positions'' ''version'') (add_column ''positions'' ''version'' ''INTEGER''),
      unless (column_exists ''positions'' ''unrealized_pnl'') (add_column ''positions'' ''unrealized_pnl'' ''NUMERIC(10, 2)''),
      unless (column_exists ''positions'' ''realized_pnl'') (add_column ''positions'' ''realized_pnl'' ''NUMERIC(10, 2)''),
      unless (constraint_exists ''orders'' ''uq_orders_idempotency_key'') (create_constraint ''orders'' ''uq_orders_idempotency_key'' [''idempotency_key'']),
      unless (index_exists ''orders'' ''orders_client_order_id_idx'') (create_index ''orders'' ''orders_client_order_id_idx'' [''client_order_id'']),
      unless (index_exists ''orders'' ''orders_idempotency_key_idx'') (create_index ''orders'' ''orders_idempotency_key_idx'' [''idempotency_key'']),
      unless (index_exists ''positions'' ''positions_version_idx'') (create_index ''positions'' ''positions_version_idx'' [''version'']),
      execute_ext ext (segment_statement ''orders'' ''account_id,symbol,status,version''),
      execute_ext ext (segment_statement ''positions'' ''account_id,symbol,version'')]"

definition downgrade_003 :: "extension \<Rightarrow> (schema, unit) io" where
  "downgrade_003 ext = io_seq
     [execute_ext ext (segment_statement ''orders'' ''account_id,symbol''),
      execute_ext ext (segment_statement ''positions'' ''account_id,symbol''),
      provided (index_exists ''positions'' ''positions_version_idx'') (drop_index ''positions'' ''positions_version_idx''),
      provided (index_exists ''orders'' ''orders_idempotency_key_idx'') (drop_index ''orders'' ''orders_idempotency_key_idx''),
      provided (index_exists ''orders'' ''orders_client_order_id_idx'') (drop_index ''orders'' ''orders_client_order_id_idx''),
      provided (constraint_exists ''orders'' ''uq_orders_idempotency_key'') (drop_constraint ''orders'' ''uq_orders_idempotency_key''),
      provided (constraint_exists ''orders'' ''fk_orders_parent_order'') (drop_constraint ''orders'' ''fk_orders_parent_order''),
      provided (column_exists ''positions'' ''realized_pnl'') (drop_column ''positions'' ''realized_pnl''),
      provided (column_exists ''positions'' ''unrealized_pnl'') (drop_column ''positions'' ''unrealized_pnl''),
      provided (column_exists ''positions'' ''version'') (drop_column ''positions'' ''version''),
      provided (column_exists ''orders'' ''parent_order_id'') (drop_column ''orders'' ''parent_order_id''),
      provided (column_exists ''orders'' ''idempotency_key'') (drop_column ''orders'' ''idempotency_key''),
      provided (column_exists ''orders'' ''version'') (drop_column ''orders'' ''version''),
      provided (column_exists ''orders'' ''client_order_id'') (drop_column ''orders'' ''client_order_id'')]"

subsection \<open>Revision 004\<close>

definition incident_table :: "string \<times> (string \<times> string) list" where
  "incident_table = (''risk_incidents'',
     [(''id'', ''UUID''), (''rule_type'', ''TEXT''), (''parameters'', ''JSONB''), (''actual_values'', ''JSONB''), (''order_id'', ''UUID''),
      (''account_id'', ''UUID''), (''action_taken'', ''TEXT''), (''created_at'', ''TIMESTAMPTZ'')])"

definition audit_log_table :: "string \<times> (string \<times> string) list" where
  "audit_log_table = (''trade_audit_log'',
     [(''id'', ''UUID''), (''order_id'', ''UUID''), (''event_type'', ''TEXT''), (''payload'', ''JSONB''), (''created_at'', ''TIMESTAMPTZ'')])"

text \<open>\<open>_table_exists(t) and not _index_exists(t, i)\<close>, and the same without the negation.\<close>

definition lacks_index :: "string \<Rightarrow> string \<Rightarrow> (schema, bool) io" where
  "lacks_index t i = io_bind (table_exists t) (\<lambda>b. if b then io_bind (index_exists t i) (\<lambda>x. io_return (\<not> x)) else io_return False)"

definition has_index :: "string \<Rightarrow> string \<Rightarrow> (schema, bool) io" where
  "has_index t i = io_bind (table_exists t) (\<lambda>b. if b then index_exists t i else io_return False)"

text \<open>The two anonymous blocks, their texts up to white space.\<close>

definition audit_hypertable_block :: string where
  "audit_hypertable_block = ''DO $$ BEGIN IF EXISTS (SELECT 1 FROM pg_extension WHERE extname = 'timescaledb') AND NOT EXISTS ( SELECT 1 FROM timescaledb_information.hypertables WHERE hypertable_schema = current_schema() AND hypertable_name = 'trade_audit_log' ) THEN PERFORM create_hypertable('trade_audit_log', 'created_at', if_not_exists => TRUE); END IF; END $$;''"

definition audit_compression_block :: string where
  "audit_compression_block = ''DO $$ BEGIN IF EXISTS ( SELECT 1 FROM timescaledb_information.hypertables WHERE hypertable_schema = current_schema() AND hypertable_name = 'trade_audit_log' ) THEN ALTER TABLE trade_audit_log SET (timescaledb.compress = true, timescaledb.compress_segmentby='order_id,event_type'); END IF; END $$;''"

definition upgrade_004 :: "extension \<Rightarrow> (schema, unit) io" where
  "upgrade_004 ext = io_seq
     [unless (table_exists ''risk_incidents'') (create_missing incident_table),
      unless (table_exists ''trade_audit_log'') (create_missing audit_log_table),
      provided (lacks_index ''risk_incidents'' ''ix_risk_incidents_order_id'') (create_index ''risk_incidents'' ''ix_risk_incidents_order_id'' [''order_id'']),
      provided (lacks_index ''risk_incidents'' ''ix_risk_incidents_account_id'') (create_index ''risk_incidents'' ''ix_risk_incidents_account_id'' [''account_id'']),
      provided (lacks_index ''trade_audit_log'' ''ix_trade_audit_log_order_id'') (create_index ''trade_audit_log'' ''ix_trade_audit_log_order_id'' [''order_id'']),
      provided (table_exists ''trade_audit_log'') (io_seq [execute_ext ext audit_hypertable_block, execute_ext ext audit_compression_block])]"

definition downgrade_004 :: "(schema, unit) io" where
  "downgrade_004 = io_seq
     [provided (has_index ''trade_audit_log'' ''ix_trade_audit_log_order_id'') (drop_index ''trade_audit_log'' ''ix_trade_audit_log_order_id''),
      provided (has_index ''risk_incidents'' ''ix_risk_incidents_account_id'') (drop_index ''risk_incidents'' ''ix_risk_incidents_account_id''),
      provided (has_index ''risk_incidents'' ''ix_risk_incidents_order_id'') (drop_index ''risk_incidents'' ''ix_risk_incidents_order_id''),
      provided (table_exists ''trade_audit_log'') (drop_existing ''trade_audit_log''),
      provided (table_exists ''risk_incidents'') (drop_existing ''risk_incidents'')]"

text \<open>The revisions in order, on a database that has the tables of the first one.\<close>

definition upgrade_head :: "extension \<Rightarrow> (schema, unit) io" where
  "upgrade_head ext = io_seq [upgrade_002 ext, upgrade_003 ext, upgrade_004 ext]"

subsection \<open>The columns of a statement\<close>

text \<open>Table and column list of \<open>INSERT INTO table (c, ..., c) ...\<close>.\<close>

fun until :: "char \<Rightarrow> string \<Rightarrow> string \<times> string" where
  "until c [] = ([], [])"
| "until c (x # xs) = (if x = c then ([], xs) else (let (a, b) = until c xs in (x # a, b)))"

fun split_names :: "string \<Rightarrow> string \<Rightarrow> string list" where
  "split_names acc [] = [rev acc]"
| "split_names acc (x # xs) = (if x = CHR '','' then rev acc # split_names [] xs
     else if x = CHR '' '' then split_names acc xs else split_names (x # acc) xs)"

definition insert_target :: "string \<Rightarrow> (string \<times> string list) option" where
  "insert_target sql = (if take 12 sql = ''INSERT INTO '' then
     (let (t, r) = until (CHR '' '') (drop 12 sql); (names, r') = until (CHR '')'') (drop 1 r) in Some (t, split_names [] names))
   else None)"

definition statement_fits :: "schema \<Rightarrow> string \<Rightarrow> bool" where
  "statement_fits s sql = (case insert_target sql of None \<Rightarrow> True
     | Some (t, cs) \<Rightarrow> list_all (\<lambda>c. c \<in> set (columns_of s t)) cs)"

lemma orders_insert:
  "insert_target sql_insert_order = Some (''orders'', [''id'', ''client_order_id'', ''account_id'', ''strategy_id'', ''model_id'', ''symbol'',
     ''side'', ''order_type'', ''quantity'', ''filled_quantity'', ''price'', ''stop_price'', ''limit_price'', ''status'', ''rejection_reason'',
     ''commission'', ''swap'', ''profit'', ''opened_at'', ''closed_at'', ''created_at'', ''updated_at'', ''version''])"
  unfolding sql_insert_order_def by code_simp

lemma trades_insert:
  "insert_target sql_insert_trade = Some (''trades'', [''id'', ''order_id'', ''account_id'', ''position_id'', ''symbol'', ''side'', ''volume'',
     ''price'', ''commission'', ''swap'', ''profit'', ''created_at''])"
  unfolding sql_insert_trade_def by code_simp

subsection \<open>Columns that no migration adds\<close>

text \<open>\<open>without t cs s\<close>: the table \<open>t\<close> is missing or has none of the columns \<open>cs\<close>.\<close>

definition without :: "string \<Rightarrow> string list \<Rightarrow> schema \<Rightarrow> bool" where
  "without t cs s = list_all (\<lambda>c. c \<notin> set (columns_of s t)) cs"

lemma columns_of_update: "columns_of (AList.update k tb s) t = (if t = k then map fst (sq_columns tb) else columns_of s t)"
  by (simp add: columns_of_def)

lemma without_create [preserves]:
  "fst tc \<noteq> t \<or> list_all (\<lambda>c. c \<notin> fst ` set (snd tc)) cs \<Longrightarrow> io_preserves (without t cs) (create_missing tc)"
  by (auto simp: io_preserves_def create_missing_def blank_table_def io_modify_def without_def columns_of_update list_all_iff)

lemma without_change:
  assumes "\<And>x. set cs \<inter> fst ` set (sq_columns (f x)) \<subseteq> fst ` set (sq_columns x)"
  shows "io_preserves (without t cs) (change_table k f)"
  unfolding io_preserves_def change_table_def io_modify_def
proof (intro allI impI, simp)
  fix s
  assume "without t cs s"
  then show "without t cs (case map_of s k of None \<Rightarrow> s | Some x \<Rightarrow> AList.update k (f x) s)"
    using assms by (cases "map_of s k") (fastforce simp: without_def list_all_iff columns_of_def split: if_splits)+
qed

lemma without_add [preserves]: "c \<notin> set cs \<Longrightarrow> io_preserves (without t cs) (add_column k c ty)"
  unfolding add_column_def by (rule without_change) auto

lemma without_add_elsewhere [preserves]: "k \<noteq> t \<Longrightarrow> io_preserves (without t cs) (add_column k c ty)"
  by (auto simp: io_preserves_def add_column_def change_table_def io_modify_def without_def columns_of_update split: option.splits)

lemma without_same_columns [preserves]:
  "io_preserves (without t cs) (create_index k n ks)" "io_preserves (without t cs) (create_constraint k n ks)"
  "io_preserves (without t cs) (drop_index k n)" "io_preserves (without t cs) (drop_constraint k n)"
  by (simp_all add: create_index_def create_constraint_def drop_index_def drop_constraint_def without_change)

lemma preserves_seq [preserves]: "(\<And>m. m \<in> set ms \<Longrightarrow> io_preserves P m) \<Longrightarrow> io_preserves P (io_seq ms)"
  by (induction ms) (simp_all add: preserves)

lemma preserves_guards [preserves]:
  "io_preserves P (execute_ext ext q)" "io_preserves P (inspect t f)"
  "io_preserves P b \<Longrightarrow> io_preserves P m \<Longrightarrow> io_preserves P (unless b m)"
  "io_preserves P b \<Longrightarrow> io_preserves P m \<Longrightarrow> io_preserves P (provided b m)"
  by (auto simp: execute_ext_def inspect_def unless_def provided_def intro!: preserves split: option.split)

lemma preserves_tests [preserves]:
  "io_preserves P (table_exists t)" "io_preserves P (column_exists t c)" "io_preserves P (constraint_exists t c)"
  "io_preserves P (index_exists t i)" "io_preserves P (lacks_index t i)" "io_preserves P (has_index t i)"
  by (simp_all add: table_exists_def column_exists_def constraint_exists_def index_exists_def lacks_index_def has_index_def preserves)

lemma without_upgrade_002:
  assumes "list_all (\<lambda>tc. fst tc \<noteq> t \<or> list_all (\<lambda>c. c \<notin> fst ` set (snd tc)) cs) (broker_accounts_table # core_tables)"
  shows "io_preserves (without t cs) (upgrade_002 ext)"
  unfolding upgrade_002_def
  by (rule preserves_seq) (use assms in \<open>auto simp: list_all_iff intro!: preserves split: prod.splits\<close>)

lemma without_upgrade_003:
  assumes "list_all (\<lambda>(k, c). k \<noteq> t \<or> c \<notin> set cs)
    [(''orders'', ''client_order_id''), (''orders'', ''version''), (''orders'', ''idempotency_key''), (''orders'', ''parent_order_id''),
     (''positions'', ''version''), (''positions'', ''unrealized_pnl''), (''positions'', ''realized_pnl'')]"
  shows "io_preserves (without t cs) (upgrade_003 ext)"
proof -
  have *: "k \<noteq> t \<or> c \<notin> set cs \<Longrightarrow> io_preserves (without t cs) (add_column k c ty)" for k c ty
    using without_add without_add_elsewhere by blast
  show ?thesis
    unfolding upgrade_003_def by (rule preserves_seq) (use assms in \<open>auto intro!: preserves *\<close>)
qed

lemma without_upgrade_004:
  assumes "list_all (\<lambda>tc. fst tc \<noteq> t \<or> list_all (\<lambda>c. c \<notin> fst ` set (snd tc)) cs) [incident_table, audit_log_table]"
  shows "io_preserves (without t cs) (upgrade_004 ext)"
  unfolding upgrade_004_def by (rule preserves_seq) (use assms in \<open>auto intro!: preserves\<close>)

text \<open>What the statements of the repository name and no migration adds.\<close>

definition missing_columns :: "(string \<times> string list) list" where
  "missing_columns =
     [(''orders'', [''price'', ''stop_price'', ''limit_price'', ''rejection_reason'', ''commission'', ''swap'', ''profit'', ''closed_at'']),
      (''trades'', [''order_id'', ''position_id'', ''commission'', ''swap'', ''created_at'']),
      (''positions'', [''current_price''])]"

lemma upgrade_without:
  assumes "(t, cs) \<in> set missing_columns"
  shows "io_preserves (without t cs) (upgrade_head ext)"
proof -
  have "io_preserves (without t cs) (upgrade_002 ext)"
    by (rule without_upgrade_002) (use assms in \<open>auto simp: missing_columns_def broker_accounts_table_def core_tables_def\<close>)
  moreover have "io_preserves (without t cs) (upgrade_003 ext)"
    by (rule without_upgrade_003) (use assms in \<open>auto simp: missing_columns_def\<close>)
  moreover have "io_preserves (without t cs) (upgrade_004 ext)"
    by (rule without_upgrade_004) (use assms in \<open>auto simp: missing_columns_def incident_table_def audit_log_table_def\<close>)
  ultimately show ?thesis
    unfolding upgrade_head_def by (intro preserves_seq) auto
qed

subsection \<open>The repository on the migrated schema\<close>

text \<open>
  What PostgreSQL promises of a statement that names a missing column: it is refused and changes
  nothing. No call of the repository changes the schema.
\<close>

definition refused :: "'w pg_api \<Rightarrow> string \<Rightarrow> 'w \<Rightarrow> bool" where
  "refused pg sql w = (\<forall>args. pg_fetchrow pg sql args w = (Inl (OtherException ''UndefinedColumnError''), w))"

definition schema_checked :: "'w pg_api \<Rightarrow> ('w \<Rightarrow> schema) \<Rightarrow> bool" where
  "schema_checked pg sch =
     ((\<forall>sql w. \<not> statement_fits (sch w) sql \<longrightarrow> refused pg sql w) \<and>
      (\<forall>sql args. io_keeps sch (pg_fetchrow pg sql args)) \<and>
      io_keeps sch (pg_begin pg) \<and> io_keeps sch (pg_commit pg) \<and> io_keeps sch (pg_rollback pg))"

lemma without_unfit:
  assumes "insert_target sql = Some (t, cs')" and "without t cs s" and "c \<in> set cs" and "c \<in> set cs'"
  shows "\<not> statement_fits s sql"
  using assms by (auto simp: statement_fits_def without_def list_all_iff)

lemma refusedD: "refused pg sql w \<Longrightarrow> pg_fetchrow pg sql args w = (Inl (OtherException ''UndefinedColumnError''), w)"
  by (simp add: refused_def)

lemma io_bind_isl: "(\<And>a s'. m s = (Inr a, s') \<Longrightarrow> isl (fst (f a s'))) \<Longrightarrow> isl (fst (io_bind m f s))"
  by (auto simp: io_bind_def split: prod.splits sum.splits)

text \<open>An attempt that fails, and fails again from whatever it leaves, fails through the retries.\<close>

lemma execute_retry_isl:
  assumes "\<And>s. P s \<Longrightarrow> isl (fst (fn s))" and "io_preserves P fn" and "P s"
  shows "isl (fst (execute_retry fn n s))"
proof -
  have "isl (fst (retry_loop fn n e s))" if "P s" for e s
    using that
  proof (induction n arbitrary: e s)
    case (Suc n)
    then show ?case using assms(1) io_preservesD [OF assms(2) Suc.prems]
      by (force split: prod.splits sum.splits simp: isl_def)
  qed simp
  then show ?thesis using assms(3) by (simp add: execute_retry_def)
qed

lemma io_preserves_try [preserves]: "io_preserves P m \<Longrightarrow> io_preserves P (io_try m)"
  by (auto simp: io_preserves_def io_try_def split: prod.splits)

lemma driver_keeps: "io_keeps f m \<Longrightarrow> io_preserves (\<lambda>(r, w). rp_pool r \<and> f w = c) (driver m)"
  by (auto simp: io_preserves_def io_keeps_def driver_eq)

lemma save_order_preserves:
  assumes "schema_checked pg sch"
  shows "io_preserves (\<lambda>(r, w). rp_pool r \<and> sch w = c) (save_order_run pg d)"
  using assms unfolding save_order_run_def save_body_def with_pool_def in_transaction_def schema_checked_def
  by (auto intro!: preserves driver_keeps split: option.splits sum.splits)

lemma insert_order_refused:
  assumes "schema_checked pg sch" and "without ''orders'' [''price''] (sch w)"
  shows "refused pg sql_insert_order w"
  using assms without_unfit [OF orders_insert, of "[''price'']" "sch w" "''price''"] by (simp add: schema_checked_def)

lemma save_order_run_fails:
  assumes laws: "schema_checked pg sch" and "rp_pool r" and lacks: "without ''orders'' [''price''] (sch w)"
    and unknown: "\<And>w. fst (pg_fetchrow pg sql_find_client [pyget d ''client_order_id''] w) = Inr None"
  shows "isl (fst (save_order_run pg d (r, w)))"
proof -
  have body: "isl (fst (io_bind (driver (pg_fetchrow pg sql_find_client [pyget d ''client_order_id''])) (\<lambda>existing. case found existing of
        Some d \<Rightarrow> io_lift (row_id (Some d))
      | None \<Rightarrow> io_bind (io_lift (insert_args d)) (\<lambda>args.
          io_bind (driver (pg_fetchrow pg sql_insert_order args)) (\<lambda>row. io_lift (row_id row)))) (r, w)))"
    (is "isl (fst (?body (r, w)))") if "without ''orders'' [''price''] (sch w)" for w
  proof -
    define w1 where "w1 = snd (pg_fetchrow pg sql_find_client [pyget d ''client_order_id''] w)"
    have "sch w1 = sch w" using laws by (simp add: w1_def schema_checked_def io_keeps_def)
    then have "refused pg sql_insert_order w1" using insert_order_refused [OF laws] that by simp
    then show ?thesis using unknown [of w]
      by (auto simp: io_bind_def driver_eq found_def io_lift_def refused_def w1_def split: prod.splits sum.splits)
  qed
  have keep: "sch (snd (pg_begin pg w)) = sch w" using laws by (simp add: schema_checked_def io_keeps_def)
  show ?thesis
    unfolding save_order_run_def save_body_def with_pool_open [OF assms(2)] in_transaction_def
    using body [of "snd (pg_begin pg w)"] keep lacks
    by (force simp: io_bind_def driver_eq io_try_def io_raise_def isl_def split: prod.splits sum.splits)
qed

text \<open>
  C16. On a database that the migrations have built, whatever the time-series extension answers and
  whether the upgrade finishes or not, no order and no trade is ever stored: the INSERT statements
  name columns (\<open>price\<close>, \<open>rejection_reason\<close> and others of orders; \<open>order_id\<close>, \<open>commission\<close> and others of
  trades) that no revision creates, so saving an order with a new client id fails through its
  retries and saving a trade fails; and closing a position names \<open>current_price\<close>, which
  is not a column of positions.
\<close>

theorem migrated_schema_stores_nothing:
  assumes laws: "schema_checked pg sch" and open_pool: "rp_pool r"
    and fresh: "list_all (\<lambda>t. map_of s t = None) [''orders'', ''trades'', ''positions'']"
    and migrated: "sch w = snd (upgrade_head ext s)"
    and unknown: "\<And>w. fst (pg_fetchrow pg sql_find_client [pyget d ''client_order_id''] w) = Inr None"
  shows "isl (fst (save_order pg d (r, w))) \<and> isl (fst (save_trade pg t (r, w))) \<and>
    ''current_price'' \<notin> set (columns_of (sch w) ''positions'')"
proof -
  have start: "without k cs s" if "k \<in> {''orders'', ''trades'', ''positions''}" for k cs
    using fresh that by (auto simp: without_def columns_of_def list_all_iff)
  have "\<forall>(k, cs) \<in> set missing_columns. without k cs (sch w)"
    using io_preservesD [OF upgrade_without start] migrated by (simp add: missing_columns_def)
  then have lacks: "without ''orders'' [''price''] (sch w)" "without ''trades'' [''order_id''] (sch w)"
      "''current_price'' \<notin> set (columns_of (sch w) ''positions'')"
    by (auto simp: missing_columns_def without_def)
  have "isl (fst (save_order pg d (r, w)))"
    unfolding save_order_def
    by (rule execute_retry_isl [where P = "\<lambda>(r, v). rp_pool r \<and> sch v = sch w", OF _ save_order_preserves [OF laws]])
       (use open_pool lacks(1) save_order_run_fails [OF laws _ _ unknown] in auto)
  moreover have "refused pg sql_insert_trade w"
    using laws without_unfit [OF trades_insert lacks(2)] by (simp add: schema_checked_def)
  then have "isl (fst (save_trade pg t (r, w)))"
    unfolding save_trade_def with_pool_open [OF open_pool]
    by (intro io_bind_isl) (simp add: io_lift_def refusedD driver_eq io_bind_def split: sum.splits)
  ultimately show ?thesis using lacks(3) by simp
qed


text \<open>A database that is its schema: it refuses statements that do not fit and has no rows.\<close>

definition schema_pg :: "schema pg_api" where
  "schema_pg = \<lparr>pg_create_pool = \<lambda>_ _ _. io_return (), pg_close_pool = io_return (), pg_begin = io_return (),
     pg_commit = io_return (), pg_rollback = io_return (),
     pg_fetchrow = (\<lambda>sql args w. (if statement_fits w sql then Inr None else Inl (OtherException ''UndefinedColumnError''), w)),
     pg_fetch = \<lambda>_ _. io_return [], pg_fetchval = \<lambda>_ _. io_return PNone, pg_execute = \<lambda>_ _. io_return ''UPDATE 0''\<rparr>"

lemma schema_pg_checked: "schema_checked schema_pg (\<lambda>w. w)"
  by (simp add: schema_checked_def schema_pg_def refused_def io_keeps_def io_return_def)

theorem migrated_schema_stores_nothing_witness:
  "isl (fst (save_order schema_pg [(''client_order_id'', PStr ''c1'')] (open_repo, snd (upgrade_head (\<lambda>_. Inr ()) [])))) \<and>
   isl (fst (save_trade schema_pg [(''symbol'', PStr ''EURUSD'')] (open_repo, snd (upgrade_head (\<lambda>_. Inr ()) [])))) \<and>
   ''current_price'' \<notin> set (columns_of (snd (upgrade_head (\<lambda>_. Inr ()) [])) ''positions'')"
  by (rule migrated_schema_stores_nothing [OF schema_pg_checked, where s = "[]" and ext = "\<lambda>_. Inr ()"])
     (simp_all add: open_repo_def schema_pg_def statement_fits_def insert_target_def sql_find_client_def)

end
