(* ===== verification/Migration_Test.thy ===== *)
theory Migration_Test
  imports Migrations
begin

text \<open>
  The script \<^verbatim>\<open>scripts/migration_test.py\<close> on the schema of \<^verbatim>\<open>migrations/0001_init.sql\<close>. The upgrades
  are run symbolically: \<open>ddl_runs\<close> says what each guarded statement does, and \<open>tables_are\<close> describes
  the tables of orders and positions between two revisions.
\<close>

subsection \<open>The test\<close>

text \<open>
  \<^verbatim>\<open>scripts/migration_test.py\<close>. A column type as \<^verbatim>\<open>information_schema\<close> names it; the statements of
  \<open>insert_and_verify\<close> are refused when they do not fit the schema, and leave rows otherwise, which the
  model does not have.
\<close>

definition data_type :: "string \<Rightarrow> string" where
  "data_type ty = (if ty = ''TEXT'' then ''text'' else if ty = ''INTEGER'' then ''integer'' else if ty = ''UUID'' then ''uuid''
     else if ty = ''NUMERIC(10, 2)'' then ''numeric'' else ty)"

definition fetch_columns :: "string \<Rightarrow> (schema, (string \<times> string) list) io" where
  "fetch_columns t = io_get (\<lambda>s. case map_of s t of None \<Rightarrow> [] | Some tb \<Rightarrow> map (map_prod (\<lambda>c. c) data_type) (sq_columns tb))"

definition assert_that :: "bool \<Rightarrow> (schema, unit) io" where
  "assert_that b = (if b then io_return () else io_raise AssertionError)"

definition expected_orders :: "(string \<times> string) list" where
  "expected_orders = [(''client_order_id'', ''text''), (''version'', ''integer''), (''idempotency_key'', ''text''), (''parent_order_id'', ''uuid'')]"

definition expected_positions :: "(string \<times> string) list" where
  "expected_positions = [(''version'', ''integer''), (''unrealized_pnl'', ''numeric''), (''realized_pnl'', ''numeric'')]"

definition assert_columns :: "(schema, unit) io" where
  "assert_columns = io_bind (fetch_columns ''orders'') (\<lambda>orders. io_bind (fetch_columns ''positions'') (\<lambda>positions.
     io_seq (map (\<lambda>(k, v). if k = ''parent_order_id''
         then assert_that (map_of orders k = Some ''uuid'' \<or> map_of orders k = Some ''text'')
         else assert_that (map_of orders k = Some v)) expected_orders @
       map (\<lambda>(k, v). assert_that (map_of positions k = Some v)) expected_positions)))"

definition zero_byte :: string where
  "zero_byte = [CHR 0x27, CHR 0x5C] @ ''x00'' @ [CHR 0x27]"

definition test_inserts :: "string list" where
  "test_inserts =
     [''INSERT INTO users (email,password_hash,role,is_active) VALUES ('t@e.com','x','USER',true) ON CONFLICT DO NOTHING'',
      ''INSERT INTO broker_accounts (user_id,broker_name,account_login,server,environment,encrypted_credentials,credentials_nonce,status) VALUES (1,'b','a','s','demo','' @
        zero_byte @ '','' @ zero_byte @ '','ok') ON CONFLICT DO NOTHING'',
      ''INSERT INTO orders (opened_at, account_id, symbol, side, order_type, quantity, status, client_order_id, version) VALUES (NOW(), (SELECT id FROM broker_accounts LIMIT 1), 'EURUSD','BUY','MARKET',1,'PENDING','cid-1',1)'',
      ''INSERT INTO positions (opened_at, account_id, symbol, side, quantity, entry_price, version, unrealized_pnl, realized_pnl) VALUES (NOW(), (SELECT id FROM broker_accounts LIMIT 1), 'EURUSD','BUY',1,1.1,1,0,0)'']"

definition insert_and_verify :: "(schema, unit) io" where
  "insert_and_verify = io_seq (map (\<lambda>sql. io_bind (io_get (\<lambda>s. statement_fits s sql)) (\<lambda>b.
     if b then io_return () else io_raise (OtherException ''UndefinedColumn''))) test_inserts)"

definition migration_test :: "extension \<Rightarrow> (schema, unit) io" where
  "migration_test ext = io_seq
     [upgrade_002 ext, upgrade_003 ext, assert_columns, insert_and_verify, downgrade_003 ext,
      io_bind (fetch_columns ''orders'') (\<lambda>cols. assert_that (map_of cols ''client_order_id'' = None)),
      upgrade_003 ext, upgrade_004 ext, assert_columns]"

text \<open>The tables of \<^verbatim>\<open>migrations/0001_init.sql\<close>.\<close>

definition init_schema :: schema where
  "init_schema = map (map_prod (\<lambda>t. t) blank_table)
     [(''users'', [(''id'', ''SERIAL''), (''email'', ''VARCHAR(320)''), (''password_hash'', ''VARCHAR(512)''), (''role'', ''role_enum''),
        (''is_active'', ''BOOLEAN''), (''created_at'', ''TIMESTAMPTZ'')]),
      (''refresh_tokens'', [(''id'', ''SERIAL''), (''user_id'', ''INTEGER''), (''token_hash'', ''VARCHAR(128)''), (''device_fingerprint'', ''VARCHAR(256)''),
        (''expires_at'', ''TIMESTAMPTZ''), (''revoked'', ''BOOLEAN''), (''last_activity_at'', ''TIMESTAMPTZ''), (''created_at'', ''TIMESTAMPTZ'')]),
      (''audit_trail'', [(''id'', ''SERIAL''), (''user_id'', ''INTEGER''), (''action'', ''audit_action_enum''), (''resource_type'', ''VARCHAR(64)''),
        (''resource_id'', ''VARCHAR(64)''), (''details'', ''JSONB''), (''ip_address'', ''VARCHAR(128)''), (''created_at'', ''TIMESTAMPTZ'')]),
      (''api_key_vault'', [(''id'', ''SERIAL''), (''user_id'', ''INTEGER''), (''provider'', ''VARCHAR(100)''), (''key_last4'', ''VARCHAR(4)''),
        (''encrypted_dek'', ''BYTEA''), (''dek_nonce'', ''BYTEA''), (''ciphertext'', ''BYTEA''), (''data_nonce'', ''BYTEA''), (''meta'', ''JSONB''),
        (''created_at'', ''TIMESTAMPTZ''), (''updated_at'', ''TIMESTAMPTZ'')])]"

subsection \<open>Runs on the first schema\<close>

text \<open>An extension that accepts every statement.\<close>

abbreviation accepting :: extension where "accepting \<equiv> \<lambda>_. Inr ()"

lemma seq_run: "io_seq [] s = (Inr (), s)" "io_seq (m # ms) s = (case m s of (Inl e, s') \<Rightarrow> (Inl e, s') | (Inr u, s') \<Rightarrow> io_seq ms s')"
  by (auto simp: io_return_def io_bind_def split: prod.splits sum.splits)

lemma seq_append: "io_seq (xs @ ys) s = (case io_seq xs s of (Inl e, s') \<Rightarrow> (Inl e, s') | (Inr u, s') \<Rightarrow> io_seq ys s')"
  by (induction xs arbitrary: s) (auto simp: seq_run simp del: io_seq.simps split: prod.splits sum.splits)

lemma ext_run: "execute_ext accepting q s = (Inr (), s)"
  by (simp add: execute_ext_def io_lift_def)

lemma seq_ext: "io_seq (map (execute_ext accepting) qs) s = (Inr (), s)"
  "io_seq (map (\<lambda>h. execute_ext accepting (g h)) hs) s = (Inr (), s)"
  by (induction qs, simp_all add: seq_run ext_run) (induction hs, simp_all add: seq_run ext_run)

lemma seq_create:
  "distinct (map fst s @ map fst tcs) \<Longrightarrow> io_seq (map create_missing tcs) s = (Inr (), s @ map (map_prod (\<lambda>t. t) blank_table) tcs)"
proof (induction tcs arbitrary: s)
  case (Cons tc tcs)
  have "fst tc \<notin> fst ` set s" using Cons.prems by force
  then have "create_missing tc s = (Inr (), s @ [(fst tc, blank_table (snd tc))])"
    by (simp add: create_missing_def io_modify_def update_fresh map_of_eq_None_iff)
  then show ?case using Cons by (simp add: seq_run map_prod_def split: prod.splits)
qed (simp add: seq_run)

lemma guard_run:
  "unless (column_exists t c) m s = (case map_of s t of None \<Rightarrow> (Inl (OtherException ''NoSuchTableError''), s)
     | Some x \<Rightarrow> if c \<in> set (map fst (sq_columns x)) then (Inr (), s) else m s)"
  "unless (constraint_exists t c) m s = (case map_of s t of None \<Rightarrow> (Inl (OtherException ''NoSuchTableError''), s)
     | Some x \<Rightarrow> if c \<in> set (map fst (sq_constraints x)) then (Inr (), s) else m s)"
  "unless (index_exists t c) m s = (case map_of s t of None \<Rightarrow> (Inl (OtherException ''NoSuchTableError''), s)
     | Some x \<Rightarrow> if c \<in> set (map fst (sq_indexes x)) then (Inr (), s) else m s)"
  "provided (column_exists t c) m s = (case map_of s t of None \<Rightarrow> (Inl (OtherException ''NoSuchTableError''), s)
     | Some x \<Rightarrow> if c \<in> set (map fst (sq_columns x)) then m s else (Inr (), s))"
  "provided (constraint_exists t c) m s = (case map_of s t of None \<Rightarrow> (Inl (OtherException ''NoSuchTableError''), s)
     | Some x \<Rightarrow> if c \<in> set (map fst (sq_constraints x)) then m s else (Inr (), s))"
  "provided (index_exists t c) m s = (case map_of s t of None \<Rightarrow> (Inl (OtherException ''NoSuchTableError''), s)
     | Some x \<Rightarrow> if c \<in> set (map fst (sq_indexes x)) then m s else (Inr (), s))"
  "unless (table_exists t) m s = (if map_of s t \<noteq> None then (Inr (), s) else m s)"
  "provided (table_exists t) m s = (if map_of s t \<noteq> None then m s else (Inr (), s))"
  "provided (lacks_index t c) m s = (case map_of s t of None \<Rightarrow> (Inr (), s)
     | Some x \<Rightarrow> if c \<in> set (map fst (sq_indexes x)) then (Inr (), s) else m s)"
  by (auto simp: unless_def provided_def column_exists_def constraint_exists_def index_exists_def table_exists_def lacks_index_def inspect_def
      io_simps split: option.splits)

lemma change_run: "change_table t f s = (Inr (), case map_of s t of None \<Rightarrow> s | Some x \<Rightarrow> AList.update t (f x) s)"
  by (simp add: change_table_def io_modify_def)

lemmas ddl_runs = seq_run ext_run guard_run change_run create_index_def drop_index_def add_column_def drop_column_def create_constraint_def drop_constraint_def

definition schema_002 :: schema where
  "schema_002 = init_schema @
    [(''broker_accounts'', \<lparr>sq_columns = snd broker_accounts_table, sq_constraints = [], sq_indexes = [(''ix_broker_accounts_user_id'', [''user_id''])]\<rparr>)] @
    map (\<lambda>(t, cs). (t, \<lparr>sq_columns = cs, sq_constraints = [], sq_indexes = map snd (filter (\<lambda>(u, i). u = t) core_indexes)\<rparr>)) core_tables"

lemma tables_002:
  "io_seq [create_missing broker_accounts_table] init_schema = (Inr (), init_schema @ [(''broker_accounts'', blank_table (snd broker_accounts_table))])"
  "io_seq (map create_missing core_tables) (init_schema @ [(''broker_accounts'', blank_table (snd broker_accounts_table))]) =
     (Inr (), init_schema @ [(''broker_accounts'', blank_table (snd broker_accounts_table))] @ map (map_prod (\<lambda>t. t) blank_table) core_tables)"
  using seq_create [of init_schema "[broker_accounts_table]"]
    seq_create [of "init_schema @ [(''broker_accounts'', blank_table (snd broker_accounts_table))]" core_tables]
  by (simp_all add: init_schema_def core_tables_def broker_accounts_table_def del: io_seq.simps)

lemma upgrade_002_run: "upgrade_002 accepting init_schema = (Inr (), schema_002)"
  unfolding upgrade_002_def
  by (simp only: seq_append seq_ext tables_002 prod.case sum.case)
     (simp add: ddl_runs core_indexes_def core_tables_def init_schema_def broker_accounts_table_def blank_table_def schema_002_def)

text \<open>The two tables that the later revisions change, from one revision to the next.\<close>

definition orders_core :: "(string \<times> string) list" where
  "orders_core = [(''opened_at'', ''TIMESTAMPTZ''), (''id'', ''UUID''), (''account_id'', ''UUID''), (''strategy_id'', ''UUID''), (''model_id'', ''UUID''),
     (''symbol'', ''TEXT''), (''side'', ''TEXT''), (''order_type'', ''TEXT''), (''quantity'', ''DOUBLE PRECISION''),
     (''filled_quantity'', ''DOUBLE PRECISION''), (''status'', ''TEXT''), (''created_at'', ''TIMESTAMPTZ''), (''updated_at'', ''TIMESTAMPTZ'')]"

definition orders_at :: "(string \<times> string) list \<Rightarrow> bool \<Rightarrow> sql_table" where
  "orders_at cs extended = \<lparr>sq_columns = cs,
     sq_constraints = (if extended then [(''fk_orders_parent_order'', [''parent_order_id'']), (''uq_orders_idempotency_key'', [''idempotency_key''])] else []),
     sq_indexes = (''ix_orders_account_status_opened'', [''account_id'', ''status'', ''opened_at'']) # (if extended
       then [(''orders_client_order_id_idx'', [''client_order_id'']), (''orders_idempotency_key_idx'', [''idempotency_key''])] else [])\<rparr>"

definition positions_at :: "bool \<Rightarrow> sql_table" where
  "positions_at extended = \<lparr>sq_columns = snd (core_tables ! 9) @ (if extended
       then [(''version'', ''INTEGER''), (''unrealized_pnl'', ''NUMERIC(10, 2)''), (''realized_pnl'', ''NUMERIC(10, 2)'')] else []),
     sq_constraints = [],
     sq_indexes = (''ix_positions_account_symbol_opened'', [''account_id'', ''symbol'', ''opened_at'']) # (if extended
       then [(''positions_version_idx'', [''version''])] else [])\<rparr>"

definition orders_002 :: "(string \<times> string) list" where
  "orders_002 = snd (core_tables ! 8)"

definition orders_003 :: "(string \<times> string) list" where
  "orders_003 = orders_002 @ [(''idempotency_key'', ''TEXT''), (''parent_order_id'', ''UUID'')]"

definition orders_head :: "(string \<times> string) list" where
  "orders_head = orders_core @ [(''client_order_id'', ''TEXT''), (''version'', ''INTEGER''), (''idempotency_key'', ''TEXT''), (''parent_order_id'', ''UUID'')]"

lemmas tables_at = orders_at_def positions_at_def orders_002_def orders_003_def orders_head_def orders_core_def

lemma schema_002_tables:
  "map_of schema_002 ''orders'' = Some (orders_at orders_002 False)"
  "map_of schema_002 ''positions'' = Some (positions_at False)"
  by (simp_all add: schema_002_def init_schema_def core_tables_def core_indexes_def tables_at)

definition tables_are :: "(string \<times> string) list \<Rightarrow> bool \<Rightarrow> schema \<Rightarrow> schema \<Rightarrow> bool" where
  "tables_are cs extended s0 s \<longleftrightarrow> map_of s ''orders'' = Some (orders_at cs extended) \<and> map_of s ''positions'' = Some (positions_at extended) \<and>
     (\<forall>t. t \<noteq> ''orders'' \<longrightarrow> t \<noteq> ''positions'' \<longrightarrow> map_of s t = map_of s0 t)"

lemma tables_areD:
  assumes "tables_are cs e s0 s"
  shows "map_of s ''orders'' = Some (orders_at cs e)" "map_of s ''positions'' = Some (positions_at e)"
  "\<And>t. t \<noteq> ''orders'' \<Longrightarrow> t \<noteq> ''positions'' \<Longrightarrow> map_of s t = map_of s0 t"
  using assms by (auto simp: tables_are_def)

lemma upgrade_003_first:
  assumes "tables_are orders_002 False s0 s"
  shows "\<exists>s'. upgrade_003 accepting s = (Inr (), s') \<and> tables_are orders_003 True s0 s'"
  using tables_areD [OF assms]
  by (simp add: upgrade_003_def ddl_runs tables_are_def tables_at core_tables_def)

lemma upgrade_003_again:
  assumes "tables_are orders_core False s0 s"
  shows "\<exists>s'. upgrade_003 accepting s = (Inr (), s') \<and> tables_are orders_head True s0 s'"
  using tables_areD [OF assms]
  by (simp add: upgrade_003_def ddl_runs tables_are_def tables_at core_tables_def)

lemma downgrade_003_run:
  assumes "tables_are orders_003 True s0 s"
  shows "\<exists>s'. downgrade_003 accepting s = (Inr (), s') \<and> tables_are orders_core False s0 s'"
  using tables_areD [OF assms]
  by (simp add: downgrade_003_def ddl_runs tables_are_def tables_at core_tables_def)


lemma assert_run: "assert_that b s = (if b then Inr () else Inl AssertionError, s)"
  by (simp add: assert_that_def io_simps)

lemma fetch_run: "io_bind (fetch_columns t) f s = f (case map_of s t of None \<Rightarrow> [] | Some tb \<Rightarrow> map (map_prod (\<lambda>c. c) data_type) (sq_columns tb)) s"
  by (simp add: fetch_columns_def io_simps)

lemma fit_run: "io_bind (io_get (\<lambda>s. statement_fits s sql)) (\<lambda>b. if b then io_return () else io_raise e) s =
   (if statement_fits s sql then Inr () else Inl e, s)"
  by (simp add: io_simps)

lemma upgrade_004_run:
  assumes "tables_are cs True schema_002 s"
  shows "\<exists>s'. upgrade_004 accepting s = (Inr (), s') \<and> map_of s' ''orders'' = map_of s ''orders'' \<and> map_of s' ''positions'' = map_of s ''positions'' \<and>
    (\<forall>t. map_of s t \<noteq> None \<longrightarrow> map_of s' t \<noteq> None)"
proof -
  have "map_of s ''risk_incidents'' = Some (blank_table (snd (core_tables ! 10)))" "map_of s ''trade_audit_log'' = None"
    using tables_areD(3) [OF assms, of "''risk_incidents''"] tables_areD(3) [OF assms, of "''trade_audit_log''"]
    by (simp_all add: schema_002_def init_schema_def core_tables_def core_indexes_def blank_table_def)
  then show ?thesis
    by (simp add: upgrade_004_def ddl_runs blank_table_def audit_log_table_def create_missing_def io_modify_def)
qed

lemma assert_columns_run:
  assumes "map_of s ''orders'' = Some (orders_at cs e)" "map_of s ''positions'' = Some (positions_at True)"
    and "cs \<in> {orders_003, orders_head}"
  shows "assert_columns s = (Inr (), s)"
  using assms
  by (auto simp add: assert_columns_def fetch_run seq_run assert_run expected_orders_def expected_positions_def tables_at core_tables_def data_type_def)

lemma test_targets: "map insert_target test_inserts =
  [Some (''users'', [''email'', ''password_hash'', ''role'', ''is_active'']),
   Some (''broker_accounts'', [''user_id'', ''broker_name'', ''account_login'', ''server'', ''environment'', ''encrypted_credentials'', ''credentials_nonce'', ''status'']),
   Some (''orders'', [''opened_at'', ''account_id'', ''symbol'', ''side'', ''order_type'', ''quantity'', ''status'', ''client_order_id'', ''version'']),
   Some (''positions'', [''opened_at'', ''account_id'', ''symbol'', ''side'', ''quantity'', ''entry_price'', ''version'', ''unrealized_pnl'', ''realized_pnl''])]"
  by code_simp

lemma fitting_inserts_run: "list_all (\<lambda>sql. case insert_target sql of None \<Rightarrow> True | Some (t, cs) \<Rightarrow> list_all (\<lambda>c. c \<in> set (columns_of s t)) cs) qs \<Longrightarrow>
  io_seq (map (\<lambda>sql. io_bind (io_get (\<lambda>s. statement_fits s sql)) (\<lambda>b. if b then io_return () else io_raise e)) qs) s = (Inr (), s)"
  by (induction qs) (simp_all add: seq_run fit_run statement_fits_def)

lemma list_all_map: "list_all P (map f xs) = list_all (\<lambda>x. P (f x)) xs"
  by (simp add: list_all_iff)

lemma inserts_run:
  assumes "tables_are orders_003 True schema_002 s"
  shows "insert_and_verify s = (Inr (), s)"
  unfolding insert_and_verify_def
proof (rule fitting_inserts_run)
  have "map_of s ''users'' = map_of schema_002 ''users''" "map_of s ''broker_accounts'' = map_of schema_002 ''broker_accounts''"
    using tables_areD(3) [OF assms] by simp_all
  then have "columns_of s ''users'' = [''id'', ''email'', ''password_hash'', ''role'', ''is_active'', ''created_at'']"
    "columns_of s ''broker_accounts'' = map fst (snd broker_accounts_table)"
    by (simp_all add: columns_of_def schema_002_def init_schema_def blank_table_def)
  moreover have "columns_of s ''orders'' = map fst orders_003" "columns_of s ''positions'' = map fst (snd (core_tables ! 9)) @ [''version'', ''unrealized_pnl'', ''realized_pnl'']"
    using tables_areD [OF assms] by (simp_all add: columns_of_def orders_at_def positions_at_def)
  ultimately have "list_all (\<lambda>r. case r of None \<Rightarrow> True | Some (t, cs) \<Rightarrow> list_all (\<lambda>c. c \<in> set (columns_of s t)) cs) (map insert_target test_inserts)"
    unfolding test_targets by (simp add: broker_accounts_table_def orders_003_def orders_002_def core_tables_def)
  then show "list_all (\<lambda>sql. case insert_target sql of None \<Rightarrow> True | Some (t, cs) \<Rightarrow> list_all (\<lambda>c. c \<in> set (columns_of s t)) cs) test_inserts"
    by (simp add: list_all_map)
qed

lemma tables_are_002: "tables_are orders_002 False schema_002 schema_002"
  by (simp add: tables_are_def schema_002_tables)

text \<open>
  With an extension that accepts every statement, the migration test passes on the schema of
  \<^verbatim>\<open>0001_init.sql\<close>: the upgrades succeed, the columns have the expected types, its INSERT statements fit, and the upgrades
  succeed again after the downgrade. But the downgrade of 003 is not the inverse of its upgrade: it
  drops the client order ids and the versions of orders, which 002 had created, and the test asks for that.
\<close>

theorem migration_test_passes:
  "fst (migration_test accepting init_schema) = Inr () \<and>
   columns_of (snd (io_seq [upgrade_002 accepting, upgrade_003 accepting, downgrade_003 accepting] init_schema)) ''orders'' =
     filter (\<lambda>c. c \<noteq> ''client_order_id'' \<and> c \<noteq> ''version'') (columns_of (snd (upgrade_002 accepting init_schema)) ''orders'') \<and>
   {''client_order_id'', ''version''} \<subseteq> set (columns_of (snd (upgrade_002 accepting init_schema)) ''orders'')"
proof -
  obtain s3 where s3: "upgrade_003 accepting schema_002 = (Inr (), s3)" "tables_are orders_003 True schema_002 s3"
    using upgrade_003_first [OF tables_are_002] by blast
  obtain s2 where s2: "downgrade_003 accepting s3 = (Inr (), s2)" "tables_are orders_core False schema_002 s2"
    using downgrade_003_run [OF s3(2)] by blast
  obtain s4 where s4: "upgrade_003 accepting s2 = (Inr (), s4)" "tables_are orders_head True schema_002 s4"
    using upgrade_003_again [OF s2(2)] by blast
  obtain s5 where s5: "upgrade_004 accepting s4 = (Inr (), s5)" "map_of s5 ''orders'' = map_of s4 ''orders''" "map_of s5 ''positions'' = map_of s4 ''positions''"
    using upgrade_004_run [OF s4(2)] by blast
  have gone: "map_of (map (map_prod (\<lambda>c. c) data_type) orders_core) ''client_order_id'' = None"
    by (simp add: orders_core_def)
  have checks: "assert_columns s3 = (Inr (), s3)" "assert_columns s5 = (Inr (), s5)"
    using tables_areD [OF s3(2)] tables_areD [OF s4(2)] s5(2,3) by (auto intro!: assert_columns_run)
  have "fst (migration_test accepting init_schema) = Inr ()"
    using tables_areD(1) [OF s2(2)]
    by (simp add: migration_test_def seq_run upgrade_002_run s3(1) s2(1) s4(1) s5(1) checks inserts_run [OF s3(2)] fetch_run assert_run orders_at_def gone io_return_def)
  moreover have "columns_of s2 ''orders'' = map fst orders_core" "columns_of schema_002 ''orders'' = map fst orders_002"
    using tables_areD(1) [OF s2(2)] schema_002_tables by (simp_all add: columns_of_def orders_at_def)
  ultimately show ?thesis
    by (simp add: io_return_def seq_run upgrade_002_run s3(1) s2(1) orders_core_def orders_002_def core_tables_def)
qed

subsection \<open>Verification of a migrated database\<close>

text \<open>
  \<^verbatim>\<open>scripts/verify_migration.py\<close>: the exit code, given the two environment variables, the tables and
  the hypertables that the extension reports.
\<close>

definition required_tables :: "string list" where
  "required_tables = [''ticks'', ''ohlcv'', ''trades'', ''orders'', ''positions'', ''economic_events'']"

definition required_hypertables :: "string list" where
  "required_hypertables = [''ticks'', ''ohlcv'', ''trades'', ''orders'', ''positions'']"

definition set_variable :: "string option \<Rightarrow> bool" where
  "set_variable v = (case v of None \<Rightarrow> False | Some t \<Rightarrow> t \<noteq> [])"

definition verify_migration :: "bool \<Rightarrow> string option \<Rightarrow> string option \<Rightarrow> schema \<Rightarrow> string list \<Rightarrow> int" where
  "verify_migration dry_run test_dsn database_url s reported =
     (if dry_run then 0
      else if \<not> set_variable test_dsn \<and> \<not> set_variable database_url then 1
      else if filter (\<lambda>t. t \<notin> set (map fst s)) required_tables \<noteq> [] then 1
      else if \<not> set required_hypertables \<subseteq> set reported then 1 else 0)"

lemma schema_002_names: "set required_tables \<subseteq> set (map fst schema_002)"
proof -
  have "map fst schema_002 = map fst init_schema @ [''broker_accounts''] @ map fst core_tables"
    by (simp add: schema_002_def comp_def case_prod_unfold)
  then show ?thesis by (simp add: required_tables_def core_tables_def)
qed

lemma migrated_tables:
  "\<exists>s. upgrade_head accepting init_schema = (Inr (), s) \<and> set (map fst s) \<supseteq> set required_tables"
proof -
  obtain s3 where s3: "upgrade_003 accepting schema_002 = (Inr (), s3)" "tables_are orders_003 True schema_002 s3"
    using upgrade_003_first [OF tables_are_002] by blast
  obtain s4 where s4: "upgrade_004 accepting s3 = (Inr (), s4)" "\<forall>t. map_of s3 t \<noteq> None \<longrightarrow> map_of s4 t \<noteq> None"
    using upgrade_004_run [OF s3(2)] by blast
  have "map_of s3 t \<noteq> None" if "t \<in> set required_tables" for t
  proof (cases "t = ''orders'' \<or> t = ''positions''")
    case True
    then show ?thesis using tables_areD(1,2) [OF s3(2)] by blast
  next
    case False
    then have "map_of s3 t = map_of schema_002 t" using tables_areD(3) [OF s3(2)] by blast
    then show ?thesis using that subsetD [OF schema_002_names that] by (simp add: map_of_eq_None_iff)
  qed
  then have "set required_tables \<subseteq> set (map fst s4)" using s4(2) by (auto simp: map_of_eq_None_iff)
  then show ?thesis by (simp add: upgrade_head_def seq_run upgrade_002_run s3(1) s4(1) io_return_def)
qed

text \<open>
  A database that all revisions have migrated is accepted exactly when one of the two variables names it, or on a dry
  run, and the extension reports the five hypertables.
\<close>

theorem migrated_database_verified:
  "verify_migration dry_run test_dsn database_url (snd (upgrade_head accepting init_schema)) reported = 0 \<longleftrightarrow>
     dry_run \<or> ((set_variable test_dsn \<or> set_variable database_url) \<and> set required_hypertables \<subseteq> set reported)"
proof -
  obtain s where "upgrade_head accepting init_schema = (Inr (), s)" "set required_tables \<subseteq> set (map fst s)"
    using migrated_tables by blast
  then show ?thesis by (auto simp: verify_migration_def filter_empty_conv)
qed

end
