(* ===== verification/Demo_Validation.thy ===== *)
theory Demo_Validation
  imports MT5_Connector
begin

text \<open>
  The script \<^verbatim>\<open>scripts/validate_mt5_demo.py\<close>: it creates a connector from the environment, drives its
  operations on a demo terminal and reports the failures it saw. The state is that of the
  connector; the heartbeat task that \<open>connect\<close> starts is not interleaved.
\<close>

text \<open>A failure is an answer without \<open>ok\<close>, an exception, or a return code without a message.\<close>

datatype demo_failure = Answered string pydict | Raised string exn | Unmapped int

definition demo_credentials :: "pydict \<Rightarrow> exn + mt5_credentials" where
  "demo_credentials env = sum_bind (sum_bind (key env ''MT5_DEFAULT_ACCOUNT_ID'') py_int) (\<lambda>account.
     sum_bind (key env ''MT5_DEFAULT_PASSWORD'') (\<lambda>password. sum_bind (key env ''MT5_DEFAULT_SERVER'') (\<lambda>server.
     Inr \<lparr>cr_account_id = account, cr_password = (case password of PStr s \<Rightarrow> s | _ \<Rightarrow> []),
       cr_server = (case server of PStr s \<Rightarrow> s | _ \<Rightarrow> []),
       cr_path = (case pyget env ''MT5_TERMINAL_PATH'' of PStr s \<Rightarrow> Some s | _ \<Rightarrow> None)\<rparr>)))"

text \<open>The environment holds strings only. The result of a call is looked at when it is a dictionary.\<close>

definition expect_ok :: "string \<Rightarrow> ('s, pyval) io \<Rightarrow> demo_failure list \<Rightarrow> ('s, demo_failure list) io" where
  "expect_ok name coro failures = io_bind (io_try coro) (\<lambda>r. io_return (case r of
     Inl exc \<Rightarrow> failures @ [Raised name exc]
   | Inr (PDict res) \<Rightarrow> if truthy (dict_get res ''ok'' (PBool True)) then failures else failures @ [Answered name res]
   | Inr _ \<Rightarrow> failures))"

definition returning :: "('a \<Rightarrow> pyval) \<Rightarrow> ('s, 'a) io \<Rightarrow> ('s, pyval) io" where
  "returning f m = io_bind m (\<lambda>a. io_return (f a))"

definition demo_orders :: "(string \<times> pydict) list" where
  "demo_orders =
     [(''market_buy'', [(''symbol'', PStr ''EURUSD''), (''volume'', PFloat (1/100)), (''side'', PStr ''BUY''), (''type'', PStr ''MARKET''),
        (''client_order_id'', PStr ''demo-buy'')]),
      (''market_sell'', [(''symbol'', PStr ''EURUSD''), (''volume'', PFloat (1/100)), (''side'', PStr ''SELL''), (''type'', PStr ''MARKET''),
        (''client_order_id'', PStr ''demo-sell'')]),
      (''limit_order'', [(''symbol'', PStr ''EURUSD''), (''volume'', PFloat (1/100)), (''side'', PStr ''BUY''), (''type'', PStr ''LIMIT''),
        (''price'', PFloat 1), (''stop_price'', PFloat (9/10)), (''limit_price'', PFloat (11/10)), (''client_order_id'', PStr ''demo-limit'')]),
      (''stop_order'', [(''symbol'', PStr ''EURUSD''), (''volume'', PFloat (1/100)), (''side'', PStr ''BUY''), (''type'', PStr ''STOP''),
        (''price'', PFloat (11/10)), (''client_order_id'', PStr ''demo-stop'')]),
      (''stop_limit_order'', [(''symbol'', PStr ''EURUSD''), (''volume'', PFloat (1/100)), (''side'', PStr ''BUY''), (''type'', PStr ''STOP_LIMIT''),
        (''price'', PFloat (11/10)), (''limit_price'', PFloat (12/10)), (''client_order_id'', PStr ''demo-stop-limit'')])]"

fun place_all :: "'w mt5_api option \<Rightarrow> (string \<times> pydict) list \<Rightarrow> demo_failure list \<Rightarrow> ('w conn_state, demo_failure list) io" where
  "place_all mt5 [] failures = io_return failures"
| "place_all mt5 ((name, order) # rest) failures =
     io_bind (expect_ok name (returning PDict (execute_order mt5 order)) failures) (\<lambda>fs. place_all mt5 rest fs)"

definition change_first_order :: "'w mt5_api option \<Rightarrow> demo_failure list \<Rightarrow> ('w conn_state, demo_failure list) io" where
  "change_first_order mt5 failures = io_bind (get_orders mt5 PNone) (\<lambda>orders. case orders of
     [] \<Rightarrow> io_return failures
   | first # _ \<Rightarrow> (let oid = py_or (pyget first ''ticket'') (pyget first ''order'') in
       if \<not> truthy oid then io_return failures
       else io_bind (expect_ok ''modify_order'' (returning PDict (modify_order mt5 oid
           (dict_get first ''price_open'' (dict_get first ''price_current'' (PFloat 1))) PNone PNone PNone)) failures) (\<lambda>fs.
         expect_ok ''cancel_order'' (returning PBool (cancel_order mt5 oid)) fs)))"

definition close_first_position :: "'w mt5_api option \<Rightarrow> demo_failure list \<Rightarrow> ('w conn_state, demo_failure list) io" where
  "close_first_position mt5 failures = io_bind (get_positions mt5 PNone) (\<lambda>positions. case positions of
     [] \<Rightarrow> io_return failures
   | first # _ \<Rightarrow> (let pid = pyget first ''ticket'' in
       if \<not> truthy pid then io_return failures
       else expect_ok ''close_position'' (returning PDict (close_position mt5 pid 10)) failures))"

text \<open>An order that must be refused; an exception of it is not caught.\<close>

definition expect_refused :: "'w mt5_api option \<Rightarrow> string \<times> pydict \<Rightarrow> demo_failure list \<Rightarrow> ('w conn_state, demo_failure list) io" where
  "expect_refused mt5 bad failures = io_bind (execute_order mt5 (snd bad)) (\<lambda>res.
     io_return (if truthy (pyget res ''ok'') then failures @ [Answered (fst bad) res] else failures))"

definition bad_symbol :: "string \<times> pydict" where
  "bad_symbol = (''invalid_symbol'', [(''symbol'', PStr ''INVALIDSYM''), (''volume'', PFloat (1/100)), (''side'', PStr ''BUY''),
     (''type'', PStr ''MARKET''), (''client_order_id'', PStr ''bad-sym'')])"

definition bad_volume :: "string \<times> pydict" where
  "bad_volume = (''invalid_volume'', [(''symbol'', PStr ''EURUSD''), (''volume'', PInt 999999), (''side'', PStr ''BUY''),
     (''type'', PStr ''MARKET''), (''client_order_id'', PStr ''bad-vol'')])"

definition unmapped_codes :: "demo_failure list" where
  "unmapped_codes = map Unmapped (sort (filter (\<lambda>k. map_of RETCODE_MAPPING k = Some []) (map fst RETCODE_MAPPING)))"

definition demo_checks :: "'w mt5_api option \<Rightarrow> string \<Rightarrow> ('w conn_state, demo_failure list) io" where
  "demo_checks mt5 mode =
     io_bind (place_all mt5 demo_orders []) (\<lambda>f1.
     io_bind (change_first_order mt5 f1) (\<lambda>f2.
     io_bind (close_first_position mt5 f2) (\<lambda>f3.
     io_bind (expect_ok ''close_all_positions'' (returning (PList \<circ> map PDict) (close_all_positions mt5 PNone)) f3) (\<lambda>f4.
     io_bind (expect_refused mt5 bad_symbol f4) (\<lambda>f5.
     io_bind (expect_refused mt5 bad_volume f5) (\<lambda>f6.
     io_return (if mode = ''smoke'' then f6 else f6 @ unmapped_codes)))))))"

text \<open>The body of \<open>run\<close> on the new connector: the exit code and the failures printed.\<close>

definition demo_run :: "'w mt5_api option \<Rightarrow> real \<Rightarrow> datetime \<Rightarrow> string \<Rightarrow> ('w conn_state, int \<times> demo_failure list) io" where
  "demo_run mt5 t now mode = io_bind (connect mt5 t now) (\<lambda>ok.
     if \<not> ok then io_return (1, [])
     else io_bind (demo_checks mt5 mode) (\<lambda>failures.
       io_bind (disconnect mt5) (\<lambda>_. io_return (if failures = [] then 0 else 1, failures))))"

definition validate_demo :: "'w mt5_api option \<Rightarrow> real \<Rightarrow> datetime \<Rightarrow> pydict \<Rightarrow> string \<Rightarrow> 'w \<Rightarrow> (exn + int \<times> demo_failure list) \<times> 'w conn_state option" where
  "validate_demo mt5 t now env mode w = (case demo_credentials env of
     Inl e \<Rightarrow> (Inl e, None)
   | Inr cr \<Rightarrow> map_prod (\<lambda>r. r) Some (demo_run mt5 t now mode (connector_init cr None, w)))"

subsection \<open>What a run of the script says\<close>

lemma no_unmapped_codes: "unmapped_codes = []"
  using retcodes_complete by (simp add: unmapped_codes_def filter_empty_conv)

lemma disconnect_clears:
  assumes "disconnect mt5 s = (Inr (), (c, w))"
  shows "\<not> co_connected c"
  using assms by (auto simp: disconnect_def on_self_def io_simps split: prod.splits sum.splits option.splits)

text \<open>An answer that is not a dictionary is never a failure: of \<open>cancel_order\<close> and \<open>close_all_positions\<close> only exceptions count.\<close>

lemma unchecked_answers:
  assumes "(\<forall>d. f a \<noteq> PDict d)" and "m s = (Inr a, s')"
  shows "expect_ok name (returning f m) fs s = (Inr fs, s')"
  using assms by (cases "f a") (simp_all add: expect_ok_def returning_def io_simps)

text \<open>
  The verdict of the validation: the mode makes no difference, since every return code has a
  message; a run that ends returns 1 when it could not connect or saw a failure and 0 otherwise,
  and leaves the connector disconnected.
\<close>

theorem demo_verdict:
  assumes "validate_demo mt5 t now env mode w = (Inr (code, fs), Some (c, w'))"
  shows "validate_demo mt5 t now env mode' w = (Inr (code, fs), Some (c, w')) \<and>
    \<not> co_connected c \<and> (code = 0 \<or> code = 1) \<and> (fs \<noteq> [] \<longrightarrow> code = 1)"
proof -
  have "demo_checks mt5 mode' = demo_checks mt5 mode"
    by (simp add: demo_checks_def no_unmapped_codes cong: if_cong)
  then have same: "validate_demo mt5 t now env mode' w = validate_demo mt5 t now env mode w"
    unfolding validate_demo_def demo_run_def by (simp only:)
  obtain cr where run: "demo_run mt5 t now mode (connector_init cr None, w) = (Inr (code, fs), (c, w'))"
    using assms by (fastforce simp: validate_demo_def map_prod_def split: sum.splits prod.splits)
  obtain ok s1 where con: "connect mt5 t now (connector_init cr None, w) = (Inr ok, s1)"
    and rest: "(if \<not> ok then io_return (1, []) else io_bind (demo_checks mt5 mode) (\<lambda>failures.
       io_bind (disconnect mt5) (\<lambda>_. io_return (if failures = [] then 0 else 1, failures)))) s1 = (Inr (code, fs), (c, w'))"
    using run unfolding demo_run_def by (rule io_bindE)
  show ?thesis
  proof (cases ok)
    case False
    then show ?thesis using same assms rest connect_result [of mt5 t now "connector_init cr None" w ok c w'] con by simp
  next
    case True
    then obtain fs' s2 u s3 where "disconnect mt5 s2 = (Inr u, s3)"
      and "io_return (if fs' = [] then 0 else 1, fs') s3 = (Inr (code, fs), (c, w'))"
      using rest by (auto simp: io_bind_result)
    then show ?thesis using same assms disconnect_clears [of mt5 s2 c w'] by (auto simp del: io_results simp: io_return_def split: if_splits)
  qed
qed

end
