(* ===== verification/Burn_In.thy ===== *)
theory Burn_In
  imports MT5_Connector
begin

text \<open>
  The paper trading run (\<^verbatim>\<open>scripts/paper_trading_burnin.py\<close>): rounds of forced reconnects and tick
  requests on a connector, counted in a report. What the random generator and the clocks give in a
  round is a record of inputs; the rounds are those that start before the end of the run.
\<close>

definition burn_symbols :: "string list" where
  "burn_symbols = [''EURUSD'', ''GBPUSD'', ''USDJPY'', ''AUDUSD'', ''USDCAD'', ''USDCHF'', ''NZDUSD'', ''EURJPY'', ''GBPJPY'', ''EURGBP'']"

record burn_report =
  bu_signals :: int
  bu_simulated_orders :: int
  bu_connection_events :: "(string \<times> datetime) list"
  bu_errors :: int

definition empty_report :: burn_report where
  "empty_report = \<lparr>bu_signals = 0, bu_simulated_orders = 0, bu_connection_events = [], bu_errors = 0\<rparr>"

text \<open>\<open>bi_forced\<close>: the draw was below 0.01; \<open>bi_clock\<close>: the readings in \<open>reconnect\<close>; \<open>bi_times\<close>: those of the body.\<close>

record burn_input =
  bi_forced :: bool
  bi_symbol :: string
  bi_clock :: "nat \<Rightarrow> real \<times> datetime"
  bi_times :: "nat \<Rightarrow> datetime"

type_synonym 'w burn_state = "'w conn_state \<times> burn_report"

definition on_connector :: "('w conn_state, 'a) io \<Rightarrow> ('w burn_state, 'a) io" where
  "on_connector m = io_zoom fst (\<lambda>c (_, r). (c, r)) m"

definition on_report :: "(burn_report \<Rightarrow> burn_report) \<Rightarrow> ('w burn_state, unit) io" where
  "on_report f = io_modify (\<lambda>(c, r). (c, f r))"

definition note_event :: "string \<Rightarrow> datetime \<Rightarrow> ('w burn_state, unit) io" where
  "note_event e t = on_report (\<lambda>r. r\<lparr>bu_connection_events := bu_connection_events r @ [(e, t)]\<rparr>)"

definition forced_reconnect :: "'w mt5_api option \<Rightarrow> burn_input \<Rightarrow> ('w burn_state, unit) io" where
  "forced_reconnect mt5 i =
     io_bind (on_connector (disconnect mt5)) (\<lambda>_.
     io_bind (note_event ''forced_disconnect'' (bi_times i 0)) (\<lambda>_.
     io_bind (on_connector (reconnect mt5 (bi_clock i))) (\<lambda>_.
     note_event ''reconnected'' (bi_times i 1))))"

definition count_signal :: "('w burn_state, unit) io" where
  "count_signal = on_report (\<lambda>r. r\<lparr>bu_signals := bu_signals r + 1, bu_simulated_orders := bu_simulated_orders r + 1\<rparr>)"

definition look_at_ticks :: "(pyval list \<Rightarrow> exn + bool) \<Rightarrow> (pyval \<Rightarrow> pyval) \<Rightarrow> 'w mt5_api option \<Rightarrow> burn_input \<Rightarrow> ('w burn_state, unit) io" where
  "look_at_ticks np_truth convert mt5 i =
     io_bind (on_connector (get_ticks np_truth convert mt5 (PStr (bi_symbol i)) (PDatetime (bi_times i 2 - 60 * 1000000)) PNone 10)) (\<lambda>ticks.
     io_when (ticks \<noteq> []) count_signal)"

text \<open>A round up to its sleep: any exception is counted and the run goes on.\<close>

definition burn_round :: "(pyval list \<Rightarrow> exn + bool) \<Rightarrow> (pyval \<Rightarrow> pyval) \<Rightarrow> 'w mt5_api option \<Rightarrow> burn_input \<Rightarrow> ('w burn_state, unit) io" where
  "burn_round np_truth convert mt5 i =
     io_bind (io_try (io_bind (io_when (bi_forced i) (forced_reconnect mt5 i)) (\<lambda>_. look_at_ticks np_truth convert mt5 i))) (\<lambda>r.
     case r of Inl _ \<Rightarrow> on_report (\<lambda>r. r\<lparr>bu_errors := bu_errors r + 1\<rparr>) | Inr _ \<Rightarrow> io_return ())"

definition burn_in :: "(pyval list \<Rightarrow> exn + bool) \<Rightarrow> (pyval \<Rightarrow> pyval) \<Rightarrow> 'w mt5_api option \<Rightarrow> real \<Rightarrow> datetime \<Rightarrow> burn_input list
    \<Rightarrow> ('w burn_state, burn_report) io" where
  "burn_in np_truth convert mt5 t now rounds =
     io_bind (on_connector (connect mt5 t now)) (\<lambda>_.
     io_bind (on_connector (subscribe_market_data mt5 burn_symbols)) (\<lambda>_.
     io_bind (io_each (burn_round np_truth convert mt5) rounds) (\<lambda>_.
     io_bind (on_connector (disconnect mt5)) (\<lambda>_. io_get snd))))"

text \<open>
  The script from its environment on. A missing or malformed variable ends it before there is a connector; the report is
  what is written to the JSON file.
\<close>

definition burn_credentials :: "pydict \<Rightarrow> exn + mt5_credentials" where
  "burn_credentials env = sum_bind (sum_bind (key env ''MT5_DEFAULT_ACCOUNT_ID'') py_int) (\<lambda>account.
     sum_bind (key env ''MT5_DEFAULT_PASSWORD'') (\<lambda>password. sum_bind (key env ''MT5_DEFAULT_SERVER'') (\<lambda>server.
     Inr \<lparr>cr_account_id = account, cr_password = (case password of PStr s \<Rightarrow> s | _ \<Rightarrow> []),
       cr_server = (case server of PStr s \<Rightarrow> s | _ \<Rightarrow> []), cr_path = None\<rparr>)))"

definition paper_trading :: "(pyval list \<Rightarrow> exn + bool) \<Rightarrow> (pyval \<Rightarrow> pyval) \<Rightarrow> 'w mt5_api option \<Rightarrow> real \<Rightarrow> datetime \<Rightarrow> pydict \<Rightarrow> burn_input list
    \<Rightarrow> 'w \<Rightarrow> (exn + burn_report) \<times> 'w burn_state option" where
  "paper_trading np_truth convert mt5 t now env rounds w = (case burn_credentials env of
     Inl e \<Rightarrow> (Inl e, None)
   | Inr cr \<Rightarrow> map_prod (\<lambda>r. r) Some (burn_in np_truth convert mt5 t now rounds ((connector_init cr None, w), empty_report)))"

subsection \<open>What the rounds count\<close>

lemma on_connector_eq [io_simps]: "on_connector m (c, r) = (fst (m c), (snd (m c), r))"
  by (simp add: on_connector_def io_zoom_def split: prod.splits)

lemma on_report_eq [io_simps]: "on_report f (c, r) = (Inr (), (c, f r))"
  by (simp add: on_report_def io_simps)

text \<open>What connector operations and the log of connection events leave alone.\<close>

definition counters :: "'w burn_state \<Rightarrow> int \<times> int \<times> int" where
  "counters s = (bu_signals (snd s), bu_simulated_orders (snd s), bu_errors (snd s))"

lemma keeps_counters [keeps]: "io_keeps counters (on_connector m)" "io_keeps counters (note_event e t)"
  by (auto simp: io_keeps_def counters_def on_connector_eq note_event_def on_report_eq)

lemma forced_keeps: "io_keeps counters (io_when b (forced_reconnect mt5 i))"
  unfolding forced_reconnect_def by (intro keeps)

lemma burn_round_counts:
  "\<exists>s' sig err. burn_round np_truth convert mt5 i s = (Inr (), s') \<and>
     counters s' = (bu_signals (snd s) + sig, bu_simulated_orders (snd s) + sig, bu_errors (snd s) + err) \<and>
     (sig, err) \<in> {(0, 0), (1, 0), (0, 1)}"
proof -
  let ?forced = "io_when (bi_forced i) (forced_reconnect mt5 i)"
  obtain r c1 r1 where f: "?forced s = (r, (c1, r1))" by (metis prod.exhaust)
  have k: "counters (c1, r1) = counters s" using io_keepsD [OF forced_keeps, of "bi_forced i" mt5 i s] f by simp
  show ?thesis
    using k f
    by (cases r; cases "fst (get_ticks np_truth convert mt5 (PStr (bi_symbol i)) (PDatetime (bi_times i 2 - 60 * 1000000)) PNone 10 c1)")
       (simp_all add: burn_round_def look_at_ticks_def count_signal_def io_try_def io_bind_def on_connector_eq on_report_eq counters_def
          io_when_def io_return_def)
qed

text \<open>
  The rounds never stop the run, whatever the terminal does; every signal is a simulated order, and a
  round adds a signal or an error or neither.
\<close>

theorem burn_in_counts:
  "\<exists>s' sig err. io_each (burn_round np_truth convert mt5) rounds s = (Inr (), s') \<and>
     counters s' = (bu_signals (snd s) + sig, bu_simulated_orders (snd s) + sig, bu_errors (snd s) + err) \<and>
     0 \<le> sig \<and> 0 \<le> err \<and> sig + err \<le> int (length rounds)"
proof (induction rounds arbitrary: s)
  case Nil
  show ?case by (auto simp: io_return_def counters_def intro!: exI [of _ 0])
next
  case (Cons i rest)
  obtain s1 sig err where s1: "burn_round np_truth convert mt5 i s = (Inr (), s1)"
    "counters s1 = (bu_signals (snd s) + sig, bu_simulated_orders (snd s) + sig, bu_errors (snd s) + err)"
    "(sig, err) \<in> {(0, 0), (1, 0), (0, 1)}"
    using burn_round_counts by blast
  obtain s2 sig' err' where s2: "io_each (burn_round np_truth convert mt5) rest s1 = (Inr (), s2)"
    "counters s2 = (bu_signals (snd s1) + sig', bu_simulated_orders (snd s1) + sig', bu_errors (snd s1) + err')"
    "0 \<le> sig' \<and> 0 \<le> err' \<and> sig' + err' \<le> int (length rest)"
    using Cons.IH by blast
  have "io_each (burn_round np_truth convert mt5) (i # rest) s = (Inr (), s2)" using s1(1) s2(1) by simp
  moreover have "counters s2 = (bu_signals (snd s) + (sig + sig'), bu_simulated_orders (snd s) + (sig + sig'), bu_errors (snd s) + (err + err'))"
    using s1(2) s2(2) by (simp add: counters_def)
  moreover have "0 \<le> sig + sig' \<and> 0 \<le> err + err' \<and> sig + sig' + (err + err') \<le> int (length (i # rest))"
    using s1(3) s2(3) by auto
  ultimately show ?case by blast
qed

text \<open>
  With numpy's truth of arrays and a terminal that always has two ticks or more, every round is counted
  as an error, no signal is ever seen, and the run still ends normally.
\<close>

lemma ticks_raise:
  assumes "\<And>rows. 2 \<le> length rows \<Longrightarrow> np_truth rows = Inl (ValueError ''ambiguous'')"
    and "\<And>s f n w. \<exists>ticks w'. m_copy_ticks_from api s f n w = (Inr (Some ticks), w') \<and> 2 \<le> length ticks"
  shows "fst (get_ticks np_truth convert (Some api) symbol from_date PNone n (c, w)) = Inl (ValueError ''ambiguous'')"
proof -
  obtain ticks w' where "m_copy_ticks_from api symbol from_date n w = (Inr (Some ticks), w')" "2 \<le> length ticks"
    using assms(2) by blast
  then show ?thesis using assms(1) by (simp add: get_ticks_def with_mt5_def rows_or_empty_def io_simps)
qed

theorem burn_in_sees_only_errors:
  assumes np: "\<And>rows. 2 \<le> length rows \<Longrightarrow> np_truth rows = Inl (ValueError ''ambiguous'')"
    and ticks: "\<And>s f n w. \<exists>ticks w'. m_copy_ticks_from api s f n w = (Inr (Some ticks), w') \<and> 2 \<le> length ticks"
  shows "\<exists>s'. io_each (burn_round np_truth convert (Some api)) rounds (c, empty_report) = (Inr (), s') \<and>
    counters s' = (0, 0, int (length rounds))"
proof -
  have once: "\<exists>s'. burn_round np_truth convert (Some api) i s = (Inr (), s') \<and>
     counters s' = (bu_signals (snd s), bu_simulated_orders (snd s), bu_errors (snd s) + 1)" for i s
  proof -
    obtain r c1 r1 where f: "io_when (bi_forced i) (forced_reconnect (Some api) i) s = (r, (c1, r1))" by (metis prod.exhaust)
    have k: "counters (c1, r1) = counters s" using io_keepsD [OF forced_keeps, of "bi_forced i" "Some api" i s] f by simp
    have raised: "fst (get_ticks np_truth convert (Some api) (PStr (bi_symbol i)) d PNone 10 c1) = Inl (ValueError ''ambiguous'')" for d
      using ticks_raise [OF np ticks, where c = "fst c1" and w = "snd c1"] by simp
    show ?thesis
      using k f raised
      by (cases r) (simp_all add: burn_round_def look_at_ticks_def io_try_def io_bind_def on_connector_eq on_report_eq counters_def)
  qed
  have "\<exists>s'. io_each (burn_round np_truth convert (Some api)) rounds s = (Inr (), s') \<and>
      counters s' = (bu_signals (snd s), bu_simulated_orders (snd s), bu_errors (snd s) + int (length rounds))" for s
  proof (induction rounds arbitrary: s)
    case Nil
    show ?case by (simp add: io_return_def counters_def)
  next
    case (Cons i rest)
    obtain s1 where s1: "burn_round np_truth convert (Some api) i s = (Inr (), s1)"
      "counters s1 = (bu_signals (snd s), bu_simulated_orders (snd s), bu_errors (snd s) + 1)" using once by blast
    then show ?case using Cons.IH [of s1] by (auto simp: counters_def)
  qed
  from this [of "(c, empty_report)"] show ?thesis by (simp add: empty_report_def)
qed

end
