(* ===== verification/Backtest_Report.thy ===== *)
theory Backtest_Report
  imports Backtester
begin

text \<open>
  The rest of what a backtest returns (\<^verbatim>\<open>backtest_service/src/engine/backtester.py\<close>): the monthly returns and the
  fields that describe the run. The calendar is the parameter \<open>month_of\<close>, which numbers the months; resampling
  makes a value for every month from that of the first bar to that of the last, also for a month without bars.
\<close>

definition month_returns :: "(int \<Rightarrow> int) \<Rightarrow> int \<Rightarrow> (int \<times> real) list \<Rightarrow> real list" where
  "month_returns month_of m series = map snd (filter (\<lambda>(t, x). month_of t = m) series)"

definition compound :: "real list \<Rightarrow> real" where
  "compound xs = prod_list (map (\<lambda>x. 1 + x) xs) - 1"

definition monthly_returns :: "(int \<Rightarrow> int) \<Rightarrow> (int \<times> real) list \<Rightarrow> (int \<times> real) list" where
  "monthly_returns month_of series = (if series = [] then []
     else map (\<lambda>m. (m, compound (month_returns month_of m series))) [month_of (fst (hd series)) .. month_of (fst (last series))])"

record bt_description =
  ds_strategy_id :: pyval
  ds_strategy_name :: pyval
  ds_symbols :: "pyval list"
  ds_timeframe :: pyval
  ds_start_date :: int
  ds_end_date :: int
  ds_parameters :: pydict
  ds_execution_time_ms :: int
  ds_optimization_iterations :: int

text \<open>\<open>function_name\<close> is the name of the strategy function, \<open>now\<close> the clock used for an empty frame and \<open>elapsed\<close> the seconds of the run.\<close>

definition describe_run :: "string \<Rightarrow> pydict \<Rightarrow> bar list \<Rightarrow> int \<Rightarrow> real \<Rightarrow> exn + bt_description" where
  "describe_run function_name params df now elapsed =
     sum_bind (py_int (dict_get params ''optimization_iterations'' (PInt 0))) (\<lambda>iterations.
     Inr \<lparr>ds_strategy_id = dict_get params ''strategy_id'' (PStr ''unknown''),
       ds_strategy_name = dict_get params ''strategy_name'' (PStr function_name),
       ds_symbols = [dict_get params ''symbol'' (PStr ''SYMBOL'')],
       ds_timeframe = dict_get params ''timeframe'' (PStr ''M1''),
       ds_start_date = (if df = [] then now else b_time (hd df)),
       ds_end_date = (if df = [] then now else b_time (last df)),
       ds_parameters = params,
       ds_execution_time_ms = truncate_real (elapsed * 1000),
       ds_optimization_iterations = iterations\<rparr>)"

definition return_series :: "bar list \<Rightarrow> bt_result \<Rightarrow> (int \<times> real) list" where
  "return_series data r = zip (map b_time (sort_key b_time data)) (returns_of (rs_equity_curve r))"

definition backtest_report :: "(int \<Rightarrow> int) \<Rightarrow> bt_config \<Rightarrow> string \<Rightarrow> (bar list \<Rightarrow> string option) \<Rightarrow> real \<Rightarrow> pydict \<Rightarrow> int \<Rightarrow> real \<Rightarrow> bar list
    \<Rightarrow> exn + bt_description \<times> bt_result \<times> (int \<times> real) list" where
  "backtest_report month_of cfg function_name strategy initial_capital params now elapsed data =
     sum_bind (run_backtest cfg strategy initial_capital data) (\<lambda>r.
     sum_bind (describe_run function_name params (sort_key b_time data) now elapsed) (\<lambda>d.
     Inr (d, r, monthly_returns month_of (return_series data r))))"

subsection \<open>Monthly returns compound to the total return\<close>

lemma prod_list_by_month:
  fixes g :: "real \<Rightarrow> real"
  assumes "\<And>t x. (t, x) \<in> set series \<Longrightarrow> month_of t \<in> set ms" and "distinct ms"
  shows "prod_list (map (\<lambda>m. prod_list (map g (month_returns month_of m series))) ms) = prod_list (map (\<lambda>(t, x). g x) series)"
  using assms(1)
proof (induction series)
  case Nil
  then show ?case by (induction ms) (simp_all add: month_returns_def)
next
  case (Cons a series)
  obtain t x where a: "a = (t, x)" by fastforce
  have m: "month_of t \<in> set ms" using Cons.prems a by auto
  have cons: "month_returns month_of m (a # series) = (if m = month_of t then x # month_returns month_of m series else month_returns month_of m series)" for m
    by (auto simp: month_returns_def a)
  have split: "prod_list (map (\<lambda>m. if m = k then y * f m else f m) ls) = (if k \<in> set ls then y else 1) * prod_list (map f ls)"
    if "distinct ls" for ls :: "int list" and k and y :: real and f
    using that by (induction ls) auto
  have "prod_list (map (\<lambda>m. prod_list (map g (month_returns month_of m (a # series)))) ms) =
      prod_list (map (\<lambda>m. if m = month_of t then g x * prod_list (map g (month_returns month_of m series))
        else prod_list (map g (month_returns month_of m series))) ms)"
    by (intro arg_cong [where f = prod_list] map_cong refl) (simp add: cons)
  also have "\<dots> = g x * prod_list (map (\<lambda>(t, x). g x) series)"
    using Cons.IH Cons.prems m by (subst split [OF assms(2)]) auto
  finally show ?case by (simp add: a)
qed

lemma pct_changes_compound:
  "0 < prev \<Longrightarrow> \<forall>x\<in>set xs. 0 < x \<Longrightarrow> prod_list (map (\<lambda>x. 1 + x) (pct_changes prev xs)) = last (prev # xs) / prev"
  by (induction xs arbitrary: prev) auto

lemma returns_compound:
  "eq \<noteq> [] \<Longrightarrow> \<forall>x\<in>set eq. 0 < x \<Longrightarrow> prod_list (map (\<lambda>x. 1 + x) (returns_of eq)) = last eq / hd eq"
  by (cases eq) (auto simp: returns_of_def pct_changes_compound)

lemma returns_of_length [simp]: "length (returns_of eq) = length eq"
proof -
  have "length (pct_changes p xs) = length xs" for p xs by (induction xs arbitrary: p) simp_all
  then show ?thesis by (simp add: returns_of_def split: list.split)
qed

text \<open>Nothing is closed on the first bar, so the curve starts at the initial capital.\<close>

lemma run_bars_prefix: "\<exists>ys. bs_curve (run_bars cfg strategy seen bs st) = bs_curve st @ ys"
proof (induction bs arbitrary: seen st)
  case (Cons b bs)
  have "bs_curve (bar_step cfg sg b st) = bs_curve st @ [bs_equity (act_on_signal cfg sg b st)]" for sg
    by (auto simp: bar_step_def record_equity_def act_on_signal_def Let_def split: option.splits)
  then show ?case using Cons.IH [of "seen @ [b]" "bar_step cfg (strategy (seen @ [b])) b st"] by auto
qed simp

lemma curve_starts:
  assumes "data \<noteq> []"
  shows "hd (bs_curve (run_loop cfg strategy c data)) = c"
proof -
  obtain b bs where bs: "sort_key b_time data = b # bs"
    using assms by (metis length_0_conv length_sort neq_Nil_conv)
  have first: "bs_curve (bar_step cfg sg b \<lparr>bs_equity = c, bs_curve = [], bs_trades = [], bs_position = None\<rparr>) = [c]" for sg
    by (auto simp: bar_step_def record_equity_def act_on_signal_def split: option.splits)
  obtain ys where "bs_curve (run_loop cfg strategy c data) = [c] @ ys"
    using run_bars_prefix [of cfg strategy "[b]" bs "bar_step cfg (strategy [b]) b \<lparr>bs_equity = c, bs_curve = [], bs_trades = [], bs_position = None\<rparr>"]
    unfolding run_loop_def bs first by auto
  then show ?thesis by simp
qed

lemma sorted_between: "sorted xs \<Longrightarrow> t \<in> set xs \<Longrightarrow> hd xs \<le> t \<and> t \<le> last xs" for xs :: "'a::linorder list"
  by (induction xs) auto

text \<open>
  C19. For a calendar that numbers the months in order of time and a run whose equity stays positive, the
  monthly returns reported compound to exactly the total return, whichever months have no bar.
\<close>

theorem monthly_returns_compound:
  assumes "backtest_report month_of cfg fn strategy c params now elapsed data = Inr (d, r, monthly)"
    and "mono month_of" and "\<forall>x\<in>set (rs_equity_curve r). 0 < x" and "data \<noteq> []"
  shows "compound (map snd monthly) = rs_total_return r \<and> sorted_wrt (<) (map fst monthly)"
proof -
  let ?eq = "rs_equity_curve r" and ?s = "return_series data r"
  have run: "run_backtest cfg strategy c data = Inr r" and monthly: "monthly = monthly_returns month_of ?s"
    using assms(1) by (auto simp: backtest_report_def sum_bind_def split: sum.splits)
  then have r: "?eq = bs_curve (run_loop cfg strategy c data)" "rs_total_return r = (if ?eq = [] then 0 else last ?eq / c - 1)"
    by (auto simp: run_backtest_def summarize_def Let_def sum_bind_def split: sum.splits)
  have len: "length ?eq = length data" using r(1) run_loop_books [of c data cfg strategy] by (auto simp: books_def)
  then have ne: "?eq \<noteq> []" using assms(4) by auto
  have times: "map fst ?s = map b_time (sort_key b_time data)" and vals: "map snd ?s = returns_of ?eq"
    using len by (simp_all add: return_series_def)
  have ordered: "sorted (map fst ?s)" unfolding times by simp
  have sne: "?s \<noteq> []" using vals ne by (metis length_0_conv length_map returns_of_length)
  have within: "month_of t \<in> set [month_of (fst (hd ?s)) .. month_of (fst (last ?s))]" if "(t, x) \<in> set ?s" for t x
  proof -
    have "t \<in> set (map fst ?s)" using that by force
    then have "fst (hd ?s) \<le> t \<and> t \<le> fst (last ?s)"
      using sorted_between [OF ordered] sne by (simp add: hd_map last_map)
    then show ?thesis using monoD [OF assms(2)] by simp
  qed
  have "prod_list (map (\<lambda>m. prod_list (map (\<lambda>x. 1 + x) (month_returns month_of m ?s))) [month_of (fst (hd ?s)) .. month_of (fst (last ?s))]) =
      prod_list (map (\<lambda>(t, x). 1 + x) ?s)"
    by (rule prod_list_by_month) (use within in auto)
  also have "\<dots> = prod_list (map (\<lambda>x. 1 + x) (returns_of ?eq))"
    unfolding vals [symmetric] by (simp add: case_prod_unfold comp_def)
  also have "\<dots> = last ?eq / c"
    using returns_compound [OF ne assms(3)] curve_starts [OF assms(4), of cfg strategy c] r(1) by simp
  finally show ?thesis
    using sne ne r(2) by (simp add: monthly monthly_returns_def compound_def comp_def sorted_wrt_upto)
qed

theorem monthly_returns_compound_witness:
  "\<exists>d r monthly. backtest_report (\<lambda>t. t div 31) sample_config ''sample'' sample_strategy 100 [] 0 1 sample_bars = Inr (d, r, monthly) \<and>
     compound (map snd monthly) = rs_total_return r"
proof -
  obtain r where r: "run_backtest sample_config sample_strategy 100 sample_bars = Inr r" "rs_equity_curve r = [100, 101]"
    by (rule sample_run)
  then obtain d monthly where rep: "backtest_report (\<lambda>t. t div 31) sample_config ''sample'' sample_strategy 100 [] 0 1 sample_bars = Inr (d, r, monthly)"
    by (simp add: backtest_report_def describe_run_def sum_bind_def dict_get_def)
  moreover have "mono (\<lambda>t::int. t div 31)" by (simp add: mono_def zdiv_mono1)
  ultimately show ?thesis
    using monthly_returns_compound [OF rep] r(2) by (auto simp: sample_bars_def)
qed

end
