(* ===== verification/Deployment_Scripts.thy ===== *)
theory Deployment_Scripts
  imports Prelude
begin

text \<open>
  The scripts of the deployment pipeline: \<^verbatim>\<open>scripts/verify_assets.py\<close>, which looks for the files that
  the compose file mounts, and \<^verbatim>\<open>scripts/analyze_load_results.py\<close> and
  \<^verbatim>\<open>scripts/build_load_report.py\<close>, which judge and print the results of a load test. The state is
  the file system, a map from paths to texts; a path that exists but is not a text file is in \<open>fs_other\<close>.
\<close>

record files =
  fs_texts :: "string \<Rightarrow> string option"
  fs_other :: "string list"

definition path_exists :: "files \<Rightarrow> string \<Rightarrow> bool" where
  "path_exists fs p = (fs_texts fs p \<noteq> None \<or> p \<in> set (fs_other fs))"

definition read_text :: "string \<Rightarrow> (files, string) io" where
  "read_text p = io_bind (io_get (\<lambda>fs. fs_texts fs p)) (\<lambda>t. case t of
     None \<Rightarrow> io_raise (OtherException ''FileNotFoundError'') | Some s \<Rightarrow> io_return s)"

definition write_text :: "string \<Rightarrow> string \<Rightarrow> (files, unit) io" where
  "write_text p t = io_modify (\<lambda>fs. fs\<lparr>fs_texts := (fs_texts fs)(p \<mapsto> t)\<rparr>)"

subsection \<open>Mounts of the compose file\<close>

text \<open>
  A match of the expression \<^verbatim>\<open>-\s+\./([^:]+):\<close> at the start of a text: the group, and what follows the match.
  White space and the group are taken as far as they go, and shorter choices never match.
\<close>

definition regex_space :: "char \<Rightarrow> bool" where
  "regex_space c = (is_space c \<or> code_of c = 133 \<or> code_of c = 160)"

definition match_mount :: "string \<Rightarrow> (string \<times> string) option" where
  "match_mount s = (case s of [] \<Rightarrow> None | c # r \<Rightarrow>
     let t = dropWhile regex_space r; body = drop 2 t; m = takeWhile (\<lambda>x. x \<noteq> CHR '':'') body; rest = dropWhile (\<lambda>x. x \<noteq> CHR '':'') body in
     if c = CHR ''-'' \<and> t \<noteq> r \<and> take 2 t = ''./'' \<and> m \<noteq> [] \<and> rest \<noteq> [] then Some (m, tl rest) else None)"

lemma match_mount_shorter: "match_mount s = Some (m, rest) \<Longrightarrow> length rest < length s"
proof -
  assume m: "match_mount s = Some (m, rest)"
  then obtain c r where s: "s = c # r" by (cases s) (auto simp: match_mount_def)
  let ?body = "drop 2 (dropWhile regex_space r)"
  have "rest = tl (dropWhile (\<lambda>x. x \<noteq> CHR '':'') ?body)"
    using m by (auto simp: match_mount_def s Let_def split: if_splits)
  then have "length rest \<le> length (dropWhile (\<lambda>x. x \<noteq> CHR '':'') ?body)" by simp
  also have "\<dots> \<le> length ?body" by (rule length_dropWhile_le)
  also have "\<dots> \<le> length (dropWhile regex_space r)" by simp
  also have "\<dots> \<le> length r" by (rule length_dropWhile_le)
  finally show ?thesis by (simp add: s)
qed

text \<open>\<open>re.findall\<close>\<close>

function find_mounts :: "string \<Rightarrow> string list" where
  "find_mounts s = (if s = [] then [] else case match_mount s of
     Some (m, rest) \<Rightarrow> m # find_mounts rest | None \<Rightarrow> find_mounts (tl s))"
  by pat_completeness auto
termination
  by (relation "measure length") (auto dest: match_mount_shorter)

declare find_mounts.simps [simp del]

subsection \<open>Paths\<close>

fun split_slash :: "string \<Rightarrow> string list" where
  "split_slash [] = [[]]"
| "split_slash (c # s) = (if c = CHR ''/'' then [] # split_slash s
     else (case split_slash s of [] \<Rightarrow> [[c]] | p # ps \<Rightarrow> (c # p) # ps))"

text \<open>\<open>str(Path(m))\<close>: empty and dot components are dropped; two leading slashes are kept, other repetitions are one.\<close>

definition path_str :: "string \<Rightarrow> string" where
  "path_str m = (let root = (if take 2 m = ''//'' \<and> take 3 m \<noteq> ''///'' then ''//'' else if take 1 m = ''/'' then ''/'' else []);
       p = root @ join ''/'' (filter (\<lambda>c. c \<noteq> [] \<and> c \<noteq> ''.'') (split_slash m))
     in if p = [] then ''.'' else p)"

subsection \<open>The asset check\<close>

definition certs_dir :: string where
  "certs_dir = ''deploy/certs''"

definition crt_path :: string where
  "crt_path = ''deploy/certs/tls.crt''"

definition missing_mounts :: "files \<Rightarrow> string \<Rightarrow> string list" where
  "missing_mounts fs compose =
     filter (\<lambda>p. take (length certs_dir) p \<noteq> certs_dir \<and> \<not> path_exists fs p) (map path_str (find_mounts compose))"

text \<open>What the script prints and the code it exits with.\<close>

datatype asset_message = CertificatesRequired | CertificatesAtRuntime | MissingAssets "string list" | AllPresent

definition verify_assets :: "(string \<Rightarrow> string option) \<Rightarrow> (files, asset_message list \<times> nat) io" where
  "verify_assets env =
     io_bind (read_text ''docker-compose.prod.yml'') (\<lambda>compose.
     io_bind (io_get (\<lambda>fs. missing_mounts fs compose)) (\<lambda>missing.
     io_bind (io_get (\<lambda>fs. path_exists fs crt_path)) (\<lambda>crt.
     if \<not> crt \<and> env ''ENVIRONMENT'' = Some ''production'' then io_return ([CertificatesRequired], 1)
     else let warning = (if crt then [] else [CertificatesAtRuntime]) in
       if missing \<noteq> [] then io_return (warning @ [MissingAssets missing], 1)
       else io_return (warning @ [AllPresent], 0))))"

subsection \<open>The load test\<close>

text \<open>The arguments of a script after its name; a wrong number of them ends it with code 1.\<close>

definition analyze_load_results :: "string list \<Rightarrow> (files, nat) io" where
  "analyze_load_results args = (case args of
     [ws_file, orders_file] \<Rightarrow>
       io_bind (io_each (\<lambda>f. io_bind (read_text f) (\<lambda>content.
          if py_strip content = [] then io_raise (RuntimeError ''empty result file'') else io_return ())) [ws_file, orders_file]) (\<lambda>_.
       io_return 0)
   | _ \<Rightarrow> io_return 1)"

text \<open>\<open>html.escape\<close>\<close>

definition escape_char :: "char \<Rightarrow> string" where
  "escape_char c = (if c = CHR ''&'' then ''&amp;'' else if c = CHR ''<'' then ''&lt;'' else if c = CHR ''>'' then ''&gt;''
     else if c = CHR 0x22 then ''&quot;'' else if c = CHR 0x27 then ''&#x27;'' else [c])"

definition html_escape :: "string \<Rightarrow> string" where
  "html_escape s = concat (map escape_char s)"

definition report_html :: "string \<Rightarrow> string \<Rightarrow> string" where
  "report_html ws od =
     ''<html><body><h1>Load Test Report</h1>'' @
     ''<h2>WebSocket</h2><pre>'' @ html_escape ws @ ''</pre>'' @
     ''<h2>Orders</h2><pre>'' @ html_escape od @ ''</pre>'' @
     ''</body></html>''"

definition build_load_report :: "string list \<Rightarrow> (files, nat) io" where
  "build_load_report args = (case args of
     [ws_file, orders_file, out_file] \<Rightarrow>
       io_bind (read_text ws_file) (\<lambda>ws. io_bind (read_text orders_file) (\<lambda>od.
       io_bind (write_text out_file (report_html (take 20000 ws) (take 20000 od))) (\<lambda>_. io_return 0)))
   | _ \<Rightarrow> io_return 1)"

subsection \<open>The report\<close>

text \<open>What a browser shows of an escaped text: the five references are read back.\<close>

definition references :: "(string \<times> char) list" where
  "references = [(''&amp;'', CHR ''&''), (''&lt;'', CHR ''<''), (''&gt;'', CHR ''>''), (''&quot;'', CHR 0x22), (''&#x27;'', CHR 0x27)]"

definition reference_at :: "string \<Rightarrow> (string \<times> char) option" where
  "reference_at s = List.find (\<lambda>(r, c). take (length r) s = r) references"

function html_unescape :: "string \<Rightarrow> string" where
  "html_unescape s = (case s of [] \<Rightarrow> [] | c # cs \<Rightarrow>
     (case reference_at s of Some (r, d) \<Rightarrow> d # html_unescape (drop (length r) s) | None \<Rightarrow> c # html_unescape cs))"
  by pat_completeness auto
termination
  by (relation "measure length") (auto simp: reference_at_def references_def split: if_splits)

declare html_unescape.simps [simp del]

lemma unescape_char: "html_unescape (escape_char c @ t) = c # html_unescape t"
proof -
  have "reference_at (escape_char c @ t) = (if escape_char c = [c] then None else Some (escape_char c, c))"
    by (auto simp: escape_char_def reference_at_def references_def)
  then show ?thesis
    by (subst html_unescape.simps) (auto simp: escape_char_def split: list.split)
qed

lemma unescape_escape: "html_unescape (html_escape s) = s"
proof -
  have "html_unescape (html_escape s @ t) = s @ html_unescape t" for t
    by (induction s) (simp_all add: html_escape_def unescape_char)
  from this [of "[]"] show ?thesis by (simp add: html_unescape.simps [of "[]"])
qed

lemma escape_no_markup: "c \<in> set (html_escape s) \<Longrightarrow> c \<noteq> CHR ''<'' \<and> c \<noteq> CHR ''>''"
  by (auto simp: html_escape_def escape_char_def split: if_splits)

text \<open>
  The load report shows the results and nothing else: the file written is the fixed page with
  two texts in it that contain no angle bracket, so the results cannot add markup, and that read
  back, references resolved, as the first 20000 characters of the two result files. No other file changes.
\<close>

theorem load_report_faithful:
  assumes "fs_texts fs ws_file = Some ws" and "fs_texts fs orders_file = Some od"
  shows "\<exists>a b fs'. build_load_report [ws_file, orders_file, out_file] fs = (Inr 0, fs') \<and>
    fs_texts fs' = (fs_texts fs)(out_file \<mapsto> ''<html><body><h1>Load Test Report</h1><h2>WebSocket</h2><pre>'' @ a @
       ''</pre><h2>Orders</h2><pre>'' @ b @ ''</pre></body></html>'') \<and>
    CHR ''<'' \<notin> set (a @ b) \<and> CHR ''>'' \<notin> set (a @ b) \<and>
    html_unescape a = take 20000 ws \<and> html_unescape b = take 20000 od"
proof -
  let ?a = "html_escape (take 20000 ws)" and ?b = "html_escape (take 20000 od)"
  have clean: "CHR ''<'' \<notin> set (?a @ ?b)" "CHR ''>'' \<notin> set (?a @ ?b)"
    using escape_no_markup by auto
  let ?fs = "fs\<lparr>fs_texts := (fs_texts fs)(out_file \<mapsto> report_html (take 20000 ws) (take 20000 od))\<rparr>"
  have "build_load_report [ws_file, orders_file, out_file] fs = (Inr 0, ?fs)"
    using assms by (simp add: build_load_report_def read_text_def write_text_def io_simps)
  then show ?thesis using clean
    by (intro exI [of _ ?a] exI [of _ ?b] exI [of _ ?fs]) (simp add: report_html_def unescape_escape)
qed

subsection \<open>The assets\<close>

text \<open>A section of mounts as the compose file has them.\<close>

definition mount_lines :: "(string \<times> string) list \<Rightarrow> string" where
  "mount_lines ms = concat (map (\<lambda>(p, t). ''      - ./'' @ p @ '':'' @ t @ [CHR 0x0A]) ms)"

lemma find_mounts_skip: "CHR ''-'' \<notin> set s \<Longrightarrow> find_mounts (s @ t) = find_mounts t"
proof (induction s)
  case (Cons c s)
  have "match_mount ((c # s) @ t) = None" using Cons.prems by (auto simp: match_mount_def Let_def)
  then show ?case using Cons by (subst find_mounts.simps) simp
qed simp

lemma find_mounts_hit:
  assumes "p \<noteq> []" and "CHR '':'' \<notin> set p"
  shows "find_mounts (''- ./'' @ p @ '':'' @ t) = p # find_mounts t"
proof -
  have split: "takeWhile (\<lambda>x. x \<noteq> CHR '':'') (p @ CHR '':'' # t) = p" "dropWhile (\<lambda>x. x \<noteq> CHR '':'') (p @ CHR '':'' # t) = CHR '':'' # t"
    using assms(2) by (induction p) auto
  have "match_mount (''- ./'' @ p @ '':'' @ t) = Some (p, t)"
    using assms(1) split by (simp add: match_mount_def Let_def regex_space_def is_space_def code_of_def)
  then show ?thesis by (subst find_mounts.simps) simp
qed

lemma find_mount_lines:
  assumes "\<forall>(p, t)\<in>set ms. p \<noteq> [] \<and> CHR '':'' \<notin> set p \<and> CHR ''-'' \<notin> set t"
  shows "find_mounts (mount_lines ms) = map fst ms"
  using assms
proof (induction ms)
  case Nil
  show ?case by (simp add: mount_lines_def find_mounts.simps [of "[]"])
next
  case (Cons m ms)
  obtain p t where m: "m = (p, t)" by fastforce
  have "find_mounts (mount_lines (m # ms)) = find_mounts (''      '' @ ''- ./'' @ p @ '':'' @ (t @ [CHR 0x0A]) @ mount_lines ms)"
    by (simp add: mount_lines_def m)
  also have "\<dots> = find_mounts (''- ./'' @ p @ '':'' @ (t @ [CHR 0x0A]) @ mount_lines ms)"
    by (rule find_mounts_skip) simp
  also have "\<dots> = p # find_mounts ((t @ [CHR 0x0A]) @ mount_lines ms)"
    using Cons.prems m by (intro find_mounts_hit) auto
  also have "find_mounts ((t @ [CHR 0x0A]) @ mount_lines ms) = find_mounts (mount_lines ms)"
    using Cons.prems m by (intro find_mounts_skip) auto
  finally show ?case using Cons m by simp
qed

lemma verify_assets_run:
  assumes "fs_texts fs ''docker-compose.prod.yml'' = Some compose"
  shows "\<exists>msgs code. verify_assets env fs = (Inr (msgs, code), fs) \<and>
    (code = 0 \<longleftrightarrow> missing_mounts fs compose = [] \<and> (path_exists fs crt_path \<or> env ''ENVIRONMENT'' \<noteq> Some ''production''))"
  using assms by (auto simp: verify_assets_def read_text_def io_simps Let_def)

text \<open>
  A deployment passes the asset check exactly when every mounted path exists, those under
  the certificate directory apart, and the certificate exists or the environment is not
  production: for a compose file whose mounts are lines of a path without colons and a target without dashes, every
  mount is found and nothing else is looked for.
\<close>

theorem assets_accepted_iff:
  assumes "fs_texts fs ''docker-compose.prod.yml'' = Some (header @ mount_lines ms)" and "CHR ''-'' \<notin> set header"
    and "\<forall>(p, t)\<in>set ms. p \<noteq> [] \<and> CHR '':'' \<notin> set p \<and> CHR ''-'' \<notin> set t"
  shows "\<exists>msgs code. verify_assets env fs = (Inr (msgs, code), fs) \<and>
    (code = 0 \<longleftrightarrow> (\<forall>p\<in>fst ` set ms. path_exists fs (path_str p) \<or> take (length certs_dir) (path_str p) = certs_dir) \<and>
       (path_exists fs crt_path \<or> env ''ENVIRONMENT'' \<noteq> Some ''production''))"
proof -
  have "find_mounts (header @ mount_lines ms) = map fst ms"
    using find_mounts_skip [OF assms(2)] find_mount_lines [OF assms(3)] by simp
  then have "missing_mounts fs (header @ mount_lines ms) = [] \<longleftrightarrow>
      (\<forall>p\<in>fst ` set ms. path_exists fs (path_str p) \<or> take (length certs_dir) (path_str p) = certs_dir)"
    by (auto simp: missing_mounts_def filter_empty_conv)
  with verify_assets_run [OF assms(1), of env] show ?thesis by simp
qed

text \<open>
  A mount without a target swallows the next one: both are looked for as one path over two lines.
\<close>

lemma mount_without_target:
  assumes "CHR '':'' \<notin> set p" and "CHR '':'' \<notin> set q"
  shows "find_mounts (''- ./'' @ p @ CHR 0x0A # ''- ./'' @ q @ '':'' @ t) = (p @ CHR 0x0A # ''- ./'' @ q) # find_mounts t"
  using find_mounts_hit [of "p @ CHR 0x0A # ''- ./'' @ q" t] assms by simp

text \<open>Any text passes for the results of a load test that keeps its objectives, unless it is blank.\<close>

lemma load_results_accepted:
  assumes "fs_texts fs w = Some ws" and "fs_texts fs o' = Some od" and "py_strip ws \<noteq> []" and "py_strip od \<noteq> []"
  shows "analyze_load_results [w, o'] fs = (Inr 0, fs)"
  using assms by (simp add: analyze_load_results_def read_text_def io_simps)

subsection \<open>Witnesses\<close>

definition demo_files :: files where
  "demo_files = \<lparr>fs_texts = [''docker-compose.prod.yml'' \<mapsto> ''volumes:'' @ mount_lines [(''migrations'', ''/init''), (''deploy/certs'', ''/certs'')],
     ''ws.json'' \<mapsto> ''a<b'', ''od.json'' \<mapsto> ''c&d''], fs_other = [''migrations'']\<rparr>"

theorem load_report_faithful_witness:
  "\<exists>a b fs'. build_load_report [''ws.json'', ''od.json'', ''out.html''] demo_files = (Inr 0, fs') \<and>
     html_unescape a = ''a<b'' \<and> CHR ''<'' \<notin> set (a @ b)"
  using load_report_faithful [of demo_files "''ws.json''" "''a<b''" "''od.json''" "''c&d''" "''out.html''"]
  by (simp add: demo_files_def) blast

theorem assets_accepted_iff_witness:
  "\<exists>msgs. verify_assets (\<lambda>_. None) demo_files = (Inr (msgs, 0), demo_files)"
proof -
  let ?ms = "[(''migrations'', ''/init''), (''deploy/certs'', ''/certs'')]"
  have "path_str ''migrations'' = ''migrations''" "path_str ''deploy/certs'' = ''deploy/certs''"
    by (simp_all add: path_str_def join_def)
  then show ?thesis
    using assets_accepted_iff [of demo_files "''volumes:''" ?ms "\<lambda>_. None"]
    by (auto simp: demo_files_def path_exists_def certs_dir_def)
qed

end
