(* ===== verification/Service_Endpoints.thy ===== *)
theory Service_Endpoints
  imports Gateway Settings Deployment_Scripts
begin

text \<open>
  The HTTP surface of the services: the routes each application declares (\<^verbatim>\<open>app/main.py\<close> with the
  routers it includes, and the \<^verbatim>\<open>app.py\<close> of every service), the endpoints that answer a constant,
  the deprecated ones, the start guard of the trading service and the bytes of the token keys. The
  paths that the production deployment relies on, its health checks and the locations of its proxy
  (\<^verbatim>\<open>docker-compose.prod.yml\<close>, \<^verbatim>\<open>deploy/nginx/nginx.conf\<close>), are compared with them.
\<close>

subsection \<open>Constant answers\<close>

record http_response =
  hr_status :: nat
  hr_body :: pyval
  hr_headers :: "(string \<times> string) list"

definition json_response :: "pydict \<Rightarrow> http_response" where
  "json_response d = \<lparr>hr_status = 200, hr_body = PDict d, hr_headers = []\<rparr>"

definition health :: http_response where
  "health = json_response [(''status'', PStr ''ok'')]"

definition readiness :: http_response where
  "readiness = json_response [(''status'', PStr ''ready'')]"

text \<open>\<open>RedirectResponse(url="/ws", status_code=410)\<close>, and the handler of the old socket, which never accepts it.\<close>

definition deprecated_ws_endpoint :: http_response where
  "deprecated_ws_endpoint = \<lparr>hr_status = 410, hr_body = PStr [], hr_headers = [(''location'', ''/ws'')]\<rparr>"

definition deprecated_ws_heartbeat :: "('w, unit) io" where
  "deprecated_ws_heartbeat = io_return ()"

definition deprecated_heartbeat :: http_response where
  "deprecated_heartbeat = \<lparr>hr_status = 410,
     hr_body = PDict [(''error'', PStr ''WebSocket endpoint moved''),
       (''message'', PStr ''This endpoint is deprecated and no longer accepts connections''),
       (''new_endpoint'', PStr ''/ws/v1/connect''), (''deprecation_date'', PStr ''2024-01-01''),
       (''sunset_date'', PStr ''2024-04-01''), (''documentation'', PStr ''https://docs.lifehq.io/websocket-migration'')],
     hr_headers = [(''Deprecation'', ''True''), (''Sunset'', ''Sun, 01 Apr 2024 00:00:00 GMT''),
       (''Link'', ''</ws/v1/connect>; rel='' @ [CHR 0x22] @ ''alternate'' @ [CHR 0x22])]\<rparr>"

text \<open>The older heartbeat socket (\<^verbatim>\<open>app/api/routes/ws.py\<close>), which no application includes.\<close>

definition ws_heartbeat :: "'w socket_api \<Rightarrow> datetime \<Rightarrow> nat \<Rightarrow> ('w, unit) io" where
  "ws_heartbeat ws now websocket =
     io_bind (ws_accept ws websocket) (\<lambda>_.
     io_bind (ws_send_json ws websocket [(''service'', PStr ''api_gateway''), (''connected'', PBool True), (''ts'', PIso now)]) (\<lambda>_.
     ws_close ws websocket 1000))"

subsection \<open>Start of the trading service\<close>

text \<open>The guards at the top of the module: \<open>is_main\<close> says that it is run as a script.\<close>

definition database_url_guard :: "bool \<Rightarrow> (string \<Rightarrow> string option) \<Rightarrow> exn + string" where
  "database_url_guard is_main env = (let missing = (case env ''DATABASE_URL'' of None \<Rightarrow> True | Some u \<Rightarrow> u = []) in
     if \<not> is_main \<and> missing then Inl (RuntimeError ''Trading service initialized without DATABASE_URL. This service requires database configuration at startup.'')
     else if missing then Inl (ValueError ''CRITICAL: DATABASE_URL environment variable is required'')
     else Inr (case env ''DATABASE_URL'' of None \<Rightarrow> [] | Some u \<Rightarrow> u))"

subsection \<open>Key bytes\<close>

definition key_bytes :: "string option \<Rightarrow> exn + byte list" where
  "key_bytes k = b64decode (case k of None \<Rightarrow> [] | Some s \<Rightarrow> s)"

definition private_key_bytes :: "settings_env \<Rightarrow> exn + byte list" where
  "private_key_bytes s = key_bytes (se_jwt_private_key s)"

definition public_key_bytes :: "settings_env \<Rightarrow> exn + byte list" where
  "public_key_bytes s = key_bytes (se_jwt_public_key s)"

subsection \<open>Declared routes\<close>

datatype http_method = GET | POST | DELETE | WEBSOCKET

text \<open>A segment of a path is a text or a parameter, which matches any segment that is not empty.\<close>

datatype segment = Lit string | Param string

type_synonym route = "http_method \<times> segment list"

fun segments_match :: "segment list \<Rightarrow> string list \<Rightarrow> bool" where
  "segments_match [] [] = True"
| "segments_match (Lit l # ps) (s # ss) = (s = l \<and> segments_match ps ss)"
| "segments_match (Param x # ps) (s # ss) = (s \<noteq> [] \<and> segments_match ps ss)"
| "segments_match _ _ = False"

definition path_segments :: "string \<Rightarrow> string list" where
  "path_segments path = tl (split_slash path)"

definition declares :: "route list \<Rightarrow> http_method \<Rightarrow> string \<Rightarrow> bool" where
  "declares rs mth path = list_ex (\<lambda>(m, ps). m = mth \<and> segments_match ps (path_segments path)) rs"

text \<open>\<open>include_router(r, prefix=p)\<close>\<close>

definition include_router :: "segment list \<Rightarrow> route list \<Rightarrow> route list" where
  "include_router pre rs = map (\<lambda>(m, ps). (m, pre @ ps)) rs"

definition health_router :: "route list" where
  "health_router = [(GET, [Lit ''health''])]"

definition auth_router :: "route list" where
  "auth_router = [(POST, [Lit ''auth'', Lit ''register'']), (POST, [Lit ''auth'', Lit ''login'']), (POST, [Lit ''auth'', Lit ''refresh''])]"

definition vault_router :: "route list" where
  "vault_router = [(GET, [Lit ''vault'', Lit ''keys'']), (POST, [Lit ''vault'', Lit ''keys'']),
     (DELETE, [Lit ''vault'', Lit ''keys'', Param ''key_id'']), (POST, [Lit ''vault'', Lit ''test''])]"

definition distributed_ws_router :: "route list" where
  "distributed_ws_router = [(WEBSOCKET, [Lit ''ws'']), (GET, [Lit ''heartbeat''])]"

definition api_app :: "route list" where
  "api_app = include_router [] health_router @ include_router [Lit ''api'', Lit ''v1''] auth_router @
     include_router [Lit ''api'', Lit ''v1''] vault_router @ include_router [] distributed_ws_router @
     [(GET, [Lit ''metrics'']), (GET, [Lit ''api'', Lit ''health'', Lit ''readiness'']),
      (WEBSOCKET, [Lit ''ws'', Lit ''heartbeat'']), (GET, [Lit ''ws'', Lit ''heartbeat''])]"

definition trading_app :: "route list" where
  "trading_app = [(POST, [Lit ''orders'']), (GET, [Lit ''orders'', Param ''order_id'']), (GET, [Lit ''account'', Param ''account_id'']),
     (GET, [Lit ''health''])]"

definition market_data_app :: "route list" where
  "market_data_app = [(GET, [Lit ''ticks'', Param ''symbol'']), (GET, [Lit ''ohlcv'', Param ''symbol'', Param ''timeframe'']),
     (POST, [Lit ''subscriptions'']), (WEBSOCKET, [Lit ''ws'', Lit ''ticks'']), (GET, [Lit ''health''])]"

definition news_app :: "route list" where
  "news_app = [(GET, [Lit ''events'']), (POST, [Lit ''bias'']), (GET, [Lit ''health''])]"

definition backtest_app :: "route list" where
  "backtest_app = [(POST, [Lit ''walk-forward'']), (POST, [Lit ''monte-carlo'']), (GET, [Lit ''health''])]"

definition ml_app :: "route list" where
  "ml_app = [(POST, [Lit ''train'']), (POST, [Lit ''promote'', Param ''model_id'']), (GET, [Lit ''health''])]"

definition scheduler_app :: "route list" where
  "scheduler_app = [(POST, [Lit ''schedules'']), (DELETE, [Lit ''schedules'', Param ''schedule_id'']), (GET, [Lit ''schedules''])]"

definition notifier_app :: "route list" where
  "notifier_app = [(POST, [Lit ''notify'']), (GET, [Lit ''health''])]"

subsection \<open>What the deployment asks for\<close>

text \<open>The health checks of the compose file, with the application each container runs.\<close>

definition compose_healthchecks :: "(string \<times> route list \<times> string) list" where
  "compose_healthchecks = [(''api_gateway'', api_app, ''/health''), (''trading_service'', trading_app, ''/health''),
     (''market_data_service'', market_data_app, ''/health''), (''news_service'', news_app, ''/health''),
     (''backtest_service'', backtest_app, ''/health''), (''ml_service'', ml_app, ''/health''),
     (''scheduler_service'', scheduler_app, ''/health''), (''notifier_service'', notifier_app, ''/health'')]"

text \<open>The locations of the proxy's API server are prefixes, and it has no other.\<close>

definition proxied :: "string \<Rightarrow> bool" where
  "proxied path = list_ex (startswith path) [''/api/'', ''/ws/'']"

subsection \<open>Properties\<close>

lemma split_slash_not_Nil [simp]: "split_slash s \<noteq> []"
  by (induction s) (auto split: list.split)

lemma join_split_slash: "join ''/'' (split_slash s) = s"
proof (induction s)
  case Nil
  show ?case by (simp add: join_def)
next
  case (Cons c s)
  then show ?case by (cases "split_slash s") (auto simp: join_def)
qed

lemma path_of_segments: "path = CHR ''/'' # rest \<Longrightarrow> path_segments path = segs \<Longrightarrow> path = CHR ''/'' # join ''/'' segs"
  by (auto simp: path_segments_def join_split_slash)

lemma segments_literal: "segments_match (map Lit ls) ss \<longleftrightarrow> ss = ls"
proof (induction ls arbitrary: ss)
  case Nil
  show ?case by (cases ss) simp_all
next
  case (Cons l ls)
  then show ?case by (cases ss) auto
qed

lemma api_sockets: "declares api_app WEBSOCKET path \<longleftrightarrow> path_segments path \<in> {[''ws''], [''ws'', ''heartbeat'']}"
  using segments_literal [of "[''ws'']"] segments_literal [of "[''ws'', ''heartbeat'']"]
  by (simp add: declares_def api_app_def include_router_def health_router_def auth_router_def vault_router_def distributed_ws_router_def)

lemma proxied_slash: "proxied path \<Longrightarrow> \<exists>rest. path = CHR ''/'' # rest \<and> path \<noteq> ''/ws''"
  by (cases path) (auto simp: proxied_def startswith_def)

text \<open>
  The deployment against the routes: every container's health check asks for a path its application
  declares, except the scheduler's, which can never succeed; through the proxy no WebSocket of the gateway
  can be opened but the deprecated heartbeat; and the endpoint that the deprecation notice tells clients
  to use is declared by no method.
\<close>

theorem deployment_routes:
  "list_all (\<lambda>(name, app, path). declares app GET path = (name \<noteq> ''scheduler_service'')) compose_healthchecks \<and>
   {path. declares api_app WEBSOCKET path \<and> proxied path} = {''/ws/heartbeat''} \<and>
   (\<exists>d. hr_body deprecated_heartbeat = PDict d \<and> map_of d ''new_endpoint'' = Some (PStr ''/ws/v1/connect'')) \<and>
   \<not> (\<exists>m. declares api_app m ''/ws/v1/connect'')"
proof (intro conjI)
  show "list_all (\<lambda>(name, app, path). declares app GET path = (name \<noteq> ''scheduler_service'')) compose_healthchecks"
    by code_simp
  show "{path. declares api_app WEBSOCKET path \<and> proxied path} = {''/ws/heartbeat''}"
  proof (intro equalityI subsetI)
    fix path assume "path \<in> {path. declares api_app WEBSOCKET path \<and> proxied path}"
    then have segs: "path_segments path \<in> {[''ws''], [''ws'', ''heartbeat'']}" and px: "proxied path"
      by (simp_all add: api_sockets)
    then obtain rest where rest: "path = CHR ''/'' # rest" "path \<noteq> ''/ws''" using proxied_slash by blast
    from segs show "path \<in> {''/ws/heartbeat''}"
      using path_of_segments [OF rest(1)] rest(2) by (auto simp: join_def)
  next
    fix path assume "path \<in> {''/ws/heartbeat''}"
    then have "path = ''/ws/heartbeat''" by simp
    moreover have "declares api_app WEBSOCKET ''/ws/heartbeat''" "proxied ''/ws/heartbeat''" by code_simp+
    ultimately show "path \<in> {path. declares api_app WEBSOCKET path \<and> proxied path}" by simp
  qed
  show "\<exists>d. hr_body deprecated_heartbeat = PDict d \<and> map_of d ''new_endpoint'' = Some (PStr ''/ws/v1/connect'')"
    by (simp add: deprecated_heartbeat_def)
  have "\<not> declares api_app m ''/ws/v1/connect''" for m by (cases m; hypsubst; code_simp)
  then show "\<not> (\<exists>m. declares api_app m ''/ws/v1/connect'')" by blast
qed

text \<open>
  The trading service starts, as a module or as a script, exactly with a database URL that is not empty.
\<close>

lemma database_url_guard_iff: "database_url_guard is_main env = Inr url \<longleftrightarrow> env ''DATABASE_URL'' = Some url \<and> url \<noteq> []"
  by (auto simp: database_url_guard_def Let_def split: option.splits)

text \<open>The bytes of a key that was configured as base64 text are the key; a key that is not configured is empty.\<close>

lemma key_bytes_configured: "key_bytes (Some (b64encode bs)) = Inr bs" "key_bytes None = Inr []"
  by (simp_all add: key_bytes_def b64decode_def b64encode_ascii b64_scan_encode)

end
