(* ===== verification/Loops.thy ===== *)
theory Loops
  imports Prelude
begin

text \<open>
  Endless tasks. The services start tasks that loop until something stops them: a round, a sleep,
  the next round. While the task sleeps the other coroutines of the process act on the same state,
  \<open>others k\<close> being what they do after round \<open>k\<close>. A round may raise, may leave the loop, or ask for
  another one. The loop is a partial function into \<open>option\<close>: a task that goes on forever
  is the value \<open>None\<close>, so that a theorem has to say when a task returns at all.
\<close>

subsection \<open>The loop\<close>

partial_function (option) io_loop :: "(nat \<Rightarrow> ('s, bool) io) \<Rightarrow> (nat \<Rightarrow> 's \<Rightarrow> 's) \<Rightarrow> nat \<Rightarrow> 's \<Rightarrow> ((exn + unit) \<times> 's) option" where
  "io_loop body others k s = (case body k s of
     (Inl e, s') \<Rightarrow> Some (Inl e, s')
   | (Inr again, s') \<Rightarrow> if again then io_loop body others (Suc k) (others k s') else Some (Inr (), s'))"

text \<open>The state in which round \<open>k\<close> begins, and what a round that is the last answers.\<close>

primrec round_state :: "(nat \<Rightarrow> ('s, bool) io) \<Rightarrow> (nat \<Rightarrow> 's \<Rightarrow> 's) \<Rightarrow> 's \<Rightarrow> nat \<Rightarrow> 's" where
  "round_state body others s 0 = s"
| "round_state body others s (Suc k) = others k (snd (body k (round_state body others s k)))"

definition goes_on :: "(nat \<Rightarrow> ('s, bool) io) \<Rightarrow> nat \<Rightarrow> 's \<Rightarrow> bool" where
  "goes_on body k s = (fst (body k s) = Inr True)"

definition last_round :: "(nat \<Rightarrow> ('s, bool) io) \<Rightarrow> nat \<Rightarrow> 's \<Rightarrow> (exn + unit) \<times> 's" where
  "last_round body k s = map_prod (map_sum id (\<lambda>_. ())) id (body k s)"

lemma io_loop_step:
  "io_loop body others k s = (if goes_on body k s then io_loop body others (Suc k) (others k (snd (body k s)))
     else Some (last_round body k s))"
  by (subst io_loop.simps) (auto simp: goes_on_def last_round_def split: prod.split sum.split)

lemma io_loop_rounds:
  assumes "\<And>j. j < n \<Longrightarrow> goes_on body j (round_state body others s j)"
  shows "io_loop body others 0 s = io_loop body others n (round_state body others s n)"
  using assms
proof (induction n)
  case (Suc n)
  then show ?case using io_loop_step [of body others n "round_state body others s n"] by simp
qed simp

text \<open>A task returns after the first round that does not ask for another.\<close>

lemma io_loop_ends:
  assumes "\<And>j. j < n \<Longrightarrow> goes_on body j (round_state body others s j)" and "\<not> goes_on body n (round_state body others s n)"
  shows "io_loop body others 0 s = Some (last_round body n (round_state body others s n))"
  using io_loop_rounds [OF assms(1)] assms(2) io_loop_step [of body others n] by simp

text \<open>A task that returns has a round that does not ask for another.\<close>

lemma io_loop_returns:
  assumes "io_loop body others k t = Some r"
  shows "t = round_state body others s k \<Longrightarrow> \<exists>n\<ge>k. \<not> goes_on body n (round_state body others s n)"
proof (induction rule: io_loop.raw_induct [OF _ assms])
  case (1 loop body others k t r)
  show ?case
  proof (cases "goes_on body k t")
    case True
    then obtain t' where b: "body k t = (Inr True, t')" by (cases "body k t") (simp add: goes_on_def)
    with 1(2) have "loop body others (Suc k) (others k t') = Some r" by simp
    moreover have "others k t' = round_state body others s (Suc k)" using b by (simp flip: 1(3))
    ultimately have "\<exists>n\<ge>Suc k. \<not> goes_on body n (round_state body others s n)" by (rule 1(1))
    then show ?thesis using Suc_leD by blast
  next
    case False
    then show ?thesis using 1(3) by blast
  qed
qed

text \<open>
  So a task returns exactly when some round does not ask for another, and then after the first such round;
  a task whose rounds all ask for another never returns.
\<close>

lemma io_loop_iff:
  "io_loop body others 0 s = Some r \<longleftrightarrow>
     (\<exists>n. (\<forall>j<n. goes_on body j (round_state body others s j)) \<and> \<not> goes_on body n (round_state body others s n) \<and>
        r = last_round body n (round_state body others s n))"
proof
  assume run: "io_loop body others 0 s = Some r"
  from io_loop_returns [OF this, of s] have "\<exists>n. \<not> goes_on body n (round_state body others s n)" by auto
  then have n: "\<not> goes_on body (LEAST n. \<not> goes_on body n (round_state body others s n))
      (round_state body others s (LEAST n. \<not> goes_on body n (round_state body others s n)))" (is "\<not> goes_on body ?n _")
    by (rule LeastI_ex)
  have before: "goes_on body j (round_state body others s j)" if "j < ?n" for j
    using not_less_Least [OF that] by blast
  with io_loop_ends [of ?n, OF before n] run n
  show "\<exists>n. (\<forall>j<n. goes_on body j (round_state body others s j)) \<and> \<not> goes_on body n (round_state body others s n) \<and>
        r = last_round body n (round_state body others s n)" by (metis option.inject)
next
  assume "\<exists>n. (\<forall>j<n. goes_on body j (round_state body others s j)) \<and> \<not> goes_on body n (round_state body others s n) \<and>
        r = last_round body n (round_state body others s n)"
  then show "io_loop body others 0 s = Some r" using io_loop_ends by metis
qed

lemma io_loop_forever: "io_loop body others 0 s = None \<longleftrightarrow> (\<forall>n. goes_on body n (round_state body others s n))"
proof
  assume none: "io_loop body others 0 s = None"
  show "\<forall>n. goes_on body n (round_state body others s n)"
  proof
    fix n
    show "goes_on body n (round_state body others s n)"
    proof (induction n rule: less_induct)
      case (less n)
      then show ?case using io_loop_ends [of n body others s] none by auto
    qed
  qed
next
  assume "\<forall>n. goes_on body n (round_state body others s n)"
  then show "io_loop body others 0 s = None" using io_loop_iff by (metis not_None_eq)
qed

subsection \<open>Interface: a guarded task\<close>

text \<open>
  A task that watches a condition of the state: its rounds ask for another one exactly while the condition
  holds. Such a task returns as soon as the condition is found broken, and only then.
\<close>

locale guarded_task =
  fixes body :: "nat \<Rightarrow> ('s, bool) io" and guard :: "nat \<Rightarrow> 's \<Rightarrow> bool"
  assumes body_guard: "goes_on body k s \<longleftrightarrow> guard k s"
begin

lemma returns_iff: "(\<exists>r. io_loop body others 0 s = Some r) \<longleftrightarrow> (\<exists>n. \<not> guard n (round_state body others s n))"
  using io_loop_forever [of body others s] unfolding not_None_eq [symmetric] by (simp add: body_guard)

lemma returns_by:
  assumes "\<not> guard n (round_state body others s n)"
  obtains k where "k \<le> n" and "\<And>j. j < k \<Longrightarrow> guard j (round_state body others s j)"
    and "\<not> guard k (round_state body others s k)"
    and "io_loop body others 0 s = Some (last_round body k (round_state body others s k))"
proof -
  let ?bad = "\<lambda>n. \<not> guard n (round_state body others s n)"
  let ?k = "LEAST n. ?bad n"
  have bad: "?bad ?k" using assms by (rule LeastI)
  have le: "?k \<le> n" using assms by (rule Least_le)
  have good: "guard j (round_state body others s j)" if "j < ?k" for j
    using not_less_Least [OF that] by blast
  have "io_loop body others 0 s = Some (last_round body ?k (round_state body others s ?k))"
    by (rule io_loop_ends) (simp_all add: body_guard good bad)
  then show ?thesis using that le good bad by blast
qed

lemma never_returns: "(\<And>n. guard n (round_state body others s n)) \<Longrightarrow> io_loop body others 0 s = None"
  by (simp add: io_loop_forever body_guard)

end

end
