(* ===== verification/Background_Tasks.thy ===== *)
theory Background_Tasks
  imports Loops Gateway Economic_Calendar MT5_Connector Risk_Engine Market_Data
begin

text \<open>
  The endless tasks of the services as whole loops: the revalidation of a socket's token
  (\<^verbatim>\<open>api_gateway/src/ws/auth.py\<close>), the monitor of its heartbeats (\<^verbatim>\<open>routes/ws.py\<close>), the listener of the
  broadcast channels (\<^verbatim>\<open>ws/manager.py\<close>), the live updates of the calendar
  (\<^verbatim>\<open>news_service/src/calendar/engine.py\<close>), the position monitor (\<^verbatim>\<open>trading_service/src/risk/engine.py\<close>), the
  broker's heartbeat (\<^verbatim>\<open>connectors/mt5.py\<close>) and the tick stream (\<^verbatim>\<open>providers/base.py\<close>). Each is \<open>io_loop\<close>
  over the component's round; clock readings are indexed by the round, and \<open>others\<close> is what the rest of the
  process, the server and the broker do while the task sleeps.
\<close>

subsection \<open>The loops\<close>

definition again :: "('s, 'a) io \<Rightarrow> ('s, bool) io" where
  "again m = io_bind m (\<lambda>_. io_return True)"

lemma goes_on_again: "goes_on (\<lambda>k. again (m k)) k s \<longleftrightarrow> (\<exists>a. fst (m k s) = Inr a)"
  by (auto simp: goes_on_def again_def io_bind_def io_return_def split: prod.splits sum.splits)

definition periodic_revalidate :: "'w token_crypto \<Rightarrow> 'w redis_api \<Rightarrow> 'w socket_api \<Rightarrow> (nat \<Rightarrow> 'w \<Rightarrow> 'w) \<Rightarrow> nat \<Rightarrow> string \<Rightarrow> string option
    \<Rightarrow> 'w \<Rightarrow> ((exn + unit) \<times> 'w) option" where
  "periodic_revalidate jc rd ws others websocket token fingerprint =
     io_loop (\<lambda>_. revalidate_round jc rd ws websocket token fingerprint) others 0"

definition heartbeat_monitor :: "'w redis_api \<Rightarrow> 'w socket_api \<Rightarrow> (nat \<Rightarrow> 'w \<Rightarrow> 'w) \<Rightarrow> (nat \<Rightarrow> datetime) \<Rightarrow> nat \<Rightarrow> pyval
    \<Rightarrow> 'w \<Rightarrow> ((exn + unit) \<times> 'w) option" where
  "heartbeat_monitor rd ws others clock websocket conn_id =
     io_loop (\<lambda>k. heartbeat_monitor_round rd ws (clock k) websocket conn_id) others 0"

definition listen_pubsub :: "'w redis_api \<Rightarrow> 'w socket_api \<Rightarrow> (nat \<Rightarrow> 'w mg_state \<Rightarrow> 'w mg_state) \<Rightarrow> (nat \<Rightarrow> (pyval \<times> pydict) option)
    \<Rightarrow> 'w mg_state \<Rightarrow> ((exn + unit) \<times> 'w mg_state) option" where
  "listen_pubsub rd ws others msgs = io_loop (\<lambda>k. again (listen_round rd ws (msgs k))) others 0"

text \<open>Nothing resets \<open>_running\<close> once it is set.\<close>

definition start_live_updates :: "'s calendar_deps \<Rightarrow> (datetime \<Rightarrow> datetime option \<Rightarrow> ('s, economic_event list) io) list
    \<Rightarrow> (nat \<Rightarrow> 's \<Rightarrow> 's) \<Rightarrow> (nat \<Rightarrow> datetime) \<Rightarrow> 's \<Rightarrow> ((exn + unit) \<times> 's) option" where
  "start_live_updates dp providers others clock = io_loop (\<lambda>k. again (live_round dp providers (clock k))) others 0"

definition monitor_positions :: "'s risk_deps \<Rightarrow> (string \<Rightarrow> ('s, pydict list) io) \<Rightarrow> string \<Rightarrow> (nat \<Rightarrow> 's risk_state \<Rightarrow> 's risk_state)
    \<Rightarrow> (nat \<Rightarrow> datetime) \<Rightarrow> 's risk_state \<Rightarrow> ((exn + unit) \<times> 's risk_state) option" where
  "monitor_positions dp gp account_id others clock =
     io_loop (\<lambda>k. again (monitor_round dp gp account_id (clock k))) others 0"

definition heartbeat_task :: "'w mt5_api option \<Rightarrow> (nat \<Rightarrow> 'w conn_state \<Rightarrow> 'w conn_state) \<Rightarrow> (nat \<Rightarrow> nat \<Rightarrow> real \<times> datetime)
    \<Rightarrow> (nat \<Rightarrow> datetime) \<Rightarrow> 'w conn_state \<Rightarrow> ((exn + unit) \<times> 'w conn_state) option" where
  "heartbeat_task mt5 others clocks clock = io_loop (\<lambda>k. heartbeat_round mt5 (clocks k) (clock k)) others 0"

definition stream_task :: "'w data_api option \<Rightarrow> ('c \<Rightarrow> tick \<Rightarrow> ('w, unit) io) \<Rightarrow> (nat \<Rightarrow> ('w, 'c) provider \<Rightarrow> ('w, 'c) provider)
    \<Rightarrow> (nat \<Rightarrow> datetime) \<Rightarrow> string \<Rightarrow> 'c \<Rightarrow> ('w, 'c) provider \<Rightarrow> ((exn + unit) \<times> ('w, 'c) provider) option" where
  "stream_task mt5 run others clock symbol cb =
     io_loop (\<lambda>k. io_bind (io_get pr_connected) (\<lambda>up. if up then again (stream_body mt5 run (clock k) symbol cb) else io_return False)) others 0"

subsection \<open>What the tasks watch\<close>

definition verified :: "'w token_crypto \<Rightarrow> 'w redis_api \<Rightarrow> string \<Rightarrow> string option \<Rightarrow> 'w \<Rightarrow> bool" where
  "verified jc rd token fp w = (\<exists>p. fst (verify_token jc rd token fp w) = Inr p)"

interpretation revalidation: guarded_task "\<lambda>_. revalidate_round jc rd ws sock token fp" "\<lambda>_. verified jc rd token fp"
  for jc rd ws sock token fp
proof
  fix k w
  obtain r w1 where v: "verify_token jc rd token fp w = (r, w1)" by fastforce
  show "goes_on (\<lambda>_. revalidate_round jc rd ws sock token fp) k w \<longleftrightarrow> verified jc rd token fp w"
    by (cases r) (auto simp: goes_on_def revalidate_round_def verified_def v io_simps split: prod.splits sum.splits)
qed

text \<open>A connection is heard of when its row is there and its last heartbeat, if it has one, is at most 90 seconds old.\<close>

definition heard_of :: "'w redis_api \<Rightarrow> pyval \<Rightarrow> datetime \<Rightarrow> 'w \<Rightarrow> bool" where
  "heard_of rd conn_id now w = (case fst (rd_hgetall rd (conn_key conn_id) w) of
     Inl e \<Rightarrow> False
   | Inr presence \<Rightarrow> presence \<noteq> [] \<and> (truthy (pyget presence ''last_heartbeat'') \<longrightarrow>
       (\<exists>t. fromisoformat (pyget presence ''last_heartbeat'') = Inr t \<and> now - t \<le> 90 * 1000000)))"

lemma seconds_over: "(of_int d / 1000000 > (90::real)) = (90 * 1000000 < d)"
proof -
  have "(of_int d / 1000000 > (90::real)) = (of_int (90 * 1000000) < (of_int d :: real))"
    by (simp add: less_divide_eq)
  then show ?thesis by (simp only: of_int_less_iff)
qed

interpretation presence: guarded_task "\<lambda>k. heartbeat_monitor_round rd ws (clock k) sock conn_id" "\<lambda>k. heard_of rd conn_id (clock k)"
  for rd ws sock conn_id clock
proof
  fix k w
  obtain r w1 where v: "rd_hgetall rd (conn_key conn_id) w = (r, w1)" by fastforce
  show "goes_on (\<lambda>k. heartbeat_monitor_round rd ws (clock k) sock conn_id) k w \<longleftrightarrow> heard_of rd conn_id (clock k) w"
    by (cases r; cases "fromisoformat (pyget (projr r) ''last_heartbeat'')")
       (auto simp: goes_on_def heartbeat_monitor_round_def heard_of_def v io_simps Let_def seconds_over split: prod.splits sum.splits)
qed

interpretation live: guarded_task "\<lambda>k. again (live_round dp providers (clock k))"
    "\<lambda>k s. \<exists>a. fst (live_round dp providers (clock k) s) = Inr a" for dp providers clock
  by unfold_locales (rule goes_on_again)

interpretation listener: guarded_task "\<lambda>k. again (listen_round rd ws (msgs k))"
    "\<lambda>k s. \<exists>a. fst (listen_round rd ws (msgs k) s) = Inr a" for rd ws msgs
  by unfold_locales (rule goes_on_again)

interpretation position_monitor: guarded_task "\<lambda>k. again (monitor_round dp gp account (clock k))"
    "\<lambda>k s. \<exists>a. fst (monitor_round dp gp account (clock k) s) = Inr a" for dp gp account clock
  by unfold_locales (rule goes_on_again)

interpretation beats: guarded_task "\<lambda>k. heartbeat_round mt5 (clocks k) (clock k)" "\<lambda>k s. co_connected (fst s)"
  for mt5 clocks clock
proof
  fix k s
  show "goes_on (\<lambda>k. heartbeat_round mt5 (clocks k) (clock k)) k s \<longleftrightarrow> co_connected (fst s)"
    by (cases s) (auto simp: goes_on_def heartbeat_round_def io_bind_def [of "io_try _"] io_bind_def [of "io_get _"] io_get_def io_return_def io_try_def
      split: prod.splits)
qed

interpretation streaming: guarded_task
    "\<lambda>k. io_bind (io_get pr_connected) (\<lambda>up. if up then again (stream_body mt5 run (clock k) symbol cb) else io_return False)"
    "\<lambda>k s. pr_connected s \<and> (\<exists>a. fst (stream_body mt5 run (clock k) symbol cb s) = Inr a)" for mt5 run clock symbol cb
proof
  fix k s
  show "goes_on (\<lambda>k. io_bind (io_get pr_connected) (\<lambda>up. if up then again (stream_body mt5 run (clock k) symbol cb) else io_return False)) k s
    \<longleftrightarrow> pr_connected s \<and> (\<exists>a. fst (stream_body mt5 run (clock k) symbol cb s) = Inr a)"
    using goes_on_again [of "\<lambda>k. stream_body mt5 run (clock k) symbol cb" k s]
    by (simp add: goes_on_def io_bind_def [of "io_get _"] io_get_def io_return_def)
qed

subsection \<open>Revoked tokens and silent clients\<close>

lemma revoked_not_verified:
  assumes rd: "redis_strings rd view" and jc: "decode_pure jc view"
    and jti: "\<And>w p w1. jc_decode jc token w = (Inr (Some p), w1) \<Longrightarrow> py_str (pyget p ''jti'') = py_str jti"
    and gone: "view w (revoked_key jti) \<noteq> None"
  shows "\<not> verified jc rd token fp w"
proof
  assume "verified jc rd token fp w"
  then obtain p w' where ok: "verify_token jc rd token fp w = (Inr p, w')" by (metis prod.collapse verified_def)
  have dec: "jc_decode jc token w = (Inr (Some p), w')" by (rule verify_token_decoded [OF ok rd])
  have "revoked_key (pyget p ''jti'') = revoked_key jti" using jti [OF dec] by (simp add: revoked_key_def)
  moreover have "view w (revoked_key (pyget p ''jti'')) = None" using verify_token_result [OF rd jc dec, of fp p w'] ok by blast
  ultimately show False using gone by metis
qed

text \<open>The state in which a round of the revalidation, and of the monitor, begins.\<close>

definition revalidation_state :: "'w token_crypto \<Rightarrow> 'w redis_api \<Rightarrow> 'w socket_api \<Rightarrow> (nat \<Rightarrow> 'w \<Rightarrow> 'w) \<Rightarrow> nat \<Rightarrow> string \<Rightarrow> string option
    \<Rightarrow> 'w \<Rightarrow> nat \<Rightarrow> 'w" where
  "revalidation_state jc rd ws others sock token fp w = round_state (\<lambda>_. revalidate_round jc rd ws sock token fp) others w"

definition monitor_state :: "'w redis_api \<Rightarrow> 'w socket_api \<Rightarrow> (nat \<Rightarrow> 'w \<Rightarrow> 'w) \<Rightarrow> (nat \<Rightarrow> datetime) \<Rightarrow> nat \<Rightarrow> pyval \<Rightarrow> 'w \<Rightarrow> nat \<Rightarrow> 'w" where
  "monitor_state rd ws others clock sock conn_id w = round_state (\<lambda>k. heartbeat_monitor_round rd ws (clock k) sock conn_id) others w"

lemma revalidation_closes:
  assumes "\<not> verified jc rd token fp (revalidation_state jc rd ws others sock token fp w n)"
  shows "\<exists>k\<le>n. \<exists>e w1. (\<forall>j<k. verified jc rd token fp (revalidation_state jc rd ws others sock token fp w j)) \<and>
    verify_token jc rd token fp (revalidation_state jc rd ws others sock token fp w k) = (Inl e, w1) \<and>
    periodic_revalidate jc rd ws others sock token fp w = Some (ws_close ws sock 4003 w1)"
proof -
  let ?at = "revalidation_state jc rd ws others sock token fp w"
  from assms obtain k where k: "k \<le> n" "\<And>j. j < k \<Longrightarrow> verified jc rd token fp (?at j)" "\<not> verified jc rd token fp (?at k)"
    "periodic_revalidate jc rd ws others sock token fp w = Some (last_round (\<lambda>_. revalidate_round jc rd ws sock token fp) k (?at k))"
    unfolding periodic_revalidate_def revalidation_state_def by (rule revalidation.returns_by) blast
  obtain r w1 where v: "verify_token jc rd token fp (?at k) = (r, w1)" by fastforce
  with k(3) obtain e where r: "r = Inl e" by (cases r) (auto simp: verified_def)
  obtain x w2 where c: "ws_close ws sock 4003 w1 = (x, w2)" by fastforce
  have "last_round (\<lambda>_. revalidate_round jc rd ws sock token fp) k (?at k) = ws_close ws sock 4003 w1"
    by (cases x) (simp_all add: last_round_def revalidate_round_def v r c io_simps)
  with k v r show ?thesis by auto
qed

text \<open>
  C27. The revalidation of a socket never ends while its token is accepted, and once the token is found
  revoked at some round the socket is closed at that round at the latest: at the first round where
  the token is refused, with code 4003, and the task returns.
\<close>

theorem revoked_token_closes_socket:
  assumes rd: "redis_strings rd view" and jc: "decode_pure jc view"
    and jti: "\<And>w p w1. jc_decode jc token w = (Inr (Some p), w1) \<Longrightarrow> py_str (pyget p ''jti'') = py_str jti"
  shows "(periodic_revalidate jc rd ws others sock token fp w = None \<longleftrightarrow>
      (\<forall>k. verified jc rd token fp (revalidation_state jc rd ws others sock token fp w k))) \<and>
    (view (revalidation_state jc rd ws others sock token fp w n) (revoked_key jti) \<noteq> None \<longrightarrow>
      (\<exists>k\<le>n. \<exists>e w1. (\<forall>j<k. verified jc rd token fp (revalidation_state jc rd ws others sock token fp w j)) \<and>
         verify_token jc rd token fp (revalidation_state jc rd ws others sock token fp w k) = (Inl e, w1) \<and>
         periodic_revalidate jc rd ws others sock token fp w = Some (ws_close ws sock 4003 w1)))"
proof
  show "periodic_revalidate jc rd ws others sock token fp w = None \<longleftrightarrow>
      (\<forall>k. verified jc rd token fp (revalidation_state jc rd ws others sock token fp w k))"
    unfolding periodic_revalidate_def revalidation_state_def io_loop_forever revalidation.body_guard ..
  show "view (revalidation_state jc rd ws others sock token fp w n) (revoked_key jti) \<noteq> None \<longrightarrow>
      (\<exists>k\<le>n. \<exists>e w1. (\<forall>j<k. verified jc rd token fp (revalidation_state jc rd ws others sock token fp w j)) \<and>
         verify_token jc rd token fp (revalidation_state jc rd ws others sock token fp w k) = (Inl e, w1) \<and>
         periodic_revalidate jc rd ws others sock token fp w = Some (ws_close ws sock 4003 w1))"
  proof
    assume "view (revalidation_state jc rd ws others sock token fp w n) (revoked_key jti) \<noteq> None"
    from revalidation_closes [OF revoked_not_verified [where token = token and jti = jti, OF rd jc _ this]] jti
    show "\<exists>k\<le>n. \<exists>e w1. (\<forall>j<k. verified jc rd token fp (revalidation_state jc rd ws others sock token fp w j)) \<and>
         verify_token jc rd token fp (revalidation_state jc rd ws others sock token fp w k) = (Inl e, w1) \<and>
         periodic_revalidate jc rd ws others sock token fp w = Some (ws_close ws sock 4003 w1)" by blast
  qed
qed

text \<open>What makes the monitor close: no row, or a last heartbeat more than 90 seconds ago.\<close>

definition silent :: "pydict \<Rightarrow> datetime \<Rightarrow> bool" where
  "silent presence now = (presence = [] \<or>
     (case pyget presence ''last_heartbeat'' of PIso t \<Rightarrow> 90 * 1000000 < now - t | _ \<Rightarrow> False))"

lemma heard_of_row:
  assumes "rd_hgetall rd (conn_key conn_id) w = (Inr presence, w)"
    and "pyget presence ''last_heartbeat'' = PNone \<or> (\<exists>t. pyget presence ''last_heartbeat'' = PIso t)"
  shows "heard_of rd conn_id now w \<longleftrightarrow> \<not> silent presence now"
    and "silent presence now \<Longrightarrow> last_round (\<lambda>k. heartbeat_monitor_round rd ws now sock conn_id) k w = ws_close ws sock 1001 w"
proof -
  show "heard_of rd conn_id now w \<longleftrightarrow> \<not> silent presence now"
    using assms by (auto simp: heard_of_def silent_def)
  obtain x w2 where c: "ws_close ws sock 1001 w = (x, w2)" by fastforce
  show "last_round (\<lambda>k. heartbeat_monitor_round rd ws now sock conn_id) k w = ws_close ws sock 1001 w" if "silent presence now"
    using that assms c
    by (cases x) (auto simp: silent_def last_round_def heartbeat_monitor_round_def io_simps Let_def seconds_over)
qed

text \<open>
  C28. The monitor closes a silent connection and no other. On a server whose rows have an ISO time
  as their last heartbeat, or none, it goes on forever when the connection is never found
  silent, and otherwise closes the socket with code 1001 at the first round that finds it so.
\<close>

theorem silent_connection_closed:
  assumes row: "\<And>k w. rd_hgetall rd k w = (Inr (row w k), w)"
    and stamps: "\<And>k w. pyget (row w k) ''last_heartbeat'' = PNone \<or> (\<exists>t. pyget (row w k) ''last_heartbeat'' = PIso t)"
  shows "(heartbeat_monitor rd ws others clock sock conn_id w = None \<longleftrightarrow>
      (\<forall>k. \<not> silent (row (monitor_state rd ws others clock sock conn_id w k) (conn_key conn_id)) (clock k))) \<and>
    (silent (row (monitor_state rd ws others clock sock conn_id w n) (conn_key conn_id)) (clock n) \<longrightarrow>
      (\<exists>k\<le>n. (\<forall>j<k. \<not> silent (row (monitor_state rd ws others clock sock conn_id w j) (conn_key conn_id)) (clock j)) \<and>
         heartbeat_monitor rd ws others clock sock conn_id w =
           Some (ws_close ws sock 1001 (monitor_state rd ws others clock sock conn_id w k))))"
proof (intro conjI impI)
  let ?at = "monitor_state rd ws others clock sock conn_id w"
  have heard: "heard_of rd conn_id now v \<longleftrightarrow> \<not> silent (row v (conn_key conn_id)) now" for now v
    by (rule heard_of_row [OF row stamps])
  show "heartbeat_monitor rd ws others clock sock conn_id w = None \<longleftrightarrow> (\<forall>k. \<not> silent (row (?at k) (conn_key conn_id)) (clock k))"
    unfolding heartbeat_monitor_def monitor_state_def io_loop_forever presence.body_guard heard ..
  assume "silent (row (?at n) (conn_key conn_id)) (clock n)"
  then have "\<not> heard_of rd conn_id (clock n) (?at n)" by (simp add: heard)
  then obtain k where k: "k \<le> n" "\<And>j. j < k \<Longrightarrow> heard_of rd conn_id (clock j) (?at j)" "\<not> heard_of rd conn_id (clock k) (?at k)"
    "heartbeat_monitor rd ws others clock sock conn_id w =
      Some (last_round (\<lambda>k. heartbeat_monitor_round rd ws (clock k) sock conn_id) k (?at k))"
    unfolding heartbeat_monitor_def monitor_state_def by (rule presence.returns_by) blast
  moreover have "last_round (\<lambda>k. heartbeat_monitor_round rd ws (clock k) sock conn_id) k (?at k) = ws_close ws sock 1001 (?at k)"
    using heard_of_row(2) [OF row stamps, of "?at k" conn_id "clock k" ws sock k] k(3) by (simp add: heard last_round_def)
  ultimately show "\<exists>k\<le>n. (\<forall>j<k. \<not> silent (row (?at j) (conn_key conn_id)) (clock j)) \<and>
      heartbeat_monitor rd ws others clock sock conn_id w = Some (ws_close ws sock 1001 (?at k))"
    by (metis heard)
qed

subsection \<open>The live updates\<close>

definition updates_state :: "'s calendar_deps \<Rightarrow> (datetime \<Rightarrow> datetime option \<Rightarrow> ('s, economic_event list) io) list
    \<Rightarrow> (nat \<Rightarrow> 's \<Rightarrow> 's) \<Rightarrow> (nat \<Rightarrow> datetime) \<Rightarrow> 's \<Rightarrow> nat \<Rightarrow> 's" where
  "updates_state dp providers others clock s = round_state (\<lambda>k. again (live_round dp providers (clock k))) others s"

lemma last_round_again: "fst (m k s) = Inl e \<Longrightarrow> last_round (\<lambda>k. again (m k)) k s = (Inl e, snd (m k s))"
  by (cases "m k s") (simp add: last_round_def again_def io_simps)

text \<open>The value that the repository has for an event; without a repository none.\<close>

definition stored_actual :: "'s calendar_deps \<Rightarrow> economic_event \<Rightarrow> ('s, string option) io" where
  "stored_actual dp e = (case cd_get_event_actual dp of None \<Rightarrow> io_return None | Some f \<Rightarrow> f (ev_id e))"

text \<open>Reading the stored values in the order of the events comes to one that differs, with the state after that read.\<close>

fun finds_change :: "'s calendar_deps \<Rightarrow> economic_event list \<Rightarrow> 's \<Rightarrow> 's option" where
  "finds_change dp [] s = None"
| "finds_change dp (e # es) s = (case stored_actual dp e s of
     (Inl x, s') \<Rightarrow> None
   | (Inr old, s') \<Rightarrow> if old \<noteq> ev_actual e then Some s' else finds_change dp es s')"

lemma change_raises:
  assumes used: "cd_get_event_actual dp \<noteq> None \<or> cd_broadcast dp \<noteq> None"
  shows "finds_change dp events s = Some s' \<Longrightarrow> io_each (update_event dp) events s = (Inl (AttributeError ''__dict__''), s')"
proof (induction events arbitrary: s)
  case Nil
  then show ?case by simp
next
  case (Cons e es)
  then obtain old s1 where old: "stored_actual dp e s = (Inr old, s1)" by (auto split: prod.splits sum.splits)
  show ?case
  proof (cases "old = ev_actual e")
    case True
    then have "update_event dp e s = (Inr (), s1)"
      using old by (simp add: update_event_def stored_actual_def [symmetric] io_bind_def [of "stored_actual _ _"] io_return_def)
    with Cons old True show ?thesis by simp
  next
    case False
    with Cons.prems old have "s1 = s'" by simp
    then have "update_event dp e s = (Inl (AttributeError ''__dict__''), s')"
      using old False used
      by (auto simp: update_event_def stored_actual_def [symmetric] event_dict_def io_bind_def [of "stored_actual _ _"] io_simps)
    then show ?thesis by (simp add: io_bind_def)
  qed
qed

text \<open>
  C36. With a repository or a broadcaster, the live updates do not survive a changed value: if in some round the
  events come with one, anywhere among them, whose value differs from the stored one, the loop has returned by the end
  of that round, with the exception of the first round that raised; when the rounds before it passed, this is that of the
  missing \<^verbatim>\<open>__dict__\<close>, right after the stored value is read, so that nothing of the change is stored or broadcast.
\<close>

theorem live_updates_end:
  assumes "cd_get_event_actual dp \<noteq> None \<or> cd_broadcast dp \<noteq> None"
    and "fetch_events providers (clock n) (Some (clock n + 6 * 3600 * 1000000)) None (Some [''high''])
      (updates_state dp providers others clock s n) = (Inr events, s1)"
    and "finds_change dp events s1 = Some s2"
  shows "\<exists>k\<le>n. \<exists>x s'. start_live_updates dp providers others clock s = Some (Inl x, s') \<and>
    live_round dp providers (clock k) (updates_state dp providers others clock s k) = (Inl x, s') \<and>
    (\<forall>j<k. \<exists>a. fst (live_round dp providers (clock j) (updates_state dp providers others clock s j)) = Inr a) \<and>
    (k = n \<longrightarrow> x = AttributeError ''__dict__'' \<and> s' = s2)"
proof -
  let ?at = "updates_state dp providers others clock s"
  have fails: "live_round dp providers (clock n) (?at n) = (Inl (AttributeError ''__dict__''), s2)"
    using assms(2) change_raises [OF assms(1,3)] by (simp add: live_round_def)
  then have "\<not> (\<exists>a. fst (live_round dp providers (clock n) (?at n)) = Inr a)" by simp
  then obtain k where k: "k \<le> n" "\<And>j. j < k \<Longrightarrow> \<exists>a. fst (live_round dp providers (clock j) (?at j)) = Inr a"
      "\<not> (\<exists>a. fst (live_round dp providers (clock k) (?at k)) = Inr a)"
      "start_live_updates dp providers others clock s = Some (last_round (\<lambda>k. again (live_round dp providers (clock k))) k (?at k))"
    unfolding start_live_updates_def updates_state_def by (rule live.returns_by) blast
  obtain x s' where x: "live_round dp providers (clock k) (?at k) = (Inl x, s')"
    using k(3) by (metis obj_sumE surj_pair fst_conv)
  then have "start_live_updates dp providers others clock s = Some (Inl x, s')"
    using k(4) last_round_again [where m = "\<lambda>k. live_round dp providers (clock k)" and k = k and s = "?at k" and e = x] by simp
  then show ?thesis using k(1,2) x fails by (intro exI [of _ k] conjI exI [of _ x] exI [of _ s']) auto
qed

text \<open>Nothing stops the updates but an exception.\<close>

lemma live_updates_never_return: "start_live_updates dp providers others clock s \<noteq> Some (Inr (), s')"
proof
  assume "start_live_updates dp providers others clock s = Some (Inr (), s')"
  then obtain n where n: "\<not> goes_on (\<lambda>k. again (live_round dp providers (clock k))) n (updates_state dp providers others clock s n)"
    "(Inr (), s') = last_round (\<lambda>k. again (live_round dp providers (clock k))) n (updates_state dp providers others clock s n)"
    unfolding start_live_updates_def updates_state_def io_loop_iff by blast
  obtain e where "fst (live_round dp providers (clock n) (updates_state dp providers others clock s n)) = Inl e"
    using n(1) by (cases "fst (live_round dp providers (clock n) (updates_state dp providers others clock s n))")
      (auto simp: goes_on_again)
  from last_round_again [where m = "\<lambda>k. live_round dp providers (clock k)", OF this] n(2) show False by simp
qed

subsection \<open>A lost broker\<close>

definition beats_state :: "'w mt5_api option \<Rightarrow> (nat \<Rightarrow> 'w conn_state \<Rightarrow> 'w conn_state) \<Rightarrow> (nat \<Rightarrow> nat \<Rightarrow> real \<times> datetime)
    \<Rightarrow> (nat \<Rightarrow> datetime) \<Rightarrow> 'w conn_state \<Rightarrow> nat \<Rightarrow> 'w conn_state" where
  "beats_state mt5 others clocks clock s = round_state (\<lambda>k. heartbeat_round mt5 (clocks k) (clock k)) others s"

text \<open>
  The heartbeat gives up: when a round finds the terminal gone, the attempts to reconnect all fail and nobody
  else reconnects, the task ends before the next round, and the connector is left without a heartbeat. While the
  connection is up at the head of every round, the task goes on.
\<close>

theorem lost_broker_ends_heartbeat:
  assumes lost: "beats_state (Some api) others clocks clock s n = (c, w)" "m_terminal_info api w = (Inr False, w1)"
    and failed: "reconnect (Some api) (clocks n) (c\<lparr>co_connected := False\<rparr>, w1) = (Inr (False, ds), (c', w'))"
    and alone: "\<not> co_connected (fst (others n (c', w')))"
  shows "\<exists>k\<le>Suc n. heartbeat_task (Some api) others clocks clock s = Some (Inr (), beats_state (Some api) others clocks clock s k) \<and>
    \<not> co_connected (fst (beats_state (Some api) others clocks clock s k))"
proof -
  let ?at = "beats_state (Some api) others clocks clock s"
  have "\<exists>m\<le>Suc n. \<not> co_connected (fst (?at m))"
  proof (cases "co_connected c")
    case False
    then show ?thesis using lost(1) by (intro exI [of _ n]) simp
  next
    case True
    have "snd (heartbeat_round (Some api) (clocks n) (clock n) (c, w)) = (c', w')"
      using True lost(2) failed
      by (simp add: heartbeat_round_def broker_def on_self_def io_bind_def io_get_def io_return_def io_try_def io_modify_def io_zoom_def)
    then have "?at (Suc n) = others n (c', w')" using lost(1) by (simp add: beats_state_def)
    then show ?thesis using alone by (intro exI [of _ "Suc n"]) simp
  qed
  then obtain m where m: "m \<le> Suc n" "\<not> co_connected (fst (?at m))" by blast
  from m(2) obtain k where k: "k \<le> m" "\<not> co_connected (fst (?at k))"
    "heartbeat_task (Some api) others clocks clock s = Some (last_round (\<lambda>k. heartbeat_round (Some api) (clocks k) (clock k)) k (?at k))"
    unfolding heartbeat_task_def beats_state_def by (rule beats.returns_by) blast
  have "last_round (\<lambda>k. heartbeat_round (Some api) (clocks k) (clock k)) k (?at k) = (Inr (), ?at k)"
    using k(2) by (cases "?at k") (simp add: last_round_def heartbeat_round_def io_bind_def io_get_def io_return_def)
  moreover have "k \<le> Suc n" using k(1) m(1) by simp
  ultimately show ?thesis using k(2,3) by metis
qed

subsection \<open>Witnesses\<close>

text \<open>A token that somebody revokes while the task sleeps after its second round.\<close>

theorem revoked_token_closes_socket_witness:
  "\<exists>w1. periodic_revalidate demo_crypto string_redis quiet_sockets
     (\<lambda>k w. if k = 1 then AList.update (revoked_key (PStr ''j1'')) ''1'' w else w) 0 ''tok'' (Some ''dev'') [] = Some (Inr (), w1)"
proof -
  let ?others = "\<lambda>k w. if k = 1 then AList.update (revoked_key (PStr ''j1'')) ''1'' w else w"
  have jti: "py_str (pyget p ''jti'') = py_str (PStr ''j1'')" if "jc_decode demo_crypto ''tok'' w = (Inr (Some p), w1)" for w p w1
    using that by (auto simp: demo_crypto_def demo_claims_def)
  have "map_of (revalidation_state demo_crypto string_redis quiet_sockets ?others 0 ''tok'' (Some ''dev'') [] 2) (revoked_key (PStr ''j1'')) \<noteq> None"
    by (simp add: revalidation_state_def eval_nat_numeral)
  with revoked_token_closes_socket [OF string_redis_strings demo_decode_pure jti, where ws = quiet_sockets and others = ?others and sock = 0 and fp = "Some ''dev''" and w = "[]" and n = 2]
  show ?thesis by (fastforce simp: quiet_sockets_def io_return_def)
qed

text \<open>A client whose last heartbeat is that of the start, with a round every 30 seconds.\<close>

theorem silent_connection_closed_witness:
  "\<exists>w. heartbeat_monitor (set_redis\<lparr>rd_hgetall := \<lambda>k w. (Inr [(''last_heartbeat'', PIso 0)], w)\<rparr>) quiet_sockets (\<lambda>_ w. w)
     (\<lambda>k. int k * 30000000) 0 (PStr ''c'') (\<lambda>_. {}) = Some (Inr (), w)"
proof -
  let ?rd = "set_redis\<lparr>rd_hgetall := \<lambda>k w. (Inr [(''last_heartbeat'', PIso 0)], w)\<rparr>"
  have row: "rd_hgetall ?rd k w = (Inr ((\<lambda>_ _. [(''last_heartbeat'', PIso 0)]) w k), w)" for k w by simp
  have "silent [(''last_heartbeat'', PIso 0)] (int 4 * 30000000)" by (simp add: silent_def)
  with silent_connection_closed [OF row, of quiet_sockets "\<lambda>_ w. w" "\<lambda>k. int k * 30000000" 0 "PStr ''c''" "\<lambda>_. {}" 4]
  show ?thesis by (fastforce simp: quiet_sockets_def io_return_def)
qed

text \<open>Two events of high impact: the first is stored as it is, the second has changed.\<close>

theorem live_updates_end_witness:
  "\<exists>s'. start_live_updates \<lparr>cd_get_event_actual = Some (\<lambda>i. io_return (if i = ''e1'' then Some ''2.4%'' else None)), cd_upsert_event = \<lambda>_. io_return (), cd_broadcast = None\<rparr>
     [\<lambda>_ _. io_return [demo_event, demo_event\<lparr>ev_id := ''e2'', ev_event_name := ''PPI''\<rparr>]] (\<lambda>_ s. Suc s) (\<lambda>_. 0) (0::nat) = Some (Inl (AttributeError ''__dict__''), s')"
proof -
  let ?dp = "\<lparr>cd_get_event_actual = Some (\<lambda>i. io_return (if i = ''e1'' then Some ''2.4%'' else None)), cd_upsert_event = \<lambda>_. io_return (), cd_broadcast = None\<rparr>"
  let ?es = "[demo_event, demo_event\<lparr>ev_id := ''e2'', ev_event_name := ''PPI''\<rparr>]"
  have "fetch_events [\<lambda>_ _. io_return ?es] 0 (Some (0 + 6 * 3600 * 1000000)) None (Some [''high''])
      (updates_state ?dp [\<lambda>_ _. io_return ?es] (\<lambda>_ s. Suc s) (\<lambda>_. 0) (0::nat) 0) = (Inr ?es, 0)"
    by (simp add: updates_state_def fetch_events_def merge_batches_def io_simps demo_event_def merge_event_def passes_filter_def merge_batch_def lower_str_def)
  from live_updates_end [where dp = ?dp and n = 0, OF _ this, where ?s2.0 = 0]
  show ?thesis by (simp add: stored_actual_def io_return_def demo_event_def)
qed

theorem lost_broker_ends_heartbeat_witness:
  "\<exists>s. heartbeat_task (Some (demo_api\<lparr>m_initialize := \<lambda>_ _ w. (Inr False, w)\<rparr>)) (\<lambda>_ s. s) (\<lambda>_ _. (0, 0)) (\<lambda>_. 0)
     (demo_connector\<lparr>co_connected := True, co_config := default_config\<lparr>cf_reconnect_attempts := 1\<rparr>\<rparr>, 0) = Some (Inr (), s)"
proof -
  let ?api = "demo_api\<lparr>m_initialize := \<lambda>_ _ w. (Inr False, w)\<rparr>"
  let ?c = "demo_connector\<lparr>co_connected := True, co_config := default_config\<lparr>cf_reconnect_attempts := 1\<rparr>\<rparr>"
  obtain ds c' w' where "reconnect (Some ?api) (\<lambda>_. (0, 0)) (?c\<lparr>co_connected := False\<rparr>, 0) = (Inr (False, ds), (c', w'))"
    and "\<not> co_connected c'"
    by (simp add: reconnect_def connect_def demo_defs broker_def on_self_def io_zoom_def io_simps)
  moreover have "beats_state (Some ?api) (\<lambda>_ s. s) (\<lambda>_ _. (0, 0)) (\<lambda>_. 0) (?c, 0) 0 = (?c, 0)" by (simp add: beats_state_def)
  moreover have "m_terminal_info ?api 0 = (Inr False, 0)" by (simp add: demo_api_def)
  ultimately obtain k where "k \<le> Suc 0" "heartbeat_task (Some ?api) (\<lambda>_ s. s) (\<lambda>_ _. (0, 0)) (\<lambda>_. 0) (?c, 0) =
      Some (Inr (), beats_state (Some ?api) (\<lambda>_ s. s) (\<lambda>_ _. (0, 0)) (\<lambda>_. 0) (?c, 0) k)"
    using lost_broker_ends_heartbeat [of ?api "\<lambda>_ s. s" "\<lambda>_ _. (0, 0)" "\<lambda>_. 0" "(?c, 0)" 0 ?c 0 0 ds c' w']
    by (metis fst_conv)
  then show ?thesis by blast
qed

end
