(* ===== verification/Fanout.thy ===== *)
theory Fanout
  imports Gateway
begin

text \<open>
  The gateway over all its processes. Every WebSocket session has a connection manager of its own
  (\<^verbatim>\<open>routes/ws.py\<close>), each of which listens to the broadcast channels and sends what concerns a user to the
  connections it holds itself (\<^verbatim>\<open>ws/manager.py\<close>); which connections a user has is a set on the Redis
  server. The theory composes the managers: what a published message does on all of them
  together, and what a session leaves behind on the server.
\<close>

subsection \<open>All listeners\<close>

text \<open>A manager's method on the shared world, for a manager that it leaves as it is.\<close>

definition on_instance :: "('w mg_state, 'a) io \<Rightarrow> manager \<Rightarrow> ('w, 'a) io" where
  "on_instance m g w = (case m (g, w) of (r, (g', w')) \<Rightarrow> (r, w'))"

text \<open>
  A message of a channel reaches every running listener; \<open>gs\<close> is their managers. An exception ends the task of one listener,
  not those of the others.
\<close>

definition fan_out :: "'w redis_api \<Rightarrow> 'w socket_api \<Rightarrow> pyval \<Rightarrow> pydict \<Rightarrow> manager list \<Rightarrow> ('w, unit) io" where
  "fan_out rd ws channel payload gs =
     io_each (\<lambda>g. io_bind (io_try (on_instance (listen_round rd ws (Some (channel, payload))) g)) (\<lambda>_. io_return ())) gs"

subsection \<open>What is relied on\<close>

text \<open>
  \<open>rows w k\<close> is the hash \<open>k\<close> of the server and \<open>members w k\<close> the set \<open>k\<close>: what is live now, for a server that
  carries its commands out. \<open>EXPIRE\<close> does not change what is live at that moment; the row of a connection, to which
  \<^verbatim>\<open>connect\<close> gives a day, may go between two commands, so that a statement on a session longer than
  that has to say what became of the row. \<open>sent w\<close> is what the sockets have been given so far.
\<close>

definition redis_connections :: "'w redis_api \<Rightarrow> ('w \<Rightarrow> rkey \<Rightarrow> pydict) \<Rightarrow> ('w \<Rightarrow> rkey \<Rightarrow> pyval set) \<Rightarrow> bool" where
  "redis_connections rd rows members =
     ((\<forall>k f w. rd_hget rd k f w = (Inr (map_of (rows w k) f), w)) \<and>
      (\<forall>k h w. \<exists>w'. rd_hset rd k h w = (Inr (), w') \<and>
         rows w' = (rows w)(k := fold (\<lambda>(f, v). AList.update f v) h (rows w k)) \<and> members w' = members w) \<and>
      (\<forall>k w. \<exists>w'. rd_delete rd k w = (Inr (), w') \<and> rows w' = (rows w)(k := []) \<and> members w' = members w) \<and>
      (\<forall>k ex w. \<exists>w'. rd_expire rd k ex w = (Inr (), w') \<and> rows w' = rows w \<and> members w' = members w) \<and>
      (\<forall>k ms w. \<exists>w'. rd_sadd rd k ms w = (Inr (), w') \<and> rows w' = rows w \<and> members w' = (members w)(k := members w k \<union> set ms)) \<and>
      (\<forall>k ms w. \<exists>w'. rd_srem rd k ms w = (Inr (), w') \<and> rows w' = rows w \<and> members w' = (members w)(k := members w k - set ms)) \<and>
      (\<forall>k w. \<exists>ms. rd_smembers rd k w = (Inr ms, w) \<and> distinct ms \<and> set ms = members w k))"

lemma redis_connections_laws:
  assumes "redis_connections rd rows members"
  shows hget_row: "rd_hget rd k f w = (Inr (map_of (rows w k) f), w)"
    and hset_row: "\<exists>w'. rd_hset rd k h w = (Inr (), w') \<and>
      rows w' = (rows w)(k := fold (\<lambda>(f, v). AList.update f v) h (rows w k)) \<and> members w' = members w"
    and delete_row: "\<exists>w'. rd_delete rd k w = (Inr (), w') \<and> rows w' = (rows w)(k := []) \<and> members w' = members w"
    and expire_row: "\<exists>w'. rd_expire rd k ex w = (Inr (), w') \<and> rows w' = rows w \<and> members w' = members w"
    and sadd_member: "\<exists>w'. rd_sadd rd k ms w = (Inr (), w') \<and> rows w' = rows w \<and> members w' = (members w)(k := members w k \<union> set ms)"
    and srem_member: "\<exists>w'. rd_srem rd k ms w = (Inr (), w') \<and> rows w' = rows w \<and> members w' = (members w)(k := members w k - set ms)"
    and smembers_set: "\<exists>ms. rd_smembers rd k w = (Inr ms, w) \<and> distinct ms \<and> set ms = members w k"
  using assms unfolding redis_connections_def by blast+

definition sockets_log :: "'w socket_api \<Rightarrow> ('w \<Rightarrow> (nat \<times> pydict) list) \<Rightarrow> ('w \<Rightarrow> rkey \<Rightarrow> pyval set) \<Rightarrow> bool" where
  "sockets_log ws sent members =
     (\<forall>n d w. \<exists>w'. ws_send_json ws n d w = (Inr (), w') \<and> sent w' = sent w @ [(n, d)] \<and> members w' = members w)"

subsection \<open>One listener\<close>

lemma outside_Inr [simp]: "m w = (Inr a, w') \<Longrightarrow> outside m (g, w) = (Inr a, (g, w'))"
  by (simp add: outside_def io_zoom_def)

definition local_sockets :: "manager \<Rightarrow> pyval list \<Rightarrow> nat list" where
  "local_sockets g cids = List.map_filter (map_of (mg_local_connections g)) cids"

lemma send_each:
  assumes "sockets_log ws sent members"
  shows "\<exists>w'. io_each (\<lambda>cid. io_bind (io_get (\<lambda>(g, w). map_of (mg_local_connections g) cid)) (\<lambda>sock. case sock of
       None \<Rightarrow> io_return () | Some n \<Rightarrow> outside (ws_send_json ws n d))) cids (g, w) = (Inr (), (g, w')) \<and>
     sent w' = sent w @ map (\<lambda>n. (n, d)) (local_sockets g cids) \<and> members w' = members w"
proof (induction cids arbitrary: w)
  case Nil
  show ?case by (simp add: io_return_def local_sockets_def map_filter_simps)
next
  case (Cons cid cids)
  show ?case
  proof (cases "map_of (mg_local_connections g) cid")
    case None
    then show ?thesis using Cons [of w] by (simp add: io_bind_def [of "io_bind _ _"] io_bind_def [of "io_get _"] io_get_def io_return_def local_sockets_def map_filter_simps)
  next
    case (Some n)
    obtain w1 where "ws_send_json ws n d w = (Inr (), w1)" "sent w1 = sent w @ [(n, d)]" "members w1 = members w"
      using assms unfolding sockets_log_def by blast
    then show ?thesis using Some Cons [of w1]
      by (simp add: io_bind_def [of "io_bind _ _"] io_bind_def [of "io_get _"] io_get_def local_sockets_def map_filter_simps)
  qed
qed

lemma listener_sends:
  assumes rd: "redis_connections rd rows members" and ws: "sockets_log ws sent members" and user: "truthy (pyget payload ''user_id'')"
  shows "\<exists>w' ms. on_instance (listen_round rd ws (Some (channel, payload))) g w = (Inr (), w') \<and>
    distinct ms \<and> set ms = members w (user_conns_key (pyget payload ''user_id'')) \<and>
    sent w' = sent w @ map (\<lambda>n. (n, [(''topic'', channel), (''data'', PDict payload)])) (local_sockets g ms) \<and> members w' = members w"
proof -
  let ?u = "pyget payload ''user_id''"
  obtain ms where ms: "rd_smembers rd (user_conns_key ?u) w = (Inr ms, w)" "distinct ms" "set ms = members w (user_conns_key ?u)"
    using smembers_set [OF rd] by blast
  obtain w' where "io_each (\<lambda>cid. io_bind (io_get (\<lambda>(g, w). map_of (mg_local_connections g) cid)) (\<lambda>sock. case sock of
       None \<Rightarrow> io_return () | Some n \<Rightarrow> outside (ws_send_json ws n [(''topic'', channel), (''data'', PDict payload)]))) ms (g, w) = (Inr (), (g, w'))"
    "sent w' = sent w @ map (\<lambda>n. (n, [(''topic'', channel), (''data'', PDict payload)])) (local_sockets g ms)" "members w' = members w"
    using send_each [OF ws] by blast
  then show ?thesis using ms user
    by (intro exI [of _ w'] exI [of _ ms])
       (simp add: on_instance_def listen_round_def broadcast_to_user_def io_when_def Let_def)
qed

subsection \<open>A message reaches every connection of its user once\<close>

definition sockets_of :: "manager \<Rightarrow> nat list" where
  "sockets_of g = map snd (mg_local_connections g)"

lemma local_sockets_set: "set (local_sockets g ms) = {n. \<exists>cid\<in>set ms. map_of (mg_local_connections g) cid = Some n}"
  by (induction ms) (auto simp: local_sockets_def map_filter_simps split: option.splits)

lemma local_sockets_within: "set (local_sockets g ms) \<subseteq> set (sockets_of g)"
  by (auto simp: local_sockets_set sockets_of_def dest!: map_of_SomeD) (metis image_eqI snd_conv)

lemma socket_held_once:
  assumes "distinct (sockets_of g)" "map_of (mg_local_connections g) a = Some n" "map_of (mg_local_connections g) b = Some n"
  shows "a = b"
  using map_of_SomeD [OF assms(2)] map_of_SomeD [OF assms(3)] assms(1) inj_onD [of snd _ "(a, n)" "(b, n)"]
  unfolding sockets_of_def distinct_map by fastforce

lemma local_sockets_Cons: "local_sockets g (cid # ms) =
      (case map_of (mg_local_connections g) cid of None \<Rightarrow> local_sockets g ms | Some n \<Rightarrow> n # local_sockets g ms)"
  by (simp add: local_sockets_def map_filter_simps split: option.splits)

lemma local_sockets_distinct:
  assumes "distinct (sockets_of g)"
  shows "distinct ms \<Longrightarrow> distinct (local_sockets g ms)"
proof (induction ms)
  case Nil
  show ?case by (simp add: local_sockets_def map_filter_simps)
next
  case (Cons cid ms)
  show ?case
  proof (cases "map_of (mg_local_connections g) cid")
    case None
    then show ?thesis using Cons by (simp add: local_sockets_Cons)
  next
    case (Some n)
    have "n \<notin> set (local_sockets g ms)"
      using socket_held_once [OF assms Some] Cons.prems by (auto simp: local_sockets_set)
    then show ?thesis using Cons Some by (simp add: local_sockets_Cons)
  qed
qed

text \<open>The sockets that the managers hold for a set of connections.\<close>

definition held :: "manager list \<Rightarrow> pyval set \<Rightarrow> nat set" where
  "held gs cids = {n. \<exists>g\<in>set gs. \<exists>cid\<in>cids. map_of (mg_local_connections g) cid = Some n}"

lemma held_Cons: "held (g # gs) (set ms) = set (local_sockets g ms) \<union> held gs (set ms)"
  by (auto simp: held_def local_sockets_set)

lemma held_within: "held gs cids \<subseteq> set (concat (map sockets_of gs))"
  by (auto simp: held_def sockets_of_def dest!: map_of_SomeD) force

abbreviation user_conns :: "('w \<Rightarrow> rkey \<Rightarrow> pyval set) \<Rightarrow> 'w \<Rightarrow> pydict \<Rightarrow> pyval set" where
  "user_conns members w payload \<equiv> members w (user_conns_key (pyget payload ''user_id''))"

lemma fan_out_Cons:
  assumes "on_instance (listen_round rd ws (Some (channel, payload))) g w = (Inr (), w1)"
  shows "fan_out rd ws channel payload (g # gs) w = fan_out rd ws channel payload gs w1"
  using assms by (simp add: fan_out_def io_bind_def [of "io_bind _ _"] io_bind_def [of "io_try _"] io_try_def io_return_def)

lemma fan_out_sends:
  assumes rd: "redis_connections rd rows members" and ws: "sockets_log ws sent members" and user: "truthy (pyget payload ''user_id'')"
  shows "distinct (concat (map sockets_of gs)) \<Longrightarrow> \<exists>w' new. fan_out rd ws channel payload gs w = (Inr (), w') \<and>
    sent w' = sent w @ map (\<lambda>n. (n, [(''topic'', channel), (''data'', PDict payload)])) new \<and> distinct new \<and>
    set new = held gs (user_conns members w payload)"
proof (induction gs arbitrary: w)
  case Nil
  show ?case by (simp add: fan_out_def io_return_def held_def)
next
  case (Cons g gs)
  let ?log = "map (\<lambda>n. (n, [(''topic'', channel), (''data'', PDict payload)]))"
  obtain w1 ms where w1: "on_instance (listen_round rd ws (Some (channel, payload))) g w = (Inr (), w1)"
    and ms: "distinct ms" "set ms = user_conns members w payload"
    and sent1: "sent w1 = sent w @ ?log (local_sockets g ms)" and members1: "members w1 = members w"
    using listener_sends [OF rd ws user, where g = g and w = w and channel = channel] by blast
  have "distinct (concat (map sockets_of gs))" using Cons.prems by simp
  then obtain w' new where w': "fan_out rd ws channel payload gs w1 = (Inr (), w')"
    and sent': "sent w' = sent w1 @ ?log new" and new: "distinct new" "set new = held gs (set ms)"
    using Cons.IH [of w1] members1 ms(2) by auto
  have "set (local_sockets g ms) \<inter> set new = {}"
    using local_sockets_within [of g ms] held_within [of gs "set ms"] Cons.prems unfolding new(2) by auto
  then have "distinct (local_sockets g ms @ new)"
    using local_sockets_distinct [OF _ ms(1), of g] new(1) Cons.prems by simp
  moreover have "set (local_sockets g ms @ new) = held (g # gs) (user_conns members w payload)"
    unfolding ms(2) [symmetric] by (simp add: new(2) held_Cons)
  moreover have "sent w' = sent w @ ?log (local_sockets g ms @ new)"
    by (simp add: sent1 sent')
  ultimately show ?case
    using w' unfolding fan_out_Cons [OF w1] by blast
qed

text \<open>
  C24. A published message with a user id is sent, whatever the number of processes and of their managers, exactly
  once to every open connection that the server lists for the user, and to no other socket; no listener
  ends. The listing itself is left as it was. Which topics the user has subscribed to plays no part.
\<close>

theorem message_reaches_each_connection_once:
  assumes "redis_connections rd rows members" and "sockets_log ws sent members"
    and "truthy (pyget payload ''user_id'')" and "distinct (concat (map sockets_of gs))"
  shows "\<exists>w' new. fan_out rd ws channel payload gs w = (Inr (), w') \<and>
    sent w' = sent w @ map (\<lambda>n. (n, [(''topic'', channel), (''data'', PDict payload)])) new \<and> distinct new \<and>
    set new = {n. \<exists>g\<in>set gs. \<exists>cid\<in>members w (user_conns_key (pyget payload ''user_id'')).
      map_of (mg_local_connections g) cid = Some n}"
  using fan_out_sends [OF assms, where channel = channel and w = w] unfolding held_def by blast

subsection \<open>What a session leaves on the server\<close>

definition accepts_quietly :: "'w socket_api \<Rightarrow> ('w \<Rightarrow> rkey \<Rightarrow> pydict) \<Rightarrow> ('w \<Rightarrow> rkey \<Rightarrow> pyval set) \<Rightarrow> bool" where
  "accepts_quietly ws rows members = (\<forall>n w. \<exists>w'. ws_accept ws n w = (Inr (), w') \<and> rows w' = rows w \<and> members w' = members w)"

text \<open>The row that \<open>connect\<close> writes.\<close>

definition connection_row :: "manager \<Rightarrow> datetime \<Rightarrow> pyval \<Rightarrow> pyval \<Rightarrow> pyval \<Rightarrow> pydict" where
  "connection_row g now user_id connection_id session_id =
     [(''user_id'', user_id), (''session_id'', session_id), (''connection_id'', connection_id),
      (''connected_at'', PIso now), (''last_heartbeat'', PIso now), (''instance_id'', PStr (mg_instance_id g))]"

lemma connection_row_local [simp]: "connection_row (g\<lparr>mg_local_connections := x\<rparr>) = connection_row g"
  by (simp add: connection_row_def fun_eq_iff)

lemma connect_registers:
  assumes rd: "redis_connections rd rows members" and ws: "accepts_quietly ws rows members"
    and fresh: "rows w (conn_key cid) = []"
  shows "\<exists>w'. mg_connect rd ws now n u cid sid (g, w) =
      (Inr (), (g\<lparr>mg_local_connections := AList.update cid n (mg_local_connections g)\<rparr>, w')) \<and>
    rows w' = (rows w)(conn_key cid := connection_row g now u cid sid) \<and>
    members w' = (members w)(user_conns_key u := members w (user_conns_key u) \<union> {cid})"
proof -
  obtain w1 where 1: "ws_accept ws n w = (Inr (), w1)" "rows w1 = rows w" "members w1 = members w"
    using ws unfolding accepts_quietly_def by blast
  obtain w2 where 2: "rd_hset rd (conn_key cid) (connection_row g now u cid sid) w1 = (Inr (), w2)"
      "rows w2 = (rows w1)(conn_key cid := fold (\<lambda>(f, v). AList.update f v) (connection_row g now u cid sid) (rows w1 (conn_key cid)))"
      "members w2 = members w1"
    using hset_row [OF rd, of "conn_key cid" "connection_row g now u cid sid" w1] by blast
  obtain w3 where 3: "rd_expire rd (conn_key cid) (60 * 60 * 24) w2 = (Inr (), w3)" "rows w3 = rows w2" "members w3 = members w2"
    using expire_row [OF rd, of "conn_key cid" "60 * 60 * 24" w2] by blast
  obtain w4 where 4: "rd_sadd rd (user_conns_key u) [cid] w3 = (Inr (), w4)" "rows w4 = rows w3"
      "members w4 = (members w3)(user_conns_key u := members w3 (user_conns_key u) \<union> set [cid])"
    using sadd_member [OF rd, of "user_conns_key u" "[cid]" w3] by blast
  have "rows w2 = (rows w)(conn_key cid := connection_row g now u cid sid)"
    using 1(2) 2(2) fresh by (simp add: connection_row_def)
  then show ?thesis
    using 1 2 3 4 by (intro exI [of _ w4])
      (simp add: mg_connect_def on_manager_def io_modify_def io_get_def connection_row_def [symmetric] io_bind_def [of "io_modify _"] io_bind_def [of "io_get _"])
qed

lemma disconnect_removes:
  assumes rd: "redis_connections rd rows members" and row: "map_of (rows w (conn_key cid)) ''user_id'' = Some u" "truthy u"
  shows "\<exists>w'. mg_disconnect rd cid (g, w) =
      (Inr (), (g\<lparr>mg_local_connections := AList.delete cid (mg_local_connections g)\<rparr>, w')) \<and>
    rows w' = (rows w)(conn_key cid := []) \<and>
    members w' = (members w)(user_conns_key u := members w (user_conns_key u) - {cid})"
proof -
  obtain w1 where 1: "rd_srem rd (user_conns_key u) [cid] w = (Inr (), w1)" "rows w1 = rows w"
      "members w1 = (members w)(user_conns_key u := members w (user_conns_key u) - set [cid])"
    using srem_member [OF rd, of "user_conns_key u" "[cid]" w] by blast
  obtain w2 where 2: "rd_delete rd (conn_key cid) w1 = (Inr (), w2)" "rows w2 = (rows w1)(conn_key cid := [])" "members w2 = members w1"
    using delete_row [OF rd, of "conn_key cid" w1] by blast
  show ?thesis
    using 1 2 row hget_row [OF rd, of "conn_key cid" "''user_id''" w]
    by (intro exI [of _ w2]) (simp add: mg_disconnect_def on_manager_def io_modify_def)
qed

text \<open>
  A connection whose row has gone is not taken out of its user's set; with a heartbeat after the row
  expired the row is there again, without the user and without a lifetime, so the monitor of the session
  goes on.
\<close>

lemma disconnect_without_row:
  assumes rd: "redis_connections rd rows members" and row: "\<And>u. map_of (rows w (conn_key cid)) ''user_id'' = Some u \<Longrightarrow> \<not> truthy u"
  shows "\<exists>w'. mg_disconnect rd cid (g, w) =
      (Inr (), (g\<lparr>mg_local_connections := AList.delete cid (mg_local_connections g)\<rparr>, w')) \<and>
    rows w' = (rows w)(conn_key cid := []) \<and> members w' = members w"
proof -
  obtain w2 where 2: "rd_delete rd (conn_key cid) w = (Inr (), w2)" "rows w2 = (rows w)(conn_key cid := [])" "members w2 = members w"
    using delete_row [OF rd, of "conn_key cid" w] by blast
  show ?thesis
    using 2 row hget_row [OF rd, of "conn_key cid" "''user_id''" w]
    by (intro exI [of _ w2]) (auto simp: mg_disconnect_def on_manager_def io_modify_def io_return_def io_bind_def [of "case_option _ _ _"] split: option.split)
qed

lemma expired_connection_stays_listed:
  assumes rd: "redis_connections rd rows members" and row: "rows w (conn_key cid) = []"
  shows "\<exists>w1 w2 g'. touch_heartbeat rd now cid w = (Inr (), w1) \<and> rows w1 (conn_key cid) = [(''last_heartbeat'', PIso now)] \<and>
    mg_disconnect rd cid (g, w1) = (Inr (), (g', w2)) \<and> map_of (mg_local_connections g') cid = None \<and> members w2 = members w"
proof -
  obtain w1 where 1: "touch_heartbeat rd now cid w = (Inr (), w1)" "rows w1 (conn_key cid) = [(''last_heartbeat'', PIso now)]" "members w1 = members w"
    using hset_row [OF rd, of "conn_key cid" "[(''last_heartbeat'', PIso now)]" w] row by (auto simp: touch_heartbeat_def)
  have "\<not> truthy u" if "map_of (rows w1 (conn_key cid)) ''user_id'' = Some u" for u using that by (simp add: 1(2))
  from disconnect_without_row [where g = g, OF rd this] obtain w2 where
    "mg_disconnect rd cid (g, w1) = (Inr (), (g\<lparr>mg_local_connections := AList.delete cid (mg_local_connections g)\<rparr>, w2))"
    "members w2 = members w1" by blast
  with 1 show ?thesis by (intro exI [of _ w1] exI [of _ w2] exI conjI) (auto simp: delete_conv)
qed

lemma heartbeat_keeps:
  assumes "redis_connections rd rows members"
  shows "\<exists>w'. touch_heartbeat rd t cid w = (Inr (), w') \<and> members w' = members w \<and>
    map_of (rows w' (conn_key cid)) ''user_id'' = map_of (rows w (conn_key cid)) ''user_id''"
  using hset_row [OF assms, of "conn_key cid" "[(''last_heartbeat'', PIso t)]" w] by (auto simp: touch_heartbeat_def update_conv)

lemma heartbeats_keep:
  assumes rd: "redis_connections rd rows members"
  shows "\<exists>w'. io_each (\<lambda>t. touch_heartbeat rd t cid) ts w = (Inr (), w') \<and> members w' = members w \<and>
    map_of (rows w' (conn_key cid)) ''user_id'' = map_of (rows w (conn_key cid)) ''user_id''"
proof (induction ts arbitrary: w)
  case Nil
  show ?case by (simp add: io_return_def)
next
  case (Cons t ts)
  obtain w1 where "touch_heartbeat rd t cid w = (Inr (), w1)" "members w1 = members w"
    "map_of (rows w1 (conn_key cid)) ''user_id'' = map_of (rows w (conn_key cid)) ''user_id''"
    using heartbeat_keeps [OF rd] by blast
  then show ?case using Cons [of w1] by auto
qed

text \<open>
  C25. A connection is forgotten at the end exactly if its row is still there: whatever heartbeats came and whatever
  else changed on the server in between, \<^verbatim>\<open>disconnect\<close> of a registered connection drops the socket and the row,
  and takes the connection out of its user's set unless the row had meanwhile gone. The row is given a
  lifetime of a day when the connection is made, and no heartbeat renews it, so that the connection of a
  longer session remains listed for its user.
\<close>

theorem disconnect_forgets_unless_expired:
  assumes "redis_connections rd rows members" and "accepts_quietly ws rows members" and "truthy u"
    and "rows w (conn_key cid) = []"
    and "mg_connect rd ws now n u cid sid (g, w) = (Inr (), (g1, w1))"
    and "io_each (\<lambda>t. touch_heartbeat rd t cid) before w1 = (Inr (), w2)"
    and "rows w3 (conn_key cid) = rows w2 (conn_key cid) \<or> rows w3 (conn_key cid) = []"
    and "cid \<in> members w3 (user_conns_key u)"
    and "io_each (\<lambda>t. touch_heartbeat rd t cid) after w3 = (Inr (), w4)"
  shows "\<exists>g5 w5. mg_disconnect rd cid (g1, w4) = (Inr (), (g5, w5)) \<and> map_of (mg_local_connections g5) cid = None \<and>
    rows w5 (conn_key cid) = [] \<and> (cid \<in> members w5 (user_conns_key u) \<longleftrightarrow> rows w3 (conn_key cid) = [])"
proof -
  have "map_of (rows w1 (conn_key cid)) ''user_id'' = Some u"
    using connect_registers [where w = w and g = g and now = now and n = n and u = u and sid = sid, OF assms(1, 2, 4)] assms(5)
    by (auto simp: connection_row_def)
  then have row: "map_of (rows w2 (conn_key cid)) ''user_id'' = Some u"
    using heartbeats_keep [OF assms(1), where cid = cid and ts = before and w = w1] assms(6) by auto
  have w4: "members w4 = members w3" "map_of (rows w4 (conn_key cid)) ''user_id'' = map_of (rows w3 (conn_key cid)) ''user_id''"
    using heartbeats_keep [OF assms(1), where cid = cid and ts = after and w = w3] assms(9) by auto
  show ?thesis
  proof (cases "rows w3 (conn_key cid) = []")
    case True
    with w4(2) have none: "map_of (rows w4 (conn_key cid)) ''user_id'' = None" by simp
    obtain w5 where "mg_disconnect rd cid (g1, w4) = (Inr (), (g1\<lparr>mg_local_connections := AList.delete cid (mg_local_connections g1)\<rparr>, w5))"
        "rows w5 = (rows w4)(conn_key cid := [])" "members w5 = members w4"
      using disconnect_without_row [where g = g1 and w = w4 and cid = cid, OF assms(1)] none by auto
    with True assms(8) w4(1) show ?thesis by (simp add: delete_conv)
  next
    case False
    with assms(7) row w4 have "map_of (rows w4 (conn_key cid)) ''user_id'' = Some u" by simp
    from disconnect_removes [where g = g1, OF assms(1) this assms(3)] False show ?thesis by (auto simp: delete_conv)
  qed
qed

text \<open>
  C26. A session that connects under a new id and disconnects leaves the server and the manager exactly as they
  were; in between its connection is listed for its user and held by the manager, so that messages reach
  it.
\<close>

theorem session_leaves_no_trace:
  assumes "redis_connections rd rows members" and "accepts_quietly ws rows members" and "truthy u"
    and "rows w (conn_key cid) = []" and "cid \<notin> members w (user_conns_key u)" and "cid \<notin> fst ` set (mg_local_connections g)"
  shows "\<exists>g1 w1 w2. mg_connect rd ws now n u cid sid (g, w) = (Inr (), (g1, w1)) \<and>
    cid \<in> members w1 (user_conns_key u) \<and> map_of (mg_local_connections g1) cid = Some n \<and>
    mg_disconnect rd cid (g1, w1) = (Inr (), (g, w2)) \<and> rows w2 = rows w \<and> members w2 = members w"
proof -
  let ?g1 = "g\<lparr>mg_local_connections := AList.update cid n (mg_local_connections g)\<rparr>"
  obtain w1 where 1: "mg_connect rd ws now n u cid sid (g, w) = (Inr (), (?g1, w1))"
      "rows w1 = (rows w)(conn_key cid := connection_row g now u cid sid)"
      "members w1 = (members w)(user_conns_key u := members w (user_conns_key u) \<union> {cid})"
    using connect_registers [where w = w and g = g and now = now and n = n and u = u and sid = sid, OF assms(1, 2, 4)] by blast
  have "map_of (rows w1 (conn_key cid)) ''user_id'' = Some u" by (simp add: 1(2) connection_row_def)
  then obtain w2 where 2: "mg_disconnect rd cid (?g1, w1) =
        (Inr (), (?g1\<lparr>mg_local_connections := AList.delete cid (mg_local_connections ?g1)\<rparr>, w2))"
      "rows w2 = (rows w1)(conn_key cid := [])" "members w2 = (members w1)(user_conns_key u := members w1 (user_conns_key u) - {cid})"
    using disconnect_removes [where g = ?g1, OF assms(1) _ assms(3)] by blast
  have "AList.delete cid (AList.update cid n (mg_local_connections g)) = mg_local_connections g"
    using assms(6) by (simp add: delete_update_same)
  then have "?g1\<lparr>mg_local_connections := AList.delete cid (mg_local_connections ?g1)\<rparr> = g" by simp
  moreover have "rows w2 = rows w" using assms(4) by (auto simp: 2(2) 1(2))
  moreover have "members w2 = members w" using assms(5) by (auto simp: 2(3) 1(3))
  ultimately show ?thesis using 1 2(1) by (intro exI [of _ ?g1] exI [of _ w1] exI [of _ w2]) (simp add: update_conv)
qed

subsection \<open>A server in memory\<close>

record memory =
  mem_rows :: "rkey \<Rightarrow> pydict"
  mem_sets :: "rkey \<Rightarrow> pyval list"
  mem_sent :: "(nat \<times> pydict) list"

definition mem_members :: "memory \<Rightarrow> rkey \<Rightarrow> pyval set" where
  "mem_members m k = set (mem_sets m k)"

definition memory_redis :: "memory redis_api" where
  "memory_redis = \<lparr>rd_exists = \<lambda>_. io_return False, rd_get = \<lambda>_. io_return None, rd_set = \<lambda>_ _ _. io_return (),
     rd_lpush = \<lambda>_ _. io_return (), rd_zremrangebyscore = \<lambda>_ _ _. io_return (), rd_zadd = \<lambda>_ _ _. io_return (),
     rd_zcard = \<lambda>_. io_return 0, rd_scard = \<lambda>k. io_get (\<lambda>m. length (mem_sets m k)), rd_expire = \<lambda>_ _. io_return (),
     rd_sadd = \<lambda>k ms. io_modify (\<lambda>m. m\<lparr>mem_sets := (mem_sets m)(k := remdups (mem_sets m k @ ms))\<rparr>),
     rd_srem = \<lambda>k ms. io_modify (\<lambda>m. m\<lparr>mem_sets := (mem_sets m)(k := filter (\<lambda>x. x \<notin> set ms) (mem_sets m k))\<rparr>),
     rd_smembers = \<lambda>k. io_get (\<lambda>m. remdups (mem_sets m k)),
     rd_hset = \<lambda>k h. io_modify (\<lambda>m. m\<lparr>mem_rows := (mem_rows m)(k := fold (\<lambda>(f, v). AList.update f v) h (mem_rows m k))\<rparr>),
     rd_hget = \<lambda>k f. io_get (\<lambda>m. map_of (mem_rows m k) f), rd_hgetall = \<lambda>k. io_get (\<lambda>m. mem_rows m k),
     rd_delete = \<lambda>k. io_modify (\<lambda>m. m\<lparr>mem_rows := (mem_rows m)(k := [])\<rparr>), rd_publish = \<lambda>_ _. io_return ()\<rparr>"

definition memory_sockets :: "memory socket_api" where
  "memory_sockets = \<lparr>ws_accept = \<lambda>_. io_return (), ws_send_json = \<lambda>n d. io_modify (\<lambda>m. m\<lparr>mem_sent := mem_sent m @ [(n, d)]\<rparr>),
     ws_close = \<lambda>_ _. io_return (), ws_psubscribe = \<lambda>_. io_return (), ws_pubsub_close = io_return (), ws_create_task = \<lambda>_. io_return ()\<rparr>"

lemma memory_redis_connections: "redis_connections memory_redis mem_rows mem_members"
  by (auto simp: redis_connections_def memory_redis_def mem_members_def fun_eq_iff io_modify_def io_get_def io_return_def)

lemma memory_sockets_log: "sockets_log memory_sockets mem_sent mem_members"
  by (simp add: sockets_log_def memory_sockets_def mem_members_def fun_eq_iff io_modify_def)

lemma memory_accepts: "accepts_quietly memory_sockets mem_rows mem_members"
  by (simp add: accepts_quietly_def memory_sockets_def io_return_def)

text \<open>Two processes: the user has a connection on each and the listing holds a third, gone one.\<close>

definition two_managers :: "manager list" where
  "two_managers = [(manager_init ''a'')\<lparr>mg_local_connections := [(PStr ''c1'', 1), (PStr ''c2'', 2)]\<rparr>,
     (manager_init ''b'')\<lparr>mg_local_connections := [(PStr ''c3'', 3)]\<rparr>]"

definition listed :: memory where
  "listed = \<lparr>mem_rows = \<lambda>_. [], mem_sets = (\<lambda>_. [])(user_conns_key (PStr ''7'') := [PStr ''c1'', PStr ''c3'', PStr ''gone'']), mem_sent = []\<rparr>"

theorem message_reaches_each_connection_once_witness:
  "\<exists>w' new. fan_out memory_redis memory_sockets (PStr ''order_updates'') [(''user_id'', PStr ''7'')] two_managers listed = (Inr (), w') \<and>
    mem_sent w' = map (\<lambda>n. (n, [(''topic'', PStr ''order_updates''), (''data'', PDict [(''user_id'', PStr ''7'')])])) new \<and>
    distinct new \<and> set new = {1, 3}"
proof -
  have "{n. \<exists>g\<in>set two_managers. \<exists>cid\<in>mem_members listed (user_conns_key (pyget [(''user_id'', PStr ''7'')] ''user_id'')).
      map_of (mg_local_connections g) cid = Some n} = {1, 3}"
    by (auto simp: two_managers_def listed_def mem_members_def)
  moreover have "distinct (concat (map sockets_of two_managers))" and "truthy (pyget [(''user_id'', PStr ''7'')] ''user_id'')"
    by (simp_all add: two_managers_def sockets_of_def)
  moreover have "mem_sent listed = []" by (simp add: listed_def)
  ultimately show ?thesis
    using message_reaches_each_connection_once [OF memory_redis_connections memory_sockets_log,
      where payload = "[(''user_id'', PStr ''7'')]" and gs = two_managers and channel = "PStr ''order_updates''" and w = listed] by simp
qed

theorem disconnect_forgets_unless_expired_witness:
  "\<exists>g1 w1 g5 w5. mg_connect memory_redis memory_sockets 0 5 (PStr ''7'') (PStr ''new'') (PStr ''s'') (manager_init ''a'', listed) = (Inr (), (g1, w1)) \<and>
    mg_disconnect memory_redis (PStr ''new'') (g1, w1\<lparr>mem_rows := \<lambda>_. []\<rparr>) = (Inr (), (g5, w5)) \<and>
    PStr ''new'' \<in> mem_members w5 (user_conns_key (PStr ''7''))"
proof -
  obtain g1 w1 where 1: "mg_connect memory_redis memory_sockets 0 5 (PStr ''7'') (PStr ''new'') (PStr ''s'') (manager_init ''a'', listed) = (Inr (), (g1, w1))"
      "PStr ''new'' \<in> mem_members w1 (user_conns_key (PStr ''7''))"
    using connect_registers [OF memory_redis_connections memory_accepts, where w = listed and cid = "PStr ''new''"
        and now = 0 and n = 5 and u = "PStr ''7''" and sid = "PStr ''s''" and g = "manager_init ''a''"] by (auto simp: listed_def)
  then show ?thesis
    using disconnect_forgets_unless_expired [OF memory_redis_connections memory_accepts _ _ 1(1),
        where before = "[]" and ?w2.0 = w1 and ?w3.0 = "w1\<lparr>mem_rows := \<lambda>_. []\<rparr>" and after = "[]" and ?w4.0 = "w1\<lparr>mem_rows := \<lambda>_. []\<rparr>"]
    by (auto simp: listed_def io_return_def mem_members_def)
qed

theorem session_leaves_no_trace_witness:
  "\<exists>g1 w1 w2. mg_connect memory_redis memory_sockets 0 5 (PStr ''7'') (PStr ''new'') (PStr ''s'') (manager_init ''a'', listed) = (Inr (), (g1, w1)) \<and>
    map_of (mg_local_connections g1) (PStr ''new'') = Some 5 \<and>
    mg_disconnect memory_redis (PStr ''new'') (g1, w1) = (Inr (), (manager_init ''a'', w2)) \<and> mem_rows w2 = mem_rows listed"
  using session_leaves_no_trace [where u = "PStr ''7''" and cid = "PStr ''new''" and g = "manager_init ''a''" and w = listed
      and now = 0 and n = 5 and sid = "PStr ''s''", OF memory_redis_connections memory_accepts]
  by (auto simp: listed_def mem_members_def manager_init_def)

end
