(* ===== verification/Session_Cleanup.thy ===== *)
theory Session_Cleanup
  imports Fanout
begin

text \<open>
  What a session of the endpoint (\<^verbatim>\<open>routes/ws.py\<close>) leaves behind, however it ends: refused at the door, with a
  bad token, closed by the server for a message, disconnected by the client, or by an exception of a
  collaborator. The connection is registered in the middle of the session and taken out in the
  \<^verbatim>\<open>finally\<close> block, by the user that its row names. The session here is one during which its row
  does not expire (a day, \<^verbatim>\<open>ws/manager.py\<close>) and in which the server carries out the commands on rows and sets;
  \<open>disconnect_forgets_unless_expired\<close> (theory Fanout) says what becomes of a longer one.
\<close>

subsection \<open>From one invariant to another\<close>

definition io_leads :: "('s \<Rightarrow> bool) \<Rightarrow> ('s \<Rightarrow> bool) \<Rightarrow> ('s, 'a) io \<Rightarrow> bool" where
  "io_leads P Q m = (\<forall>s. P s \<longrightarrow> Q (snd (m s)))"

lemma io_leadsD: "io_leads P Q m \<Longrightarrow> P s \<Longrightarrow> Q (snd (m s))"
  by (simp add: io_leads_def)

lemma leads_weaken: "io_preserves P m \<Longrightarrow> (\<And>s. P s \<Longrightarrow> Q s) \<Longrightarrow> io_leads P Q m"
  by (simp add: io_leads_def io_preserves_def)

lemma leads_after:
  assumes "io_preserves P m" "\<And>s. P s \<Longrightarrow> Q s" "\<And>a s s'. m s = (Inr a, s') \<Longrightarrow> io_leads P Q (f a)"
  shows "io_leads P Q (io_bind m f)"
  unfolding io_leads_def
proof (intro allI impI)
  fix s assume s: "P s"
  show "Q (snd (io_bind m f s))"
  proof (rule io_bind_inv)
    show "Q (snd (m s))" using assms(1,2) s by (simp add: io_preserves_def)
    fix a s' assume m: "m s = (Inr a, s')"
    then have "P s'" using assms(1) s by (metis io_preservesD snd_conv)
    then show "Q (snd (f a s'))" using assms(3) [OF m] by (simp add: io_leads_def)
  qed
qed

lemma leads_then:
  assumes "io_leads P Q m" "\<And>a. io_preserves Q (f a)"
  shows "io_leads P Q (io_bind m f)"
  unfolding io_leads_def
proof (intro allI impI)
  fix s assume s: "P s"
  show "Q (snd (io_bind m f s))"
  proof (rule io_bind_inv)
    show "Q (snd (m s))" using assms(1) s by (rule io_leadsD)
    fix a s' assume "m s = (Inr a, s')"
    then have "Q s'" using io_leadsD [OF assms(1) s] by simp
    then show "Q (snd (f a s'))" by (rule io_preservesD [OF assms(2)])
  qed
qed

subsection \<open>What is relied on\<close>

text \<open>Everything but the commands on the rows and sets of connections leaves these alone.\<close>

definition session_quiet :: "'w token_crypto \<Rightarrow> 'w redis_api \<Rightarrow> 'w socket_api \<Rightarrow> ('w \<Rightarrow> 'x) \<Rightarrow> bool" where
  "session_quiet jc rd ws view =
     ((\<forall>t. io_keeps view (jc_decode jc t)) \<and> (\<forall>k. io_keeps view (rd_exists rd k)) \<and> (\<forall>k. io_keeps view (rd_get rd k)) \<and>
      (\<forall>k lo hi. io_keeps view (rd_zremrangebyscore rd k lo hi)) \<and> (\<forall>k m x. io_keeps view (rd_zadd rd k m x)) \<and>
      (\<forall>k. io_keeps view (rd_zcard rd k)) \<and> (\<forall>k. io_keeps view (rd_scard rd k)) \<and> (\<forall>k ex. io_keeps view (rd_expire rd k ex)) \<and>
      (\<forall>n. io_keeps view (ws_accept ws n)) \<and> (\<forall>n d. io_keeps view (ws_send_json ws n d)) \<and>
      (\<forall>n c. io_keeps view (ws_close ws n c)) \<and> (\<forall>p. io_keeps view (ws_psubscribe ws p)) \<and> io_keeps view (ws_pubsub_close ws) \<and>
      (\<forall>a. io_keeps view (ws_create_task ws a)))"

lemma session_quietD:
  assumes "session_quiet jc rd ws view"
  shows "io_keeps view (jc_decode jc t)" "io_keeps view (rd_exists rd k)" "io_keeps view (rd_get rd k)"
    "io_keeps view (rd_zremrangebyscore rd k lo hi)" "io_keeps view (rd_zadd rd k m x)"
    "io_keeps view (rd_zcard rd k)" "io_keeps view (rd_scard rd k)" "io_keeps view (rd_expire rd k ex)"
    "io_keeps view (ws_accept ws n)" "io_keeps view (ws_send_json ws n d)"
    "io_keeps view (ws_close ws n c)" "io_keeps view (ws_psubscribe ws p)" "io_keeps view (ws_pubsub_close ws)"
    "io_keeps view (ws_create_task ws a)"
  using assms by (simp_all add: session_quiet_def del: split_paired_All)

subsection \<open>The invariants\<close>

text \<open>Before the connection is registered no user lists it; afterwards a user who lists it is the one in its row.\<close>

definition unlisted :: "('w \<Rightarrow> rkey \<Rightarrow> pyval set) \<Rightarrow> pyval \<Rightarrow> 'w \<Rightarrow> bool" where
  "unlisted members cid w = (\<forall>u. cid \<notin> members w (user_conns_key u))"

definition traceable :: "('w \<Rightarrow> rkey \<Rightarrow> pydict) \<Rightarrow> ('w \<Rightarrow> rkey \<Rightarrow> pyval set) \<Rightarrow> pyval \<Rightarrow> 'w \<Rightarrow> bool" where
  "traceable rows members cid w = (\<forall>u. cid \<in> members w (user_conns_key u) \<longrightarrow>
     truthy u \<and> map_of (rows w (conn_key cid)) ''user_id'' = Some u)"

lemma unlisted_traceable: "unlisted members cid w \<Longrightarrow> traceable rows members cid w"
  by (simp add: unlisted_def traceable_def)

lemma user_conns_key_eq [simp]: "user_conns_key u = user_conns_key v \<longleftrightarrow> u = v"
  by (simp add: user_conns_key_def)

lemma other_keys [simp]: "user_conns_key u \<noteq> subs_key v" "subs_key v \<noteq> user_conns_key u"
  by (simp_all add: user_conns_key_def subs_key_def)

lemma quiet_unlisted: "io_keeps (\<lambda>w. (rows w, members w)) m \<Longrightarrow> io_preserves (unlisted members cid) m"
  by (auto simp: io_keeps_def io_preserves_def unlisted_def)

lemma quiet_traceable: "io_keeps (\<lambda>w. (rows w, members w)) m \<Longrightarrow> io_preserves (traceable rows members cid) m"
  by (auto simp: io_keeps_def io_preserves_def traceable_def)

lemma outside_preserves: "io_preserves P m \<Longrightarrow> io_preserves (\<lambda>(g, w). P w) (outside m)"
  by (auto simp: io_preserves_def outside_def io_zoom_def split: prod.splits)

lemma outside_leads: "io_leads P Q m \<Longrightarrow> io_leads (\<lambda>(g, w). P w) (\<lambda>(g, w). Q w) (outside m)"
  by (auto simp: io_leads_def outside_def io_zoom_def split: prod.splits)

lemma on_manager_preserves: "io_preserves (\<lambda>(g, w). P w) (on_manager f)"
  by (auto simp: io_preserves_def on_manager_def io_modify_def)

subsection \<open>The parts of a session\<close>

lemma window_keeps: "session_quiet jc rd ws view \<Longrightarrow> io_keeps view (window_check rd rl limit k now)"
  unfolding window_check_def by (intro keeps session_quietD)

lemma checks_keep:
  assumes "session_quiet jc rd ws view"
  shows "io_keeps view (check_connection_limit rd rl ip t)" "io_keeps view (check_message_rate rd rl cid t)"
    "io_keeps view (check_subscription_limit rd rl u)"
  unfolding check_connection_limit_def check_message_rate_def check_subscription_limit_def
  by (rule window_keeps [OF assms], rule window_keeps [OF assms], intro keeps session_quietD [OF assms])

lemma verify_keeps:
  assumes q: "session_quiet jc rd ws view"
  shows "io_keeps view (verify_token jc rd token fp)"
proof -
  have decode: "io_keeps view (decode_payload jc token)"
    unfolding decode_payload_def using session_quietD(1) [OF q] by (auto intro!: keeps split: option.split)
  show ?thesis
    unfolding verify_token_def is_token_revoked_def Let_def
    by (auto intro!: keeps decode session_quietD(2,3) [OF q] split: option.split)
qed

lemma authenticate_keeps: "session_quiet jc rd ws view \<Longrightarrow> io_keeps view (authenticate_websocket jc rd token fp)"
  unfolding authenticate_websocket_def by (auto intro!: keeps verify_keeps split: option.split)

lemma heartbeat_traceable:
  assumes rd: "redis_connections rd rows members"
  shows "io_preserves (traceable rows members cid) (touch_heartbeat rd now c)"
  unfolding io_preserves_def
proof (intro allI impI)
  fix w assume t: "traceable rows members cid w"
  obtain w' where w': "touch_heartbeat rd now c w = (Inr (), w')" "members w' = members w"
      "rows w' = (rows w)(conn_key c := fold (\<lambda>(f, v). AList.update f v) [(''last_heartbeat'', PIso now)] (rows w (conn_key c)))"
    using hset_row [OF rd, of "conn_key c" "[(''last_heartbeat'', PIso now)]" w] unfolding touch_heartbeat_def by blast
  have "map_of (rows w' k) ''user_id'' = map_of (rows w k) ''user_id''" for k
    by (simp add: w'(3) update_conv')
  then show "traceable rows members cid (snd (touch_heartbeat rd now c w))"
    using t by (simp add: w'(1,2) traceable_def)
qed

lemma subscriptions_traceable:
  assumes rd: "redis_connections rd rows members"
  shows "io_preserves (traceable rows members cid) (rd_sadd rd (subs_key u) topics)"
    and "io_preserves (traceable rows members cid) (rd_srem rd (subs_key u) topics)"
proof -
  show "io_preserves (traceable rows members cid) (rd_sadd rd (subs_key u) topics)"
    unfolding io_preserves_def
  proof (intro allI impI)
    fix w assume t: "traceable rows members cid w"
    obtain w' where "rd_sadd rd (subs_key u) topics w = (Inr (), w')" "rows w' = rows w"
        "members w' = (members w)(subs_key u := members w (subs_key u) \<union> set topics)"
      using sadd_member [OF rd] by blast
    then show "traceable rows members cid (snd (rd_sadd rd (subs_key u) topics w))" using t by (simp add: traceable_def)
  qed
  show "io_preserves (traceable rows members cid) (rd_srem rd (subs_key u) topics)"
    unfolding io_preserves_def
  proof (intro allI impI)
    fix w assume t: "traceable rows members cid w"
    obtain w' where "rd_srem rd (subs_key u) topics w = (Inr (), w')" "rows w' = rows w"
        "members w' = (members w)(subs_key u := members w (subs_key u) - set topics)"
      using srem_member [OF rd] by blast
    then show "traceable rows members cid (snd (rd_srem rd (subs_key u) topics w))" using t by (simp add: traceable_def)
  qed
qed

lemma handle_message_traceable:
  assumes rd: "redis_connections rd rows members" and q: "session_quiet jc rd ws (\<lambda>w. (rows w, members w))"
  shows "io_preserves (traceable rows members cid) (handle_message rd ws rl claims sock conn_id u t now msg)"
proof -
  note quiet = session_quietD [OF q, THEN quiet_traceable] checks_keep [OF q, THEN quiet_traceable]
  have subs: "io_preserves (traceable rows members cid) (subscribe_user rd u topics)"
    "io_preserves (traceable rows members cid) (unsubscribe_user rd u topics)" for topics
    unfolding subscribe_user_def unsubscribe_user_def
    by (intro preserves subscriptions_traceable [OF rd] quiet)+
  show ?thesis
    unfolding handle_message_def Let_def
    by (intro preserves quiet subs heartbeat_traceable [OF rd])
qed

lemma receive_loop_traceable:
  assumes "\<And>t now msg. io_preserves P (handle t now msg)"
  shows "io_preserves P (receive_loop handle msgs)"
proof (induction msgs)
  case Nil
  show ?case by (simp, rule preserves)
next
  case (Cons m msgs)
  then show ?case
    using assms by (cases m) (auto intro!: preserves split: session_result.split)
qed

lemma registration_leads:
  assumes rd: "redis_connections rd rows members" and u: "truthy u" and row: "row = connection_row g now u cid sid"
  shows "io_leads (unlisted members cid) (traceable rows members cid)
    (io_bind (rd_hset rd (conn_key cid) row) (\<lambda>_. io_bind (rd_expire rd (conn_key cid) ex) (\<lambda>_. rd_sadd rd (user_conns_key u) [cid])))"
  unfolding io_leads_def
proof (intro allI impI)
  fix w assume fresh: "unlisted members cid w"
  obtain w1 where 1: "rd_hset rd (conn_key cid) row w = (Inr (), w1)" "members w1 = members w"
      "rows w1 = (rows w)(conn_key cid := fold (\<lambda>(f, v). AList.update f v) row (rows w (conn_key cid)))"
    using hset_row [OF rd] by blast
  obtain w2 where 2: "rd_expire rd (conn_key cid) ex w1 = (Inr (), w2)" "rows w2 = rows w1" "members w2 = members w1"
    using expire_row [OF rd] by blast
  obtain w3 where 3: "rd_sadd rd (user_conns_key u) [cid] w2 = (Inr (), w3)" "rows w3 = rows w2"
      "members w3 = (members w2)(user_conns_key u := members w2 (user_conns_key u) \<union> set [cid])"
    using sadd_member [OF rd] by blast
  have "map_of (rev row) ''user_id'' = Some u" by (simp add: row connection_row_def)
  then have "map_of (rows w3 (conn_key cid)) ''user_id'' = Some u"
    using dict.lookup_store_all [of row "rows w (conn_key cid)" "''user_id''"] by (simp add: 1(3) 2(2) 3(2))
  then have "traceable rows members cid w3"
    using fresh u by (auto simp: traceable_def unlisted_def 1(2) 2(3) 3(3) split: if_splits)
  then show "traceable rows members cid (snd (io_bind (rd_hset rd (conn_key cid) row)
      (\<lambda>_. io_bind (rd_expire rd (conn_key cid) ex) (\<lambda>_. rd_sadd rd (user_conns_key u) [cid])) w))"
    using 1(1) 2(1) 3(1) by simp
qed

subsection \<open>The session\<close>

lemma outside_bind: "io_bind (outside m) (\<lambda>a. outside (f a)) = outside (io_bind m f)"
  by (rule ext) (auto simp: outside_def io_zoom_def io_bind_def split: prod.splits sum.splits)

lemma connect_leads:
  assumes rd: "redis_connections rd rows members" and q: "session_quiet jc rd ws (\<lambda>w. (rows w, members w))" and u: "truthy u"
  shows "io_leads (\<lambda>(g, w). unlisted members cid w) (\<lambda>(g, w). traceable rows members cid w) (mg_connect rd ws now n u cid sid)"
proof -
  let ?P = "\<lambda>(g, w). unlisted members cid w"
  have weaken: "\<And>s. ?P s \<Longrightarrow> (\<lambda>(g, w). traceable rows members cid w) s" by (auto simp: unlisted_traceable)
  have accept: "io_preserves ?P (outside (ws_accept ws n))"
    by (intro outside_preserves quiet_unlisted [where rows = rows] session_quietD [OF q])
  have get: "io_preserves ?P (io_get fst)" by (rule preserves)
  show ?thesis
    unfolding mg_connect_def connection_row_def [symmetric] outside_bind
    by (intro leads_after [OF accept weaken] leads_after [OF on_manager_preserves weaken] leads_after [OF get weaken]
        outside_leads registration_leads [OF rd u refl])
qed

lemma session_leads:
  assumes rd: "redis_connections rd rows members" and q: "session_quiet jc rd ws (\<lambda>w. (rows w, members w))"
    and sub: "\<And>w claims w' sub. verify_token jc rd (the token) fp w = (Inr claims, w') \<Longrightarrow> map_of claims ''sub'' = Some sub \<Longrightarrow> truthy (py_str sub)"
  shows "io_leads (\<lambda>(g, w). unlisted members (PStr conn_id) w) (\<lambda>(g, w). traceable rows members (PStr conn_id) w)
    (session_body jc rd ws rl sock client_ip token fp conn_id t now msgs)"
proof -
  let ?cid = "PStr conn_id"
  let ?P = "\<lambda>(g, w). unlisted members ?cid w" and ?Q = "\<lambda>(g, w). traceable rows members ?cid w"
  have weaken: "\<And>s. ?P s \<Longrightarrow> ?Q s" by (auto simp: unlisted_traceable)
  note quiet = session_quietD [OF q, THEN quiet_unlisted, THEN outside_preserves]
  have limit: "io_preserves ?P (outside (check_connection_limit rd rl client_ip t))"
    by (intro outside_preserves quiet_unlisted [where rows = rows] checks_keep [OF q])
  have auth: "io_preserves ?P (outside (authenticate_websocket jc rd token fp))"
    by (intro outside_preserves quiet_unlisted [where rows = rows] authenticate_keeps [OF q])
  have start: "io_preserves ?P (mg_start ws)"
    unfolding mg_start_def by (intro preserves on_manager_preserves quiet)
  have close: "io_preserves ?P (outside (ws_close ws sock 4002))" by (rule quiet)
  have lift: "io_preserves ?P (io_lift r)" for r :: "exn + pyval" by (rule preserves)
  have loop: "io_preserves ?Q (outside (receive_loop (handle_message rd ws rl claims sock conn_id u) msgs))" for claims u
    by (intro outside_preserves receive_loop_traceable handle_message_traceable [OF rd q])
  have task: "io_preserves ?Q (outside (ws_create_task ws a))" for a
    by (intro outside_preserves quiet_traceable [where rows = rows] session_quietD [OF q])
  have subject: "truthy (py_str sub)"
    if a: "outside (authenticate_websocket jc rd token fp) s = (Inr claims, s')" and k: "io_lift (key claims ''sub'') s2 = (Inr sub, s3)"
    for claims s s' sub and s2 s3 :: "manager \<times> 'w"
  proof -
    obtain g w w' where "authenticate_websocket jc rd token fp w = (Inr claims, w')"
      using a by (cases s) (auto simp: outside_def io_zoom_def split: prod.splits)
    then have "verify_token jc rd (the token) fp w = (Inr claims, w')"
      by (auto simp: authenticate_websocket_def io_raise_def split: option.splits if_splits)
    moreover have "map_of claims ''sub'' = Some sub"
      using k by (auto simp: key_def split: option.splits)
    ultimately show ?thesis by (rule sub)
  qed
  show ?thesis
    unfolding session_body_def
  proof (rule leads_after [OF limit weaken])
    fix ok
    show "io_leads ?P ?Q (if \<not> ok then outside (ws_close ws sock 4002)
       else io_bind (outside (authenticate_websocket jc rd token fp)) (\<lambda>claims.
         io_bind (io_lift (key claims ''sub'')) (\<lambda>sub.
         io_bind (mg_start ws) (\<lambda>_.
         io_bind (mg_connect rd ws now sock (py_str sub) ?cid (py_str (pyget claims ''jti''))) (\<lambda>_.
         io_bind (outside (ws_create_task ws (RevalidateTask sock (case token of None \<Rightarrow> [] | Some s \<Rightarrow> s) fp))) (\<lambda>_.
         io_bind (outside (ws_create_task ws (MonitorTask sock conn_id))) (\<lambda>_.
         outside (receive_loop (handle_message rd ws rl claims sock conn_id (py_str sub)) msgs))))))))"
    proof (cases ok)
      case False
      then show ?thesis using leads_weaken [OF close weaken] by simp
    next
      case True
      have "io_leads ?P ?Q (io_bind (outside (authenticate_websocket jc rd token fp)) (\<lambda>claims.
         io_bind (io_lift (key claims ''sub'')) (\<lambda>sub.
         io_bind (mg_start ws) (\<lambda>_.
         io_bind (mg_connect rd ws now sock (py_str sub) ?cid (py_str (pyget claims ''jti''))) (\<lambda>_.
         io_bind (outside (ws_create_task ws (RevalidateTask sock (case token of None \<Rightarrow> [] | Some s \<Rightarrow> s) fp))) (\<lambda>_.
         io_bind (outside (ws_create_task ws (MonitorTask sock conn_id))) (\<lambda>_.
         outside (receive_loop (handle_message rd ws rl claims sock conn_id (py_str sub)) msgs))))))))"
      proof (rule leads_after [OF auth weaken])
        fix claims s s' assume a: "outside (authenticate_websocket jc rd token fp) s = (Inr claims, s')"
        show "io_leads ?P ?Q (io_bind (io_lift (key claims ''sub'')) (\<lambda>sub.
           io_bind (mg_start ws) (\<lambda>_.
           io_bind (mg_connect rd ws now sock (py_str sub) ?cid (py_str (pyget claims ''jti''))) (\<lambda>_.
           io_bind (outside (ws_create_task ws (RevalidateTask sock (case token of None \<Rightarrow> [] | Some s \<Rightarrow> s) fp))) (\<lambda>_.
           io_bind (outside (ws_create_task ws (MonitorTask sock conn_id))) (\<lambda>_.
           outside (receive_loop (handle_message rd ws rl claims sock conn_id (py_str sub)) msgs)))))))"
        proof (rule leads_after [OF lift weaken])
          fix sub s2 s3 assume "io_lift (key claims ''sub'') s2 = (Inr sub, s3 :: manager \<times> 'w)"
          with a have "truthy (py_str sub)" by (rule subject)
          then show "io_leads ?P ?Q (io_bind (mg_start ws) (\<lambda>_.
             io_bind (mg_connect rd ws now sock (py_str sub) ?cid (py_str (pyget claims ''jti''))) (\<lambda>_.
             io_bind (outside (ws_create_task ws (RevalidateTask sock (case token of None \<Rightarrow> [] | Some s \<Rightarrow> s) fp))) (\<lambda>_.
             io_bind (outside (ws_create_task ws (MonitorTask sock conn_id))) (\<lambda>_.
             outside (receive_loop (handle_message rd ws rl claims sock conn_id (py_str sub)) msgs))))))"
            by (intro leads_after [OF start weaken] leads_then [OF connect_leads [OF rd q]] preserves task loop)
        qed
      qed
      with True show ?thesis by simp
    qed
  qed
qed

subsection \<open>The end of a session\<close>

text \<open>No trace of the connection: no user lists it, it has no row, and the manager holds no socket for it.\<close>

definition cleared :: "('w \<Rightarrow> rkey \<Rightarrow> pydict) \<Rightarrow> ('w \<Rightarrow> rkey \<Rightarrow> pyval set) \<Rightarrow> pyval \<Rightarrow> 'w mg_state \<Rightarrow> bool" where
  "cleared rows members cid = (\<lambda>(g, w). unlisted members cid w \<and> rows w (conn_key cid) = [] \<and> map_of (mg_local_connections g) cid = None)"

lemma disconnect_clears_connection:
  fixes rd :: "'w redis_api"
  assumes rd: "redis_connections rd rows members"
  shows "io_leads (\<lambda>(g, w). traceable rows members cid w) (cleared rows members cid) (mg_disconnect rd cid)"
  unfolding io_leads_def
proof (intro allI impI)
  fix s :: "'w mg_state" assume "(\<lambda>(g, w). traceable rows members cid w) s"
  then obtain g :: manager and w where s: "s = (g, w)" and t: "traceable rows members cid w" by (cases s) auto
  let ?g' = "g\<lparr>mg_local_connections := AList.delete cid (mg_local_connections g)\<rparr>"
  have gone: "map_of (mg_local_connections ?g') cid = None" by (simp add: delete_conv)
  show "cleared rows members cid (snd (mg_disconnect rd cid s))"
  proof (cases "\<exists>u. map_of (rows w (conn_key cid)) ''user_id'' = Some u \<and> truthy u")
    case True
    then obtain u where u: "map_of (rows w (conn_key cid)) ''user_id'' = Some u" "truthy u" by blast
    obtain w' where w': "mg_disconnect rd cid (g, w) = (Inr (), (?g', w'))" "rows w' = (rows w)(conn_key cid := [])"
        "members w' = (members w)(user_conns_key u := members w (user_conns_key u) - {cid})"
      using disconnect_removes [OF rd u] by blast
    have "unlisted members cid w'" using t u(1) by (auto simp: unlisted_def traceable_def w'(3))
    then show ?thesis using gone by (simp add: cleared_def s w'(1,2))
  next
    case False
    then obtain w' where w': "mg_disconnect rd cid (g, w) = (Inr (), (?g', w'))" "rows w' = (rows w)(conn_key cid := [])" "members w' = members w"
      using disconnect_without_row [OF rd] by blast
    have "unlisted members cid w'" using t False by (auto simp: unlisted_def traceable_def w'(3))
    then show ?thesis using gone by (simp add: cleared_def s w'(1,2))
  qed
qed

lemma try_preserves: "io_preserves P m \<Longrightarrow> io_preserves P (io_try m)"
  by (simp add: io_preserves_def io_try_def case_prod_beta)

lemma try_leads: "io_leads P Q m \<Longrightarrow> io_leads P Q (io_try m)"
  by (simp add: io_leads_def io_try_def case_prod_beta)

lemma leads_chain: "io_leads P Q m \<Longrightarrow> (\<And>a. io_leads Q R (f a)) \<Longrightarrow> (\<And>s e s'. m s \<noteq> (Inl e, s')) \<Longrightarrow> io_leads P R (io_bind m f)"
  unfolding io_leads_def io_bind_def by (auto split: prod.splits sum.splits)

lemma try_answers: "io_try m s \<noteq> (Inl e, s')"
  by (simp add: io_try_def split: prod.splits)

lemma stop_cleared:
  assumes q: "session_quiet jc rd ws (\<lambda>w. (rows w, members w))"
  shows "io_preserves (cleared rows members cid) (mg_stop ws)"
proof -
  have flag: "io_preserves (cleared rows members cid) (on_manager (\<lambda>g. g\<lparr>mg_listening := False\<rparr>))"
    by (auto simp: io_preserves_def cleared_def on_manager_def io_modify_def)
  have close: "io_preserves (cleared rows members cid) (outside (ws_pubsub_close ws))"
    using session_quietD(13) [OF q]
    by (auto simp: io_preserves_def io_keeps_def cleared_def unlisted_def outside_def io_zoom_def split: prod.splits) (metis snd_conv)+
  show ?thesis unfolding mg_stop_def by (intro preserves flag close)
qed

text \<open>
  A session that ends before its row expires, whatever its client sends and whatever the other collaborators raise
  on the way: afterwards no user lists its connection, the server has no row of it and its manager no socket,
  provided that the commands on rows and sets do not fail and that the subject of a verified token is not an empty text.
\<close>

theorem session_always_cleans_up:
  assumes "redis_connections rd rows members" and "session_quiet jc rd ws (\<lambda>w. (rows w, members w))"
    and "\<And>w claims w' sub. verify_token jc rd (the token) fp w = (Inr claims, w') \<Longrightarrow> map_of claims ''sub'' = Some sub \<Longrightarrow> truthy (py_str sub)"
    and "\<And>u. PStr conn_id \<notin> members w (user_conns_key u)"
  shows "case snd (websocket_endpoint jc rd ws rl sock client_ip token fp conn_id t now msgs (g, w)) of (g', w') \<Rightarrow>
    (\<forall>u. PStr conn_id \<notin> members w' (user_conns_key u)) \<and> rows w' (conn_key (PStr conn_id)) = [] \<and>
    map_of (mg_local_connections g') (PStr conn_id) = None"
proof -
  let ?cid = "PStr conn_id" and ?Q = "\<lambda>(g, w). traceable rows members (PStr conn_id) w"
  let ?body = "session_body jc rd ws rl sock client_ip token fp conn_id t now msgs"
  have body: "io_leads (\<lambda>(g, w). unlisted members ?cid w) ?Q ?body"
    by (rule session_leads [OF assms(1,2)]) (rule assms(3))
  have close: "io_preserves ?Q (outside (ws_close ws sock c))" for c
    by (intro outside_preserves quiet_traceable session_quietD [OF assms(2)])
  have "io_leads (\<lambda>(g, w). unlisted members ?cid w) (cleared rows members ?cid)
      (websocket_endpoint jc rd ws rl sock client_ip token fp conn_id t now msgs)"
    unfolding websocket_endpoint_def
  proof (rule leads_chain [OF try_leads [OF leads_then [OF try_leads [OF body]]] leads_then [OF try_leads [OF leads_then]] try_answers])
    show "io_preserves ?Q (case r of Inr _ \<Rightarrow> io_return ()
       | Inl (OtherException m) \<Rightarrow> if m = ''WebSocketDisconnect'' then io_return ()
           else io_bind (io_try (outside (ws_close ws sock 1011))) (\<lambda>_. io_return ())
       | Inl (ValueError m) \<Rightarrow> outside (ws_close ws sock 4001)
       | Inl e \<Rightarrow> io_bind (io_try (outside (ws_close ws sock 1011))) (\<lambda>_. io_return ()))" for r :: "exn + unit"
      by (auto intro!: preserves try_preserves close split: sum.split exn.split)
    show "io_leads ?Q (cleared rows members ?cid) (mg_disconnect rd ?cid)" by (rule disconnect_clears_connection [OF assms(1)])
    show "io_preserves (cleared rows members ?cid) (mg_stop ws)" by (rule stop_cleared [OF assms(2)])
    show "io_preserves (cleared rows members ?cid) (io_lift outcome)" for outcome :: "exn + unit" by (rule preserves)
  qed
  moreover have "unlisted members ?cid w" using assms(4) by (simp add: unlisted_def)
  ultimately show ?thesis
    unfolding io_leads_def cleared_def unlisted_def by (auto split: prod.splits)
qed

text \<open>A session on the server in memory: two heartbeats, an unknown message, and the client goes.\<close>

definition memory_crypto :: "memory token_crypto" where
  "memory_crypto = \<lparr>jc_encode = \<lambda>_. Inr ''signed'', jc_decode = \<lambda>t. io_return (Some [(''jti'', PStr ''j''), (''sub'', PStr ''7'')]),
     jc_sha256 = \<lambda>f. f, jc_hash_password = \<lambda>p. p, jc_verify_password = \<lambda>h p. Inr (h = p)\<rparr>"

lemma memory_quiet: "session_quiet memory_crypto memory_redis memory_sockets (\<lambda>w. (mem_rows w, mem_members w))"
  by (simp add: session_quiet_def memory_crypto_def memory_redis_def memory_sockets_def io_keeps_def mem_members_def io_simps fun_eq_iff)

lemma memory_subject:
  assumes "verify_token memory_crypto memory_redis tok fp w = (Inr claims, w')" and "map_of claims ''sub'' = Some sub"
  shows "truthy (py_str sub)"
proof -
  have "claims = [(''jti'', PStr ''j''), (''sub'', PStr ''7'')]"
    using assms(1) by (auto simp: verify_token_def decode_payload_def memory_crypto_def Let_def is_token_revoked_def memory_redis_def
        key_def globally_revoked_def io_simps split: option.splits if_splits)
  then show ?thesis using assms(2) by auto
qed

theorem session_always_cleans_up_witness:
  "case snd (websocket_endpoint memory_crypto memory_redis memory_sockets default_limiter 1 ''127.0.0.1'' (Some ''tok'') None ''new'' 0 0
      [(1, 1, [(''event'', PStr ''heartbeat'')]), (2, 2, [(''event'', PStr ''heartbeat'')]), (3, 3, [(''event'', PStr ''other'')])]
      (manager_init ''a'', listed)) of (g', w') \<Rightarrow>
    PStr ''new'' \<notin> mem_members w' (user_conns_key (PStr ''7'')) \<and> map_of (mg_local_connections g') (PStr ''new'') = None"
proof -
  have "PStr ''new'' \<notin> mem_members listed (user_conns_key u)" for u
    by (simp add: mem_members_def listed_def)
  from session_always_cleans_up [where rl = default_limiter and sock = 1 and client_ip = "''127.0.0.1''" and token = "Some ''tok''" and fp = None
      and conn_id = "''new''" and t = 0 and now = 0 and g = "manager_init ''a''" and w = listed
      and msgs = "[(1, 1, [(''event'', PStr ''heartbeat'')]), (2, 2, [(''event'', PStr ''heartbeat'')]), (3, 3, [(''event'', PStr ''other'')])]",
      OF memory_redis_connections memory_quiet memory_subject this]
  show ?thesis by (auto split: prod.splits)
qed

end
