(* ===== verification/Engine_Refinement.thy ===== *)
theory Engine_Refinement
  imports Execution_Races
begin

text \<open>
  The execution engine as an implementation of a book of orders. The state of the engine is its callbacks and the
  state of its collaborators; the operations are the methods of the class
  (\<^verbatim>\<open>execution/engine.py\<close>). Abstractly the engine is a map from ids to orders, on which an operation
  changes the order it is about, as its kind allows, or nothing. The collaborators may answer what
  they like and raise when they like, as long as only the repository stores orders.
\<close>

subsection \<open>The operations\<close>

datatype engine_op =
    Submit_Order order "nat \<Rightarrow> datetime"
  | Update_Status pyval order_status "order_attr list" datetime
  | Cancel_Order pyval "nat \<Rightarrow> datetime"
  | Get_Order pyval datetime
  | Get_Orders pyval "order_status option" datetime
  | On_Event string nat
  | Off_Event string nat

type_synonym 's engine_state = "callbacks \<times> 's"

text \<open>The world after an operation, whether it answers or raises.\<close>

fun engine_step :: "'s exec_deps \<Rightarrow> 's engine_state \<Rightarrow> engine_op \<Rightarrow> 's engine_state" where
  "engine_step dp (cbs, s) (Submit_Order o' clk) = (cbs, snd (submit_order dp cbs clk o' s))"
| "engine_step dp (cbs, s) (Update_Status i st kwargs now) = (cbs, snd (update_order_status dp cbs now i st kwargs s))"
| "engine_step dp (cbs, s) (Cancel_Order i clk) = (cbs, snd (cancel_order dp cbs clk i s))"
| "engine_step dp (cbs, s) (Get_Order i now) = (cbs, snd (get_order dp now i s))"
| "engine_step dp (cbs, s) (Get_Orders acc st now) = (cbs, snd (get_orders dp now acc st s))"
| "engine_step dp (cbs, s) (On_Event ev cb) = (on_event ev cb cbs, s)"
| "engine_step dp (cbs, s) (Off_Event ev cb) = (off_event ev cb cbs, s)"

subsection \<open>The book\<close>

text \<open>The orders that the repository holds, and that what it holds are dictionaries of orders.\<close>

definition book :: "('s \<Rightarrow> pyval \<Rightarrow> pydict option) \<Rightarrow> 's \<Rightarrow> pyval \<Rightarrow> order option" where
  "book view s i = (case view s i of None \<Rightarrow> None | Some d \<Rightarrow> (case hydrate 0 d of Inl _ \<Rightarrow> None | Inr o' \<Rightarrow> Some o'))"

definition book_ok :: "('s \<Rightarrow> pyval \<Rightarrow> pydict option) \<Rightarrow> 's \<Rightarrow> bool" where
  "book_ok view s = (\<forall>i d. view s i = Some d \<longrightarrow> (\<exists>o'. order_stamped o' \<and> d = dict_of o'))"

text \<open>All entries of the dictionary outside \<open>N\<close> are the same.\<close>

definition same_but :: "string set \<Rightarrow> order \<Rightarrow> order \<Rightarrow> bool" where
  "same_but N o1 o2 = (\<forall>k. k \<notin> N \<longrightarrow> pyget (dict_of o2) k = pyget (dict_of o1) k)"

definition submission_names :: "string set" where
  "submission_names = {''status'', ''updated_at'', ''rejection_reason'', ''opened_at'', ''closed_at'', ''filled_quantity''}"

text \<open>
  What a submission with the quantity \<open>q\<close> does to an order: it changes entries of \<open>submission_names\<close> only, the status
  goes along the table to one of four, and the filled quantity only changes with a fill, to \<open>q\<close>.
\<close>

definition evolves :: "real \<Rightarrow> order \<Rightarrow> order \<Rightarrow> bool" where
  "evolves q o1 o2 = (same_but submission_names o1 o2 \<and> o_status o1 \<le> o_status o2 \<and>
     (o_status o2 = o_status o1 \<or> o_status o2 \<in> {VALIDATED, REJECTED, SUBMITTED, FILLED}) \<and>
     (o_filled_quantity o2 = o_filled_quantity o1 \<or> o_status o2 = FILLED \<and> o_filled_quantity o2 = q))"

text \<open>
  A submission of \<open>o'\<close> can also put the caller's order in the place of the stored one, which is at most validated
  then, for \<open>save_order\<close> may overwrite; this is how a validated order can become pending again.
\<close>

definition submit_moves :: "order \<Rightarrow> order \<Rightarrow> order \<Rightarrow> bool" where
  "submit_moves o' o1 o2 = (evolves (o_quantity o') o1 o2 \<or>
     o_status o' = PENDING \<and> o_status o1 \<le> VALIDATED \<and> evolves (o_quantity o') o' o2)"

definition cancel_moves :: "order \<Rightarrow> order \<Rightarrow> bool" where
  "cancel_moves o1 o2 = (o_status o1 \<le> CANCELED \<and> (\<exists>now. o2 = apply_update CANCELED [] now o1))"

definition update_moves :: "order_status \<Rightarrow> order_attr list \<Rightarrow> datetime \<Rightarrow> order \<Rightarrow> order \<Rightarrow> bool" where
  "update_moves st kwargs now o1 o2 =
     ((st = o_status o1 \<or> st \<in> set (valid_transitions (o_status o1))) \<and> o2 = apply_update st kwargs now o1)"

definition book_change :: "pyval \<Rightarrow> (order \<Rightarrow> order \<Rightarrow> bool) \<Rightarrow> (pyval \<Rightarrow> order option) \<Rightarrow> (pyval \<Rightarrow> order option) \<Rightarrow> bool" where
  "book_change i Q b b' = (b' = b \<or> (\<exists>o1 o2. b i = Some o1 \<and> Q o1 o2 \<and> b' = b(i \<mapsto> o2)))"

fun book_step :: "(pyval \<Rightarrow> order option) \<Rightarrow> engine_op \<Rightarrow> (pyval \<Rightarrow> order option) \<Rightarrow> bool" where
  "book_step b (Submit_Order o' clk) b' = book_change (o_id o') (submit_moves o') b b'"
| "book_step b (Update_Status i st kwargs now) b' = book_change i (update_moves st kwargs now) b b'"
| "book_step b (Cancel_Order i clk) b' = book_change i cancel_moves b b'"
| "book_step b _ b' = (b' = b)"

text \<open>
  What the collaborators are. Each method may answer or raise at any time. Reading does not write, and an answer is
  what is stored; an update or a save that raises may have been stored or not, an update that answers has been; a
  save that answers may have kept what was stored or replaced it; and the connector, the risk engine and the callbacks do not
  write to the stored orders.
\<close>

definition engine_world :: "'s exec_deps \<Rightarrow> ('s \<Rightarrow> pyval \<Rightarrow> pydict option) \<Rightarrow> bool" where
  "engine_world dp view = (
     (\<forall>i s. case rp_get_order dp i s of (r, s') \<Rightarrow> view s' = view s \<and> (case r of Inl e \<Rightarrow> True | Inr x \<Rightarrow> x = view s i)) \<and>
     (\<forall>i d s. case rp_update_order dp i d s of (r, s') \<Rightarrow>
        view s' = (view s)(i \<mapsto> d) \<or> view s' = view s \<and> (case r of Inl e \<Rightarrow> True | Inr u \<Rightarrow> False)) \<and>
     (\<forall>d s. view (snd (rp_save_order dp d s)) \<in> {view s, (view s)(pyget d ''id'' \<mapsto> d)}) \<and>
     (\<forall>cb d s. view (snd (cb_call dp cb d s)) = view s) \<and> (\<forall>a st s. view (snd (rp_get_orders dp a st s)) = view s) \<and>
     (\<forall>s. view (snd (cn_get_account_info dp s)) = view s) \<and> (\<forall>y s. view (snd (cn_get_positions dp y s)) = view s) \<and>
     (\<forall>d s. view (snd (cn_execute_order dp d s)) = view s) \<and> (\<forall>i s. view (snd (cn_cancel_order dp i s)) = view s) \<and>
     (\<forall>d a ps s. view (snd (rk_pre_trade_check dp d a ps s)) = view s))"

lemma world_get:
  assumes "engine_world dp view" and "rp_get_order dp i s = (r, s')"
  shows "view s' = view s" and "r = Inr x \<Longrightarrow> x = view s i"
  using conjunct1 [OF assms(1) [unfolded engine_world_def], rule_format, where i = i and s = s] assms(2) by auto

lemma world_update:
  assumes "engine_world dp view" and "rp_update_order dp i d s = (r, s')"
  shows "view s' = (view s)(i \<mapsto> d) \<or> view s' = view s \<and> (\<exists>e. r = Inl e)"
  using conjunct1 [OF conjunct2 [OF assms(1) [unfolded engine_world_def]], rule_format, where i = i and d = d and s = s] assms(2)
  by (auto split: sum.splits)

lemma engine_worldD:
  assumes "engine_world dp view"
  shows world_save: "view (snd (rp_save_order dp d s)) \<in> {view s, (view s)(pyget d ''id'' \<mapsto> d)}"
    and world_callback: "view (snd (cb_call dp cb d s)) = view s"
    and world_quiet: "view (snd (rp_get_orders dp a st s)) = view s" "view (snd (cn_get_account_info dp s)) = view s"
      "view (snd (cn_get_positions dp y s)) = view s" "view (snd (cn_execute_order dp d s)) = view s"
      "view (snd (cn_cancel_order dp i s)) = view s" "view (snd (rk_pre_trade_check dp d a' ps s)) = view s"
  using assms unfolding engine_world_def by blast+

subsection \<open>Changes compose\<close>

lemma book_cong: "view s' = view s \<Longrightarrow> book view s' = book view s"
  by (simp add: book_def fun_eq_iff)

lemma book_ok_cong: "view s' = view s \<Longrightarrow> book_ok view s' = book_ok view s"
  by (simp add: book_ok_def)

lemma book_stored: "view s i = Some (dict_of o') \<Longrightarrow> order_stamped o' \<Longrightarrow> book view s i = Some o'"
  by (simp add: book_def hydrate_dict_of)

lemma book_write: "view s' = (view s)(i \<mapsto> dict_of o2) \<Longrightarrow> order_stamped o2 \<Longrightarrow> book view s' = (book view s)(i \<mapsto> o2)"
  by (rule ext) (simp add: book_def hydrate_dict_of)

text \<open>The change of the stored orders, from a state where they are orders.\<close>

definition changes :: "('s \<Rightarrow> pyval \<Rightarrow> pydict option) \<Rightarrow> pyval \<Rightarrow> (order \<Rightarrow> order \<Rightarrow> bool) \<Rightarrow> 's \<Rightarrow> 's \<Rightarrow> bool" where
  "changes view i Q s s' = (book_ok view s \<longrightarrow> book_ok view s' \<and> book_change i Q (book view s) (book view s'))"

lemma changes_same: "view s' = view s \<Longrightarrow> changes view i Q s s'"
  using book_cong [of view s' s] book_ok_cong [of view s' s] unfolding changes_def book_change_def by blast

lemma changes_write:
  assumes "view s i = Some (dict_of o1)" "order_stamped o1" "view s' = (view s)(i \<mapsto> dict_of o2)" "order_stamped o2" "Q o1 o2"
  shows "changes view i Q s s'"
proof -
  have "book view s i = Some o1" using assms(1, 2) by (rule book_stored)
  moreover have "book view s' = (book view s)(i \<mapsto> o2)" using assms(3, 4) by (rule book_write)
  ultimately have "book_change i Q (book view s) (book view s')" using assms(5) unfolding book_change_def by blast
  moreover have "book_ok view s \<Longrightarrow> book_ok view s'" using assms(4) unfolding book_ok_def assms(3) by auto
  ultimately show ?thesis by (simp add: changes_def)
qed

lemma changes_trans:
  assumes "changes view i Q s s'" "changes view i Q s' s''" and "transp Q"
  shows "changes view i Q s s''"
proof -
  have "book_change i Q b b''" if ab: "book_change i Q b b'" and bc: "book_change i Q b' b''" for b b' b''
  proof (cases "b' = b \<or> b'' = b'")
    case True
    then show ?thesis using ab bc by auto
  next
    case False
    obtain o1 o2 where 1: "b i = Some o1" "Q o1 o2" "b' = b(i \<mapsto> o2)"
      using ab False unfolding book_change_def by blast
    obtain o2' o3 where 2: "b' i = Some o2'" "Q o2' o3" "b'' = b'(i \<mapsto> o3)"
      using bc False unfolding book_change_def by blast
    have "o2' = o2" using 1(3) 2(1) by simp
    then have "Q o1 o3" using transpD [OF assms(3) 1(2)] 2(2) by simp
    then show ?thesis using 1 2(3) unfolding book_change_def by (intro disjI2) auto
  qed
  then show ?thesis using assms(1, 2) unfolding changes_def by blast
qed

lemma changes_bind:
  assumes "changes view i Q s (snd (m s))" and "\<And>a s'. m s = (Inr a, s') \<Longrightarrow> changes view i Q s' (snd (f a s'))" and "transp Q"
  shows "changes view i Q s (snd (io_bind m f s))"
  using assms(1,2) changes_trans [OF _ _ assms(3)]
  by (cases "m s") (auto simp: io_bind_def split: sum.split)

subsection \<open>Every operation is a change that its kind allows\<close>

lemma legal_status_le: "st = o_status o1 \<or> st \<in> set (valid_transitions (o_status o1)) \<Longrightarrow> o_status o1 \<le> st"
  using status_step_less [of "o_status o1" st] by (auto simp: status_step_iff)

lemma emit_view:
  assumes "engine_world dp view"
  shows "\<exists>s'. emit dp cbs ev d s = (Inr (), s') \<and> view s' = view s"
proof -
  let ?f = "\<lambda>cb. io_bind (io_try (cb_call dp cb d)) (\<lambda>_. io_return ())"
  have "\<exists>s'. io_each ?f l s = (Inr (), s') \<and> view s' = view s" for l s
  proof (induction l arbitrary: s)
    case Nil
    show ?case by (simp add: io_simps)
  next
    case (Cons cb l)
    obtain r s1 where c: "cb_call dp cb d s = (r, s1)" by fastforce
    with world_callback [OF assms, of cb d s] have "view s1 = view s" by simp
    with c Cons.IH [of s1] show ?case by (simp add: io_simps)
  qed
  then show ?thesis by (simp add: emit_def)
qed

lemma get_order_view: "engine_world dp view \<Longrightarrow> view (snd (get_order dp now i s)) = view s"
  using world_get(1) [of dp view i s] unfolding get_order_def
  by (cases "rp_get_order dp i s") (auto simp: io_bind_def io_return_def io_lift_def split: option.split sum.split)

text \<open>A read of a stored order raises or gives this order.\<close>

lemma get_order_cases:
  assumes "engine_world dp view" and "view s i = Some (dict_of o1)" and "order_stamped o1"
  shows "\<exists>r s'. get_order dp now i s = (r, s') \<and> view s' = view s \<and> (\<forall>x. r = Inr x \<longrightarrow> x = Some o1)"
proof -
  obtain r s' where get: "rp_get_order dp i s = (r, s')" by fastforce
  note law = world_get [OF assms(1) get]
  have "dict_of o1 \<noteq> []" using dict_of_entries [OF assms(3)] by (auto simp: order_entries_def)
  then show ?thesis
    using get law(1) law(2) assms(2,3)
    by (cases r) (auto simp: get_order_def io_bind_def io_return_def io_lift_def hydrate_dict_of)
qed

text \<open>
  An update of a stored order stores the updated order or nothing; if it answers, the transition was allowed and the
  updated order is stored.
\<close>

lemma update_cases:
  assumes w: "engine_world dp view" and o1: "view s i = Some (dict_of o1)" "order_stamped o1"
  shows "\<exists>r s'. update_order_status dp cbs now i st kwargs s = (r, s') \<and>
    (view s' = view s \<and> (\<exists>e. r = Inl e) \<or>
     (st = o_status o1 \<or> st \<in> set (valid_transitions (o_status o1))) \<and> view s' = (view s)(i \<mapsto> dict_of (apply_update st kwargs now o1)))"
proof -
  let ?o = "apply_update st kwargs now o1"
  obtain r s1 where get: "get_order dp now i s = (r, s1)" "view s1 = view s" "\<And>x. r = Inr x \<Longrightarrow> x = Some o1"
    using get_order_cases [OF assms] by blast
  have d: "to_dict ?o = Inr (dict_of ?o)" by (rule to_dict_stamped [OF apply_update_stamped [OF o1(2)]])
  show ?thesis
  proof (cases "(\<exists>e. r = Inl e) \<or> \<not> (st = o_status o1 \<or> st \<in> set (valid_transitions (o_status o1)))")
    case True
    then show ?thesis using get by (cases r) (auto simp: update_order_status_def io_bind_def io_raise_def)
  next
    case False
    then have r: "r = Inr (Some o1)" and legal: "st = o_status o1 \<or> st \<in> set (valid_transitions (o_status o1))"
      using get(3) by (cases r; auto)+
    obtain r2 s2 where up: "rp_update_order dp i (dict_of ?o) s1 = (r2, s2)" by fastforce
    note law = world_update [OF w up]
    obtain s3 where e3: "emit dp cbs ''order_updated'' (dict_of ?o) s2 = (Inr (), s3)" "view s3 = view s2"
      using emit_view [OF w] by blast
    obtain s4 where e4: "emit dp cbs ''order_rejected'' (dict_of ?o) s3 = (Inr (), s4)" "view s4 = view s3"
      using emit_view [OF w] by blast
    have run: "update_order_status dp cbs now i st kwargs s =
        (case r2 of Inl e \<Rightarrow> (Inl e, s2) | Inr u \<Rightarrow> (Inr (), if st = REJECTED then s4 else s3))"
      using legal get(1) up e3(1) e4(1)
      by (auto simp: update_order_status_def r d io_bind_def io_lift_def io_when_def io_return_def split: sum.split)
    show ?thesis
    proof (cases r2)
      case (Inl e)
      then show ?thesis using run law get(2) legal by auto
    next
      case (Inr u)
      then have "view s2 = (view s1)(i \<mapsto> dict_of ?o)" using law by auto
      then show ?thesis using run Inr e3(2) e4(2) get(2) legal by auto
    qed
  qed
qed

lemma update_missing:
  assumes w: "engine_world dp view" and "view s i = None"
  shows "\<exists>e s'. update_order_status dp cbs now i st kwargs s = (Inl e, s') \<and> view s' = view s"
proof -
  obtain r s' where get: "rp_get_order dp i s = (r, s')" by fastforce
  with world_get [OF w get] assms(2) show ?thesis
    by (cases r) (auto simp: update_order_status_def get_order_def io_bind_def io_return_def io_raise_def)
qed

lemma update_changes:
  assumes w: "engine_world dp view"
    and Q: "\<And>o1. order_stamped o1 \<Longrightarrow> st = o_status o1 \<or> st \<in> set (valid_transitions (o_status o1)) \<Longrightarrow> Q o1 (apply_update st kwargs now o1)"
  shows "changes view i Q s (snd (update_order_status dp cbs now i st kwargs s))"
proof (cases "book_ok view s")
  case True
  show ?thesis
  proof (cases "view s i")
    case None
    then show ?thesis using update_missing [OF w] changes_same by (metis snd_conv)
  next
    case (Some d)
    then obtain o1 where o1: "order_stamped o1" "view s i = Some (dict_of o1)"
      using True unfolding book_ok_def by blast
    obtain r s' where run: "update_order_status dp cbs now i st kwargs s = (r, s')"
      and law: "view s' = view s \<or> (st = o_status o1 \<or> st \<in> set (valid_transitions (o_status o1))) \<and>
        view s' = (view s)(i \<mapsto> dict_of (apply_update st kwargs now o1))"
      using update_cases [OF w o1(2,1)] by blast
    from law have "changes view i Q s s'"
    proof
      assume legal: "(st = o_status o1 \<or> st \<in> set (valid_transitions (o_status o1))) \<and>
        view s' = (view s)(i \<mapsto> dict_of (apply_update st kwargs now o1))"
      show ?thesis
        by (rule changes_write [where ?o1.0 = o1 and ?o2.0 = "apply_update st kwargs now o1"])
           (use legal o1 Q apply_update_stamped in \<open>blast+\<close>)
    qed (rule changes_same)
    then show ?thesis by (simp add: run)
  qed
qed (simp add: changes_def)

lemma update_stores:
  assumes w: "engine_world dp view" and "book_ok view s" and up: "update_order_status dp cbs now i st kwargs s = (Inr u, s')"
  shows "\<exists>o2. view s' i = Some (dict_of o2) \<and> order_stamped o2 \<and> o_status o2 = st"
proof (cases "view s i")
  case None
  then show ?thesis using update_missing [OF w None, of cbs now st kwargs] up by auto
next
  case (Some d)
  then obtain o1 where o1: "order_stamped o1" "view s i = Some (dict_of o1)"
    using assms(2) unfolding book_ok_def by blast
  then show ?thesis using update_cases [OF w o1(2,1), of cbs now st kwargs] up apply_update_stamped [OF o1(1)] by auto
qed

lemma changes_refl [simp]: "changes view i Q s s"
  by (simp add: changes_same)

lemma changes_if: "(b \<Longrightarrow> changes view i Q s (snd (m s))) \<Longrightarrow> (\<not> b \<Longrightarrow> changes view i Q s (snd (n s))) \<Longrightarrow>
    changes view i Q s (snd ((if b then m else n) s))"
  by simp

lemma changesI: "(book_ok view s \<Longrightarrow> changes view i Q s s') \<Longrightarrow> changes view i Q s s'"
  by (simp add: changes_def)

lemma emit_changes: "engine_world dp view \<Longrightarrow> changes view i Q s (snd (emit dp cbs ev d s))"
  using emit_view [of dp view cbs ev d s] by (auto intro: changes_same)

lemma quiet_changes:
  assumes "engine_world dp view"
  shows "changes view i Q s (snd (rp_get_orders dp a st s))" "changes view i Q s (snd (cn_get_account_info dp s))"
    "changes view i Q s (snd (cn_get_positions dp y s))" "changes view i Q s (snd (cn_execute_order dp d s))"
    "changes view i Q s (snd (cn_cancel_order dp k s))" "changes view i Q s (snd (rk_pre_trade_check dp d a' ps s))"
  using world_quiet [OF assms] by (auto intro!: changes_same)

lemma io_basic_state [simp]:
  "snd (io_return a s) = s" "snd (io_raise e s) = s" "snd (io_lift r s) = s" "snd (io_get g s) = s"
  by (simp_all add: io_simps)

lemma same_but_refl [simp]: "same_but N o1 o1"
  by (simp add: same_but_def)

lemma same_but_trans: "same_but N o1 o2 \<Longrightarrow> same_but N o2 o3 \<Longrightarrow> same_but N o1 o3"
  by (simp add: same_but_def)

lemma same_but_mono: "same_but N o1 o2 \<Longrightarrow> N \<subseteq> N' \<Longrightarrow> same_but N' o1 o2"
  unfolding same_but_def by blast

text \<open>An update leaves alone the entries that it does not name.\<close>

lemma same_but_update:
  assumes "order_stamped o1" and "fst ` set (update_entries st kwargs now) \<subseteq> N"
  shows "same_but N o1 (apply_update st kwargs now o1)"
proof -
  have "entries_from (set (update_entries st kwargs now)) o1 (apply_update st kwargs now o1)"
    by (rule update_entries_from [OF assms(1) subset_refl])
  then show ?thesis using assms(2) unfolding same_but_def entries_from_def by (force simp: image_subset_iff)
qed

lemma evolves_refl [simp]: "evolves q o1 o1"
  by (simp add: evolves_def)

lemma evolves_trans:
  assumes "evolves q o1 o2" and "evolves q o2 o3"
  shows "evolves q o1 o3"
proof -
  have final: "o_status o3 = FILLED" if "o_status o2 = FILLED"
    using that assms(2) by (auto simp: evolves_def less_eq_order_status_def)
  have "same_but submission_names o1 o3" using assms by (auto simp: evolves_def intro: same_but_trans)
  moreover have "o_status o1 \<le> o_status o3" using assms by (auto simp: evolves_def)
  ultimately show ?thesis using assms final unfolding evolves_def by auto
qed

lemma submit_moves_transp: "transp (submit_moves o')"
proof (rule transpI)
  fix o1 o2 o3 assume a: "submit_moves o' o1 o2" and b: "submit_moves o' o2 o3"
  have "o_status o1 \<le> VALIDATED" if "evolves (o_quantity o') o1 o2" "o_status o2 \<le> VALIDATED"
    using that order_trans [of "o_status o1" "o_status o2" VALIDATED] by (simp add: evolves_def)
  with a b show "submit_moves o' o1 o3"
    unfolding submit_moves_def by (auto intro: evolves_trans)
qed

lemma cancel_moves_transp: "transp cancel_moves"
proof (rule transpI)
  fix o1 o2 o3 assume a: "cancel_moves o1 o2" and "cancel_moves o2 o3"
  then obtain t u where "o2 = apply_update CANCELED [] t o1" "o3 = apply_update CANCELED [] u o2"
    unfolding cancel_moves_def by blast
  then have "o3 = apply_update CANCELED [] u o1" by (simp add: apply_update_def)
  then show "cancel_moves o1 o3" using a unfolding cancel_moves_def by blast
qed

lemma filled_quantity_update:
  assumes "\<And>q. Filled_quantity q \<notin> set kwargs"
  shows "o_filled_quantity (apply_update st kwargs now o1) = o_filled_quantity o1"
proof -
  have "o_filled_quantity (fold set_attr kwargs x) = o_filled_quantity x" for x
    using assms
  proof (induction kwargs arbitrary: x)
    case (Cons a kwargs)
    then show ?case by (cases a) auto
  qed simp
  then show ?thesis by (simp add: apply_update_def)
qed

text \<open>The updates that a submission makes.\<close>

lemma submit_update:
  assumes "engine_world dp view" and "st \<in> {VALIDATED, REJECTED, SUBMITTED}" and "\<And>q. Filled_quantity q \<notin> set kwargs"
    and "fst ` set (update_entries st kwargs now) \<subseteq> submission_names"
  shows "changes view i (submit_moves o') s (snd (update_order_status dp cbs now i st kwargs s))"
proof (rule update_changes [OF assms(1)])
  fix o1 assume o1: "order_stamped o1" and legal: "st = o_status o1 \<or> st \<in> set (valid_transitions (o_status o1))"
  have "evolves (o_quantity o') o1 (apply_update st kwargs now o1)"
    using assms(2) legal_status_le [OF legal] filled_quantity_update [OF assms(3)] same_but_update [OF o1 assms(4)]
    by (auto simp: evolves_def)
  then show "submit_moves o' o1 (apply_update st kwargs now o1)" by (simp add: submit_moves_def)
qed

lemma names_of_updates:
  "fst ` set (update_entries st [] now) \<subseteq> submission_names"
  "fst ` set (update_entries st [Rejection_reason v] now) \<subseteq> submission_names"
  "fst ` set (update_entries st [Opened_at t] now) \<subseteq> submission_names"
  "fst ` set (update_entries st [Filled_quantity q, Closed_at t] now) \<subseteq> submission_names"
  by (simp_all add: update_entries_def map_filter_simps submission_names_def)

lemma submit_fill:
  assumes "engine_world dp view"
  shows "changes view i (submit_moves o') s
    (snd (update_order_status dp cbs now i FILLED [Filled_quantity (o_quantity o'), Closed_at t] s))"
proof (rule update_changes [OF assms])
  fix o1 assume o1: "order_stamped o1" and legal: "FILLED = o_status o1 \<or> FILLED \<in> set (valid_transitions (o_status o1))"
  have "evolves (o_quantity o') o1 (apply_update FILLED [Filled_quantity (o_quantity o'), Closed_at t] now o1)"
    using legal_status_le [OF legal] same_but_update [OF o1 names_of_updates(4)]
    by (auto simp: evolves_def apply_update_def)
  then show "submit_moves o' o1 (apply_update FILLED [Filled_quantity (o_quantity o'), Closed_at t] now o1)"
    by (simp add: submit_moves_def)
qed

text \<open>Saving the caller's pending order over the validated one.\<close>

lemma save_changes:
  assumes w: "engine_world dp view" and o': "order_stamped o'" "o_status o' = PENDING" "to_dict o' = Inr d"
    and stored: "view s (o_id o') = Some (dict_of o2)" "order_stamped o2" "o_status o2 = VALIDATED"
  shows "changes view (o_id o') (submit_moves o') s (snd (rp_save_order dp d s))"
proof -
  have d: "d = dict_of o'" "pyget d ''id'' = o_id o'"
    using o'(3) by (auto simp: dict_of_def to_dict_def order_entries_def split: sum.splits)
  have Q: "submit_moves o' o2 o'" using o'(2) stored(3) by (simp add: submit_moves_def)
  from world_save [OF w, of d s] show ?thesis
  proof (cases "view (snd (rp_save_order dp d s)) = view s")
    case False
    with world_save [OF w, of d s] d have "view (snd (rp_save_order dp d s)) = (view s)(o_id o' \<mapsto> dict_of o')" by auto
    then show ?thesis using changes_write [of view s "o_id o'" o2 _ o' "submit_moves o'"] stored(1,2) o'(1) Q by blast
  qed (rule changes_same)
qed

lemma response_changes:
  assumes w: "engine_world dp view"
  shows "changes view (o_id o') (submit_moves o') s (snd (record_response dp cbs clk o' d resp s))"
proof -
  note rules = changes_bind [OF _ _ submit_moves_transp] submit_update [OF w] submit_fill [OF w] emit_changes [OF w] names_of_updates
  show ?thesis
    unfolding record_response_def
    by (auto intro!: rules changes_if split: pyval.split)
qed

lemma approved_changes:
  assumes w: "engine_world dp view" and o': "order_stamped o'" "o_status o' = PENDING" "to_dict o' = Inr d"
  shows "changes view (o_id o') (submit_moves o') s (snd (io_bind (update_order_status dp cbs (clk 1) (o_id o') VALIDATED []) (\<lambda>_.
    io_bind (rp_save_order dp d) (\<lambda>_. io_bind (emit dp cbs ''order_created'' d) (\<lambda>_.
    io_bind (cn_execute_order dp d) (record_response dp cbs clk o' d)))) s))"
proof (rule changesI)
  assume ok: "book_ok view s"
  note bind = changes_bind [OF _ _ submit_moves_transp]
  show ?thesis
  proof (intro bind submit_update [OF w] names_of_updates)
    fix u s1 assume "update_order_status dp cbs (clk 1) (o_id o') VALIDATED [] s = (Inr u, s1)"
    from update_stores [OF w ok this] obtain o2 where "view s1 (o_id o') = Some (dict_of o2)" "order_stamped o2" "o_status o2 = VALIDATED"
      by blast
    then show "changes view (o_id o') (submit_moves o') s1 (snd (rp_save_order dp d s1))" by (rule save_changes [OF w o'])
  qed (simp_all add: emit_changes [OF w] quiet_changes [OF w] response_changes [OF w])
qed

lemma submit_changes:
  assumes w: "engine_world dp view" and o': "order_stamped o'"
  shows "changes view (o_id o') (submit_moves o') s (snd (submit_order dp cbs clk o' s))"
proof (cases "o_status o' = PENDING")
  case True
  note d = to_dict_stamped [OF o']
  note rules = changes_bind [OF _ _ submit_moves_transp] submit_update [OF w] names_of_updates approved_changes [OF w o' True d]
  show ?thesis
    unfolding submit_order_def d
    by (auto intro!: rules changes_if quiet_changes [OF w] simp: io_lift_simps True)
qed (simp add: submit_order_def)

lemma cancel_changes:
  assumes w: "engine_world dp view"
  shows "changes view i cancel_moves s (snd (cancel_order dp cbs clk i s))"
proof -
  have up: "changes view i cancel_moves s (snd (update_order_status dp cbs now i CANCELED [] s))" for now s
    by (rule update_changes [OF w]) (auto simp: cancel_moves_def dest!: legal_status_le)
  have get: "changes view i cancel_moves s (snd (get_order dp now i s))" for now s
    by (rule changes_same) (rule get_order_view [OF w])
  note rules = changes_bind [OF _ _ cancel_moves_transp] up get emit_changes [OF w] quiet_changes [OF w]
  show ?thesis
    unfolding cancel_order_def by (auto intro!: rules changes_if split: option.split)
qed

lemma hydrate_all_state: "snd (io_map (\<lambda>r. io_lift (hydrate now r)) rows t) = t"
proof (induction rows)
  case (Cons r rows)
  then show ?case by (auto simp: io_bind_def io_lift_def io_return_def split: sum.split prod.split)
qed (simp add: io_simps)

lemma get_orders_view:
  assumes w: "engine_world dp view"
  shows "view (snd (get_orders dp now acc st s)) = view s"
proof -
  let ?fetch = "rp_get_orders dp acc (case st of None \<Rightarrow> PNone | Some x \<Rightarrow> PStr (status_value x))"
  have "snd (get_orders dp now acc st s) = snd (?fetch s)"
    by (cases "?fetch s") (auto simp: get_orders_def io_bind_def hydrate_all_state split: sum.split)
  then show ?thesis by (simp add: world_quiet(1) [OF w])
qed

definition engine_inv :: "'s exec_deps \<Rightarrow> ('s \<Rightarrow> pyval \<Rightarrow> pydict option) \<Rightarrow> 's engine_state \<Rightarrow> bool" where
  "engine_inv dp view st = (engine_world dp view \<and> book_ok view (snd st))"

text \<open>A submitted order has time stamps, as the annotations of the class say.\<close>

fun op_typed :: "engine_op \<Rightarrow> bool" where
  "op_typed (Submit_Order o' clk) = order_stamped o'"
| "op_typed _ = True"

lemma engine_step_change:
  assumes "engine_inv dp view st" and "op_typed x"
  shows "engine_inv dp view (engine_step dp st x) \<and> book_step (book view (snd st)) x (book view (snd (engine_step dp st x)))"
proof -
  obtain cbs s where st: "st = (cbs, s)" by fastforce
  have w: "engine_world dp view" and ok: "book_ok view s" using assms by (simp_all add: engine_inv_def st)
  have keep: "engine_inv dp view (cbs, s')" "book view s' = book view s" if "view s' = view s" for s'
    using that assms book_ok_cong [of view s' s] book_cong [of view s' s] by (auto simp: engine_inv_def st)
  show ?thesis
  proof (cases x)
    case (Submit_Order o' clk)
    then show ?thesis using submit_changes [OF w, of o' s cbs clk] ok w assms(2) by (simp add: st engine_inv_def changes_def)
  next
    case (Update_Status i ns kwargs now)
    have "changes view i (update_moves ns kwargs now) s (snd (update_order_status dp cbs now i ns kwargs s))"
      by (rule update_changes [OF w]) (simp add: update_moves_def)
    then show ?thesis using Update_Status ok w by (simp add: st engine_inv_def changes_def)
  next
    case (Cancel_Order i clk)
    then show ?thesis using cancel_changes [OF w, of i s cbs clk] ok w by (simp add: st engine_inv_def changes_def)
  next
    case (Get_Order i now)
    then show ?thesis using keep [OF get_order_view [OF w]] by (simp add: st)
  next
    case (Get_Orders acc ns now)
    then show ?thesis using keep [OF get_orders_view [OF w]] by (simp add: st)
  qed (use assms in \<open>simp_all add: st engine_inv_def\<close>)
qed

interpretation engine: simulation "engine_step dp" op_typed "engine_inv dp view" "\<lambda>st. book view (snd st)" book_step
  for dp view
  by unfold_locales (use engine_step_change in blast)+

subsection \<open>What runs of the book keep\<close>

text \<open>No order appears or disappears.\<close>

lemma book_step_dom: "book_step b x b' \<Longrightarrow> dom b' = dom b"
  by (cases x) (auto simp: book_change_def insert_absorb dom_def split: if_splits)

lemma book_run_dom: "spec_run book_step b xs b' \<Longrightarrow> dom b' = dom b"
  by (induction rule: spec_run.induct) (simp_all add: book_step_dom)

text \<open>The entries of the order \<open>i\<close> that an update or a cancellation names.\<close>

fun named_entries :: "pyval \<Rightarrow> engine_op \<Rightarrow> string set" where
  "named_entries i (Update_Status k st kwargs now) = (if k = i then fst ` set (update_entries st kwargs now) else {})"
| "named_entries i (Cancel_Order k clk) = (if k = i then {''status'', ''updated_at''} else {})"
| "named_entries i _ = {}"

fun submits :: "pyval \<Rightarrow> engine_op \<Rightarrow> bool" where
  "submits i (Submit_Order o' clk) = (o_id o' = i)"
| "submits i _ = False"

definition order_moves :: "string set \<Rightarrow> order \<Rightarrow> order \<Rightarrow> bool" where
  "order_moves N o1 o2 = (same_but N o1 o2 \<and> o_status o1 \<le> o_status o2)"

lemma order_moves_refl [simp]: "order_moves N o1 o1"
  by (simp add: order_moves_def)

lemma order_moves_trans: "order_moves N o1 o2 \<Longrightarrow> order_moves N' o2 o3 \<Longrightarrow> order_moves (N \<union> N') o1 o3"
  unfolding order_moves_def
  by (blast intro: same_but_trans [of "N \<union> N'"] same_but_mono [of N] same_but_mono [of N'] order_trans)

lemma book_step_moves:
  assumes "book_step b x b'" and "\<not> submits i x" and stamped: "\<And>o1. b i = Some o1 \<Longrightarrow> order_stamped o1"
  shows "rel_option (order_moves (named_entries i x)) (b i) (b' i)"
proof -
  have change: "rel_option (order_moves N) (c i) (c' i)"
    if "book_change k Q c c'" "\<And>o1 o2. k = i \<Longrightarrow> c i = Some o1 \<Longrightarrow> Q o1 o2 \<Longrightarrow> order_moves N o1 o2" for k Q c c' N
    using that option.rel_refl [of "order_moves N" "c i"] by (cases "k = i") (auto simp: book_change_def)
  show ?thesis
  proof (cases x)
    case (Submit_Order o' clk)
    with assms(1,2) have "book_change (o_id o') (submit_moves o') b b'" "o_id o' \<noteq> i" by simp_all
    then have "rel_option (order_moves {}) (b i) (b' i)" using change by blast
    then show ?thesis using Submit_Order by simp
  next
    case (Update_Status k st kwargs now)
    have "order_moves (named_entries i x) o1 o2" if "k = i" "b i = Some o1" "update_moves st kwargs now o1 o2" for o1 o2
      using that same_but_update [OF stamped [OF that(2)]] legal_status_le [of st o1] Update_Status
      by (auto simp: update_moves_def order_moves_def)
    then show ?thesis using change assms(1) Update_Status by simp
  next
    case (Cancel_Order k clk)
    have "order_moves (named_entries i x) o1 o2" if "k = i" "b i = Some o1" "cancel_moves o1 o2" for o1 o2
      using that same_but_update [OF stamped [OF that(2)], of CANCELED "[]"] Cancel_Order
      by (auto simp: cancel_moves_def order_moves_def update_entries_def map_filter_simps)
    then show ?thesis using change assms(1) Cancel_Order by simp
  qed (use assms option.rel_refl [of "order_moves {}" "b i"] in auto)
qed

lemma engine_run_moves:
  assumes "engine_inv dp view st" and "list_all op_typed xs" and "\<not> list_ex (submits i) xs"
  shows "rel_option (order_moves (\<Union>x\<in>set xs. named_entries i x)) (book view (snd st) i) (book view (snd (foldl (engine_step dp) st xs)) i)"
  using assms
proof (induction xs arbitrary: st)
  case Nil
  show ?case using option.rel_refl [of "order_moves {}"] by simp
next
  case (Cons x xs)
  let ?st = "engine_step dp st x"
  have "order_stamped o1" if "book view (snd st) i = Some o1" for o1
    using that Cons.prems(1) unfolding engine_inv_def book_ok_def
    by (auto simp: book_def hydrate_dict_of split: option.splits sum.splits dest!: spec [of _ i])
  moreover have step: "engine_inv dp view ?st" "book_step (book view (snd st)) x (book view (snd ?st))"
    using engine_step_change [OF Cons.prems(1), of x] Cons.prems(2) by simp_all
  ultimately have "rel_option (order_moves (named_entries i x)) (book view (snd st) i) (book view (snd ?st) i)"
    using book_step_moves Cons.prems(3) by simp
  moreover have "rel_option (order_moves (\<Union>x\<in>set xs. named_entries i x)) (book view (snd ?st) i) (book view (snd (foldl (engine_step dp) ?st xs)) i)"
    using Cons.IH [OF step(1)] Cons.prems(2,3) by simp
  ultimately show ?case
    by (auto simp: rel_option_iff intro: order_moves_trans split: option.splits)
qed

text \<open>
  C8. The engine implements a book of orders. Whatever is submitted, updated and canceled in whatever order, and
  whichever method of a collaborator raises at whatever time, with the repository keeping or overwriting what it
  saves: every stored entry remains the dictionary of an order; the calls are a run of the book, in which each call changes
  at most the order it names, by a submission, cancellation or update as specified; no order appears
  or disappears; and an order that is not submitted keeps every entry that no call on it names, and its
  status only goes along the transition table.
\<close>

theorem engine_refines_order_book:
  assumes "engine_world dp view" and "book_ok view s" and "list_all op_typed xs"
  shows "case foldl (engine_step dp) (cbs, s) xs of (cbs', s') \<Rightarrow>
    book_ok view s' \<and> spec_run book_step (book view s) xs (book view s') \<and> dom (book view s') = dom (book view s) \<and>
    (\<forall>i. list_ex (submits i) xs \<or> rel_option (\<lambda>o1 o2. same_but (\<Union>x\<in>set xs. named_entries i x) o1 o2 \<and> o_status o1 \<le> o_status o2)
       (book view s i) (book view s' i))"
proof -
  obtain cbs' s' where run: "foldl (engine_step dp) (cbs, s) xs = (cbs', s')" by fastforce
  have inv: "engine_inv dp view (cbs, s)" using assms by (simp add: engine_inv_def)
  have "engine_inv dp view (cbs', s')" using engine.run_inv [OF inv assms(3)] run by simp
  moreover have spec: "spec_run book_step (book view s) xs (book view s')"
    using engine.run_spec [OF inv assms(3)] run by simp
  moreover have "list_ex (submits i) xs \<or> rel_option (\<lambda>o1 o2. same_but (\<Union>x\<in>set xs. named_entries i x) o1 o2 \<and> o_status o1 \<le> o_status o2)
      (book view s i) (book view s' i)" for i
    using engine_run_moves [OF inv assms(3), of i] run unfolding order_moves_def by auto
  ultimately show ?thesis using book_run_dom [OF spec] by (simp add: run engine_inv_def)
qed

text \<open>
  The order of the engine's test, on the repository of the test: it is submitted, which fails and leaves it pending,
  then its price is set, then it is canceled.
\<close>

lemma test_world: "engine_world (test_deps noop_cb) map_of"
  by (auto simp: engine_world_def test_deps_def io_simps key_def dict_get_def fun_eq_iff split: option.split)

theorem engine_refines_order_book_witness:
  "\<exists>cbs' db' o2. foldl (engine_step (test_deps noop_cb)) (callbacks_init, [(PStr ''1'', dict_of demo_o), (PStr ''2'', dict_of demo_o)])
      [On_Event ''order_filled'' 0, Submit_Order demo_o (\<lambda>n. 10), Update_Status (PStr ''2'') VALIDATED [Price (PFloat 2)] 11,
       Cancel_Order (PStr ''2'') (\<lambda>n. 12)] = (cbs', db') \<and>
    book map_of db' (PStr ''2'') = Some o2 \<and> pyget (dict_of o2) ''symbol'' = PStr ''EURUSD'' \<and> PENDING \<le> o_status o2"
proof -
  let ?db = "[(PStr ''1'', dict_of demo_o), (PStr ''2'', dict_of demo_o)]"
  let ?xs = "[On_Event ''order_filled'' 0, Submit_Order demo_o (\<lambda>n. 10), Update_Status (PStr ''2'') VALIDATED [Price (PFloat 2)] 11,
       Cancel_Order (PStr ''2'') (\<lambda>n. 12)]"
  have ok: "book_ok map_of ?db" using demo_o_stamped by (auto simp: book_ok_def split: if_splits)
  have stored: "book map_of ?db (PStr ''2'') = Some demo_o" by (rule book_stored) (simp_all add: demo_o_stamped)
  have typed: "list_all op_typed ?xs" using demo_o_stamped by simp
  obtain cbs' db' where run: "foldl (engine_step (test_deps noop_cb)) (callbacks_init, ?db) ?xs = (cbs', db')"
    using prod.exhaust by blast
  have other: "\<not> list_ex (submits (PStr ''2'')) ?xs" by (simp add: demo_o_def)
  with engine_refines_order_book [where cbs = callbacks_init, OF test_world ok typed]
  have "rel_option (\<lambda>o1 o2. same_but (\<Union>x\<in>set ?xs. named_entries (PStr ''2'') x) o1 o2 \<and> o_status o1 \<le> o_status o2)
      (book map_of ?db (PStr ''2'')) (book map_of db' (PStr ''2''))"
    unfolding run prod.case by blast
  then obtain o2 where o2: "book map_of db' (PStr ''2'') = Some o2"
    and same: "same_but (\<Union>x\<in>set ?xs. named_entries (PStr ''2'') x) demo_o o2" and le: "o_status demo_o \<le> o_status o2"
    unfolding stored option_rel_Some1 by blast
  have "''symbol'' \<notin> (\<Union>x\<in>set ?xs. named_entries (PStr ''2'') x)" by (simp add: update_entries_def map_filter_simps)
  then have "pyget (dict_of o2) ''symbol'' = pyget (dict_of demo_o) ''symbol''" using same unfolding same_but_def by blast
  also have "\<dots> = PStr ''EURUSD''" by (simp add: dict_of_def to_dict_def iso_entry_def order_entries_def demo_o_def)
  finally show ?thesis using run o2 le by (auto simp: demo_o_def)
qed

end
