(* ===== verification/Metrics.thy ===== *)
theory Metrics
  imports Api_Routes
begin

text \<open>
  What the API application counts (\<^verbatim>\<open>app/core/observability.py\<close>, \<^verbatim>\<open>app/core/telemetry.py\<close> and the
  increments in the routes), in how many processes (\<^verbatim>\<open>app/main.py\<close>), and the set-up of the tracing. The
  clients of Prometheus and OpenTelemetry are parameters.
\<close>

subsection \<open>Metrics\<close>

datatype metric_kind = Counter | Gauge | Histogram

record metric =
  me_kind :: metric_kind
  me_name :: string
  me_labels :: "string list"

definition observability_metrics :: "metric list" where
  "observability_metrics =
     [\<lparr>me_kind = Counter, me_name = ''mtrader_auth_requests_total'', me_labels = [''route'', ''status'']\<rparr>,
      \<lparr>me_kind = Counter, me_name = ''mtrader_vault_ops_total'', me_labels = [''operation'', ''status'']\<rparr>,
      \<lparr>me_kind = Histogram, me_name = ''mtrader_request_latency_seconds'', me_labels = [''route'']\<rparr>]"

definition telemetry_metrics :: "metric list" where
  "telemetry_metrics =
     [\<lparr>me_kind = Histogram, me_name = ''order_processing_duration_seconds'', me_labels = []\<rparr>,
      \<lparr>me_kind = Counter, me_name = ''order_status_changes_total'', me_labels = [''status'']\<rparr>,
      \<lparr>me_kind = Gauge, me_name = ''mt5_connection_status'', me_labels = []\<rparr>,
      \<lparr>me_kind = Counter, me_name = ''risk_incidents_total'', me_labels = [''rule'']\<rparr>,
      \<lparr>me_kind = Gauge, me_name = ''backtest_jobs_running'', me_labels = []\<rparr>]"

text \<open>A series is a metric with the values of its labels. \<open>mx_inc\<close> is \<open>labels(...).inc()\<close>.\<close>

type_synonym series = "string \<times> (string \<times> string) list"

record 'm metrics_api =
  mx_inc :: "series \<Rightarrow> ('m, unit) io"

definition counts :: "'m metrics_api \<Rightarrow> ('m \<Rightarrow> series \<Rightarrow> nat) \<Rightarrow> bool" where
  "counts mx value = (\<forall>c w. \<exists>w'. mx_inc mx c w = (Inr (), w') \<and> value w' = (value w)(c := Suc (value w c)))"

subsection \<open>Counted routes\<close>

text \<open>The counter is incremented after the service has answered; the tables and the metrics are apart.\<close>

definition on_tables :: "(tables, 'a) io \<Rightarrow> (tables \<times> 'm, 'a) io" where
  "on_tables m = io_zoom fst (\<lambda>t (_, w). (t, w)) m"

definition on_metrics :: "('m, 'a) io \<Rightarrow> (tables \<times> 'm, 'a) io" where
  "on_metrics m = io_zoom snd (\<lambda>w (t, _). (t, w)) m"

definition counted :: "'m metrics_api \<Rightarrow> series \<Rightarrow> (tables, 'a) io \<Rightarrow> (tables \<times> 'm, 'a) io" where
  "counted mx c m = io_bind (on_tables m) (\<lambda>a. io_bind (on_metrics (mx_inc mx c)) (\<lambda>_. io_return a))"

definition auth_series :: "string \<Rightarrow> series" where
  "auth_series route = (''mtrader_auth_requests_total'', [(''route'', route), (''status'', ''ok'')])"

definition vault_series :: "string \<Rightarrow> series" where
  "vault_series operation = (''mtrader_vault_ops_total'', [(''operation'', operation), (''status'', ''ok'')])"

definition register_counted :: "'m metrics_api \<Rightarrow> (string \<Rightarrow> bool) \<Rightarrow> auth_lib \<Rightarrow> datetime \<Rightarrow> string \<Rightarrow> string \<Rightarrow> (tables \<times> 'm, user_out) io" where
  "register_counted mx is_email lib now email password = counted mx (auth_series ''register'') (register_route is_email lib now email password)"

definition login_counted :: "'m metrics_api \<Rightarrow> (string \<Rightarrow> bool) \<Rightarrow> auth_lib \<Rightarrow> datetime \<Rightarrow> string \<Rightarrow> string \<Rightarrow> string \<Rightarrow> string option
    \<Rightarrow> (tables \<times> 'm, auth_tokens) io" where
  "login_counted mx is_email lib now email password fingerprint client =
     counted mx (auth_series ''login'') (login_route is_email lib now email password fingerprint client)"

definition refresh_counted :: "'m metrics_api \<Rightarrow> auth_lib \<Rightarrow> datetime \<Rightarrow> string \<Rightarrow> string \<Rightarrow> string option \<Rightarrow> (tables \<times> 'm, auth_tokens) io" where
  "refresh_counted mx lib now token fingerprint client = counted mx (auth_series ''refresh'') (refresh_route lib now token fingerprint client)"

definition put_key_counted :: "'m metrics_api \<Rightarrow> vault_env \<Rightarrow> random_bytes \<Rightarrow> datetime \<Rightarrow> string \<Rightarrow> string \<Rightarrow> string
    \<Rightarrow> (tables \<times> 'm, vault_key_view) io" where
  "put_key_counted mx env rb now token provider api_key = counted mx (vault_series ''upsert'') (put_key_route env rb now token provider api_key)"

definition remove_key_counted :: "'m metrics_api \<Rightarrow> vault_env \<Rightarrow> datetime \<Rightarrow> string \<Rightarrow> int \<Rightarrow> (tables \<times> 'm, unit) io" where
  "remove_key_counted mx env now token key_id = counted mx (vault_series ''delete'') (remove_key_route env now token key_id)"

text \<open>A request on one process: what it does to the tables and to the metrics of the process.\<close>

fun metered_step :: "'m metrics_api \<Rightarrow> (string \<Rightarrow> bool) \<Rightarrow> tables \<times> 'm \<Rightarrow> api_request \<Rightarrow> tables \<times> 'm" where
  "metered_step mx is_email s (RegisterRequest lib now email password) = snd (register_counted mx is_email lib now email password s)"
| "metered_step mx is_email s (LoginRequest lib now email password fingerprint client) =
     snd (login_counted mx is_email lib now email password fingerprint client s)"
| "metered_step mx is_email s (RefreshRequest lib now token fingerprint client) = snd (refresh_counted mx lib now token fingerprint client s)"
| "metered_step mx is_email s (GetKeys env token) = snd (on_tables (get_keys_route env token) s)"
| "metered_step mx is_email s (PutKey env rb now token provider api_key) = snd (put_key_counted mx env rb now token provider api_key s)"
| "metered_step mx is_email s (RemoveKey env now token key_id) = snd (remove_key_counted mx env now token key_id s)"
| "metered_step mx is_email s (TestKey env now token provider) = snd (on_tables (test_key_route env now token provider) s)"

subsection \<open>Processes\<close>

text \<open>The processes that \<open>uvicorn.run\<close> starts; \<open>os.cpu_count()\<close> may be unknown.\<close>

definition worker_count :: "int option \<Rightarrow> int" where
  "worker_count cpus = max 2 ((case cpus of None \<Rightarrow> 2 | Some n \<Rightarrow> if n = 0 then 2 else n) div 2)"

definition serve_options :: "settings_env \<Rightarrow> int option \<Rightarrow> pydict" where
  "serve_options s cpus =
     [(''app'', PStr ''app.main:app''), (''host'', PStr ''0.0.0.0''), (''port'', PInt (se_app_port s)), (''workers'', PInt (worker_count cpus)),
      (''proxy_headers'', PBool True), (''limit_concurrency'', PInt 2000), (''backlog'', PInt 2048), (''timeout_keep_alive'', PInt 20)]"

lemma several_workers: "2 \<le> worker_count cpus"
  by (simp add: worker_count_def)

text \<open>The tables are shared, every process has metrics of its own; a request comes with the process that serves it.\<close>

definition worker_step :: "'m metrics_api \<Rightarrow> (string \<Rightarrow> bool) \<Rightarrow> tables \<times> 'm list \<Rightarrow> nat \<times> api_request \<Rightarrow> tables \<times> 'm list" where
  "worker_step mx is_email = (\<lambda>(t, ws) (j, x). case metered_step mx is_email (t, ws ! j) x of (t', w') \<Rightarrow> (t', ws[j := w']))"

subsection \<open>What is counted\<close>

fun request_series :: "api_request \<Rightarrow> series option" where
  "request_series (RegisterRequest _ _ _ _) = Some (auth_series ''register'')"
| "request_series (LoginRequest _ _ _ _ _ _) = Some (auth_series ''login'')"
| "request_series (RefreshRequest _ _ _ _ _) = Some (auth_series ''refresh'')"
| "request_series (PutKey _ _ _ _ _ _) = Some (vault_series ''upsert'')"
| "request_series (RemoveKey _ _ _ _) = Some (vault_series ''delete'')"
| "request_series _ = None"

definition answers :: "('s, 'a) io \<Rightarrow> 's \<Rightarrow> bool" where
  "answers m s = (case fst (m s) of Inl _ \<Rightarrow> False | Inr _ \<Rightarrow> True)"

fun answered :: "(string \<Rightarrow> bool) \<Rightarrow> tables \<Rightarrow> api_request \<Rightarrow> bool" where
  "answered is_email t (RegisterRequest lib now email password) = answers (register_route is_email lib now email password) t"
| "answered is_email t (LoginRequest lib now email password fingerprint client) =
     answers (login_route is_email lib now email password fingerprint client) t"
| "answered is_email t (RefreshRequest lib now token fingerprint client) = answers (refresh_route lib now token fingerprint client) t"
| "answered is_email t (GetKeys env token) = answers (get_keys_route env token) t"
| "answered is_email t (PutKey env rb now token provider api_key) = answers (put_key_route env rb now token provider api_key) t"
| "answered is_email t (RemoveKey env now token key_id) = answers (remove_key_route env now token key_id) t"
| "answered is_email t (TestKey env now token provider) = answers (test_key_route env now token provider) t"

text \<open>The requests that process \<open>i\<close> answered and that belong to the series \<open>c\<close>, of a run from the tables \<open>t\<close>.\<close>

fun answered_by :: "(string \<Rightarrow> bool) \<Rightarrow> nat \<Rightarrow> series \<Rightarrow> tables \<Rightarrow> (nat \<times> api_request) list \<Rightarrow> nat" where
  "answered_by is_email i c t [] = 0"
| "answered_by is_email i c t ((j, x) # xs) =
     (if j = i \<and> request_series x = Some c \<and> answered is_email t x then 1 else 0) + answered_by is_email i c (api_step is_email t x) xs"

lemma on_tables_run: "on_tables m (t, w) = (fst (m t), (snd (m t), w))"
  by (simp add: on_tables_def io_zoom_def split: prod.splits)

lemma counted_run:
  assumes "counts mx value"
  shows "\<exists>w'. snd (counted mx c m (t, w)) = (snd (m t), w') \<and>
    value w' = (if answers m t then (value w)(c := Suc (value w c)) else value w)"
proof -
  obtain w' where "mx_inc mx c w = (Inr (), w')" "value w' = (value w)(c := Suc (value w c))"
    using assms unfolding counts_def by blast
  then show ?thesis
    by (cases "fst (m t)") (auto simp: counted_def answers_def on_tables_run on_metrics_def io_bind_def io_zoom_def io_return_def)
qed

lemma metered_run:
  assumes "counts mx value"
  shows "\<exists>w'. metered_step mx is_email (t, w) x = (api_step is_email t x, w') \<and>
    value w' = (case request_series x of None \<Rightarrow> value w
      | Some c \<Rightarrow> if answered is_email t x then (value w)(c := Suc (value w c)) else value w)"
  by (cases x) (auto simp: api_step_def register_counted_def login_counted_def refresh_counted_def put_key_counted_def
      remove_key_counted_def on_tables_run intro: counted_run [OF assms] split del: if_split)

lemma worker_run:
  assumes law: "counts mx value"
  shows "list_all (\<lambda>(j, x). j < length ws) xs \<Longrightarrow>
    case foldl (worker_step mx is_email) (t, ws) xs of (t', ws') \<Rightarrow>
      t' = foldl (api_step is_email) t (map snd xs) \<and> length ws' = length ws \<and>
      (\<forall>i c. i < length ws \<longrightarrow> value (ws' ! i) c = value (ws ! i) c + answered_by is_email i c t xs)"
proof (induction xs arbitrary: t ws)
  case (Cons jx xs)
  obtain j x where jx: "jx = (j, x)" by fastforce
  have j: "j < length ws" using Cons.prems jx by simp
  obtain w' where w': "metered_step mx is_email (t, ws ! j) x = (api_step is_email t x, w')"
      "value w' = (case request_series x of None \<Rightarrow> value (ws ! j)
        | Some c \<Rightarrow> if answered is_email t x then (value (ws ! j))(c := Suc (value (ws ! j) c)) else value (ws ! j))"
    using metered_run [OF law] by blast
  have step: "worker_step mx is_email (t, ws) jx = (api_step is_email t x, ws[j := w'])"
    by (simp add: worker_step_def jx w'(1))
  have one: "value (ws[j := w'] ! i) c = value (ws ! i) c + (if j = i \<and> request_series x = Some c \<and> answered is_email t x then 1 else 0)"
    if "i < length ws" for i c
    using that j w'(2) by (auto simp: nth_list_update split: option.splits)
  have "list_all (\<lambda>(k, x). k < length (ws[j := w'])) xs" using Cons.prems by (simp add: list_all_iff)
  note rest = Cons.IH [OF this, of "api_step is_email t x"]
  have "foldl (worker_step mx is_email) (t, ws) (jx # xs) = foldl (worker_step mx is_email) (api_step is_email t x, ws[j := w']) xs"
    by (simp add: step)
  then show ?case
    using rest one by (simp add: jx split: prod.splits del: split_paired_All)
qed simp

text \<open>
  C39. On every process the counters say how many requests of each kind it has answered, failures not included: whatever
  requests arrive in whatever order at whatever process, the series of a process grows by exactly the requests it
  answered; counting changes nothing else, the tables being those of the uncounted routes.
\<close>

theorem counters_are_exact:
  assumes "counts mx value" and "list_all (\<lambda>(j, x). j < length ws) xs"
  shows "case foldl (worker_step mx is_email) (t, ws) xs of (t', ws') \<Rightarrow>
    t' = foldl (api_step is_email) t (map snd xs) \<and> length ws' = length ws \<and>
    (\<forall>i c. i < length ws \<longrightarrow> value (ws' ! i) c = value (ws ! i) c + answered_by is_email i c t xs)"
  using worker_run [OF assms] .

text \<open>Two processes with counters in memory: a refresh that the second answers is not seen on the first.\<close>

definition map_metrics :: "(series \<Rightarrow> nat) metrics_api" where
  "map_metrics = \<lparr>mx_inc = \<lambda>c. io_modify (\<lambda>f. f(c := Suc (f c)))\<rparr>"

lemma map_metrics_count: "counts map_metrics (\<lambda>f. f)"
  by (simp add: counts_def map_metrics_def io_modify_def)

theorem counters_are_exact_witness:
  "case foldl (worker_step map_metrics (\<lambda>_. True)) (demo_accounts, [\<lambda>_. 0, \<lambda>_. 0])
      [(1, RefreshRequest demo_lib 500 ''old'' ''device-1'' None)] of (t', ws') \<Rightarrow>
    (ws' ! 0) (auth_series ''refresh'') = 0 \<and> (ws' ! 1) (auth_series ''refresh'') = 1"
proof -
  let ?x = "RefreshRequest demo_lib 500 ''old'' ''device-1'' None"
  obtain p t where "with_session (refresh_tokens demo_lib 500 ''old'' ''device-1'' None) demo_accounts = (Inr p, t)"
    by (rule demo_refreshed)
  then have "answered (\<lambda>_. True) demo_accounts ?x" by (simp add: answers_def refresh_route_def)
  moreover obtain t' ws' where run: "foldl (worker_step map_metrics (\<lambda>_. True)) (demo_accounts, [\<lambda>_. 0, \<lambda>_. 0]) [(1, ?x)] = (t', ws')"
    using prod.exhaust by blast
  moreover have "\<forall>i c. i < 2 \<longrightarrow> (ws' ! i) c = ([\<lambda>_. 0, \<lambda>_. 0] ! i) c + answered_by (\<lambda>_. True) i c demo_accounts [(1, ?x)]"
    using counters_are_exact [OF map_metrics_count, where ws = "[\<lambda>_. 0, \<lambda>_. 0]" and xs = "[(1, ?x)]" and t = demo_accounts
        and is_email = "\<lambda>_. True"] unfolding run by (simp del: split_paired_All foldl_Cons)
  ultimately show ?thesis unfolding run prod.case by (simp del: split_paired_All)
qed

subsection \<open>Metrics and labels fit\<close>

text \<open>The increments name declared counters with their labels, and no name is declared twice.\<close>

lemma request_series_declared:
  "request_series x = Some (name, labels) \<Longrightarrow>
     \<lparr>me_kind = Counter, me_name = name, me_labels = map fst labels\<rparr> \<in> set observability_metrics"
  by (cases x) (auto simp: observability_metrics_def auth_series_def vault_series_def)

lemma metric_names_distinct: "distinct (map me_name (observability_metrics @ telemetry_metrics))"
  by (simp add: observability_metrics_def telemetry_metrics_def)

text \<open>
  No request adds to a metric of \<open>telemetry_metrics\<close>; so what the alert rules and the canary check watch stays
  as it was declared.
\<close>

lemma telemetry_never_counted: "request_series x = Some (name, labels) \<Longrightarrow> name \<notin> set (map me_name telemetry_metrics)"
  by (cases x) (auto simp: telemetry_metrics_def auth_series_def vault_series_def)

text \<open>With the settings of the repository no operation of the vault is ever counted.\<close>

fun request_env :: "api_request \<Rightarrow> vault_env option" where
  "request_env (PutKey env _ _ _ _ _) = Some env"
| "request_env (RemoveKey env _ _ _) = Some env"
| "request_env _ = None"

lemma vault_never_counted:
  assumes "\<And>j x env. (j, x) \<in> set xs \<Longrightarrow> request_env x = Some env \<Longrightarrow> ve_attr env = settings_attr s"
  shows "answered_by is_email i (vault_series op) t xs = 0"
  using assms
proof (induction xs arbitrary: t)
  case (Cons jx xs)
  obtain j x where jx: "jx = (j, x)" by fastforce
  have rest: "answered_by is_email i (vault_series op) u xs = 0" for u
    by (rule Cons.IH) (rule Cons.prems, rule list.set_intros(2))
  have env: "ve_attr e = settings_attr s" if "request_env x = Some e" for e
    by (rule Cons.prems [OF _ that, of j]) (simp add: jx)
  have "\<not> answered is_email t x" if "request_series x = Some (vault_series op)"
  proof (cases x)
    case (PutKey e rb now token p k)
    then show ?thesis using env [of e] by (simp add: answers_def put_key_route_def as_user_fails)
  next
    case (RemoveKey e now token k)
    then show ?thesis using env [of e] by (simp add: answers_def remove_key_route_def as_user_fails)
  qed (use that in \<open>simp_all add: auth_series_def vault_series_def\<close>)
  then show ?case by (auto simp: jx rest)
qed simp

subsection \<open>Tracing\<close>

record ('w, 'p, 'app) telemetry_api =
  tl_provider :: "string \<Rightarrow> ('w, 'p) io"
  tl_add_exporter :: "'p \<Rightarrow> string \<Rightarrow> ('w, unit) io"
  tl_set_provider :: "'p \<Rightarrow> ('w, unit) io"
  tl_instrument_httpx :: "('w, unit) io"
  tl_instrument_asyncpg :: "('w, unit) io"
  tl_instrument_app :: "'app \<Rightarrow> ('w, unit) io"
  tl_get_tracer :: "string \<Rightarrow> ('w, pyval) io"

definition configure_telemetry :: "('w, 'p, 'app) telemetry_api \<Rightarrow> 'app option \<Rightarrow> string option \<Rightarrow> string \<Rightarrow> ('w, unit) io" where
  "configure_telemetry otel app otlp_endpoint service_name =
     io_bind (tl_provider otel service_name) (\<lambda>provider.
     io_bind (case otlp_endpoint of
         Some e \<Rightarrow> io_when (e \<noteq> []) (tl_add_exporter otel provider e)
       | None \<Rightarrow> io_return ()) (\<lambda>_.
     io_bind (tl_set_provider otel provider) (\<lambda>_.
     io_bind (tl_instrument_httpx otel) (\<lambda>_.
     io_bind (tl_instrument_asyncpg otel) (\<lambda>_.
     (case app of None \<Rightarrow> io_return () | Some a \<Rightarrow> tl_instrument_app otel a))))))"

definition get_tracer :: "('w, 'p, 'app) telemetry_api \<Rightarrow> string \<Rightarrow> ('w, pyval) io" where
  "get_tracer otel name = tl_get_tracer otel name"

text \<open>
  Spans leave the process only through an exporter, which needs an end point: without one, or with an empty
  one, the set-up runs as if there were no exporter at all.
\<close>

lemma no_endpoint_no_exporter:
  assumes "endpoint = None \<or> endpoint = Some []"
  shows "configure_telemetry otel app endpoint name = configure_telemetry (otel\<lparr>tl_add_exporter := any\<rparr>) app endpoint name"
  using assms by (auto simp: configure_telemetry_def io_when_def cong: option.case_cong)

end
