(* ===== verification/Migration_Driver.thy ===== *)
theory Migration_Driver
  imports Migration_Test
begin

text \<open>
  What runs the migrations: the environment script of Alembic (\<^verbatim>\<open>alembic/env.py\<close>), the chain of
  revisions that the version files declare, and the main part of \<^verbatim>\<open>scripts/migration_test.py\<close>, which starts Alembic as a
  command. Alembic, SQLAlchemy and the commands are parameters.
\<close>

subsection \<open>The chain of revisions\<close>

record revision =
  rv_revision :: string
  rv_down_revision :: string

definition revision_002 :: revision where
  "revision_002 = \<lparr>rv_revision = ''002_timescale_trading_core'', rv_down_revision = ''0001_init''\<rparr>"

definition revision_003 :: revision where
  "revision_003 = \<lparr>rv_revision = ''003_align_trading_schema'', rv_down_revision = ''002_timescale_trading_core''\<rparr>"

definition revision_004 :: revision where
  "revision_004 = \<lparr>rv_revision = ''004_trading_service_persistence_tables'', rv_down_revision = ''003_align_trading_schema''\<rparr>"

definition revisions :: "revision list" where
  "revisions = [revision_002, revision_003, revision_004]"

text \<open>The chain has one head and no branch, and exactly one revision descends from one that no file declares.\<close>

lemma revisions_linear: "distinct (map rv_revision revisions) \<and> distinct (map rv_down_revision revisions)"
  by (simp add: revisions_def revision_002_def revision_003_def revision_004_def)

lemma dangling_revision: "filter (\<lambda>r. rv_down_revision r \<notin> set (map rv_revision revisions)) revisions = [revision_002]"
  by (simp add: revisions_def revision_002_def revision_003_def revision_004_def)

subsection \<open>The environment script\<close>

record 'w alembic_api =
  ac_config_file_name :: "string option"
  ac_file_config :: "string \<Rightarrow> ('w, unit) io"
  ac_is_offline :: "('w, bool) io"
  ac_main_option :: "string \<Rightarrow> ('w, pyval) io"
  ac_section :: "('w, pydict) io"
  ac_engine :: "pydict \<Rightarrow> ('w, nat) io"
  ac_connect :: "nat \<Rightarrow> ('w, nat) io"
  ac_close :: "nat \<Rightarrow> ('w, unit) io"
  ac_configure :: "nat option \<Rightarrow> pydict \<Rightarrow> ('w, unit) io"
  ac_begin :: "('w, unit) io"
  ac_end :: "exn option \<Rightarrow> ('w, unit) io"
  ac_run_migrations :: "('w, unit) io"

text \<open>\<open>with context.begin_transaction()\<close> tells the transaction of an exception, and \<open>with connect()\<close> closes in any case.\<close>

definition within_transaction :: "'w alembic_api \<Rightarrow> ('w, unit) io \<Rightarrow> ('w, unit) io" where
  "within_transaction ac m = io_bind (ac_begin ac) (\<lambda>_. io_bind (io_try m) (\<lambda>r. case r of
     Inl e \<Rightarrow> io_bind (ac_end ac (Some e)) (\<lambda>_. io_raise e) | Inr _ \<Rightarrow> ac_end ac None))"

definition with_connection :: "'w alembic_api \<Rightarrow> nat \<Rightarrow> (nat \<Rightarrow> ('w, unit) io) \<Rightarrow> ('w, unit) io" where
  "with_connection ac engine body = io_bind (ac_connect ac engine) (\<lambda>c.
     io_bind (io_try (body c)) (\<lambda>r. io_bind (ac_close ac c) (\<lambda>_. io_lift r)))"

definition run_migrations_offline :: "'w alembic_api \<Rightarrow> ('w, unit) io" where
  "run_migrations_offline ac = io_bind (ac_main_option ac ''sqlalchemy.url'') (\<lambda>url.
     io_bind (ac_configure ac None [(''url'', url), (''target_metadata'', PNone), (''literal_binds'', PBool True),
        (''dialect_opts'', PDict [(''paramstyle'', PStr ''named'')])]) (\<lambda>_.
     within_transaction ac (ac_run_migrations ac)))"

definition run_migrations_online :: "'w alembic_api \<Rightarrow> ('w, unit) io" where
  "run_migrations_online ac = io_bind (ac_section ac) (\<lambda>section. io_bind (ac_engine ac section) (\<lambda>engine.
     with_connection ac engine (\<lambda>connection.
       io_bind (ac_configure ac (Some connection) [(''target_metadata'', PNone), (''transaction_per_migration'', PBool True)]) (\<lambda>_.
       within_transaction ac (ac_run_migrations ac)))))"

definition env_script :: "'w alembic_api \<Rightarrow> ('w, unit) io" where
  "env_script ac = io_bind (case ac_config_file_name ac of None \<Rightarrow> io_return () | Some f \<Rightarrow> ac_file_config ac f) (\<lambda>_.
     io_bind (ac_is_offline ac) (\<lambda>offline. if offline then run_migrations_offline ac else run_migrations_online ac))"

text \<open>
  The script leaves no connection open, whatever fails: \<open>open_connections\<close> are those of the state, which only
  connecting and closing change.
\<close>

definition alembic_quiet :: "'w alembic_api \<Rightarrow> ('w \<Rightarrow> nat set) \<Rightarrow> bool" where
  "alembic_quiet ac open_connections =
     ((\<forall>f. io_keeps open_connections (ac_file_config ac f)) \<and> io_keeps open_connections (ac_is_offline ac) \<and>
      (\<forall>k. io_keeps open_connections (ac_main_option ac k)) \<and> io_keeps open_connections (ac_section ac) \<and>
      (\<forall>d. io_keeps open_connections (ac_engine ac d)) \<and> (\<forall>c d. io_keeps open_connections (ac_configure ac c d)) \<and>
      io_keeps open_connections (ac_begin ac) \<and> (\<forall>e. io_keeps open_connections (ac_end ac e)) \<and>
      io_keeps open_connections (ac_run_migrations ac))"

definition alembic_connects :: "'w alembic_api \<Rightarrow> ('w \<Rightarrow> nat set) \<Rightarrow> bool" where
  "alembic_connects ac open_connections =
     ((\<forall>e x w w'. ac_connect ac e w = (Inl x, w') \<longrightarrow> open_connections w' = open_connections w) \<and>
      (\<forall>e c w w'. ac_connect ac e w = (Inr c, w') \<longrightarrow>
         c \<notin> open_connections w \<and> open_connections w' = insert c (open_connections w)) \<and>
      (\<forall>c w. open_connections (snd (ac_close ac c w)) = open_connections w - {c}))"

lemma alembic_keeps:
  assumes "alembic_quiet ac open_connections"
  shows "io_keeps open_connections (ac_file_config ac f)" "io_keeps open_connections (ac_is_offline ac)"
    "io_keeps open_connections (ac_main_option ac k)" "io_keeps open_connections (ac_section ac)"
    "io_keeps open_connections (ac_engine ac d)" "io_keeps open_connections (ac_configure ac c d)"
    "io_keeps open_connections (ac_begin ac)" "io_keeps open_connections (ac_end ac e)"
    "io_keeps open_connections (ac_run_migrations ac)"
  using assms by (simp_all add: alembic_quiet_def)

lemma alembic_connectsD:
  assumes "alembic_connects ac open_connections"
  shows connect_fails: "ac_connect ac e w = (Inl x, w') \<Longrightarrow> open_connections w' = open_connections w"
    and connect_opens: "ac_connect ac e w = (Inr c, w') \<Longrightarrow> c \<notin> open_connections w \<and> open_connections w' = insert c (open_connections w)"
    and close_closes: "open_connections (snd (ac_close ac c w)) = open_connections w - {c}"
  using assms by (simp_all add: alembic_connects_def)

lemma with_connection_keeps:
  assumes ac: "alembic_connects ac open_connections" and body: "\<And>c. io_keeps open_connections (body c)"
  shows "io_keeps open_connections (with_connection ac e body)"
  unfolding io_keeps_def
proof
  fix w
  obtain r w1 where c: "ac_connect ac e w = (r, w1)" by fastforce
  show "open_connections (snd (with_connection ac e body w)) = open_connections w"
  proof (cases r)
    case (Inl x)
    then show ?thesis using connect_fails [OF ac c [unfolded Inl]] c by (simp add: with_connection_def io_bind_def)
  next
    case (Inr k)
    obtain r2 w2 where b: "body k w1 = (r2, w2)" by fastforce
    obtain r3 w3 where k: "ac_close ac k w2 = (r3, w3)" by fastforce
    have "open_connections w2 = open_connections w1" using io_keepsD [OF body, of k w1] b by simp
    moreover have "open_connections w3 = open_connections w2 - {k}" using close_closes [OF ac, of k w2] k by simp
    moreover have "snd (with_connection ac e body w) = w3"
      using c b k Inr by (cases r3) (simp_all add: with_connection_def io_bind_def io_try_def io_lift_def)
    ultimately show ?thesis using connect_opens [OF ac c [unfolded Inr]] by simp
  qed
qed

theorem env_script_closes_connections:
  assumes "alembic_quiet ac open_connections" and "alembic_connects ac open_connections"
  shows "open_connections (snd (env_script ac w)) = open_connections w"
proof -
  note rules = alembic_keeps [OF assms(1)] keeps
  have body: "io_keeps open_connections (within_transaction ac (ac_run_migrations ac))"
    unfolding within_transaction_def by (intro rules) (auto split: sum.split intro: rules)
  have offline: "io_keeps open_connections (run_migrations_offline ac)"
    unfolding run_migrations_offline_def by (intro rules body)
  have online: "io_keeps open_connections (run_migrations_online ac)"
    unfolding run_migrations_online_def by (intro rules body with_connection_keeps [OF assms(2)])
  have "io_keeps open_connections (env_script ac)"
    unfolding env_script_def
    by (rule io_keeps_bind) (auto split: option.split intro: rules offline online)
  then show ?thesis by (rule io_keepsD)
qed

subsection \<open>The main part of the migration test\<close>

text \<open>
  \<open>sh_run\<close> is a command with its environment, answering the return code and what it printed; \<open>sh_schema\<close> is
  what a connection to the data source sees.
\<close>

record 'w shell =
  sh_run :: "string list \<Rightarrow> (string \<Rightarrow> string option) \<Rightarrow> ('w, int \<times> string \<times> string) io"
  sh_print :: "string \<Rightarrow> ('w, unit) io"
  sh_connect :: "string \<Rightarrow> ('w, unit) io"
  sh_schema :: "string \<Rightarrow> 'w \<Rightarrow> schema"

definition run_command :: "'w shell \<Rightarrow> string list \<Rightarrow> (string \<Rightarrow> string option) \<Rightarrow> ('w, unit) io" where
  "run_command sh cmd env = io_bind (sh_run sh cmd env) (\<lambda>(code, out, err).
     if code \<noteq> 0 then io_bind (sh_print sh out) (\<lambda>_. io_bind (sh_print sh err) (\<lambda>_.
       io_raise (RuntimeError (''command failed: '' @ join '' '' cmd))))
     else io_return ())"

definition on_connection :: "'w shell \<Rightarrow> string \<Rightarrow> (schema, unit) io \<Rightarrow> ('w, unit) io" where
  "on_connection sh dsn check = io_bind (sh_connect sh dsn) (\<lambda>_. io_bind (io_get (\<lambda>w. fst (check (sh_schema sh dsn w)))) io_lift)"

definition alembic :: "string list \<Rightarrow> string list" where
  "alembic args = ''alembic'' # args"

definition test_main :: "'w shell \<Rightarrow> (string \<Rightarrow> string option) \<Rightarrow> ('w, unit) io" where
  "test_main sh environ =
     (if \<not> set_variable (environ ''MIGRATION_TEST_DSN'') then io_raise (RuntimeError ''MIGRATION_TEST_DSN required'')
      else let dsn = the (environ ''MIGRATION_TEST_DSN''); env = environ(''DATABASE_URL'' \<mapsto> dsn) in
        io_seq
          [run_command sh (alembic [''upgrade'', ''002_timescale_trading_core'']) env,
           run_command sh (alembic [''upgrade'', ''003_align_trading_schema'']) env,
           on_connection sh dsn (io_seq [assert_columns, insert_and_verify]),
           run_command sh (alembic [''downgrade'', ''002_timescale_trading_core'']) env,
           on_connection sh dsn (io_bind (fetch_columns ''orders'') (\<lambda>cols. assert_that (map_of cols ''client_order_id'' = None))),
           run_command sh (alembic [''upgrade'', ''head'']) env,
           on_connection sh dsn assert_columns,
           sh_print sh ''PASS''])"

text \<open>The exit code of the script.\<close>

definition test_script :: "'w shell \<Rightarrow> (string \<Rightarrow> string option) \<Rightarrow> ('w, int) io" where
  "test_script sh environ = io_bind (io_try (test_main sh environ)) (\<lambda>r. case r of
     Inr _ \<Rightarrow> io_return 0
   | Inl e \<Rightarrow> io_bind (sh_print sh ''FAIL'') (\<lambda>_. io_return 1))"

text \<open>When Alembic cannot run at all, the script fails before it looks at the database.\<close>

theorem test_needs_alembic:
  assumes run: "\<And>args env w. \<exists>code out err w'. code \<noteq> 0 \<and> sh_run sh (alembic args) env w = (Inr (code, out, err), w')"
    and print: "\<And>t w. \<exists>w'. sh_print sh t w = (Inr (), w')"
  shows "fst (test_script sh environ w) = Inr 1 \<and> test_script sh environ w = test_script (sh\<lparr>sh_schema := any, sh_connect := other\<rparr>) environ w"
proof -
  let ?sh = "sh\<lparr>sh_schema := any, sh_connect := other\<rparr>"
  have cmd: "\<exists>e w'. run_command sh (alembic args) env v = (Inl e, w') \<and> run_command ?sh (alembic args) env v = (Inl e, w')" for args env v
  proof -
    obtain code out err w1 where 1: "code \<noteq> 0" "sh_run sh (alembic args) env v = (Inr (code, out, err), w1)" using run by blast
    obtain w2 where 2: "sh_print sh out w1 = (Inr (), w2)" using print by blast
    obtain w3 where "sh_print sh err w2 = (Inr (), w3)" using print by blast
    then show ?thesis using 1 2 by (simp add: run_command_def io_raise_def)
  qed
  have "\<exists>e w'. test_main sh environ w = (Inl e, w') \<and> test_main ?sh environ w = (Inl e, w')"
  proof (cases "set_variable (environ ''MIGRATION_TEST_DSN'')")
    case False
    then show ?thesis by (simp add: test_main_def io_raise_def)
  next
    case True
    obtain e w' where "run_command sh (alembic [''upgrade'', ''002_timescale_trading_core''])
        (environ(''DATABASE_URL'' \<mapsto> the (environ ''MIGRATION_TEST_DSN''))) w = (Inl e, w')"
      "run_command ?sh (alembic [''upgrade'', ''002_timescale_trading_core''])
        (environ(''DATABASE_URL'' \<mapsto> the (environ ''MIGRATION_TEST_DSN''))) w = (Inl e, w')"
      using cmd by blast
    then show ?thesis using True by (simp add: test_main_def Let_def)
  qed
  then obtain e w' where m: "test_main sh environ w = (Inl e, w')" "test_main ?sh environ w = (Inl e, w')" by blast
  obtain w'' where "sh_print sh ''FAIL'' w' = (Inr (), w'')" using print by blast
  then show ?thesis using m by (simp add: test_script_def io_bind_def io_try_def io_return_def)
qed

end
