(* ===== verification/Spec2Isabelle.thy ===== *)
theory Spec2Isabelle
  imports Trading_App Token_Races Execution_Races Session_Races Model_Registry Gateway Economic_Calendar Backtester Api_Routes Market_Data Scheduler Notifier Migration_Test Demo_Validation Burn_In Backtest_Report Service_Endpoints Background_Tasks Session_Cleanup Engine_Refinement Metrics Migration_Driver
begin

text \<open>
  A verification library for the Mtrader services.

  The program. A trading service takes orders over HTTP (\<^verbatim>\<open>trading_service/src/app.py\<close>). Its
  execution engine (\<^verbatim>\<open>execution/engine.py\<close>) keeps every order in a status machine, asks the risk
  engine (\<^verbatim>\<open>risk/engine.py\<close>) before a trade, stores orders through a PostgreSQL repository
  (\<^verbatim>\<open>storage/postgres_repository.py\<close>, \<^verbatim>\<open>repositories/postgres_repository.py\<close>) and sends them to the
  broker through a MetaTrader connector (\<^verbatim>\<open>connectors/mt5.py\<close>). The tables are made by schema
  migrations (\<^verbatim>\<open>migrations/versions\<close>). An API application (\<^verbatim>\<open>app/main.py\<close>) registers users, issues
  sessions (\<^verbatim>\<open>app/services/auth_service.py\<close>) and keeps the provider keys of users encrypted in a vault
  (\<^verbatim>\<open>app/services/vault_service.py\<close>, \<^verbatim>\<open>app/core/crypto.py\<close>), configured by \<^verbatim>\<open>app/core/config.py\<close>. A
  gateway pushes updates over WebSockets (\<^verbatim>\<open>api_gateway/src\<close>), with tokens issued and checked by
  \<^verbatim>\<open>app/core/security.py\<close>. Beside them stand a model registry (\<^verbatim>\<open>ml_service/src/registry/manager.py\<close>),
  which decides which trained model is in production, the economic calendar
  (\<^verbatim>\<open>news_service/src/calendar/engine.py\<close>), the backtester (\<^verbatim>\<open>backtest_service/src/engine\<close>), the
  market data service (\<^verbatim>\<open>market_data_service/src\<close>), the scheduler (\<^verbatim>\<open>scheduler_service/src/app.py\<close>)
  and the notifier (\<^verbatim>\<open>notifier_service/src/app.py\<close>).

  How the code is modelled. Untyped dictionaries are association lists of Python values
  (\<open>pydict\<close>, \<open>pyval\<close>) in insertion order; dataclasses are records; enumerations are datatypes. An
  operation is a computation \<open>('s, 'a) io\<close>: from a state to an exception or a value, and the
  state reached. \<open>None\<close> attributes, missing keys, failed conversions and assertions are
  exceptions of the model, as they are in the code. Floats are reals, so arithmetic is exact, and
  infinities and NaN, also as texts that \<^verbatim>\<open>float()\<close> reads, are outside the model; dates are microseconds; clock readings and random identifiers are arguments.
  Asynchronous methods are sequential, except in the theories of races: there a method is a \<open>task\<close>,
  cut at its awaits, and runs in a pool whose tasks take their steps in any order; one that takes the engine's lock is
  an \<open>ltask\<close>, which waits while the lock is held. Endless
  tasks (position monitor, heartbeat, listener, revalidation, live updates, tick streams) are one round in
  the theory of their component and a partial function in \<open>Background_Tasks\<close>, where not returning is
  the value \<open>None\<close> and what others do between two rounds is an argument, so no fuel is needed anywhere; the recursion of the reconnect loop and of the
  retries is on the number of attempts left, and the walk-forward loop is a partial function with a
  theorem that it returns.

  The theories.
  \<^item> \<open>Prelude\<close>: Python values and conversions, the computations, rules about what a computation
    keeps or preserves, and the interfaces: \<open>keyed_store\<close> (interpreted on dictionaries),
    \<open>invariant_machine\<close> (on the risk engine, the connector, the registry, the vault, the routes and
    the market data service), \<open>simulation\<close>, which extends it by a specification (on the vault and on the execution engine), and \<open>bounded_attempts\<close> (on the retries of database calls, of the kill
    switch, of job runs and of notifications).
  \<^item> \<open>Risk_Engine\<close>: \<open>pre_trade_check\<close>, \<open>monitor_round\<close>, \<open>kill_switch\<close> and the rules. Shown: when an
    approval is unconditional, that the first violated rule decides, that the kill switch
    latches, how its retries go, and what the monitor closes.
  \<^item> \<open>MT5_Connector\<close>: connection, backoff, heartbeat, order validation and placement. The broker
    module is the parameter \<open>mt5\<close>. Shown: idempotency of client order ids over any calls, that
    sent orders are valid, the volume check, that a reconnect is bounded and how it backs off, and the heartbeat tasks left behind.
  \<^item> \<open>Execution_Engine\<close>: orders, their dictionary form, the status machine and submission, over
    the collaborators \<open>exec_deps\<close>; the locale \<open>order_store\<close> is the contract of the repository and
    \<open>order_overwrites\<close> that of one whose \<^verbatim>\<open>save_order\<close> overwrites, both
    interpreted on the objects of the engine's own test. Shown: the round trip of orders, the
    histories of statuses, that updates respect the transitions, that only what the risk engine approved in the same run is
    sent, and how a submission ends on an overwriting repository: an accepted order is never recorded.
  \<^item> \<open>Tasks\<close>: coroutines cut at their awaits, pools and schedules, and rely-guarantee reasoning about
    every interleaving (locale \<open>interference\<close>, interpreted on the Redis marks, on a stored order and on the
    account tables); coroutines that take a lock (\<open>with_lock\<close>, \<open>lock_step\<close>): bodies that leave the lock alone are serial, and
    a pool in which all wait is stuck.
  \<^item> \<open>Execution_Races\<close>: updates and cancellations as tasks, submissions as coroutines that take the engine's lock, and
    callbacks as coroutines. Shown: submissions are equivalent to submissions one after the other when callbacks leave the lock
    alone, and a callback that takes it stops the engine; outside the lock a race
    loses an update, and every interleaving keeps the entries that no call writes and the other orders.
  \<^item> \<open>Engine_Refinement\<close>: all methods of the engine as operations on a book of orders. Shown: the engine
    refines the book whatever its collaborators answer or raise, with a repository that keeps or overwrites what it saves, so
    an order that is not submitted keeps every entry that no call on it names, and its status only goes along the transition table.
  \<^item> \<open>Loops\<close> and \<open>Background_Tasks\<close>: the endless tasks as loops over their rounds (locale \<open>guarded_task\<close>,
    interpreted on all of them). Shown: when each of them returns; a socket is closed at the first round after its
    token is revoked or its client has been silent for too long, a changed event ends the live updates,
    and a lost broker ends the heartbeat.
  \<^item> \<open>Order_Repository\<close>: the SQL repository over the driver \<open>pg\<close>. Shown: bounded retries, the
    numbering of placeholders, idempotent saving with statements and commits that may fail, and the failure without a pool.
  \<^item> \<open>Trading_App\<close>: the objects wired as the service wires them, and its endpoints. Shown: that
    every order request fails, that the kill switch blocks sending, that every order would be a
    market deal, and that orders with random identifiers cannot be cancelled.
  \<^item> \<open>Model_Registry\<close>: registration, gates, promotion, rollback, drift. Shown: production models
    pass the gates, one production model per name without rollbacks, a rollback that leaves two,
    and the sign of the drift index.
  \<^item> \<open>Redis_Client\<close>: the Redis commands as a parameter, with their documented behaviour as
    predicates (\<open>redis_strings\<close>, \<open>redis_zsets\<close>, \<open>redis_sets\<close>) that theorems take as hypotheses.
  \<^item> \<open>Token_Security\<close>: claims, verification, revocation and rotation. Shown: when a token is
    accepted, that a rotated token is refused, and that reuse never revokes the family.
  \<^item> \<open>Token_Races\<close>: rotations as tasks. Shown: two requests can both rotate a token, a race can
    revoke the family of an honest client, and dead tokens are refused in every interleaving.
  \<^item> \<open>Gateway\<close>: the rate limiter, the connection manager and the session. Shown: the limiter is an
    exact sliding window, and a session subscribes its own user to allowed topics only.
  \<^item> \<open>Fanout\<close>: the managers of all sessions together over the Redis sets and hashes. Shown: a
    message reaches every connection of its user exactly once, connecting and disconnecting leaves nothing behind, and disconnect
    takes a connection out of the set of its user exactly if its row, which lives a day, is still there.
    \<open>Session_Cleanup\<close> follows the endpoint from its start to its \<^verbatim>\<open>finally\<close> block, for a session that ends before its
    row expires and a server that carries out its commands: however it ends, its connection is cleared.
    The two background tasks that a session creates are never cancelled by it.
  \<^item> \<open>Economic_Calendar\<close>: the providers, merging of their batches, bias, impact, a round of the live
    updates. Shown: merging keeps exactly the best candidate of each event, a changed event
    ends the live updates, and what ForexFactory delivers.
  \<^item> \<open>Backtester\<close>: costs, the loop over the bars, statistics, walk-forward, Monte Carlo, stress.
    Shown: the books balance, drawdowns are those of their definition, walk-forward ends, and the
    walk-forward endpoint has no segments. \<open>Backtest_Report\<close> adds the monthly returns and the
    description of a run: the monthly returns compound to the total return.
  \<^item> \<open>Settings\<close>: bytes, base64 and the validators of the configuration. Shown: base64 decoding
    inverts encoding, and settings are accepted exactly when no rule is broken, with all rules listed.
  \<^item> \<open>Account_Store\<close>: users, refresh tokens, vault entries and the audit trail as tables, with
    sessions that commit or drop their changes; a commit checks the declared constraints, as the database does.
  \<^item> \<open>Accounts\<close>: registration, login, refresh, logout and the user of a request, over the imported
    functions \<open>auth_lib\<close>. Shown: the service issues no session, since it calls \<^verbatim>\<open>create_refresh_token\<close> without
    its arguments; and when a refresh would be accepted if it did not.
  \<^item> \<open>Session_Races\<close>: the requests of \<open>Accounts\<close> cut at their queries and commits. Shown: two refreshes of one
    token can both succeed, while an address is registered once in every interleaving.
  \<^item> \<open>Vault\<close>: envelope encryption and the keys of a user, over the cipher \<open>aead\<close>. Shown: a stored key
    is what is read back after any other operations, the vault refines a map of keys, each access is recorded, and the master key
    ignores the end of the configured text.
  \<^item> \<open>Api_Routes\<close>: the routes with their dependencies and validation. Shown: no request relies on the database
    to refuse what breaks the schema, but for two widths, a user lists only keys of his own, and routes that need a user fail.
  \<^item> \<open>Metrics\<close>: the metrics, the counted routes on several processes, and the set-up of the tracing. Shown: the
    counters of a process are the requests it answered, and those of the vault stay at zero.
  \<^item> \<open>Market_Data\<close>: the provider, its stream tasks, the endpoints and sessions. Shown: the service as
    wired streams nothing, answers with data fail, and a leaving client stops the streams of others.
  \<^item> \<open>Scheduler\<close> and \<open>Notifier\<close>: schedules and job runs; channels, retries and the counter of
    recipients. Shown: the outcome of a job run, that creating and deleting a schedule are inverse,
    and that the quota of a recipient never recovers.
  \<^item> \<open>Migrations\<close>: the revisions as operations on a schema, and the statements of the repository
    against it. Shown: on a migrated database no order and no trade can be stored.
  \<^item> \<open>Migration_Test\<close>: the migration test and the verification script. Shown: the test passes, and the downgrade
    of 003 loses columns that 002 had created; when a migrated database is accepted.
  \<^item> \<open>Migration_Driver\<close>: Alembic's environment script, the chain of revisions and the main part of the
    migration test. Shown: no connection is left open, and the chain begins with a revision that is not there.
  \<^item> \<open>Demo_Validation\<close> and \<open>Burn_In\<close>: the two scripts that drive the connector. Shown: the verdict of
    the validation does not depend on its mode, and what the rounds of the run count.
  \<^item> \<open>Deployment_Scripts\<close>: the asset check with its regular expression, and the judgement and report
    of a load test, over a file system. Shown: when the assets are accepted, and that the report
    shows the results and no markup of theirs.
  \<^item> \<open>Service_Endpoints\<close>: the routes every application declares, constant and deprecated endpoints,
    and what the deployment asks of them. Shown: which health check and which socket cannot be reached.

  Parameters. The broker module, the database driver and the time-series extension, Redis, the
  token, password and cipher libraries, the PEM loader, APScheduler, the template engine, mail server
  and HTTP client of the notifier, the calendar page, the sockets, Alembic's context, the clients of Prometheus and OpenTelemetry and numpy's histograms and truth
  of arrays are not part of the repository; each is an argument, and what a theorem needs of one
  is a named hypothesis, with a witness on a concrete instance.

  Not modelled. Logging, and sleeping beyond its place between the rounds of a task; what the web framework does with a
  declared route; constraints inside CREATE TABLE; the parsing of command lines; the shell scripts; the front end.
\<close>

end
